(* ===== verification/Prelude.thy ===== *)
theory Prelude
  imports Main "HOL-Library.AList" "HOL-Library.Char_ord" "HOL-Library.List_Lexorder"
begin

text \<open>
  Shared vocabulary of the development: the crate's error type (src/src/error.rs), Rust's
  \<open>Result\<close> with panics made explicit, the standard-library operations on strings, vectors and
  machine-sized integers that several components use, and the lemmas about them.

  A Rust \<open>str\<close>, \<open>String\<close> or \<open>[u8]\<close> is a \<open>string\<close> of the model, a list of bytes: \<open>char\<close>
  ranges over the 256 byte values, so \<open>length\<close> is Rust's \<open>len\<close> (bytes, not code points) and
  \<open>as_bytes\<close> is the identity.
\<close>

named_theorems result_simps \<open>unfolding of the result combinators\<close>
named_theorems model_defs \<open>non-recursive definitions of the model that proofs unfold\<close>

subsection \<open>The crate's errors and results\<close>

datatype error =
    ConversionError string
  | DeserializationError string
  | DataFieldMismatch string
  | DuplicateDigestError string
  | DuplicateKeyError string
  | InvalidDisclosure string
  | InvalidArrayDisclosureObject string
  | InvalidPath string
  | IndexOutOfBounds nat nat string
  | InvalidState string
  | InvalidInput string
  | KeyNotFound string
  | Unspecified string

text \<open>
  A call returns \<open>Ok\<close> or \<open>Err\<close>, or it panics: an index expression on a map without the key
  unwinds the stack instead of returning, and callers cannot observe an \<open>Err\<close>.
\<close>

datatype 'a result = Ok 'a | Err error | Panic

fun rbind :: "'a result \<Rightarrow> ('a \<Rightarrow> 'b result) \<Rightarrow> 'b result" where
  "rbind (Ok x) f = f x"
| "rbind (Err e) f = Err e"
| "rbind Panic f = Panic"

declare rbind.simps [result_simps]

lemma rbind_cong [fundef_cong]:
  "m = m' \<Longrightarrow> (\<And>x. m' = Ok x \<Longrightarrow> f x = g x) \<Longrightarrow> rbind m f = rbind m' g"
  by (cases m') auto

lemma rbind_eq_Ok: "rbind m f = Ok y \<longleftrightarrow> (\<exists>x. m = Ok x \<and> f x = Ok y)"
  by (cases m) auto

lemma rbind_OkE: "rbind m f = Ok y \<Longrightarrow> (\<And>x. m = Ok x \<Longrightarrow> f x = Ok y \<Longrightarrow> P) \<Longrightarrow> P"
  by (auto simp: rbind_eq_Ok)

lemma rbind_eq_Panic: "rbind m f = Panic \<longleftrightarrow> m = Panic \<or> (\<exists>x. m = Ok x \<and> f x = Panic)"
  by (cases m) auto

lemma rbind_eq_Err: "rbind m f = Err e \<longleftrightarrow> m = Err e \<or> (\<exists>x. m = Ok x \<and> f x = Err e)"
  by (cases m) auto

lemma rbind_assoc: "rbind (rbind m f) g = rbind m (\<lambda>x. rbind (f x) g)"
  by (cases m) auto

lemma rbind_Ok_right [simp]: "rbind m Ok = m"
  by (cases m) auto

fun is_ok :: "'a result \<Rightarrow> bool" where
  "is_ok (Ok x) = True"
| "is_ok (Err e) = False"
| "is_ok Panic = False"

lemma is_ok_conv: "is_ok r \<longleftrightarrow> (\<exists>x. r = Ok x)"
  by (cases r) auto

definition ok_or :: "'a option \<Rightarrow> error \<Rightarrow> 'a result" where
  "ok_or x e = (case x of None \<Rightarrow> Err e | Some y \<Rightarrow> Ok y)"

lemma ok_or_simps [simp, result_simps]: "ok_or None e = Err e" "ok_or (Some y) e = Ok y"
  by (simp_all add: ok_or_def)

lemma ok_or_eq_Ok [simp]: "ok_or x e = Ok y \<longleftrightarrow> x = Some y"
  by (cases x) auto

lemma ok_or_not_Panic [simp]: "ok_or x e \<noteq> Panic"
  by (cases x) auto

text \<open>
  Calls into other crates return \<open>Inl message\<close> or \<open>Inr value\<close>; \<open>map_err f\<close> is the source's
  \<open>.map_err(|e| ...)\<close> on them.
\<close>

definition map_err :: "(string \<Rightarrow> error) \<Rightarrow> string + 'a \<Rightarrow> 'a result" where
  "map_err f s = (case s of Inl m \<Rightarrow> Err (f m) | Inr x \<Rightarrow> Ok x)"

lemma map_err_simps [simp, result_simps]: "map_err f (Inl m) = Err (f m)" "map_err f (Inr x) = Ok x"
  by (simp_all add: map_err_def)

lemma map_err_eq_Ok [simp]: "map_err f s = Ok x \<longleftrightarrow> s = Inr x"
  by (cases s) auto

lemma map_err_not_Panic [simp]: "map_err f s \<noteq> Panic"
  by (cases s) auto

text \<open>\<open>.map_err(f)\<close> on a result of the crate's own functions.\<close>

fun remap_err :: "(error \<Rightarrow> error) \<Rightarrow> 'a result \<Rightarrow> 'a result" where
  "remap_err f (Ok x) = Ok x"
| "remap_err f (Err e) = Err (f e)"
| "remap_err f Panic = Panic"

lemma remap_err_eq_Ok [simp]: "remap_err f r = Ok x \<longleftrightarrow> r = Ok x"
  by (cases r) auto

lemma remap_err_eq_Panic [simp]: "remap_err f r = Panic \<longleftrightarrow> r = Panic"
  by (cases r) auto

subsection \<open>Loops that stop at the first error\<close>

fun try_map :: "('a \<Rightarrow> 'b result) \<Rightarrow> 'a list \<Rightarrow> 'b list result" where
  "try_map f [] = Ok []"
| "try_map f (x # xs) = rbind (f x) (\<lambda>y. rbind (try_map f xs) (\<lambda>ys. Ok (y # ys)))"

lemma try_map_cong [fundef_cong]:
  "xs = ys \<Longrightarrow> (\<And>x. x \<in> set ys \<Longrightarrow> f x = g x) \<Longrightarrow> try_map f xs = try_map g ys"
proof (induction ys arbitrary: xs)
  case Nil
  then show ?case by simp
next
  case (Cons y ys)
  have "try_map f ys = try_map g ys"
    by (rule Cons.IH) (use Cons.prems in auto)
  then show ?case
    using Cons.prems by simp
qed

lemma try_map_eq_Ok: "try_map f xs = Ok ys \<longleftrightarrow> list_all2 (\<lambda>x y. f x = Ok y) xs ys"
  by (induction xs arbitrary: ys) (auto simp: rbind_eq_Ok list_all2_Cons1)

lemma try_map_length: "try_map f xs = Ok ys \<Longrightarrow> length ys = length xs"
  by (simp add: try_map_eq_Ok list_all2_lengthD)

lemma try_map_Ok: "try_map (\<lambda>x. Ok (f x)) xs = Ok (map f xs)"
  by (induction xs) auto

fun try_for_each :: "('a \<Rightarrow> unit result) \<Rightarrow> 'a list \<Rightarrow> unit result" where
  "try_for_each f [] = Ok ()"
| "try_for_each f (x # xs) = rbind (f x) (\<lambda>_. try_for_each f xs)"

lemma try_for_each_cong [fundef_cong]:
  "xs = ys \<Longrightarrow> (\<And>x. x \<in> set ys \<Longrightarrow> f x = g x) \<Longrightarrow> try_for_each f xs = try_for_each g ys"
proof (induction ys arbitrary: xs)
  case Nil
  then show ?case by simp
next
  case (Cons y ys)
  have "try_for_each f ys = try_for_each g ys"
    by (rule Cons.IH) (use Cons.prems in auto)
  then show ?case
    using Cons.prems by simp
qed

lemma try_for_each_eq_Ok: "try_for_each f xs = Ok () \<longleftrightarrow> (\<forall>x \<in> set xs. f x = Ok ())"
  by (induction xs) (auto simp: rbind_eq_Ok)

lemma try_for_each_not_Panic: "(\<And>x. x \<in> set xs \<Longrightarrow> f x \<noteq> Panic) \<Longrightarrow> try_for_each f xs \<noteq> Panic"
  by (induction xs) (auto simp: rbind_eq_Panic)

lemma try_for_each_PanicD: "try_for_each f xs = Panic \<Longrightarrow> \<exists>x \<in> set xs. f x = Panic"
  by (induction xs) (auto simp: rbind_eq_Panic)

subsection \<open>Machine-sized integers\<close>

text \<open>
  \<open>usize\<close> and \<open>u64\<close> on the supported 64-bit targets, \<open>u128\<close> for byte totals: values are
  \<open>nat\<close>, with the bound written where the source checks or saturates.
\<close>

definition usize_max :: nat where
  "usize_max = 2 ^ 64 - 1"

definition checked_add :: "nat \<Rightarrow> nat \<Rightarrow> nat option" where
  "checked_add a b = (if a + b \<le> usize_max then Some (a + b) else None)"

lemma checked_add_Some [simp]: "checked_add a b = Some c \<longleftrightarrow> c = a + b \<and> a + b \<le> usize_max"
  by (auto simp: checked_add_def)

lemma checked_add_None [simp]: "checked_add a b = None \<longleftrightarrow> usize_max < a + b"
  by (auto simp: checked_add_def)

definition u128_max :: nat where
  "u128_max = 2 ^ 128 - 1"

definition saturating_add_u128 :: "nat \<Rightarrow> nat \<Rightarrow> nat" where
  "saturating_add_u128 a b = min (a + b) u128_max"

end
