(* ===== verification/Rust_Strings.thy ===== *)
theory Rust_Strings
  imports Prelude
begin

text \<open>
  The string operations of Rust's standard library that the crate uses: decimal formatting of
  integers, \<open>split\<close> at a separator, \<open>join\<close>, \<open>strip_prefix\<close>, \<open>is_ascii\<close>, UTF-8 decoding by
  \<open>chars\<close> and UTF-16 encoding by \<open>encode_utf16\<close>, with their round trips.
\<close>

subsection \<open>Bytes\<close>

definition byte :: "char \<Rightarrow> nat" where
  "byte c = of_char c"

lemma byte_less [simp]: "byte c < 256"
  by (simp add: byte_def)

lemma char_of_byte [simp]: "char_of (byte c) = c"
  by (simp add: byte_def)

lemma byte_char_of: "n < 256 \<Longrightarrow> byte (char_of n) = n"
  by (simp add: byte_def)

lemma byte_inj [simp]: "byte c = byte d \<longleftrightarrow> c = d"
  by (simp add: byte_def)

subsection \<open>Decimal formatting\<close>

definition digit :: "nat \<Rightarrow> char" where
  "digit n = char_of (48 + n)"

fun dec :: "nat \<Rightarrow> string" where
  "dec n = (if n < 10 then [digit n] else dec (n div 10) @ [digit (n mod 10)])"

declare dec.simps [simp del]

lemma byte_digit: "n < 10 \<Longrightarrow> byte (digit n) = 48 + n"
  unfolding digit_def by (rule byte_char_of) simp

lemma dec_nonempty [simp]: "dec n \<noteq> []"
  by (subst dec.simps) simp

lemma dec_digits: "c \<in> set (dec n) \<Longrightarrow> 48 \<le> byte c \<and> byte c \<le> 57"
proof (induction n rule: dec.induct)
  case (1 n)
  show ?case
  proof (cases "n < 10")
    case True
    with "1.prems" have "c = digit n"
      by (simp add: dec.simps [of n])
    with True show ?thesis
      using byte_digit [of n] by simp
  next
    case False
    with "1.prems" have "c \<in> set (dec (n div 10)) \<or> c = digit (n mod 10)"
      by (auto simp: dec.simps [of n])
    then show ?thesis
      using False "1.IH" byte_digit [of "n mod 10"] by auto
  qed
qed

definition undec :: "string \<Rightarrow> nat" where
  "undec s = foldl (\<lambda>n c. 10 * n + (byte c - 48)) 0 s"

lemma undec_dec [simp]: "undec (dec n) = n"
proof (induction n rule: dec.induct)
  case (1 n)
  show ?case
    using "1.IH" byte_digit [of n] byte_digit [of "n mod 10"]
    by (simp add: undec_def dec.simps [of n])
qed

lemma dec_inj [simp]: "dec m = dec n \<longleftrightarrow> m = n"
  by (metis undec_dec)

subsection \<open>Splitting and joining\<close>

text \<open>\<open>str::split\<close> with a one-byte separator: there is always at least one part.\<close>

fun split_on :: "char \<Rightarrow> string \<Rightarrow> string list" where
  "split_on c [] = [[]]"
| "split_on c (x # xs) =
     (if x = c then [] # split_on c xs
      else case split_on c xs of [] \<Rightarrow> [[x]] | p # ps \<Rightarrow> (x # p) # ps)"

fun join :: "string \<Rightarrow> string list \<Rightarrow> string" where
  "join sep [] = []"
| "join sep [p] = p"
| "join sep (p # q # ps) = p @ sep @ join sep (q # ps)"

lemma split_on_nonempty [simp]: "split_on c s \<noteq> []"
  by (induction s) (auto split: list.splits)

lemma split_on_none: "c \<notin> set s \<Longrightarrow> split_on c s = [s]"
  by (induction s) auto

lemma split_on_append: "c \<notin> set p \<Longrightarrow> split_on c (p @ c # s) = p # split_on c s"
  by (induction p) auto

lemma split_on_parts_free: "p \<in> set (split_on c s) \<Longrightarrow> c \<notin> set p"
  by (induction s arbitrary: p) (auto split: if_splits list.splits)

lemma split_on_join:
  "ps \<noteq> [] \<Longrightarrow> (\<And>p. p \<in> set ps \<Longrightarrow> c \<notin> set p) \<Longrightarrow> split_on c (join [c] ps) = ps"
proof (induction "[c]" ps rule: join.induct)
  case 1
  then show ?case by simp
next
  case (2 p)
  then show ?case by (simp add: split_on_none)
next
  case (3 p q ps)
  then show ?case by (simp add: split_on_append)
qed

lemma join_split_on: "join [c] (split_on c s) = s"
proof (induction s)
  case Nil
  then show ?case by simp
next
  case (Cons x s)
  obtain p ps where s: "split_on c s = p # ps"
    by (cases "split_on c s") auto
  then show ?case
    using Cons.IH by (cases ps) auto
qed

lemma length_split_on: "length (split_on c s) = Suc (count_list s c)"
  by (induction s) (auto split: list.splits)

lemma count_list_append: "count_list (xs @ ys) a = count_list xs a + count_list ys a"
  by (induction xs) auto

lemma join_snoc_empty: "ps \<noteq> [] \<Longrightarrow> join sep (ps @ [[]]) = join sep ps @ sep"
  by (induction sep ps rule: join.induct) auto

lemma length_join_part: "p \<in> set ps \<Longrightarrow> length p \<le> length (join sep ps)"
  by (induction sep ps rule: join.induct) auto

lemma count_list_zero_iff: "count_list xs a = 0 \<longleftrightarrow> a \<notin> set xs"
  by (induction xs) auto

fun strip_prefix :: "string \<Rightarrow> string \<Rightarrow> string option" where
  "strip_prefix [] s = Some s"
| "strip_prefix (p # ps) [] = None"
| "strip_prefix (p # ps) (c # s) = (if p = c then strip_prefix ps s else None)"

lemma strip_prefix_eq_Some: "strip_prefix p s = Some r \<longleftrightarrow> s = p @ r"
  by (induction p s rule: strip_prefix.induct) auto

text \<open>
  \<open>str::replace\<close> with a pattern that is not empty, \<open>p # ps\<close>: its occurrences from the left, each
  looked for after the end of the one before.
\<close>

function replace_all :: "char \<Rightarrow> string \<Rightarrow> string \<Rightarrow> string \<Rightarrow> string" where
  "replace_all p ps to [] = []"
| "replace_all p ps to (c # s) =
     (case strip_prefix (p # ps) (c # s) of
        Some rest \<Rightarrow> to @ replace_all p ps to rest
      | None \<Rightarrow> c # replace_all p ps to s)"
  by pat_completeness auto
termination
  by (relation "measure (\<lambda>(p, ps, to, s). length s)") (auto simp: strip_prefix_eq_Some split: if_splits)

lemma strip_prefix_append [simp]: "strip_prefix p (p @ r) = Some r"
  by (simp add: strip_prefix_eq_Some)

subsection \<open>ASCII, UTF-8 and UTF-16\<close>

definition is_ascii_byte :: "char \<Rightarrow> bool" where
  "is_ascii_byte c \<longleftrightarrow> byte c < 128"

definition is_ascii :: "string \<Rightarrow> bool" where
  "is_ascii s = list_all is_ascii_byte s"

text \<open>
  \<open>chars\<close>: the scalar values of a UTF-8 string, by the four encoded forms. A Rust \<open>str\<close> is
  always well-formed, so the last equation (a stray byte stands for itself) is never reached on
  one; \<open>utf8_encode\<close> is the encoding the forms invert.
\<close>

fun chars :: "string \<Rightarrow> nat list" where
  "chars [] = []"
| "chars (a # s) =
     (if byte a < 128 then byte a # chars s
      else case s of
        [] \<Rightarrow> [byte a]
      | b # s2 \<Rightarrow>
        (if byte a < 224 then ((byte a mod 32) * 64 + byte b mod 64) # chars s2
         else case s2 of
           [] \<Rightarrow> [byte a, byte b]
         | c # s3 \<Rightarrow>
           (if byte a < 240
            then ((byte a mod 16) * 4096 + (byte b mod 64) * 64 + byte c mod 64) # chars s3
            else case s3 of
              [] \<Rightarrow> [byte a, byte b, byte c]
            | d # s4 \<Rightarrow>
                ((byte a mod 8) * 262144 + (byte b mod 64) * 4096
                  + (byte c mod 64) * 64 + byte d mod 64) # chars s4)))"

declare chars.simps [simp del]
lemmas chars_Nil [simp] = chars.simps(1)

definition utf8_encode :: "nat \<Rightarrow> string" where
  "utf8_encode n =
     (if n < 128 then [char_of n]
      else if n < 2048 then [char_of (192 + n div 64), char_of (128 + n mod 64)]
      else if n < 65536 then
        [char_of (224 + n div 4096), char_of (128 + n div 64 mod 64), char_of (128 + n mod 64)]
      else
        [char_of (240 + n div 262144), char_of (128 + n div 4096 mod 64),
         char_of (128 + n div 64 mod 64), char_of (128 + n mod 64)])"

text \<open>The scalar values: code points up to 0x10FFFF without the surrogates.\<close>

definition is_scalar :: "nat \<Rightarrow> bool" where
  "is_scalar n \<longleftrightarrow> n < 55296 \<or> 57344 \<le> n \<and> n < 1114112"

lemma mod_64_shift: "(128 + k mod 64) mod 64 = (k mod 64 :: nat)"
proof -
  have "(128 + k mod 64) mod 64 = (2 * 64 + k mod 64) mod 64"
    by simp
  also have "\<dots> = k mod 64"
    by (simp only: mod_mult_self3 mod_mod_trivial)
  finally show ?thesis .
qed

lemma split_64: "(k div 64) * 64 + k mod 64 = (k :: nat)"
  by (rule div_mult_mod_eq)

lemma join_64_2: "(k div 64 div 64) * 4096 + (k div 64 mod 64) * 64 + k mod 64 = (k :: nat)"
  using split_64 [of k] split_64 [of "k div 64"] by linarith

lemma join_64_3:
  "(k div 64 div 64 div 64) * 262144 + (k div 64 div 64 mod 64) * 4096
     + (k div 64 mod 64) * 64 + k mod 64 = (k :: nat)"
  using split_64 [of "k div 64 div 64"] join_64_2 [of k] by linarith

lemma chars_1: "byte a < 128 \<Longrightarrow> chars (a # s) = byte a # chars s"
  by (subst chars.simps) simp

lemma chars_2:
  "128 \<le> byte a \<Longrightarrow> byte a < 224 \<Longrightarrow>
     chars (a # b # s) = ((byte a mod 32) * 64 + byte b mod 64) # chars s"
  by (subst chars.simps) simp

lemma chars_3:
  "224 \<le> byte a \<Longrightarrow> byte a < 240 \<Longrightarrow>
     chars (a # b # c # s)
       = ((byte a mod 16) * 4096 + (byte b mod 64) * 64 + byte c mod 64) # chars s"
  by (subst chars.simps) simp

lemma chars_4:
  "240 \<le> byte a \<Longrightarrow>
     chars (a # b # c # d # s)
       = ((byte a mod 8) * 262144 + (byte b mod 64) * 4096 + (byte c mod 64) * 64
           + byte d mod 64) # chars s"
  by (subst chars.simps) simp

lemma byte_lead_2: "k < 32 \<Longrightarrow> byte (char_of (192 + k)) = 192 + k \<and> (192 + k) mod 32 = k"
  using byte_char_of [of "192 + k"] mod_mult_self3 [of 6 32 k] by simp

lemma byte_lead_3: "k < 16 \<Longrightarrow> byte (char_of (224 + k)) = 224 + k \<and> (224 + k) mod 16 = k"
  using byte_char_of [of "224 + k"] mod_mult_self3 [of 14 16 k] by simp

lemma byte_lead_4: "k < 8 \<Longrightarrow> byte (char_of (240 + k)) = 240 + k \<and> (240 + k) mod 8 = k"
  using byte_char_of [of "240 + k"] mod_mult_self3 [of 30 8 k] by simp

lemma byte_tail: "byte (char_of (128 + k mod 64)) mod 64 = k mod 64"
proof -
  have "128 + k mod 64 < 256"
    using mod_less_divisor [of 64 k] by linarith
  then show ?thesis
    by (simp only: byte_char_of mod_64_shift)
qed

lemma chars_utf8_encode: "is_scalar n \<Longrightarrow> chars (utf8_encode n @ s) = n # chars s"
proof -
  assume "is_scalar n"
  then have n: "n < 1114112"
    by (auto simp: is_scalar_def)
  have d1: "n div 4096 = n div 64 div 64"
    by (simp add: div_mult2_eq [symmetric])
  have d2: "n div 262144 = n div 64 div 64 div 64"
    by (simp add: div_mult2_eq [symmetric])
  consider "n < 128" | "128 \<le> n" "n < 2048" | "2048 \<le> n" "n < 65536" | "65536 \<le> n"
    by linarith
  then show ?thesis
  proof cases
    case 1
    then show ?thesis
      by (simp add: utf8_encode_def chars_1 byte_char_of)
  next
    case 2
    then have k: "n div 64 < 32" by linarith
    note lead = byte_lead_2 [OF k, THEN conjunct1] byte_lead_2 [OF k, THEN conjunct2]
    have e: "utf8_encode n @ s = char_of (192 + n div 64) # char_of (128 + n mod 64) # s"
      using 2 by (simp add: utf8_encode_def)
    have "192 + n div 64 < 224" and "128 \<le> 192 + n div 64"
      using k by linarith+
    then show ?thesis
      unfolding e by (subst chars_2) (simp_all only: lead byte_tail split_64)
  next
    case 3
    then have k: "n div 64 div 64 < 16" by linarith
    note lead = byte_lead_3 [OF k, THEN conjunct1] byte_lead_3 [OF k, THEN conjunct2]
    have e: "utf8_encode n @ s = char_of (224 + n div 64 div 64)
        # char_of (128 + n div 64 mod 64) # char_of (128 + n mod 64) # s"
      using 3 by (simp add: utf8_encode_def d1)
    have "224 + n div 64 div 64 < 240" and "224 \<le> 224 + n div 64 div 64"
      using k by linarith+
    then show ?thesis
      unfolding e by (subst chars_3) (simp_all only: lead byte_tail join_64_2)
  next
    case 4
    then have k: "n div 64 div 64 div 64 < 8" using n by linarith
    note lead = byte_lead_4 [OF k, THEN conjunct1] byte_lead_4 [OF k, THEN conjunct2]
    have e: "utf8_encode n @ s = char_of (240 + n div 64 div 64 div 64)
        # char_of (128 + n div 64 div 64 mod 64)
        # char_of (128 + n div 64 mod 64) # char_of (128 + n mod 64) # s"
      using 4 by (simp add: utf8_encode_def d1 d2)
    have "240 \<le> 240 + n div 64 div 64 div 64"
      by linarith
    then show ?thesis
      unfolding e by (subst chars_4) (simp_all only: lead byte_tail join_64_3)
  qed
qed

lemma chars_concat_utf8:
  "(\<And>n. n \<in> set ns \<Longrightarrow> is_scalar n) \<Longrightarrow> chars (concat (map utf8_encode ns)) = ns"
  by (induction ns) (auto simp: chars_utf8_encode)

lemma chars_ascii: "is_ascii s \<Longrightarrow> chars s = map byte s"
  by (induction s) (auto simp: is_ascii_def is_ascii_byte_def chars.simps(2))

text \<open>\<open>char::encode_utf16\<close>: one code unit, or a surrogate pair above the basic plane.\<close>

definition encode_utf16 :: "nat \<Rightarrow> nat list" where
  "encode_utf16 n =
     (if n < 65536 then [n]
      else [55296 + (n - 65536) div 1024, 56320 + (n - 65536) mod 1024])"

fun decode_utf16 :: "nat list \<Rightarrow> nat list" where
  "decode_utf16 (u # v # us) =
     (if 55296 \<le> u \<and> u < 56320 \<and> 56320 \<le> v \<and> v < 57344
      then (65536 + (u - 55296) * 1024 + (v - 56320)) # decode_utf16 us
      else u # decode_utf16 (v # us))"
| "decode_utf16 us = us"

lemma decode_encode_utf16: "is_scalar n \<Longrightarrow> decode_utf16 (encode_utf16 n @ us) = n # decode_utf16 us"
proof (cases "n < 65536")
  case True
  assume "is_scalar n"
  with True show ?thesis
    by (cases us) (auto simp: encode_utf16_def is_scalar_def)
next
  case False
  assume "is_scalar n"
  with False have "n - 65536 < 1048576" by (auto simp: is_scalar_def)
  then have "(n - 65536) div 1024 < 1024" by linarith
  moreover have "65536 + (n - 65536) div 1024 * 1024 + (n - 65536) mod 1024 = n"
    using False by simp
  ultimately show ?thesis
    using False by (simp add: encode_utf16_def)
qed

text \<open>Lower-case hexadecimal, padded to four digits: the format \<open>{:04x}\<close> of a 16-bit unit.\<close>

definition hex_digit :: "nat \<Rightarrow> char" where
  "hex_digit n = (if n < 10 then char_of (48 + n) else char_of (87 + n))"

definition hex4 :: "nat \<Rightarrow> string" where
  "hex4 n = [hex_digit (n div 4096 mod 16), hex_digit (n div 256 mod 16),
             hex_digit (n div 16 mod 16), hex_digit (n mod 16)]"

lemma hex_digit_ascii: "n < 16 \<Longrightarrow> is_ascii_byte (hex_digit n)"
  by (auto simp: hex_digit_def is_ascii_byte_def byte_char_of)

lemma hex4_ascii: "is_ascii (hex4 n)"
  by (simp add: hex4_def is_ascii_def hex_digit_ascii)

end
