(* ===== verification/Json.thy ===== *)
theory Json
  imports Rust_Strings "HOL-Library.Word"
begin

text \<open>
  The JSON values the crate works on (\<open>serde_json::Value\<close>, built with the \<open>preserve_order\<close>
  feature that Cargo.toml enables). An object is its list of members in insertion order:
  \<open>insert\<close> replaces the value of a present key in place and appends a new one, \<open>shift_remove\<close>
  keeps the order of the other members. A number keeps the three representations the source
  distinguishes when it builds one; a float is its 64 IEEE bits.
\<close>

subsection \<open>Values\<close>

datatype json_number = NU64 nat | NI64 int | NF64 "64 word"

datatype json =
    Null
  | Bool bool
  | Number json_number
  | String string
  | Array "json list"
  | Object "(string \<times> json) list"

type_synonym json_map = "(string \<times> json) list"

fun as_str :: "json \<Rightarrow> string option" where
  "as_str (String s) = Some s"
| "as_str v = None"

fun as_array :: "json \<Rightarrow> json list option" where
  "as_array (Array vs) = Some vs"
| "as_array v = None"

fun as_object :: "json \<Rightarrow> json_map option" where
  "as_object (Object m) = Some m"
| "as_object v = None"

lemma as_str_eq_Some [simp]: "as_str v = Some s \<longleftrightarrow> v = String s"
  by (cases v) auto

lemma as_array_eq_Some [simp]: "as_array v = Some vs \<longleftrightarrow> v = Array vs"
  by (cases v) auto

lemma as_object_eq_Some [simp]: "as_object v = Some m \<longleftrightarrow> v = Object m"
  by (cases v) auto

text \<open>
  \<open>value[i]\<close> on a \<open>Value\<close>: \<open>Null\<close> when the value is not an array or the index is out of
  range. (Indexing a \<open>Map\<close> by a missing key panics instead; see \<open>map_index\<close>.)
\<close>

definition value_index :: "json \<Rightarrow> nat \<Rightarrow> json" where
  "value_index v i =
     (case v of Array vs \<Rightarrow> (if i < length vs then vs ! i else Null) | _ \<Rightarrow> Null)"

subsection \<open>Objects as ordered maps\<close>

definition map_get :: "json_map \<Rightarrow> string \<Rightarrow> json option" where
  "map_get m k = map_of m k"

definition contains_key :: "json_map \<Rightarrow> string \<Rightarrow> bool" where
  "contains_key m k \<longleftrightarrow> map_of m k \<noteq> None"

definition map_insert :: "string \<Rightarrow> json \<Rightarrow> json_map \<Rightarrow> json_map" where
  "map_insert k v m = AList.update k v m"

definition shift_remove :: "string \<Rightarrow> json_map \<Rightarrow> json_map" where
  "shift_remove k m = filter (\<lambda>p. fst p \<noteq> k) m"

definition map_index :: "json_map \<Rightarrow> string \<Rightarrow> json result" where
  "map_index m k = (case map_of m k of None \<Rightarrow> Panic | Some v \<Rightarrow> Ok v)"

definition map_append :: "json_map \<Rightarrow> json_map \<Rightarrow> json_map" where
  "map_append m m' = foldl (\<lambda>acc (k, v). map_insert k v acc) m m'"

lemma map_get_simps [simp]:
  "map_get [] k = None"
  "map_get ((k', v) # m) k = (if k = k' then Some v else map_get m k)"
  by (simp_all add: map_get_def)

lemma map_get_insert: "map_get (map_insert k v m) k' = (if k' = k then Some v else map_get m k')"
  by (simp add: map_get_def map_insert_def update_conv)

lemma map_get_remove: "map_get (shift_remove k m) k' = (if k' = k then None else map_get m k')"
  by (induction m) (auto simp: map_get_def shift_remove_def)

lemma contains_key_conv: "contains_key m k \<longleftrightarrow> k \<in> fst ` set m"
  by (simp add: contains_key_def map_of_eq_None_iff)

lemma contains_key_get: "contains_key m k \<longleftrightarrow> map_get m k \<noteq> None"
  by (simp add: contains_key_def map_get_def)

lemma keys_insert: "fst ` set (map_insert k v m) = insert k (fst ` set m)"
  by (simp add: map_insert_def dom_update)

lemma distinct_insert: "distinct (map fst m) \<Longrightarrow> distinct (map fst (map_insert k v m))"
  by (simp add: map_insert_def distinct_update)

lemma keys_remove: "fst ` set (shift_remove k m) = fst ` set m - {k}"
  by (auto simp: shift_remove_def image_iff)

lemma distinct_remove: "distinct (map fst m) \<Longrightarrow> distinct (map fst (shift_remove k m))"
  by (simp add: shift_remove_def distinct_map_filter)

lemma map_insert_new: "k \<notin> fst ` set m \<Longrightarrow> map_insert k v m = m @ [(k, v)]"
  by (induction m) (auto simp: map_insert_def)

lemma map_insert_old: "k \<in> fst ` set m \<Longrightarrow> map fst (map_insert k v m) = map fst m"
  by (induction m) (auto simp: map_insert_def)

lemma map_append_Nil [simp]: "map_append m [] = m"
  by (simp add: map_append_def)

lemma map_append_Cons: "map_append m ((k, v) # m') = map_append (map_insert k v m) m'"
  by (simp add: map_append_def)

lemma map_get_append:
  "distinct (map fst m') \<Longrightarrow>
     map_get (map_append m m') k = (case map_get m' k of Some v \<Rightarrow> Some v | None \<Rightarrow> map_get m k)"
proof (induction m' arbitrary: m)
  case Nil
  then show ?case by (simp add: map_get_def)
next
  case (Cons p m')
  obtain k' v where p: "p = (k', v)" by (cases p)
  from Cons.prems have "k' \<notin> fst ` set m'" and d: "distinct (map fst m')"
    by (auto simp: p)
  then have none: "map_get m' k' = None"
    by (simp add: map_get_def map_of_eq_None_iff)
  show ?case
    using Cons.IH [OF d, of "map_insert k' v m"] none
    by (simp add: p map_append_Cons map_get_insert split: option.split)
qed

lemma keys_append: "fst ` set (map_append m m') = fst ` set m \<union> fst ` set m'"
proof (induction m' arbitrary: m)
  case Nil
  then show ?case by simp
next
  case (Cons p m')
  obtain k v where p: "p = (k, v)" by (cases p)
  show ?case
    using Cons.IH [of "map_insert k v m"] keys_insert [of k v m]
    by (simp add: p map_append_Cons)
qed

lemma distinct_append_map: "distinct (map fst m) \<Longrightarrow> distinct (map fst (map_append m m'))"
  by (induction m' arbitrary: m) (auto simp: map_append_Cons distinct_insert)

subsection \<open>Well-formed values, and equality up to the order of members\<close>

fun wf_json :: "json \<Rightarrow> bool" where
  "wf_json (Array vs) = list_all wf_json vs"
| "wf_json (Object m) = (distinct (map fst m) \<and> list_all (\<lambda>(k, v). wf_json v) m)"
| "wf_json v = True"

lemma wf_json_member: "wf_json (Object m) \<Longrightarrow> (k, v) \<in> set m \<Longrightarrow> wf_json v"
  by (auto simp: list_all_iff)

lemma wf_json_elem: "wf_json (Array vs) \<Longrightarrow> v \<in> set vs \<Longrightarrow> wf_json v"
  by (auto simp: list_all_iff)

text \<open>
  \<open>Value\<close>'s own equality ignores the order of an object's members, at every depth: two objects
  are equal when they have the same keys and equal values at each key.
\<close>

inductive json_eqv :: "json \<Rightarrow> json \<Rightarrow> bool" where
  eqv_Null: "json_eqv Null Null"
| eqv_Bool: "json_eqv (Bool b) (Bool b)"
| eqv_Number: "json_eqv (Number n) (Number n)"
| eqv_String: "json_eqv (String s) (String s)"
| eqv_Array: "list_all2 json_eqv vs ws \<Longrightarrow> json_eqv (Array vs) (Array ws)"
| eqv_Object:
    "distinct (map fst m) \<Longrightarrow> distinct (map fst m') \<Longrightarrow> fst ` set m = fst ` set m' \<Longrightarrow>
     (\<And>k v w. (k, v) \<in> set m \<Longrightarrow> (k, w) \<in> set m' \<Longrightarrow> json_eqv v w) \<Longrightarrow>
     json_eqv (Object m) (Object m')"

inductive_simps json_eqv_simps [simp]:
  "json_eqv Null w" "json_eqv (Bool b) w" "json_eqv (Number n) w" "json_eqv (String s) w"
  "json_eqv (Array vs) w"

inductive_cases json_eqv_ObjectE: "json_eqv (Object m) w"

lemma json_eqv_refl: "wf_json v \<Longrightarrow> json_eqv v v"
proof (induction v)
  case (Array vs)
  then show ?case
    by (auto simp: list_all2_same list_all_iff)
next
  case (Object m)
  show ?case
  proof (rule eqv_Object)
    fix k v w
    assume v: "(k, v) \<in> set m" and w: "(k, w) \<in> set m"
    with Object.prems have "v = w"
      by (auto dest: eq_key_imp_eq_value)
    moreover have "json_eqv v v"
      using Object.IH [OF v, of v] Object.prems v by (auto simp: list_all_iff)
    ultimately show "json_eqv v w" by simp
  qed (use Object.prems in auto)
qed auto

text \<open>Nesting depth: the number of containers on the deepest path.\<close>

fun json_depth :: "json \<Rightarrow> nat" where
  "json_depth (Array vs) = Suc (fold max (map json_depth vs) 0)"
| "json_depth (Object m) = Suc (fold max (map (\<lambda>(k, v). json_depth v) m) 0)"
| "json_depth v = 0"

lemma fold_max_le: "fold max xs (a::nat) \<le> n \<longleftrightarrow> a \<le> n \<and> (\<forall>x \<in> set xs. x \<le> n)"
  by (induction xs arbitrary: a) auto

lemma json_depth_Array_le: "json_depth (Array vs) \<le> Suc n \<longleftrightarrow> (\<forall>v \<in> set vs. json_depth v \<le> n)"
  by (auto simp: fold_max_le)

lemma json_depth_Object_le:
  "json_depth (Object m) \<le> Suc n \<longleftrightarrow> (\<forall>(k, v) \<in> set m. json_depth v \<le> n)"
  by (auto simp: fold_max_le)

end
