(* ===== verification/Types.thy ===== *)
theory Types
  imports Json
begin

text \<open>
  The public data types of src/src/lib.rs and the enumerations of the \<open>jsonwebtoken\<close> crate that
  the code matches on: serialization formats, the JWS JSON structures, JOSE algorithms, headers,
  validation settings and the parts of a JWK that the key policy reads.
\<close>

subsection \<open>The displayed form of an error\<close>

fun error_display :: "error \<Rightarrow> string" where
  "error_display (ConversionError m) = ''conversion error: Cannot convert to '' @ m"
| "error_display (DeserializationError m) = ''invalid input: '' @ m"
| "error_display (DataFieldMismatch m) = ''data field is not expected: '' @ m"
| "error_display (DuplicateDigestError m) = ''Digest '' @ m @ '' appears multiple times''"
| "error_display (DuplicateKeyError m) = ''Key '' @ m @ '' appears multiple times''"
| "error_display (InvalidDisclosure m) = ''invalid disclosure: '' @ m"
| "error_display (InvalidArrayDisclosureObject m) = ''invalid array disclosure: '' @ m"
| "error_display (InvalidPath m) = ''invalid path: '' @ m"
| "error_display (IndexOutOfBounds i n m) =
     ''index '' @ dec i @ '' is out of bounds for the provided array with length '' @ dec n @ '': '' @ m"
| "error_display (InvalidState m) = ''invalid state: '' @ m"
| "error_display (InvalidInput m) = ''invalid input: '' @ m"
| "error_display (KeyNotFound m) = ''key not found: '' @ m"
| "error_display (Unspecified m) = m"

subsection \<open>Serialized forms of an SD-JWT\<close>

datatype serialization_format = FlattenedJson | GeneralJson | Compact

record unprotected_header =
  hdr_disclosures :: "string list"
  hdr_kb_jwt :: "string option"

record flattened_json =
  fj_protected :: string
  fj_payload :: string
  fj_signature :: string
  fj_header :: unprotected_header

record general_signature =
  gs_protected :: string
  gs_signature :: string
  gs_header :: unprotected_header

record general_json =
  gj_payload :: string
  gj_signatures :: "general_signature list"

subsection \<open>JOSE algorithms\<close>

datatype algorithm =
    HS256 | HS384 | HS512 | ES256 | ES384 | RS256 | RS384 | RS512 | PS256 | PS384 | PS512 | EdDSA

instantiation algorithm :: enum
begin

definition enum_algorithm :: "algorithm list" where
  "enum_algorithm = [HS256, HS384, HS512, ES256, ES384, RS256, RS384, RS512, PS256, PS384, PS512, EdDSA]"

definition enum_all_algorithm :: "(algorithm \<Rightarrow> bool) \<Rightarrow> bool" where
  "enum_all_algorithm P \<longleftrightarrow> list_all P enum_class.enum"

definition enum_ex_algorithm :: "(algorithm \<Rightarrow> bool) \<Rightarrow> bool" where
  "enum_ex_algorithm P \<longleftrightarrow> list_ex P enum_class.enum"

instance
proof
  show univ: "(UNIV :: algorithm set) = set enum_class.enum"
    by (auto simp: enum_algorithm_def intro: algorithm.exhaust)
  show "distinct (enum_class.enum :: algorithm list)"
    by (simp add: enum_algorithm_def)
  show "enum_class.enum_all P = Ball UNIV P" for P :: "algorithm \<Rightarrow> bool"
    by (simp add: enum_all_algorithm_def univ list_all_iff)
  show "enum_class.enum_ex P = Bex UNIV P" for P :: "algorithm \<Rightarrow> bool"
    by (simp add: enum_ex_algorithm_def univ list_ex_iff)
qed

end

text \<open>The derived \<open>Debug\<close> form, which error messages and the JWK \<open>alg\<close> comparison use.\<close>

fun alg_debug :: "algorithm \<Rightarrow> string" where
  "alg_debug HS256 = ''HS256''"
| "alg_debug HS384 = ''HS384''"
| "alg_debug HS512 = ''HS512''"
| "alg_debug ES256 = ''ES256''"
| "alg_debug ES384 = ''ES384''"
| "alg_debug RS256 = ''RS256''"
| "alg_debug RS384 = ''RS384''"
| "alg_debug RS512 = ''RS512''"
| "alg_debug PS256 = ''PS256''"
| "alg_debug PS384 = ''PS384''"
| "alg_debug PS512 = ''PS512''"
| "alg_debug EdDSA = ''EdDSA''"

subsection \<open>Headers, validation settings, JWKs\<close>

text \<open>A decoded JOSE header: the algorithm and type the code reads, and the remaining members.\<close>

record jose_header =
  jh_alg :: algorithm
  jh_typ :: "string option"
  jh_other :: json_map

record validation =
  val_algorithms :: "algorithm list"
  val_required :: "string list"
  val_exp :: bool
  val_nbf :: bool
  val_aud :: bool
  val_audience :: "string list option"

datatype key_use = UseSignature | UseEncryption | UseOther string

datatype key_operation =
    OpSign | OpVerify | OpEncrypt | OpDecrypt | OpWrapKey | OpUnwrapKey | OpDeriveKey
  | OpDeriveBits | OpOther string

text \<open>
  A parsed JWK: its declared algorithm (as text), use and operations, whether its parameters are
  those of a symmetric octet key, and its JSON form.
\<close>

record jwk =
  jwk_algorithm :: "string option"
  jwk_use :: "key_use option"
  jwk_operations :: "key_operation list option"
  jwk_is_octet :: bool
  jwk_value :: json

end
