(* ===== verification/Externals.thy ===== *)
theory Externals
  imports Types
begin

text \<open>
  What the crate calls in other crates (\<open>base64\<close>, \<open>sha2\<close>, \<open>serde_json\<close>, \<open>jsonwebtoken\<close> and the
  curve crates) is not modelled: it is one record of functions, the argument \<open>X\<close> of every
  definition that uses it. \<open>'k\<close> is the type of public verification keys. The documented facts
  the proofs rely on are the named predicates below, hypotheses where they are used.
\<close>

text \<open>
  The calls a JSON deserializer makes on a visitor, as a tree in the order of the text. \<open>EvFail\<close>
  is a syntax error met at that point of the text, so that a visitor's own error that comes
  earlier wins, as it does in the stream.
\<close>

datatype json_event =
    EvBool bool
  | EvI64 int
  | EvU64 nat
  | EvF64 "64 word"
  | EvStr string
  | EvString string
  | EvNone
  | EvUnit
  | EvSeq "json_event list"
  | EvMap "(string \<times> json_event) list"
  | EvFail string

text \<open>
  Key families and key material as \<open>jsonwebtoken\<close> presents them to a verification provider, the
  outcome of installing a process-wide provider (\<open>AlreadyActive own\<close>: one was installed before,
  and \<open>own\<close> says whether it is this crate's), and the build: its target, and whether the \<open>mock_salts\<close>
  feature of the interoperability tool is on.
\<close>

datatype key_family = FamilyHmac | FamilyRsa | FamilyEc | FamilyEd

datatype key_material = SecretOrDer string | RsaModulusExponent string string

datatype rsa_padding = Pkcs1Sha256 | Pkcs1Sha384 | Pkcs1Sha512 | PssSha256 | PssSha384 | PssSha512

datatype install_outcome = Installed | AlreadyActive bool

datatype target = NativeTarget | BrowserWasm

record 'k externals =
  base64_encode :: "string \<Rightarrow> string"
  base64_decode :: "string \<Rightarrow> string + string"
  sha256 :: "string \<Rightarrow> string"
  json_to_string :: "json \<Rightarrow> string"
  json_from_slice :: "string \<Rightarrow> string + json"
  json_events :: "string \<Rightarrow> json_event"
  json_trailing :: "string \<Rightarrow> string option"
  json_custom_error :: "string \<Rightarrow> string \<Rightarrow> string"
  json_is_utf8 :: "string \<Rightarrow> bool"
  map_to_vec :: "json_map \<Rightarrow> string + string"
  hashmap_to_vec :: "(string \<rightharpoonup> json) \<Rightarrow> string + string"
  header_to_vec :: "jose_header \<Rightarrow> string + string"
  flattened_to_string :: "flattened_json \<Rightarrow> string + string"
  flattened_from_str :: "string \<Rightarrow> string + flattened_json"
  general_to_string :: "general_json \<Rightarrow> string + string"
  general_from_str :: "string \<Rightarrow> string + general_json"
  algorithm_from_str :: "string \<Rightarrow> string + algorithm"
  header_new :: "algorithm \<Rightarrow> jose_header"
  validation_new :: "algorithm \<Rightarrow> validation"
  decode_header :: "string \<Rightarrow> string + jose_header"
  jwt_decode :: "string \<Rightarrow> 'k \<Rightarrow> validation \<Rightarrow> string + jose_header \<times> json_map"
  jws_verify :: "string \<Rightarrow> string \<Rightarrow> 'k \<Rightarrow> algorithm \<Rightarrow> string + bool"
  jwk_from_value :: "json \<Rightarrow> string + jwk"
  key_from_jwk :: "jwk \<Rightarrow> string + 'k"
  p256_signature_ok :: "string \<Rightarrow> bool"
  p384_signature_ok :: "string \<Rightarrow> bool"
  ed_point_canonical :: "string \<Rightarrow> bool option"
  ed_small_order :: "string \<Rightarrow> bool"
  ed_scalar_canonical :: "string \<Rightarrow> bool"
  sha384 :: "string \<Rightarrow> string"
  sha512 :: "string \<Rightarrow> string"
  family_of :: "'k \<Rightarrow> key_family"
  bytes_of :: "'k \<Rightarrow> string"
  material_of :: "'k \<Rightarrow> key_material"
  p256_point_ok :: "string \<Rightarrow> bool"
  p384_point_ok :: "string \<Rightarrow> bool"
  ed25519_key_ok :: "string \<Rightarrow> bool"
  p256_verify_prehashed :: "string \<Rightarrow> string \<Rightarrow> string \<Rightarrow> bool"
  p384_verify_prehashed :: "string \<Rightarrow> string \<Rightarrow> string \<Rightarrow> bool"
  ed25519_verify_strict :: "string \<Rightarrow> string \<Rightarrow> string \<Rightarrow> bool"
  rsa_verify :: "rsa_padding \<Rightarrow> key_material \<Rightarrow> string \<Rightarrow> string \<Rightarrow> bool"
  install_default :: install_outcome
  build_target :: target
  build_mock_salts :: bool

subsection \<open>Documented facts about the parameters\<close>

text \<open>URL-safe base64 without padding: its alphabet, and decoding inverts encoding.\<close>

definition base64url_char :: "char \<Rightarrow> bool" where
  "base64url_char c \<longleftrightarrow>
     48 \<le> byte c \<and> byte c \<le> 57 \<or> 65 \<le> byte c \<and> byte c \<le> 90 \<or>
     97 \<le> byte c \<and> byte c \<le> 122 \<or> c = CHR ''-'' \<or> c = CHR ''_''"

definition base64_alphabet :: "'k externals \<Rightarrow> bool" where
  "base64_alphabet X \<longleftrightarrow> (\<forall>s. list_all base64url_char (base64_encode X s))"

definition base64_inverse :: "'k externals \<Rightarrow> bool" where
  "base64_inverse X \<longleftrightarrow> (\<forall>s. base64_decode X (base64_encode X s) = Inr s)"

lemma base64_alphabet_free:
  "base64_alphabet X \<Longrightarrow> \<not> base64url_char c \<Longrightarrow> c \<notin> set (base64_encode X s)"
  by (auto simp: base64_alphabet_def list_all_iff)

lemma base64_no_tilde: "base64_alphabet X \<Longrightarrow> CHR ''~'' \<notin> set (base64_encode X s)"
  by (erule base64_alphabet_free) (simp add: base64url_char_def byte_def)

lemma base64_no_dot: "base64_alphabet X \<Longrightarrow> CHR ''.'' \<notin> set (base64_encode X s)"
  by (erule base64_alphabet_free) (simp add: base64url_char_def byte_def)

end
