(* ===== verification/Utils.thy ===== *)
theory Utils
  imports Externals
begin

text \<open>
  src/src/utils.rs: hashing and base64, salts, and the decoding of a JWT payload through the
  \<open>UniqueValue\<close> visitor, which rejects an object with a repeated member at any depth.
\<close>

subsection \<open>Hashing, base64 and salts\<close>

definition base64_hash :: "'k externals \<Rightarrow> string \<Rightarrow> string" where
  "base64_hash X data = base64_encode X (sha256 X data)"

definition base64url_encode :: "'k externals \<Rightarrow> string \<Rightarrow> string" where
  "base64url_encode X data = base64_encode X data"

definition base64url_decode :: "'k externals \<Rightarrow> string \<Rightarrow> string result" where
  "base64url_decode X b64data = map_err DeserializationError (base64_decode X b64data)"

text \<open>
  \<open>fill_bytes\<close> of a caller-owned generator: the bytes drawn and the generator's next state.
  A salt is one draw of 16 bytes. The fixture queue of the \<open>mock_salts\<close> feature panics when it
  is empty, and keeps its other salts when it does.
\<close>

definition generate_salt_with_rng ::
    "'k externals \<Rightarrow> (nat \<Rightarrow> 'g \<Rightarrow> string \<times> 'g) \<Rightarrow> 'g \<Rightarrow> string \<times> 'g" where
  "generate_salt_with_rng X fill_bytes rng =
     (case fill_bytes 16 rng of (buf, rng') \<Rightarrow> (base64url_encode X buf, rng'))"

fun generate_salt_mock :: "string list \<Rightarrow> string result \<times> string list" where
  "generate_salt_mock [] = (Panic, [])"
| "generate_salt_mock (salt # salts) = (Ok salt, salts)"

subsection \<open>JSON without repeated members\<close>

definition f64_is_finite :: "64 word \<Rightarrow> bool" where
  "f64_is_finite w \<longleftrightarrow> unat (drop_bit 52 w) mod 2048 \<noteq> 2047"

definition duplicate_member :: string where
  "duplicate_member = ''duplicate JSON object member''"

text \<open>
  \<open>fail\<close> turns a visitor's own message into the deserializer's error; a failure of the stream
  itself is passed on. \<open>visit_seq\<close> and \<open>visit_map\<close> are the two loops, the second with the
  members inserted so far.
\<close>

fun unique_value :: "(string \<Rightarrow> string) \<Rightarrow> json_event \<Rightarrow> string + json"
  and visit_seq :: "(string \<Rightarrow> string) \<Rightarrow> json_event list \<Rightarrow> string + json list"
  and visit_map :: "(string \<Rightarrow> string) \<Rightarrow> json_map \<Rightarrow> (string \<times> json_event) list \<Rightarrow> string + json_map"
where
  "unique_value fail (EvBool b) = Inr (Bool b)"
| "unique_value fail (EvI64 i) = Inr (Number (if i < 0 then NI64 i else NU64 (nat i)))"
| "unique_value fail (EvU64 n) = Inr (Number (NU64 n))"
| "unique_value fail (EvF64 w) =
     (if f64_is_finite w then Inr (Number (NF64 w)) else Inl (fail ''non-finite JSON number''))"
| "unique_value fail (EvStr s) = Inr (String s)"
| "unique_value fail (EvString s) = Inr (String s)"
| "unique_value fail EvNone = Inr Null"
| "unique_value fail EvUnit = Inr Null"
| "unique_value fail (EvSeq es) =
     (case visit_seq fail es of Inl e \<Rightarrow> Inl e | Inr vs \<Rightarrow> Inr (Array vs))"
| "unique_value fail (EvMap ms) =
     (case visit_map fail [] ms of Inl e \<Rightarrow> Inl e | Inr m \<Rightarrow> Inr (Object m))"
| "unique_value fail (EvFail e) = Inl e"
| "visit_seq fail [] = Inr []"
| "visit_seq fail (e # es) =
     (case unique_value fail e of
        Inl m \<Rightarrow> Inl m
      | Inr v \<Rightarrow> (case visit_seq fail es of Inl m \<Rightarrow> Inl m | Inr vs \<Rightarrow> Inr (v # vs)))"
| "visit_map fail acc [] = Inr acc"
| "visit_map fail acc ((key, e) # ms) =
     (case unique_value fail e of
        Inl m \<Rightarrow> Inl m
      | Inr v \<Rightarrow>
          (if contains_key acc key then Inl (fail duplicate_member)
           else visit_map fail (map_insert key v acc) ms))"

text \<open>\<open>serde_json::from_slice::<UniqueValue>\<close>: the value, then the check for trailing text.\<close>

definition unique_value_from_slice :: "'k externals \<Rightarrow> string \<Rightarrow> string + json" where
  "unique_value_from_slice X bytes =
     (case unique_value (json_custom_error X bytes) (json_events X bytes) of
        Inl e \<Rightarrow> Inl e
      | Inr v \<Rightarrow> (case json_trailing X bytes of Some e \<Rightarrow> Inl e | None \<Rightarrow> Inr v))"

definition jwt_payload_decode :: "'k externals \<Rightarrow> string \<Rightarrow> json_map result" where
  "jwt_payload_decode X b64data =
     rbind (remap_err (\<lambda>e. DeserializationError (error_display e)) (base64url_decode X b64data)) (\<lambda>bytes.
     rbind (map_err DeserializationError (unique_value_from_slice X bytes)) (\<lambda>v.
     ok_or (as_object v) (DeserializationError ''JWT payload must be a JSON object'')))"

subsection \<open>Lemmas\<close>

text \<open>
  The members of an accepted value, as the event tree has them: \<open>event_unique\<close> says that no
  object of the tree repeats a key, \<open>event_clean\<close> that no stream failure or non-finite number
  occurs in it.
\<close>

fun event_unique :: "json_event \<Rightarrow> bool" where
  "event_unique (EvSeq es) = list_all event_unique es"
| "event_unique (EvMap ms) = (distinct (map fst ms) \<and> list_all (\<lambda>(k, e). event_unique e) ms)"
| "event_unique e = True"

fun event_clean :: "json_event \<Rightarrow> bool" where
  "event_clean (EvSeq es) = list_all event_clean es"
| "event_clean (EvMap ms) = list_all (\<lambda>(k, e). event_clean e) ms"
| "event_clean (EvF64 w) = f64_is_finite w"
| "event_clean (EvFail m) = False"
| "event_clean e = True"

lemma visitor_wf:
  "unique_value fail e = Inr v \<Longrightarrow> wf_json v"
  "visit_seq fail es = Inr vs \<Longrightarrow> list_all wf_json vs"
  "visit_map fail acc ms = Inr m \<Longrightarrow> wf_json (Object acc) \<Longrightarrow> wf_json (Object m)"
proof (induction fail e and fail es and fail acc ms arbitrary: v and vs and m
    rule: unique_value_visit_seq_visit_map.induct)
  case (15 fail acc key e ms)
  from "15.prems" obtain v where v: "unique_value fail e = Inr v"
    and fresh: "\<not> contains_key acc key"
    and rest: "visit_map fail (map_insert key v acc) ms = Inr m"
    by (auto split: sum.splits if_splits)
  have "wf_json v"
    using "15.IH"(1) [OF v] .
  moreover have "map_insert key v acc = acc @ [(key, v)]"
    using fresh by (intro map_insert_new) (simp add: contains_key_conv)
  ultimately have "wf_json (Object (map_insert key v acc))"
    using "15.prems" fresh by (auto simp: contains_key_conv)
  then show ?case
    using "15.IH"(2) [OF v fresh rest] by simp
qed (auto split: sum.splits if_splits)

lemma visitor_accepts_iff:
  "(\<exists>v. unique_value fail e = Inr v) \<longleftrightarrow> event_unique e \<and> event_clean e"
  "(\<exists>vs. visit_seq fail es = Inr vs) \<longleftrightarrow> list_all event_unique es \<and> list_all event_clean es"
  "(\<exists>m. visit_map fail acc ms = Inr m) \<longleftrightarrow>
     distinct (map fst ms) \<and> fst ` set ms \<inter> fst ` set acc = {} \<and>
     list_all (\<lambda>(k, e). event_unique e) ms \<and> list_all (\<lambda>(k, e). event_clean e) ms"
proof (induction fail e and fail es and fail acc ms
    rule: unique_value_visit_seq_visit_map.induct)
  case (15 fail acc key e ms)
  show ?case
  proof (cases "unique_value fail e")
    case (Inl m)
    then show ?thesis using "15.IH"(1) by auto
  next
    case (Inr v)
    show ?thesis
    proof (cases "contains_key acc key")
      case True
      then show ?thesis using Inr by (auto simp: contains_key_conv)
    next
      case False
      have "fst ` set (map_insert key v acc) = insert key (fst ` set acc)"
        by (rule keys_insert)
      then show ?thesis
        using "15.IH"(1) "15.IH"(2) [OF Inr False] Inr False
        by (auto simp: contains_key_conv)
    qed
  qed
qed (auto split: sum.splits)

lemma unique_value_from_slice_wf: "unique_value_from_slice X bytes = Inr v \<Longrightarrow> wf_json v"
  by (auto simp: unique_value_from_slice_def split: sum.splits option.splits dest: visitor_wf(1))

lemma jwt_payload_decode_eq_Ok:
  "jwt_payload_decode X b64 = Ok m \<longleftrightarrow>
     (\<exists>bytes. base64_decode X b64 = Inr bytes \<and> unique_value_from_slice X bytes = Inr (Object m))"
  by (auto simp: jwt_payload_decode_def base64url_decode_def rbind_eq_Ok)

lemma jwt_payload_decode_wf: "jwt_payload_decode X b64 = Ok m \<Longrightarrow> wf_json (Object m)"
  by (auto simp only: jwt_payload_decode_eq_Ok dest: unique_value_from_slice_wf)

lemma jwt_payload_decode_not_Panic: "jwt_payload_decode X b64 \<noteq> Panic"
  by (simp add: jwt_payload_decode_def base64url_decode_def rbind_eq_Panic)

end
