(* ===== verification/Sample_Externals.thy ===== *)
theory Sample_Externals
  imports Utils
begin

text \<open>
  A concrete instance of the external functions, with which the statements of the development are
  applied to concrete inputs. The encoding writes each byte as two letters, so it has the alphabet
  and the inverse of URL-safe base64; hashing is the identity; JSON texts and signed tokens are
  finite tables. It models no real encoding or cipher and no theorem of the development is about it.
\<close>

definition nibble :: "nat \<Rightarrow> char" where
  "nibble n = char_of (97 + n)"

definition letter_pair :: "char \<Rightarrow> string" where
  "letter_pair c = [nibble (byte c div 16), nibble (byte c mod 16)]"

definition letters_encode :: "string \<Rightarrow> string" where
  "letters_encode s = concat (map letter_pair s)"

definition is_nibble :: "char \<Rightarrow> bool" where
  "is_nibble c \<longleftrightarrow> 97 \<le> byte c \<and> byte c < 113"

fun letters_decode :: "string \<Rightarrow> string + string" where
  "letters_decode [] = Inr []"
| "letters_decode [c] = Inl ''odd length''"
| "letters_decode (c # d # s) =
     (if \<not> is_nibble c \<or> \<not> is_nibble d then Inl ''invalid letter''
      else case letters_decode s of
             Inl e \<Rightarrow> Inl e
           | Inr t \<Rightarrow> Inr (char_of ((byte c - 97) * 16 + (byte d - 97)) # t))"

lemma byte_div_16 [simp]: "byte c div 16 < 16"
proof -
  have "byte c < 16 * 16" by simp
  then show ?thesis by (rule less_mult_imp_div_less)
qed

lemma byte_nibble: "n < 16 \<Longrightarrow> byte (nibble n) = 97 + n"
  by (simp add: nibble_def byte_char_of)

lemma letters_decode_encode: "letters_decode (letters_encode s) = Inr s"
proof (induction s)
  case Nil
  then show ?case by (simp add: letters_encode_def)
next
  case (Cons c s)
  have h: "byte c div 16 < 16"
    by (rule byte_div_16)
  have l: "byte c mod 16 < 16" by simp
  have "char_of (byte c div 16 * 16 + byte c mod 16) = c"
    by (simp only: div_mult_mod_eq char_of_byte)
  then show ?case
    using Cons byte_nibble [OF h] byte_nibble [OF l] h
    by (simp add: letters_encode_def letter_pair_def is_nibble_def)
qed

lemma letters_encode_alphabet: "list_all base64url_char (letters_encode s)"
proof -
  have "base64url_char (nibble n)" if "n < 16" for n
    using byte_nibble [OF that] that by (simp add: base64url_char_def)
  then show ?thesis
    by (induction s) (auto simp: letters_encode_def letter_pair_def)
qed

text \<open>The calls the deserializer makes for a value.\<close>

fun events_of :: "json \<Rightarrow> json_event" where
  "events_of Null = EvUnit"
| "events_of (Bool b) = EvBool b"
| "events_of (Number (NU64 n)) = EvU64 n"
| "events_of (Number (NI64 i)) = EvI64 i"
| "events_of (Number (NF64 w)) = EvF64 w"
| "events_of (String s) = EvStr s"
| "events_of (Array vs) = EvSeq (map events_of vs)"
| "events_of (Object m) = EvMap (map (\<lambda>(k, v). (k, events_of v)) m)"

record sample_world =
  sw_texts :: "(string \<times> json) list"
  sw_tokens :: "(string \<times> jose_header \<times> json_map) list"

definition sample_parse :: "sample_world \<Rightarrow> string \<Rightarrow> string + json" where
  "sample_parse w s = (case map_of (sw_texts w) s of None \<Rightarrow> Inl ''syntax'' | Some v \<Rightarrow> Inr v)"

definition sample_print :: "sample_world \<Rightarrow> json \<Rightarrow> string" where
  "sample_print w v = (case find (\<lambda>p. snd p = v) (sw_texts w) of None \<Rightarrow> [] | Some p \<Rightarrow> fst p)"

definition sample_token :: "sample_world \<Rightarrow> string \<Rightarrow> string + jose_header \<times> json_map" where
  "sample_token w s = (case map_of (sw_tokens w) s of None \<Rightarrow> Inl ''token'' | Some t \<Rightarrow> Inr t)"

definition sample_validation :: "algorithm \<Rightarrow> validation" where
  "sample_validation a =
     \<lparr>val_algorithms = [a], val_required = [''exp''], val_exp = True, val_nbf = False, val_aud = True,
      val_audience = None\<rparr>"

definition sample_algorithm :: "string \<Rightarrow> string + algorithm" where
  "sample_algorithm s = (if s = ''ES256'' then Inr ES256 else if s = ''EdDSA'' then Inr EdDSA else Inl ''algorithm'')"

definition sample_jwk :: "json \<Rightarrow> jwk" where
  "sample_jwk v =
     \<lparr>jwk_algorithm = None, jwk_use = None, jwk_operations = None, jwk_is_octet = False, jwk_value = v\<rparr>"

definition sample_header :: "algorithm \<Rightarrow> jose_header" where
  "sample_header a = \<lparr>jh_alg = a, jh_typ = Some ''JWT'', jh_other = []\<rparr>"

definition sample_externals :: "sample_world \<Rightarrow> unit externals" where
  "sample_externals w =
     \<lparr>base64_encode = letters_encode, base64_decode = letters_decode, sha256 = (\<lambda>s. s),
      json_to_string = sample_print w, json_from_slice = sample_parse w,
      json_events = (\<lambda>s. case sample_parse w s of Inl e \<Rightarrow> EvFail e | Inr v \<Rightarrow> events_of v),
      json_trailing = (\<lambda>s. None), json_custom_error = (\<lambda>s e. e), json_is_utf8 = (\<lambda>s. True),
      map_to_vec = (\<lambda>m. Inr (sample_print w (Object m))), hashmap_to_vec = (\<lambda>m. Inl ''unused''),
      header_to_vec = (\<lambda>h. Inr (alg_debug (jh_alg h))),
      flattened_to_string = (\<lambda>j. Inr (fj_payload j)), flattened_from_str = (\<lambda>s. Inl ''syntax''),
      general_to_string = (\<lambda>j. Inr (gj_payload j)), general_from_str = (\<lambda>s. Inl ''syntax''),
      algorithm_from_str = sample_algorithm, header_new = sample_header,
      validation_new = sample_validation,
      decode_header = (\<lambda>s. case sample_token w s of Inl e \<Rightarrow> Inl e | Inr t \<Rightarrow> Inr (fst t)),
      jwt_decode = (\<lambda>s key val. sample_token w s),
      jws_verify = (\<lambda>sig input key a. Inr True),
      jwk_from_value = (\<lambda>v. Inr (sample_jwk v)), key_from_jwk = (\<lambda>k. Inr ()),
      p256_signature_ok = (\<lambda>s. length s = 1), p384_signature_ok = (\<lambda>s. length s = 1),
      ed_point_canonical = (\<lambda>s. Some True), ed_small_order = (\<lambda>s. False),
      ed_scalar_canonical = (\<lambda>s. True), sha384 = (\<lambda>s. s), sha512 = (\<lambda>s. s),
      family_of = (\<lambda>k. FamilyEc), bytes_of = (\<lambda>k. []), material_of = (\<lambda>k. SecretOrDer []),
      p256_point_ok = (\<lambda>s. True), p384_point_ok = (\<lambda>s. True), ed25519_key_ok = (\<lambda>s. True),
      p256_verify_prehashed = (\<lambda>k h s. True), p384_verify_prehashed = (\<lambda>k h s. True),
      ed25519_verify_strict = (\<lambda>k m s. True), rsa_verify = (\<lambda>p k m s. True),
      install_default = Installed, build_target = NativeTarget,
      build_mock_salts = False\<rparr>"

lemma sample_base64: "base64_alphabet (sample_externals w)" "base64_inverse (sample_externals w)"
  by (simp_all add: sample_externals_def base64_alphabet_def base64_inverse_def letters_encode_alphabet
      letters_decode_encode)

lemma sample_base64_sel [simp]:
  "base64_encode (sample_externals w) = letters_encode" "base64_decode (sample_externals w) = letters_decode"
  "json_to_string (sample_externals w) = sample_print w" "json_from_slice (sample_externals w) = sample_parse w"
  "build_mock_salts (sample_externals w) = False"
  by (simp_all add: sample_externals_def)

text \<open>The tables most witnesses use: a token with one hidden claim \<open>n\<close>, and its disclosure.\<close>

definition sample_payload :: json_map where
  "sample_payload = [(''iss'', String ''i''), (''_sd'', Array [String ''gfgf''])]"

definition sample_texts :: "(string \<times> json) list" where
  "sample_texts =
     [(''H'', Object [(''alg'', String ''ES256'')]), (''P'', Object sample_payload),
      (''D'', Array [String ''s'', String ''n'', Null]), (''E'', Array [String ''s'', Bool True])]"

definition sample_world_1 :: sample_world where
  "sample_world_1 =
     \<lparr>sw_texts = sample_texts, sw_tokens = [(''ei.fa.t'', sample_header ES256, sample_payload)]\<rparr>"

text \<open>The same token with a confirmation key, and a key binding token over it and its disclosure.\<close>

definition bound_payload :: json_map where
  "bound_payload = sample_payload @ [(''cnf'', Object [(''jwk'', Object [(''kty'', String ''EC'')])])]"

definition sample_world_2 :: sample_world where
  "sample_world_2 =
     \<lparr>sw_texts = (''P'', Object bound_payload) # sample_texts,
      sw_tokens = [(''ei.fa.t'', sample_header ES256, bound_payload),
        (''kb'', \<lparr>jh_alg = ES256, jh_typ = Some ''kb+jwt'', jh_other = []\<rparr>,
          [(''nonce'', String ''n''), (''iat'', Null),
           (''sd_hash'', String (letters_encode ''ei.fa.t~ee~''))])]\<rparr>"

end
