(* ===== verification/Disclosure.thy ===== *)
theory Disclosure
  imports Utils
begin

text \<open>
  src/src/disclosure.rs: one disclosure is the base64 text of a JSON array \<open>[salt, name, value]\<close>
  (or \<open>[salt, value]\<close> for an array element) and the digest of that base64 text. The value's
  JSON text is made ASCII first, each non-ASCII scalar as the JSON escapes of its UTF-16 units.
\<close>

record disclosure =
  raw_b64 :: string
  hash :: string

definition quote :: char where
  "quote = CHR 0x22"

definition backslash :: char where
  "backslash = CHR 0x5C"

definition escape_unit :: "nat \<Rightarrow> string" where
  "escape_unit u = backslash # CHR ''u'' # hex4 u"

definition escape_char :: "nat \<Rightarrow> string" where
  "escape_char c =
     (if c < 128 then [char_of c] else concat (map escape_unit (encode_utf16 c)))"

definition escape_unicode_chars :: "string \<Rightarrow> string" where
  "escape_unicode_chars s = concat (map escape_char (chars s))"

definition escape_json :: "'k externals \<Rightarrow> string \<Rightarrow> string" where
  "escape_json X s = json_to_string X (String s)"

text \<open>
  With the feature \<open>mock_salts\<close> the text is respaced as Python's \<open>json.dumps\<close> spaces it; the
  replacements do not look at where in the text they are.
\<close>

definition mock_spacing :: "string \<Rightarrow> string" where
  "mock_spacing s =
     replace_all quote '':  '' [quote, CHR '':'', CHR '' '']
       (replace_all quote '':'' [quote, CHR '':'', CHR '' '']
         (replace_all CHR '','' [] '', ''
           (replace_all CHR '':'' ''['' '': ['' s)))"

definition value_text :: "'k externals \<Rightarrow> json \<Rightarrow> string" where
  "value_text X value =
     (let value_str = json_to_string X value
      in if build_mock_salts X then mock_spacing value_str else value_str)"

definition ascii_value_text :: "'k externals \<Rightarrow> json \<Rightarrow> string" where
  "ascii_value_text X value =
     (let value_str = value_text X value
      in if is_ascii value_str then value_str else escape_unicode_chars value_str)"

definition disclosure_data :: "'k externals \<Rightarrow> string option \<Rightarrow> json \<Rightarrow> string \<Rightarrow> string" where
  "disclosure_data X key value salt =
     (case key of
        Some k \<Rightarrow> CHR ''['' # quote # salt @ quote # '', '' @ escape_json X k @ '', ''
                   @ ascii_value_text X value @ '']''
      | None \<Rightarrow> CHR ''['' # quote # salt @ quote # '', '' @ ascii_value_text X value @ '']'')"

definition new_with_salt :: "'k externals \<Rightarrow> string option \<Rightarrow> json \<Rightarrow> string \<Rightarrow> disclosure" where
  "new_with_salt X key value salt =
     (let raw = base64url_encode X (disclosure_data X key value salt)
      in \<lparr>raw_b64 = raw, hash = base64_hash X raw\<rparr>)"

lemma new_with_salt_sel:
  "raw_b64 (new_with_salt X key value salt) = base64url_encode X (disclosure_data X key value salt)"
  "hash (new_with_salt X key value salt)
     = base64_hash X (base64url_encode X (disclosure_data X key value salt))"
  by (simp_all add: new_with_salt_def Let_def)

subsection \<open>The escaped text is ASCII and denotes the same units\<close>

lemma is_ascii_append [simp]: "is_ascii (s @ t) \<longleftrightarrow> is_ascii s \<and> is_ascii t"
  by (simp add: is_ascii_def)

lemma is_ascii_Cons [simp]: "is_ascii (c # s) \<longleftrightarrow> is_ascii_byte c \<and> is_ascii s"
  by (simp add: is_ascii_def)

lemma is_ascii_Nil [simp]: "is_ascii []"
  by (simp add: is_ascii_def)

lemma is_ascii_concat: "is_ascii (concat ss) \<longleftrightarrow> (\<forall>s \<in> set ss. is_ascii s)"
  by (induction ss) auto

lemma escape_unit_ascii: "is_ascii (escape_unit u)"
  by (simp add: escape_unit_def hex4_ascii is_ascii_byte_def backslash_def byte_def)

lemma escape_char_ascii: "is_ascii (escape_char c)"
  by (auto simp: escape_char_def is_ascii_concat escape_unit_ascii is_ascii_byte_def byte_char_of)

lemma escape_unicode_chars_ascii: "is_ascii (escape_unicode_chars s)"
  by (auto simp: escape_unicode_chars_def is_ascii_concat escape_char_ascii)

lemma escape_ascii_id: "is_ascii s \<Longrightarrow> escape_unicode_chars s = s"
proof -
  assume s: "is_ascii s"
  have "concat (map escape_char (map byte s)) = s"
    using s by (induction s) (auto simp: escape_char_def is_ascii_byte_def)
  with s show ?thesis
    by (simp add: escape_unicode_chars_def chars_ascii)
qed

text \<open>
  A scanner for JSON text, over scalar values: an ASCII scalar stands for itself, a backslash
  with one following scalar is an escape, \<open>\u\<close> with four hexadecimal digits is a UTF-16 unit,
  and a raw non-ASCII scalar is the units it encodes to. Two texts with the same items are the
  same JSON text up to the spelling of non-ASCII characters.
\<close>

datatype json_item = Plain nat | Escape nat | Unit16 nat

definition hex_value :: "nat \<Rightarrow> nat option" where
  "hex_value c =
     (if 48 \<le> c \<and> c \<le> 57 then Some (c - 48)
      else if 97 \<le> c \<and> c \<le> 102 then Some (c - 87)
      else if 65 \<le> c \<and> c \<le> 70 then Some (c - 55)
      else None)"

text \<open>\<open>hex_run n v\<close> reads \<open>n\<close> hexadecimal digits, \<open>v\<close> being the value of those before.\<close>

fun hex_run :: "nat \<Rightarrow> nat \<Rightarrow> nat list \<Rightarrow> (nat \<times> nat list) option" where
  "hex_run 0 v s = Some (v, s)"
| "hex_run (Suc n) v [] = None"
| "hex_run (Suc n) v (x # s) =
     (case hex_value x of None \<Rightarrow> None | Some d \<Rightarrow> hex_run n (v * 16 + d) s)"

definition hex_prefix :: "nat list \<Rightarrow> (nat \<times> nat list) option" where
  "hex_prefix s = hex_run 4 0 s"

lemma hex_run_length: "hex_run n v s = Some (u, s') \<Longrightarrow> length s' + n = length s"
  by (induction n v s rule: hex_run.induct) (auto split: option.splits)

lemma hex_prefix_length: "hex_prefix s = Some (u, s') \<Longrightarrow> length s' < length s"
  by (auto simp: hex_prefix_def dest: hex_run_length)

function json_items :: "nat list \<Rightarrow> json_item list" where
  "json_items [] = []"
| "json_items (x # s) =
     (if x = 92 then
        (case s of
           [] \<Rightarrow> [Plain 92]
         | y # s2 \<Rightarrow>
             (if y = 117
              then (case hex_prefix s2 of
                      Some (u, s3) \<Rightarrow> Unit16 u # json_items s3
                    | None \<Rightarrow> Escape y # json_items s2)
              else Escape y # json_items s2))
      else if x < 128 then Plain x # json_items s
      else map Unit16 (encode_utf16 x) @ json_items s)"
  by pat_completeness auto
termination
  by (relation "measure length") (auto dest: hex_prefix_length)

declare json_items.simps(2) [simp del]

text \<open>No backslash is followed by a non-ASCII scalar, as in every JSON text.\<close>

fun escapes_ascii :: "nat list \<Rightarrow> bool" where
  "escapes_ascii (x # y # s) =
     (if x = 92 then y < 128 \<and> escapes_ascii s else escapes_ascii (y # s))"
| "escapes_ascii s = True"

lemma hex_value_digit: "n < 16 \<Longrightarrow> hex_value (byte (hex_digit n)) = Some n"
  by (auto simp: hex_digit_def hex_value_def byte_char_of)

lemma hex4_recompose:
  "u < 65536 \<Longrightarrow>
     ((u div 4096 mod 16 * 16 + u div 256 mod 16) * 16 + u div 16 mod 16) * 16 + u mod 16 = (u::nat)"
proof -
  assume u: "u < 65536"
  have e: "u div 256 = u div 16 div 16" "u div 4096 = u div 16 div 16 div 16"
    by (simp_all add: div_mult2_eq [symmetric])
  have "u div 16 div 16 div 16 < 16"
    using u by linarith
  then have m: "u div 16 div 16 div 16 mod 16 = u div 16 div 16 div 16"
    by (rule mod_less)
  show ?thesis
    unfolding e m by (simp only: div_mult_mod_eq)
qed

lemma hex_prefix_hex4: "u < 65536 \<Longrightarrow> hex_prefix (map byte (hex4 u) @ s) = Some (u, s)"
proof -
  assume u: "u < 65536"
  have "hex_value (byte (hex_digit (k mod 16))) = Some (k mod 16)" for k
    by (rule hex_value_digit) simp
  note digit = this
  have four: "4 = Suc (Suc (Suc (Suc 0)))"
    by simp
  show ?thesis
    by (simp only: hex_prefix_def hex4_def four list.map append.simps hex_run.simps digit
        option.case mult_0 add_0 hex4_recompose [OF u])
qed

definition escaped :: "nat list \<Rightarrow> nat list" where
  "escaped ns = map byte (concat (map escape_char ns))"

lemma escaped_Nil [simp]: "escaped [] = []"
  by (simp add: escaped_def)

lemma escaped_ascii: "x < 128 \<Longrightarrow> escaped (x # ns) = x # escaped ns"
  by (simp add: escaped_def escape_char_def byte_char_of)

lemma map_byte_escape_unit: "map byte (escape_unit u) = 92 # 117 # map byte (hex4 u)"
  by (simp add: escape_unit_def backslash_def byte_def)

lemma escaped_unicode:
  "\<not> x < 128 \<Longrightarrow>
     escaped (x # ns) = concat (map (\<lambda>u. 92 # 117 # map byte (hex4 u)) (encode_utf16 x)) @ escaped ns"
  by (simp add: escaped_def escape_char_def map_concat comp_def map_byte_escape_unit)

lemma encode_utf16_Cons: obtains u us where "encode_utf16 x = u # us"
  by (cases "x < 65536") (simp_all add: encode_utf16_def)

lemma encode_utf16_16bit: "is_scalar x \<Longrightarrow> u \<in> set (encode_utf16 x) \<Longrightarrow> u < 65536"
proof -
  assume x: "is_scalar x" and u: "u \<in> set (encode_utf16 x)"
  have "x < 1114112" using x by (auto simp: is_scalar_def)
  then have "(x - 65536) div 1024 < 1024" by linarith
  moreover have "(x - 65536) mod 1024 < 1024" by simp
  ultimately show ?thesis
    using u by (auto simp: encode_utf16_def split: if_splits)
qed

lemma hex_value_ascii: "hex_value x = Some v \<Longrightarrow> x < 128"
  by (auto simp: hex_value_def split: if_splits)

lemma hex_value_backslash [simp]: "hex_value 92 = None"
  by (simp add: hex_value_def)

lemma escaped_head: "escaped (x # ns) = (if x < 128 then x # escaped ns else 92 # tl (escaped (x # ns)))"
proof (cases "x < 128")
  case True
  then show ?thesis by (simp add: escaped_ascii)
next
  case False
  obtain u us where "encode_utf16 x = u # us"
    by (rule encode_utf16_Cons)
  with False show ?thesis by (simp add: escaped_unicode)
qed

text \<open>Escaping does not change what a run of hexadecimal digits reads: a backslash is no digit.\<close>

lemma hex_run_escaped:
  "hex_run n v (escaped ns) = map_option (\<lambda>(u, s). (u, escaped s)) (hex_run n v ns)"
proof (induction n arbitrary: v ns)
  case 0
  then show ?case by simp
next
  case (Suc n)
  show ?case
  proof (cases ns)
    case Nil
    then show ?thesis by simp
  next
    case (Cons x s)
    show ?thesis
    proof (cases "x < 128")
      case True
      then show ?thesis
        using Suc.IH by (simp add: Cons escaped_ascii split: option.split)
    next
      case False
      then have "hex_value x = None"
        using hex_value_ascii by (cases "hex_value x") auto
      moreover obtain r where "escaped (x # s) = 92 # r"
        using escaped_head [of x s] False by auto
      ultimately show ?thesis
        by (simp add: Cons)
    qed
  qed
qed

lemma hex_prefix_escaped:
  "hex_prefix (escaped ns) = map_option (\<lambda>(u, s). (u, escaped s)) (hex_prefix ns)"
  by (simp add: hex_prefix_def hex_run_escaped)

lemma json_items_units:
  "(\<And>u. u \<in> set us \<Longrightarrow> u < 65536) \<Longrightarrow>
     json_items (concat (map (\<lambda>u. 92 # 117 # map byte (hex4 u)) us) @ s)
       = map Unit16 us @ json_items s"
proof (induction us)
  case Nil
  then show ?case by simp
next
  case (Cons u us)
  then show ?case
    by (simp add: json_items.simps(2) hex_prefix_hex4)
qed

lemma escapes_ascii_tl: "escapes_ascii (x # s) \<Longrightarrow> x \<noteq> 92 \<Longrightarrow> escapes_ascii s"
  by (cases s) auto

lemma escapes_ascii_hex_run:
  "hex_run n v s = Some (u, s') \<Longrightarrow> escapes_ascii s \<Longrightarrow> escapes_ascii s'"
proof (induction n v s rule: hex_run.induct)
  case (3 n v x s)
  then show ?case
    by (auto split: option.splits dest: escapes_ascii_tl)
qed auto

lemma hex_run_set: "hex_run n v s = Some (u, s') \<Longrightarrow> set s' \<subseteq> set s"
  by (induction n v s rule: hex_run.induct) (auto split: option.splits)

lemma json_items_escaped:
  "escapes_ascii ns \<Longrightarrow> (\<And>n. n \<in> set ns \<Longrightarrow> is_scalar n) \<Longrightarrow>
     json_items (escaped ns) = json_items ns"
proof (induction ns rule: json_items.induct)
  case 1
  then show ?case by simp
next
  case (2 x s)
  consider "x = 92" "s = []" | y s2 where "x = 92" "s = y # s2" | "x \<noteq> 92" "x < 128" | "\<not> x < 128"
    by (cases s) auto
  then show ?case
  proof cases
    case 1
    then show ?thesis by (simp add: escaped_ascii json_items.simps(2))
  next
    case 2: 2
    then have y: "y < 128" and s2: "escapes_ascii s2"
      using "2.prems" by auto
    have scalars: "is_scalar n" if "n \<in> set s2" for n
      using "2.prems"(2) 2 that by simp
    have IH: "json_items (escaped s2) = json_items s2" if "y \<noteq> 117 \<or> hex_prefix s2 = None"
    proof (cases "y = 117")
      case True
      then show ?thesis
        using "2.IH"(1) [OF 2 True _ s2 scalars] that by simp
    next
      case False
      then show ?thesis
        using "2.IH"(3) [OF 2 False s2 scalars] by simp
    qed
    show ?thesis
    proof (cases "y = 117 \<and> hex_prefix s2 \<noteq> None")
      case False
      then show ?thesis
        using IH 2 y
        by (cases "hex_prefix s2") (auto simp: escaped_ascii json_items.simps(2) hex_prefix_escaped)
    next
      case True
      then obtain u s3 where u: "hex_prefix s2 = Some (u, s3)" by auto
      have s3: "escapes_ascii s3"
        using u s2 unfolding hex_prefix_def by (rule escapes_ascii_hex_run)
      have "is_scalar n" if "n \<in> set s3" for n
        using hex_run_set [OF u [unfolded hex_prefix_def]] that scalars by auto
      then have "json_items (escaped s3) = json_items s3"
        using "2.IH"(2) [OF 2 _ u _ s3] True by simp
      then show ?thesis
        using 2 True u by (simp add: escaped_ascii json_items.simps(2) hex_prefix_escaped)
    qed
  next
    case 3
    then show ?thesis
      using "2.IH"(4) "2.prems" escapes_ascii_tl [of x s]
      by (simp add: escaped_ascii json_items.simps(2))
  next
    case 4
    have "json_items (escaped s) = json_items s"
      using "2.IH"(5) 4 "2.prems" escapes_ascii_tl [of x s] by auto
    then show ?thesis
      using 4 "2.prems"(2) encode_utf16_16bit [of x]
      by (simp add: escaped_unicode json_items_units json_items.simps(2) [of x])
  qed
qed

end
