(* ===== verification/Policy.thy ===== *)
theory Policy
  imports Utils
begin

text \<open>
  The cryptographic policy of the crate: the algorithm allowlist and the confirmation-key checks
  of src/src/lib.rs, the shape and verification of a remote signature
  (src/src/signature_validation.rs), and the two verification-only providers
  (src/src/native_crypto.rs, src/src/wasm_crypto.rs, src/src/public_curve_verifiers.rs).
\<close>

subsection \<open>The algorithm allowlist\<close>

record verification_policy =
  allowed_algorithms :: "algorithm list"

definition policy_new :: "algorithm list \<Rightarrow> verification_policy result" where
  "policy_new algs =
     (if algs = [] then Err (InvalidInput ''Verification algorithm allowlist must not be empty'')
      else Ok \<lparr>allowed_algorithms = algs\<rparr>)"

definition policy_allows :: "verification_policy \<Rightarrow> algorithm \<Rightarrow> bool" where
  "policy_allows p a \<longleftrightarrow> a \<in> set (allowed_algorithms p)"

definition policy_default :: verification_policy where
  "policy_default =
     \<lparr>allowed_algorithms = [ES256, ES384, EdDSA, RS256, RS384, RS512, PS256, PS384, PS512]\<rparr>"

definition symmetric_algorithm :: "algorithm \<Rightarrow> bool" where
  "symmetric_algorithm a \<longleftrightarrow> a \<in> {HS256, HS384, HS512}"

definition rsa_algorithm :: "algorithm \<Rightarrow> bool" where
  "rsa_algorithm a \<longleftrightarrow> a \<in> {RS256, RS384, RS512, PS256, PS384, PS512}"

lemma policy_default_allows: "policy_allows policy_default a \<longleftrightarrow> \<not> symmetric_algorithm a"
  by (cases a) (simp_all add: policy_allows_def policy_default_def symmetric_algorithm_def)

subsection \<open>Confirmation keys\<close>

definition CNF_KEY :: string where "CNF_KEY = ''cnf''"
definition JWK_KEY :: string where "JWK_KEY = ''jwk''"

definition PRIVATE_JWK_MEMBERS :: "string list" where
  "PRIVATE_JWK_MEMBERS =
     [''d'', ''rsa_d'', ''p'', ''q'', ''dp'', ''dq'', ''qi'', ''oth'', ''k'']"

text \<open>The \<open>jwk\<close> member of an object-valued \<open>cnf\<close> claim, if there is one.\<close>

definition confirmation_jwk :: "json_map \<Rightarrow> json option" where
  "confirmation_jwk claims =
     Option.bind (Option.bind (map_get claims CNF_KEY) as_object) (\<lambda>confirmation.
       map_get confirmation JWK_KEY)"

definition validate_public_confirmation_claim :: "json_map \<Rightarrow> unit result" where
  "validate_public_confirmation_claim claims =
     (case confirmation_jwk claims of
        None \<Rightarrow> Ok ()
      | Some jwk \<Rightarrow>
          rbind (ok_or (as_object jwk)
                  (InvalidInput ''cnf.jwk must be a public asymmetric JWK object'')) (\<lambda>obj.
          if Option.bind (map_get obj ''kty'') as_str = Some ''oct''
             \<or> list_ex (contains_key obj) PRIVATE_JWK_MEMBERS
          then Err (InvalidInput ''cnf.jwk must be a public asymmetric JWK'')
          else Ok ()))"

definition validate_key_binding_jwk_policy :: "jwk \<Rightarrow> algorithm \<Rightarrow> unit result" where
  "validate_key_binding_jwk_policy k a =
     (if (case jwk_algorithm k of None \<Rightarrow> False | Some declared \<Rightarrow> declared \<noteq> alg_debug a)
      then Err (InvalidInput ''cnf.jwk alg does not match the key-binding algorithm'')
      else if jwk_use k \<noteq> None \<and> jwk_use k \<noteq> Some UseSignature
      then Err (InvalidInput ''cnf.jwk use must be sig'')
      else if jwk_use k \<noteq> None \<and> jwk_operations k \<noteq> None
      then Err (InvalidInput ''cnf.jwk must not combine use and key_ops'')
      else if (case jwk_operations k of
                 None \<Rightarrow> False
               | Some ops \<Rightarrow> ops = [] \<or> list_ex (\<lambda>operation. operation \<noteq> OpVerify) ops)
      then Err (InvalidInput ''cnf.jwk key_ops must contain only verify'')
      else Ok ())"

text \<open>What the two checks accept, as properties of the claim and of the key.\<close>

definition public_confirmation :: "json_map \<Rightarrow> bool" where
  "public_confirmation claims \<longleftrightarrow>
     (\<forall>jwk. confirmation_jwk claims = Some jwk \<longrightarrow>
        (\<exists>m. jwk = Object m \<and> map_get m ''kty'' \<noteq> Some (String ''oct'') \<and>
             (\<forall>k \<in> set PRIVATE_JWK_MEMBERS. \<not> contains_key m k)))"

lemma validate_public_confirmation_claim_Ok:
  "validate_public_confirmation_claim claims = Ok () \<longleftrightarrow> public_confirmation claims"
proof (cases "confirmation_jwk claims")
  case None
  then show ?thesis
    by (simp add: validate_public_confirmation_claim_def public_confirmation_def)
next
  case (Some jwk)
  show ?thesis
  proof (cases "as_object jwk")
    case None
    then have "\<nexists>m. jwk = Object m" by (cases jwk) auto
    with Some None show ?thesis
      by (simp add: validate_public_confirmation_claim_def public_confirmation_def)
  next
    case obj: (Some m)
    have "Option.bind (map_get m ''kty'') as_str = Some ''oct''
        \<longleftrightarrow> map_get m ''kty'' = Some (String ''oct'')"
      by (cases "map_get m ''kty''") auto
    with Some obj show ?thesis
      by (simp add: validate_public_confirmation_claim_def public_confirmation_def list_ex_iff)
  qed
qed

lemma validate_public_confirmation_claim_not_Panic:
  "validate_public_confirmation_claim claims \<noteq> Panic"
  by (auto simp: validate_public_confirmation_claim_def rbind_eq_Panic split: option.splits)

lemma validate_key_binding_jwk_policy_Ok:
  "validate_key_binding_jwk_policy k a = Ok () \<longleftrightarrow>
     (\<forall>d. jwk_algorithm k = Some d \<longrightarrow> d = alg_debug a) \<and>
     (jwk_use k = None \<or> jwk_use k = Some UseSignature \<and> jwk_operations k = None) \<and>
     (\<forall>ops. jwk_operations k = Some ops \<longrightarrow> ops \<noteq> [] \<and> set ops = {OpVerify})"
proof -
  have ops: "(ops = [] \<or> list_ex (\<lambda>x. x \<noteq> OpVerify) ops)
      \<longleftrightarrow> \<not> (ops \<noteq> [] \<and> set ops = {OpVerify})" for ops
    by (cases ops) (auto simp: list_ex_iff)
  show ?thesis
    unfolding validate_key_binding_jwk_policy_def ops by (auto split: option.splits)
qed

lemma validate_key_binding_jwk_policy_not_Panic: "validate_key_binding_jwk_policy k a \<noteq> Panic"
  by (simp add: validate_key_binding_jwk_policy_def)

subsection \<open>Remote signatures\<close>

definition MIN_REMOTE_RSA_SIGNATURE_BYTES :: nat where "MIN_REMOTE_RSA_SIGNATURE_BYTES = 256"
definition MAX_REMOTE_RSA_SIGNATURE_BYTES :: nat where "MAX_REMOTE_RSA_SIGNATURE_BYTES = 1024"

definition nonzero_bytes :: "string \<Rightarrow> bool" where
  "nonzero_bytes s = list_ex (\<lambda>c. byte c \<noteq> 0) s"

definition validate_ed25519_encoding :: "'k externals \<Rightarrow> string \<Rightarrow> bool" where
  "validate_ed25519_encoding X signature =
     (if length signature \<noteq> 64 then False
      else let encoded_r = take 32 signature; encoded_s = drop 32 signature
           in case ed_point_canonical X encoded_r of
                None \<Rightarrow> False
              | Some same_bytes \<Rightarrow>
                  same_bytes \<and> \<not> ed_small_order X encoded_r
                  \<and> ed_scalar_canonical X encoded_s \<and> nonzero_bytes signature)"

fun remote_signature_shape :: "'k externals \<Rightarrow> algorithm \<Rightarrow> string \<Rightarrow> bool option" where
  "remote_signature_shape X ES256 sig = Some (p256_signature_ok X sig)"
| "remote_signature_shape X ES384 sig = Some (p384_signature_ok X sig)"
| "remote_signature_shape X EdDSA sig = Some (validate_ed25519_encoding X sig)"
| "remote_signature_shape X HS256 sig = None"
| "remote_signature_shape X HS384 sig = None"
| "remote_signature_shape X HS512 sig = None"
| "remote_signature_shape X _ sig =
     Some (MIN_REMOTE_RSA_SIGNATURE_BYTES \<le> length sig
           \<and> length sig \<le> MAX_REMOTE_RSA_SIGNATURE_BYTES \<and> nonzero_bytes sig)"

definition validate_remote_signature :: "'k externals \<Rightarrow> algorithm \<Rightarrow> string \<Rightarrow> unit result" where
  "validate_remote_signature X a sig =
     (case remote_signature_shape X a sig of
        None \<Rightarrow> Err (InvalidInput (''unsupported remote signing algorithm: '' @ alg_debug a))
      | Some valid \<Rightarrow>
          if \<not> valid
          then Err (InvalidInput (''invalid '' @ alg_debug a @ '' remote signature encoding: got ''
                     @ dec (length sig) @ '' bytes''))
          else Ok ())"

subsection \<open>The verification-only providers\<close>

datatype crypto_error = InvalidEcdsaKey | InvalidEddsaKey | InvalidAlgorithm | ProviderError string

datatype 'k jwt_verifier =
    P256Verifier string
  | P384Verifier string
  | Ed25519Verifier string
  | RsaVerifier algorithm 'k

fun verifier_algorithm :: "'k jwt_verifier \<Rightarrow> algorithm" where
  "verifier_algorithm (P256Verifier key) = ES256"
| "verifier_algorithm (P384Verifier key) = ES384"
| "verifier_algorithm (Ed25519Verifier key) = EdDSA"
| "verifier_algorithm (RsaVerifier a key) = a"

fun rsa_parameters :: "algorithm \<Rightarrow> rsa_padding result" where
  "rsa_parameters RS256 = Ok Pkcs1Sha256"
| "rsa_parameters RS384 = Ok Pkcs1Sha384"
| "rsa_parameters RS512 = Ok Pkcs1Sha512"
| "rsa_parameters PS256 = Ok PssSha256"
| "rsa_parameters PS384 = Ok PssSha384"
| "rsa_parameters PS512 = Ok PssSha512"
| "rsa_parameters _ = Panic"

text \<open>\<open>Verifier::verify\<close>: \<open>Ok True\<close> when the signature verifies, \<open>Ok False\<close> for its error.\<close>

fun run_verifier :: "'k externals \<Rightarrow> 'k jwt_verifier \<Rightarrow> string \<Rightarrow> string \<Rightarrow> bool result" where
  "run_verifier X (P256Verifier key) message sig =
     Ok (p256_signature_ok X sig \<and> p256_verify_prehashed X key (sha256 X message) sig)"
| "run_verifier X (P384Verifier key) message sig =
     Ok (p384_signature_ok X sig \<and> p384_verify_prehashed X key (sha384 X message) sig)"
| "run_verifier X (Ed25519Verifier key) message sig =
     Ok (length sig = 64 \<and> ed25519_verify_strict X key message sig)"
| "run_verifier X (RsaVerifier a key) message sig =
     rbind (rsa_parameters a) (\<lambda>parameters.
     Ok (rsa_verify X parameters (material_of X key) message sig))"

text \<open>
  The two verifier factories, each written out as its own \<open>match\<close>: an arm whose guard fails falls
  through to the last one.
\<close>

definition native_verifier :: "'k externals \<Rightarrow> algorithm \<Rightarrow> 'k \<Rightarrow> crypto_error + 'k jwt_verifier" where
  "native_verifier X a key =
     (if a = ES256 \<and> family_of X key = FamilyEc
      then if p256_point_ok X (bytes_of X key) then Inr (P256Verifier (bytes_of X key)) else Inl InvalidEcdsaKey
      else if a = ES384 \<and> family_of X key = FamilyEc
      then if p384_point_ok X (bytes_of X key) then Inr (P384Verifier (bytes_of X key)) else Inl InvalidEcdsaKey
      else if a = EdDSA \<and> family_of X key = FamilyEd
      then if length (bytes_of X key) \<noteq> 32 then Inl InvalidEddsaKey
           else if ed25519_key_ok X (bytes_of X key) then Inr (Ed25519Verifier (bytes_of X key))
           else Inl InvalidEddsaKey
      else if a \<in> {RS256, RS384, RS512, PS256, PS384, PS512} \<and> family_of X key = FamilyRsa
      then Inr (RsaVerifier a key)
      else Inl InvalidAlgorithm)"

definition wasm_verifier :: "'k externals \<Rightarrow> algorithm \<Rightarrow> 'k \<Rightarrow> crypto_error + 'k jwt_verifier" where
  "wasm_verifier X a key =
     (if a = ES256 \<and> family_of X key = FamilyEc
      then if p256_point_ok X (bytes_of X key) then Inr (P256Verifier (bytes_of X key)) else Inl InvalidEcdsaKey
      else if a = ES384 \<and> family_of X key = FamilyEc
      then if p384_point_ok X (bytes_of X key) then Inr (P384Verifier (bytes_of X key)) else Inl InvalidEcdsaKey
      else if a = EdDSA \<and> family_of X key = FamilyEd
      then if length (bytes_of X key) \<noteq> 32 then Inl InvalidEddsaKey
           else if ed25519_key_ok X (bytes_of X key) then Inr (Ed25519Verifier (bytes_of X key))
           else Inl InvalidEddsaKey
      else if a \<in> {RS256, RS384, RS512, PS256, PS384, PS512}
      then Inl (ProviderError ''RSA verification is unavailable in browser WebAssembly builds'')
      else Inl InvalidAlgorithm)"

definition provider_signer :: "crypto_error + unit" where
  "provider_signer = Inl (ProviderError ''local JWT signing is not supported'')"

datatype thumbprint_hash = SHA256 | SHA384 | SHA512

fun provider_digest :: "'k externals \<Rightarrow> string \<Rightarrow> thumbprint_hash \<Rightarrow> string" where
  "provider_digest X data SHA256 = sha256 X data"
| "provider_digest X data SHA384 = sha384 X data"
| "provider_digest X data SHA512 = sha512 X data"

definition native_ensure_installed :: "'k externals \<Rightarrow> unit result" where
  "native_ensure_installed X =
     (case install_default X of
        Installed \<Rightarrow> Ok ()
      | AlreadyActive own \<Rightarrow>
          if own then Ok ()
          else Err (InvalidState ''the required native cryptography provider is not active''))"

definition wasm_ensure_installed :: "'k externals \<Rightarrow> unit result" where
  "wasm_ensure_installed X =
     (case install_default X of
        Installed \<Rightarrow> Ok ()
      | AlreadyActive own \<Rightarrow>
          if own then Ok ()
          else Err (InvalidState ''the required browser cryptography provider is not active''))"

definition install_crypto_provider :: "'k externals \<Rightarrow> unit result" where
  "install_crypto_provider X =
     (case build_target X of
        BrowserWasm \<Rightarrow> wasm_ensure_installed X
      | NativeTarget \<Rightarrow> native_ensure_installed X)"

definition verify_remote_signature ::
    "'k externals \<Rightarrow> algorithm \<Rightarrow> string \<Rightarrow> string \<Rightarrow> 'k \<Rightarrow> unit result" where
  "verify_remote_signature X a signing_input signature verification_key =
     rbind (validate_remote_signature X a signature) (\<lambda>_.
     rbind (install_crypto_provider X) (\<lambda>_.
     case jws_verify X (base64url_encode X signature) signing_input verification_key a of
       Inr True \<Rightarrow> Ok ()
     | _ \<Rightarrow> Err (InvalidInput
              ''remote signature does not match the prepared signing input and public key'')))"

lemma install_crypto_provider_not_Panic: "install_crypto_provider X \<noteq> Panic"
  by (simp add: install_crypto_provider_def native_ensure_installed_def wasm_ensure_installed_def
      split: target.split install_outcome.split)

lemma validate_remote_signature_not_Panic: "validate_remote_signature X a sig \<noteq> Panic"
  by (simp add: validate_remote_signature_def split: option.split)

lemma validate_remote_signature_Ok:
  "validate_remote_signature X a sig = Ok () \<longleftrightarrow> remote_signature_shape X a sig = Some True"
  by (simp add: validate_remote_signature_def split: option.split)

lemma verify_remote_signature_Ok:
  "verify_remote_signature X a input sig key = Ok () \<longleftrightarrow>
     remote_signature_shape X a sig = Some True \<and> install_crypto_provider X = Ok () \<and>
     jws_verify X (base64_encode X sig) input key a = Inr True"
  by (auto simp: verify_remote_signature_def rbind_eq_Ok validate_remote_signature_Ok
      base64url_encode_def split: sum.split bool.split)

lemma verify_remote_signature_not_Panic: "verify_remote_signature X a input sig key \<noteq> Panic"
  by (auto simp: verify_remote_signature_def rbind_eq_Panic validate_remote_signature_not_Panic
      install_crypto_provider_not_Panic split: sum.split bool.split)

text \<open>The keys a verifier can be made of, by the family of the algorithm.\<close>

fun usable_key :: "'k externals \<Rightarrow> algorithm \<Rightarrow> 'k \<Rightarrow> bool" where
  "usable_key X ES256 key = (family_of X key = FamilyEc \<and> p256_point_ok X (bytes_of X key))"
| "usable_key X ES384 key = (family_of X key = FamilyEc \<and> p384_point_ok X (bytes_of X key))"
| "usable_key X EdDSA key =
     (family_of X key = FamilyEd \<and> length (bytes_of X key) = 32 \<and> ed25519_key_ok X (bytes_of X key))"
| "usable_key X a key = (rsa_algorithm a \<and> family_of X key = FamilyRsa)"

lemma native_verifier_usable: "(\<exists>v. native_verifier X a key = Inr v) \<longleftrightarrow> usable_key X a key"
  by (cases a) (simp_all add: native_verifier_def rsa_algorithm_def)

lemma native_verifier_runs:
  "native_verifier X a key = Inr v \<Longrightarrow> verifier_algorithm v = a \<and> run_verifier X v m s \<noteq> Panic"
  by (cases a) (auto simp: native_verifier_def split: if_split_asm)

lemma wasm_verifier_native:
  "wasm_verifier X a key =
     (if rsa_algorithm a then Inl (ProviderError ''RSA verification is unavailable in browser WebAssembly builds'')
      else native_verifier X a key)"
  by (cases a) (simp_all add: wasm_verifier_def native_verifier_def rsa_algorithm_def)

end
