(* ===== verification/Worker_Budget.thy ===== *)
theory Worker_Budget
  imports Prelude
begin

text \<open>
  The process-wide cap on worker threads. The disclosure preprocessor and the issuance executor
  each have one (src/src/disclosure_preprocessing.rs and src/src/issuer/issuance_plan.rs): an
  atomic counter of free permits, a non-blocking \<open>try_acquire\<close> built on a compare-and-swap loop,
  and a lease that gives its permits back when it is dropped. First the operations as one caller
  sees them, then the threads that race on the counter as a step relation.
\<close>

subsection \<open>The operations as one caller sees them\<close>

record worker_budget =
  available :: nat
  capacity :: nat

definition budget_new :: "nat \<Rightarrow> worker_budget" where
  "budget_new n = \<lparr>available = n, capacity = n\<rparr>"

definition try_acquire :: "worker_budget \<Rightarrow> nat \<Rightarrow> nat option \<times> worker_budget" where
  "try_acquire b worker_count =
     (if worker_count < 2 \<or> capacity b < worker_count then (None, b)
      else if available b < worker_count then (None, b)
      else (Some worker_count, b\<lparr>available := available b - worker_count\<rparr>))"

definition drop_lease :: "worker_budget \<Rightarrow> nat \<Rightarrow> worker_budget" where
  "drop_lease b worker_count = b\<lparr>available := available b + worker_count\<rparr>"

text \<open>The contract a client of a budget relies on.\<close>

locale permit_budget =
  fixes acquire :: "'b \<Rightarrow> nat \<Rightarrow> nat option \<times> 'b"
    and release :: "'b \<Rightarrow> nat \<Rightarrow> 'b"
    and free :: "'b \<Rightarrow> nat"
    and cap :: "'b \<Rightarrow> nat"
  assumes acquire_Some:
      "acquire b n = (Some l, b') \<Longrightarrow>
         l = n \<and> 2 \<le> n \<and> n \<le> cap b \<and> free b' + n = free b \<and> cap b' = cap b"
    and acquire_None: "acquire b n = (None, b') \<Longrightarrow> b' = b"
    and acquire_ready: "2 \<le> n \<Longrightarrow> n \<le> cap b \<Longrightarrow> n \<le> free b \<Longrightarrow> fst (acquire b n) = Some n"
    and release_free: "free (release b n) = free b + n \<and> cap (release b n) = cap b"
    and budget_eqI: "free b = free b' \<Longrightarrow> cap b = cap b' \<Longrightarrow> b = b'"
begin

lemma acquire_release: "acquire b n = (Some l, b') \<Longrightarrow> release b' l = b"
  using acquire_Some [of b n l b'] release_free [of b' l] budget_eqI [of "release b' l" b] by auto

lemma acquire_iff:
  "(\<exists>l b'. acquire b n = (Some l, b')) \<longleftrightarrow> 2 \<le> n \<and> n \<le> cap b \<and> n \<le> free b"
proof
  assume "\<exists>l b'. acquire b n = (Some l, b')"
  then obtain l b' where "acquire b n = (Some l, b')" by blast
  from acquire_Some [OF this] show "2 \<le> n \<and> n \<le> cap b \<and> n \<le> free b" by linarith
next
  assume n: "2 \<le> n \<and> n \<le> cap b \<and> n \<le> free b"
  then have "fst (acquire b n) = Some n"
    using acquire_ready by blast
  then show "\<exists>l b'. acquire b n = (Some l, b')"
    by (cases "acquire b n") simp
qed

end

interpretation disclosure_budget: permit_budget try_acquire drop_lease available capacity
proof unfold_locales
  show "b = b'" if "available b = available b'" "capacity b = capacity b'" for b b' :: worker_budget
    using that by (cases b, cases b') simp
qed (auto simp: try_acquire_def drop_lease_def split: if_splits)

subsection \<open>Threads racing on the counter\<close>

text \<open>
  A thread is idle, inside the compare-and-swap loop wanting \<open>w\<close> permits with the value it last
  observed, or holding a lease. The weak compare-and-swap may fail spuriously; on failure the
  loop continues with the value the instruction observed.
\<close>

datatype worker_pc = Idle | Trying nat nat | Holding nat

record budget_system =
  shared_available :: nat
  shared_capacity :: nat
  threads :: "worker_pc list"

fun held :: "worker_pc \<Rightarrow> nat" where
  "held (Holding w) = w"
| "held _ = 0"

inductive budget_step :: "budget_system \<Rightarrow> budget_system \<Rightarrow> bool" where
  load: "i < length (threads s) \<Longrightarrow> threads s ! i = Idle \<Longrightarrow>
     2 \<le> w \<Longrightarrow> w \<le> shared_capacity s \<Longrightarrow>
     budget_step s (s\<lparr>threads := (threads s)[i := Trying w (shared_available s)]\<rparr>)"
| give_up: "i < length (threads s) \<Longrightarrow> threads s ! i = Trying w seen \<Longrightarrow> seen < w \<Longrightarrow>
     budget_step s (s\<lparr>threads := (threads s)[i := Idle]\<rparr>)"
| cas_success: "i < length (threads s) \<Longrightarrow> threads s ! i = Trying w seen \<Longrightarrow> w \<le> seen \<Longrightarrow>
     shared_available s = seen \<Longrightarrow>
     budget_step s (s\<lparr>shared_available := seen - w, threads := (threads s)[i := Holding w]\<rparr>)"
| cas_failure: "i < length (threads s) \<Longrightarrow> threads s ! i = Trying w seen \<Longrightarrow> w \<le> seen \<Longrightarrow>
     budget_step s (s\<lparr>threads := (threads s)[i := Trying w (shared_available s)]\<rparr>)"
| drop: "i < length (threads s) \<Longrightarrow> threads s ! i = Holding w \<Longrightarrow>
     budget_step s
       (s\<lparr>shared_available := shared_available s + w, threads := (threads s)[i := Idle]\<rparr>)"

definition budget_start :: "nat \<Rightarrow> nat \<Rightarrow> budget_system" where
  "budget_start cap n =
     \<lparr>shared_available = cap, shared_capacity = cap, threads = replicate n Idle\<rparr>"

inductive budget_reachable :: "nat \<Rightarrow> nat \<Rightarrow> budget_system \<Rightarrow> bool" for cap n where
  start: "budget_reachable cap n (budget_start cap n)"
| step: "budget_reachable cap n s \<Longrightarrow> budget_step s t \<Longrightarrow> budget_reachable cap n t"

inductive_cases budget_stepE: "budget_step s t"

definition total_held :: "budget_system \<Rightarrow> nat" where
  "total_held s = sum_list (map held (threads s))"

text \<open>
  Free permits and held permits always add up to the capacity, a lease has between 2 and the
  capacity permits, and a value observed in the loop never exceeds the capacity.
\<close>

fun pc_ok :: "nat \<Rightarrow> worker_pc \<Rightarrow> bool" where
  "pc_ok cap Idle = True"
| "pc_ok cap (Trying w seen) = (2 \<le> w \<and> w \<le> cap \<and> seen \<le> cap)"
| "pc_ok cap (Holding w) = (2 \<le> w \<and> w \<le> cap)"

definition budget_inv :: "budget_system \<Rightarrow> bool" where
  "budget_inv s \<longleftrightarrow>
     shared_available s + total_held s = shared_capacity s \<and>
     (\<forall>p \<in> set (threads s). pc_ok (shared_capacity s) p)"

lemma sum_list_held_update:
  "i < length ps \<Longrightarrow>
     sum_list (map held (ps[i := p])) + held (ps ! i) = sum_list (map held ps) + held p"
proof (induction ps arbitrary: i)
  case Nil
  then show ?case by simp
next
  case (Cons q ps)
  then show ?case by (cases i) (auto simp: add.commute add.left_commute)
qed

lemma pc_ok_nth: "budget_inv s \<Longrightarrow> i < length (threads s) \<Longrightarrow> pc_ok (shared_capacity s) (threads s ! i)"
  by (simp add: budget_inv_def)

lemma budget_inv_start: "budget_inv (budget_start cap n)"
  by (simp add: budget_inv_def budget_start_def total_held_def sum_list_replicate)

lemma pcs_update_ok:
  "\<forall>p \<in> set ps. pc_ok cap p \<Longrightarrow> pc_ok cap q \<Longrightarrow> \<forall>p \<in> set (ps[i := q]). pc_ok cap p"
  using set_update_subset_insert [of ps i q] by auto

lemma budget_step_capacity: "budget_step s t \<Longrightarrow> shared_capacity t = shared_capacity s"
  by (erule budget_stepE) auto

lemma budget_inv_move:
  assumes inv: "budget_inv s" and i: "i < length (threads s)"
    and q: "pc_ok (shared_capacity s) q"
    and a: "a + held q = shared_available s + held (threads s ! i)"
  shows "budget_inv (s\<lparr>shared_available := a, threads := (threads s)[i := q]\<rparr>)"
proof -
  have "\<forall>p \<in> set ((threads s)[i := q]). pc_ok (shared_capacity s) p"
    using inv q by (intro pcs_update_ok) (simp_all add: budget_inv_def)
  moreover have "a + sum_list (map held ((threads s)[i := q])) = shared_capacity s"
    using inv a sum_list_held_update [OF i, of q] by (simp add: budget_inv_def total_held_def)
  ultimately show ?thesis
    by (simp add: budget_inv_def total_held_def)
qed

lemma budget_inv_move_pc:
  assumes "budget_inv s" and "i < length (threads s)" and "pc_ok (shared_capacity s) q"
    and "held q = held (threads s ! i)"
  shows "budget_inv (s\<lparr>threads := (threads s)[i := q]\<rparr>)"
  using budget_inv_move [of s i q "shared_available s"] assms by simp

lemma budget_inv_available: "budget_inv s \<Longrightarrow> shared_available s \<le> shared_capacity s"
  by (simp add: budget_inv_def)

lemma budget_step_inv:
  assumes step: "budget_step s t" and inv: "budget_inv s"
  shows "budget_inv t"
  using step
proof (cases rule: budget_step.cases)
  case (load i w)
  then show ?thesis
    using budget_inv_move_pc [OF inv load(2)] budget_inv_available [OF inv] by simp
next
  case (give_up i w seen)
  then show ?thesis
    using budget_inv_move_pc [OF inv give_up(2)] by simp
next
  case (cas_success i w seen)
  then show ?thesis
    using budget_inv_move [OF inv cas_success(2)] pc_ok_nth [OF inv cas_success(2)] by simp
next
  case (cas_failure i w seen)
  then show ?thesis
    using budget_inv_move_pc [OF inv cas_failure(2)] pc_ok_nth [OF inv cas_failure(2)]
      budget_inv_available [OF inv] by simp
next
  case (drop i w)
  then show ?thesis
    using budget_inv_move [OF inv drop(2)] by simp
qed

lemma budget_reachable_inv: "budget_reachable cap n s \<Longrightarrow> budget_inv s \<and> shared_capacity s = cap"
proof (induction rule: budget_reachable.induct)
  case start
  show ?case by (simp add: budget_inv_start) (simp add: budget_start_def)
next
  case (step s t)
  then show ?case by (auto dest: budget_step_inv budget_step_capacity)
qed

lemma sum_list_held_zero: "\<forall>p \<in> set ps. held p = 0 \<Longrightarrow> sum_list (map held ps) = 0"
  by (induction ps) auto

lemma held_le_total: "i < length (threads s) \<Longrightarrow> held (threads s ! i) \<le> total_held s"
  unfolding total_held_def by (rule member_le_sum_list) simp_all

end
