(* ===== verification/Foundation_Properties.thy ===== *)
theory Foundation_Properties
  imports Sample_Externals Disclosure Policy Worker_Budget
begin

text \<open>
  The properties of the components below the engine: payload decoding, disclosures, the
  cryptographic policy, and the worker budget. Each is followed by an application to a concrete
  input where it has hypotheses.
\<close>

subsection \<open>Payload decoding\<close>

lemma unique_value_from_slice_eq_Inr:
  "unique_value_from_slice X bytes = Inr v \<longleftrightarrow>
     unique_value (json_custom_error X bytes) (json_events X bytes) = Inr v \<and> json_trailing X bytes = None"
  by (auto simp: unique_value_from_slice_def split: sum.split option.split)

lemma unique_value_Object:
  "unique_value fail e = Inr (Object m) \<Longrightarrow> \<exists>ms. e = EvMap ms"
  by (cases e) (auto split: sum.splits if_splits)

text \<open>C36. A JWT payload is accepted exactly when its base64 text decodes to JSON bytes without
  trailing text whose value is an object in which no object at any depth repeats a member and no
  number is non-finite. The accepted claims then have distinct members at every depth.\<close>

theorem payload_accepted_iff_unique:
  "(\<exists>claims. jwt_payload_decode X b64 = Ok claims) =
     (\<exists>bytes members. base64_decode X b64 = Inr bytes \<and> json_events X bytes = EvMap members \<and>
        event_unique (EvMap members) \<and> event_clean (EvMap members) \<and> json_trailing X bytes = None) \<and>
   (\<forall>claims. jwt_payload_decode X b64 = Ok claims \<longrightarrow> wf_json (Object claims))"
proof -
  have "(\<exists>m. unique_value fail e = Inr (Object m)) \<longleftrightarrow> (\<exists>ms. e = EvMap ms \<and> event_unique e \<and> event_clean e)"
    for fail e
  proof
    assume "\<exists>m. unique_value fail e = Inr (Object m)"
    then show "\<exists>ms. e = EvMap ms \<and> event_unique e \<and> event_clean e"
      using unique_value_Object visitor_accepts_iff(1) [of fail e] by blast
  next
    assume "\<exists>ms. e = EvMap ms \<and> event_unique e \<and> event_clean e"
    then obtain ms v where e: "e = EvMap ms" and "unique_value fail e = Inr v"
      using visitor_accepts_iff(1) [of fail e] by blast
    then show "\<exists>m. unique_value fail e = Inr (Object m)" by (auto split: sum.splits)
  qed
  note events = this
  have "(\<exists>claims. jwt_payload_decode X b64 = Ok claims) \<longleftrightarrow>
      (\<exists>bytes. base64_decode X b64 = Inr bytes \<and>
         (\<exists>m. unique_value (json_custom_error X bytes) (json_events X bytes) = Inr (Object m)) \<and>
         json_trailing X bytes = None)"
    unfolding jwt_payload_decode_eq_Ok unique_value_from_slice_eq_Inr by blast
  then show ?thesis
    unfolding events using jwt_payload_decode_wf by fastforce
qed

theorem payload_accepted_iff_unique_witness:
  "wf_json (Object sample_payload)"
  using payload_accepted_iff_unique [of "sample_externals sample_world_1" "''fa''", THEN conjunct2]
  by (simp add: jwt_payload_decode_def base64url_decode_def unique_value_from_slice_def sample_externals_def
      sample_parse_def sample_world_1_def sample_texts_def sample_payload_def is_nibble_def byte_def
      contains_key_def map_insert_def)

subsection \<open>Disclosures\<close>

lemma chars_escaped: "chars (escape_unicode_chars s) = escaped (chars s)"
  by (simp add: chars_ascii escape_unicode_chars_ascii) (simp add: escape_unicode_chars_def escaped_def)

text \<open>C38. The text of a disclosed value that goes into a disclosure is pure ASCII, and it is the
  same JSON text as before it was made so (what the serializer produced, respaced when the feature
  \<open>mock_salts\<close> is on): read as JSON, it has the same characters, escapes and
  UTF-16 units. The hypotheses say that that text is well-formed UTF-8 in which a
  backslash is always followed by an ASCII character, as in every JSON text.\<close>

theorem disclosed_value_text_faithful:
  assumes "escapes_ascii (chars (value_text X v))"
    and "\<And>n. n \<in> set (chars (value_text X v)) \<Longrightarrow> is_scalar n"
  shows "is_ascii (ascii_value_text X v) \<and>
     json_items (chars (ascii_value_text X v)) = json_items (chars (value_text X v))"
proof (cases "is_ascii (value_text X v)")
  case True
  then show ?thesis by (simp add: ascii_value_text_def)
next
  case False
  have "json_items (escaped (chars (value_text X v))) = json_items (chars (value_text X v))"
    by (rule json_items_escaped) (use assms in blast)+
  with False show ?thesis
    by (simp add: ascii_value_text_def escape_unicode_chars_ascii chars_escaped)
qed

definition accented_world :: sample_world where
  "accented_world = \<lparr>sw_texts = [([CHR 0x22, CHR 0xC3, CHR 0xA9, CHR 0x22], Null)], sw_tokens = []\<rparr>"

lemma accented_chars:
  "chars (sample_print accented_world Null) = [34, 233, 34]"
  by (simp add: sample_print_def accented_world_def chars.simps byte_def)

theorem disclosed_value_text_faithful_witness:
  "json_items (chars (ascii_value_text (sample_externals accented_world) Null)) = [Plain 34, Unit16 233, Plain 34]"
proof -
  let ?X = "sample_externals accented_world"
  have shown: "value_text ?X Null = sample_print accented_world Null"
    by (simp add: value_text_def)
  have "json_items (chars (ascii_value_text ?X Null)) = json_items (chars (value_text ?X Null))"
    by (rule disclosed_value_text_faithful [THEN conjunct2])
      (auto simp: shown accented_chars is_scalar_def)
  then show ?thesis
    by (simp add: shown accented_chars json_items.simps(2) encode_utf16_def)
qed

subsection \<open>Confirmation keys\<close>

text \<open>The issuer, the holder and the verifier accept the \<open>cnf\<close> claim of a token exactly when it
  carries no \<open>jwk\<close>, or one that is an object, is not a symmetric key and has none of the private
  members; the check returns an error otherwise and never panics.\<close>

theorem confirmation_claim_public:
  "(validate_public_confirmation_claim claims = Ok ()) = public_confirmation claims \<and>
   validate_public_confirmation_claim claims \<noteq> Panic"
  by (simp add: validate_public_confirmation_claim_Ok validate_public_confirmation_claim_not_Panic)

text \<open>A key binding key is usable with an algorithm exactly when its declared \<open>alg\<close> is absent or
  that algorithm, its \<open>use\<close> is absent or \<open>sig\<close>, its \<open>key_ops\<close> are absent or only \<open>verify\<close>, and it
  does not declare both.\<close>

theorem key_binding_key_policy:
  "(validate_key_binding_jwk_policy k a = Ok ()) =
     (jwk_algorithm k \<in> {None, Some (alg_debug a)} \<and>
      (jwk_use k, jwk_operations k) \<in>
         {(None, None), (Some UseSignature, None)} \<union> {(None, Some ops) | ops. ops \<noteq> [] \<and> set ops = {OpVerify}})"
  by (cases "jwk_algorithm k"; cases "jwk_use k"; cases "jwk_operations k")
    (auto simp: validate_key_binding_jwk_policy_Ok)

subsection \<open>Remote signatures and verification providers\<close>

text \<open>A remote signature is accepted exactly when it has the shape of the algorithm, the
  verification provider is installed and the signature verifies over the signing input; HMAC
  algorithms are refused whatever the bytes, and the check never panics.\<close>

theorem remote_signature_accepted_iff:
  "(verify_remote_signature X a input sig key = Ok ()) =
     (remote_signature_shape X a sig = Some True \<and> install_crypto_provider X = Ok () \<and>
      jws_verify X (base64_encode X sig) input key a = Inr True) \<and>
   (symmetric_algorithm a \<longrightarrow> verify_remote_signature X a input sig key \<noteq> Ok ()) \<and>
   verify_remote_signature X a input sig key \<noteq> Panic"
  by (cases a) (simp_all add: verify_remote_signature_Ok verify_remote_signature_not_Panic symmetric_algorithm_def)

theorem remote_signature_accepted_iff_witness:
  "verify_remote_signature (sample_externals sample_world_1) ES256 ''i'' ''s'' () = Ok ()"
  using remote_signature_accepted_iff [where X = "sample_externals sample_world_1" and a = ES256 and input = "''i''" and sig = "''s''" and key = "()"]
  by (simp add: sample_externals_def install_crypto_provider_def native_ensure_installed_def)

text \<open>C39. The browser provider is the native one without RSA. For every algorithm and key, an RSA
  algorithm is refused in the browser with the provider's error, and for any other algorithm the two
  factories return the same verifier or the same error. The native factory returns a verifier exactly
  for a key of the algorithm's family that decodes; the verifier reports that algorithm, and
  running it never panics, as RSA parameters are only looked up for RSA algorithms.\<close>

theorem browser_verifier_refines_native:
  "wasm_verifier X a key =
     (if rsa_algorithm a then Inl (ProviderError ''RSA verification is unavailable in browser WebAssembly builds'')
      else native_verifier X a key) \<and>
   ((\<exists>v. native_verifier X a key = Inr v) = usable_key X a key) \<and>
   (case native_verifier X a key of
      Inr v \<Rightarrow> verifier_algorithm v = a \<and> run_verifier X v message sig \<noteq> Panic
    | Inl e \<Rightarrow> True)"
  by (simp add: wasm_verifier_native native_verifier_usable native_verifier_runs split: sum.split)

theorem browser_verifier_refines_native_witness:
  "wasm_verifier (sample_externals sample_world_1) ES256 () = Inr (P256Verifier [])"
  using browser_verifier_refines_native [where X = "sample_externals sample_world_1" and a = ES256 and key = "()"]
  by (simp add: sample_externals_def native_verifier_def rsa_algorithm_def)

subsection \<open>The worker budget\<close>

text \<open>C10. However the threads that race on the counter interleave, and however often a
  compare-and-swap fails, free permits and held permits add up to the capacity, and every lease
  holds between two and all of them: the cap on worker threads is never exceeded.\<close>

theorem worker_permits_conserved:
  assumes "budget_reachable cap n s"
  shows "shared_available s + total_held s = cap \<and>
     (\<forall>i < length (threads s). held (threads s ! i) = 0 \<or> 2 \<le> held (threads s ! i) \<and> held (threads s ! i) \<le> cap)"
proof -
  from assms have inv: "budget_inv s" and cap: "shared_capacity s = cap"
    using budget_reachable_inv by auto
  have "held (threads s ! i) = 0 \<or> 2 \<le> held (threads s ! i) \<and> held (threads s ! i) \<le> cap"
    if "i < length (threads s)" for i
    using pc_ok_nth [OF inv that] cap by (cases "threads s ! i") auto
  with inv cap show ?thesis by (simp add: budget_inv_def)
qed

lemma budget_race_reachable:
  "budget_reachable 4 1 \<lparr>shared_available = 1, shared_capacity = 4, threads = [Holding 3]\<rparr>"
proof -
  have "budget_step (budget_start 4 1) \<lparr>shared_available = 4, shared_capacity = 4, threads = [Trying 3 4]\<rparr>"
    using budget_step.load [of 0 "budget_start 4 1" 3] by (simp add: budget_start_def)
  moreover have "budget_step \<lparr>shared_available = 4, shared_capacity = 4, threads = [Trying 3 4]\<rparr>
      \<lparr>shared_available = 1, shared_capacity = 4, threads = [Holding 3]\<rparr>"
    using budget_step.cas_success [of 0 "\<lparr>shared_available = 4, shared_capacity = 4, threads = [Trying 3 4]\<rparr>" 3 4]
    by simp
  ultimately show ?thesis by (meson budget_reachable.intros)
qed

theorem worker_permits_conserved_witness:
  "(1::nat) + total_held \<lparr>shared_available = 1, shared_capacity = 4, threads = [Holding 3]\<rparr> = 4"
  using worker_permits_conserved [OF budget_race_reachable] by simp

end
