(* ===== verification/Chunks.thy ===== *)
theory Chunks
  imports Prelude
begin

text \<open>
  The bounded native executors of src/src/disclosure_preprocessing.rs and
  src/src/issuer/issuance_plan.rs cut their job list into contiguous chunks of one size, run each
  chunk on a scoped thread and join the threads in order. What the operating system and the
  worker do is a parameter: \<open>spawn i\<close> says whether the i-th thread could be started, and a worker
  that panics returns \<open>None\<close>, which loses its whole chunk.
\<close>

definition static_chunk_size :: "nat \<Rightarrow> nat \<Rightarrow> nat" where
  "static_chunk_size job_count worker_count =
     job_count div worker_count + (if worker_count dvd job_count then 0 else 1)"

function chunks :: "nat \<Rightarrow> 'a list \<Rightarrow> 'a list list" where
  "chunks n xs = (if n = 0 \<or> xs = [] then [] else take n xs # chunks n (drop n xs))"
  by pat_completeness auto
termination
  by (relation "measure (\<lambda>(n, xs). length xs)") auto

declare chunks.simps [simp del]

lemma chunks_Nil [simp]: "chunks n [] = []"
  by (subst chunks.simps) simp

lemma concat_chunks: "0 < n \<Longrightarrow> concat (chunks n xs) = xs"
proof (induction n xs rule: chunks.induct)
  case (1 n xs)
  then show ?case
    by (cases "xs = []") (simp_all add: chunks.simps [of n xs])
qed

lemma chunks_nonempty: "c \<in> set (chunks n xs) \<Longrightarrow> c \<noteq> [] \<and> length c \<le> n"
proof (induction n xs rule: chunks.induct)
  case (1 n xs)
  then show ?case
    by (cases "n = 0 \<or> xs = []") (auto simp: chunks.simps [of n xs])
qed

lemma length_chunks: "length xs \<le> n * k \<Longrightarrow> length (chunks n xs) \<le> k"
proof (induction n xs arbitrary: k rule: chunks.induct)
  case (1 n xs)
  show ?case
  proof (cases "n = 0 \<or> xs = []")
    case True
    then show ?thesis by (auto simp: chunks.simps [of n xs])
  next
    case False
    with "1.prems" obtain k' where k: "k = Suc k'"
      by (cases k) auto
    have "length (drop n xs) \<le> n * k'"
      using "1.prems" k by simp
    with "1.IH" [OF False, of k'] False k show ?thesis
      by (simp add: chunks.simps [of n xs])
  qed
qed

lemma static_chunk_size_covers: "0 < w \<Longrightarrow> j \<le> static_chunk_size j w * w"
proof -
  assume w: "0 < w"
  have j: "j = j div w * w + j mod w" by simp
  show ?thesis
  proof (cases "w dvd j")
    case True
    then show ?thesis by (simp add: static_chunk_size_def)
  next
    case False
    have "j mod w < w" using w by simp
    then have "j \<le> (j div w + 1) * w"
      using j by (metis add.commute add_mult_distrib less_imp_le mult_1 nat_add_left_cancel_le)
    with False show ?thesis by (simp add: static_chunk_size_def)
  qed
qed

lemma static_chunk_size_pos: "0 < j \<Longrightarrow> 0 < w \<Longrightarrow> 0 < static_chunk_size j w"
  using static_chunk_size_covers [of w j] by (cases "static_chunk_size j w") auto

text \<open>Never more threads than workers.\<close>

lemma chunk_count: "0 < w \<Longrightarrow> length (chunks (static_chunk_size (length xs) w) xs) \<le> w"
  by (rule length_chunks) (rule static_chunk_size_covers)

fun spawned :: "(nat \<Rightarrow> bool) \<Rightarrow> nat \<Rightarrow> 'a list \<Rightarrow> 'a list" where
  "spawned spawn i [] = []"
| "spawned spawn i (c # cs) = (if spawn i then c # spawned spawn (Suc i) cs else [])"

fun run_chunk :: "('a \<Rightarrow> 'b option) \<Rightarrow> 'a list \<Rightarrow> 'b list option" where
  "run_chunk worker [] = Some []"
| "run_chunk worker (j # js) =
     (case worker j of
        None \<Rightarrow> None
      | Some r \<Rightarrow> map_option ((#) r) (run_chunk worker js))"

definition run_chunks ::
    "error \<Rightarrow> error \<Rightarrow> (nat \<Rightarrow> bool) \<Rightarrow> ('a \<Rightarrow> 'b option) \<Rightarrow> 'a list list \<Rightarrow> 'b list result" where
  "run_chunks spawn_failure worker_failure spawn worker cs =
     (let handles = spawned spawn 0 cs;
          joined = map (run_chunk worker) handles
      in if length handles < length cs then Err spawn_failure
         else if None \<in> set joined then Err worker_failure
         else Ok (concat (map (\<lambda>r. case r of None \<Rightarrow> [] | Some outcomes \<Rightarrow> outcomes) joined)))"

lemma spawned_all: "(\<And>i. spawn i) \<Longrightarrow> spawned spawn i cs = cs"
  by (induction cs arbitrary: i) auto

lemma length_spawned: "length (spawned spawn i cs) \<le> length cs"
  by (induction cs arbitrary: i) auto

lemma spawned_complete: "\<not> length (spawned spawn i cs) < length cs \<Longrightarrow> spawned spawn i cs = cs"
proof (induction cs arbitrary: i)
  case Nil
  then show ?case by simp
next
  case (Cons c cs)
  then show ?case by (auto split: if_splits)
qed

lemma run_chunk_total: "run_chunk (\<lambda>j. Some (f j)) js = Some (map f js)"
  by (induction js) auto

lemma run_chunk_Some: "run_chunk worker js = Some rs \<Longrightarrow> map worker js = map Some rs"
  by (induction js arbitrary: rs) (auto split: option.splits)

lemma map_Some_inject [simp]: "map Some xs = map Some ys \<longleftrightarrow> xs = ys"
  by (rule inj_map_eq_map) simp

lemma joined_Some:
  "None \<notin> set (map (run_chunk worker) cs) \<Longrightarrow>
     map Some (concat (map (\<lambda>r. case r of None \<Rightarrow> [] | Some outcomes \<Rightarrow> outcomes)
                        (map (run_chunk worker) cs)))
       = map worker (concat cs)"
proof (induction cs)
  case Nil
  then show ?case by simp
next
  case (Cons c cs)
  then obtain rs where "run_chunk worker c = Some rs"
    by (cases "run_chunk worker c") auto
  with Cons show ?case
    using run_chunk_Some [of worker c rs] by simp
qed

lemma run_chunks_Ok:
  "run_chunks e1 e2 spawn worker cs = Ok rs \<Longrightarrow> map worker (concat cs) = map Some rs"
  using joined_Some [of worker cs]
  by (auto simp: run_chunks_def Let_def dest!: spawned_complete split: if_splits)

lemma run_chunks_total:
  assumes "\<And>i. spawn i"
  shows "run_chunks e1 e2 spawn (\<lambda>j. Some (f j)) cs = Ok (map f (concat cs))"
proof -
  have "run_chunk (\<lambda>j. Some (f j)) = (\<lambda>c. Some (map f c))"
    by (rule ext) (rule run_chunk_total)
  then show ?thesis
    using assms by (simp add: run_chunks_def spawned_all comp_def map_concat image_iff)
qed

lemma run_chunks_cases:
  "run_chunks e1 e2 spawn worker cs \<in> {Err e1, Err e2} \<or>
     (\<exists>rs. run_chunks e1 e2 spawn worker cs = Ok rs \<and> map worker (concat cs) = map Some rs)"
  using run_chunks_Ok [of e1 e2 spawn worker cs]
  by (cases "run_chunks e1 e2 spawn worker cs") (auto simp: run_chunks_def Let_def split: if_splits)

end
