(* ===== verification/Preprocessing.thy ===== *)
theory Preprocessing
  imports Utils Chunks Worker_Budget "HOL-Library.Multiset"
begin

text \<open>
  src/src/disclosure_preprocessing.rs: decoding, parsing and hashing the presented disclosures.
  The serial executor is the behavioural oracle and stops at the first fault; the bounded native
  executor processes chunks on threads and a deterministic assembly restores the input order and
  rejects a result that does not belong to its job. The adaptive entry point chooses between them
  by the size of the work and the free worker permits.
\<close>

subsection \<open>Jobs, outcomes, mappings\<close>

record disclosure_job =
  job_ordinal :: nat
  job_encoded :: string

record processed_disclosure =
  proc_digest :: string
  proc_decoded :: json

record disclosure_outcome =
  out_ordinal :: nat
  out_encoded :: string
  out_result :: "processed_disclosure result option"

record disclosure_mappings =
  dm_decoded :: "string \<rightharpoonup> json"
  dm_encoded :: "string \<rightharpoonup> string"
  dm_ordered :: "string list"

definition empty_mappings :: disclosure_mappings where
  "empty_mappings = \<lparr>dm_decoded = Map.empty, dm_encoded = Map.empty, dm_ordered = []\<rparr>"

definition DUPLICATE_DISCLOSURE_DIGEST :: string where
  "DUPLICATE_DISCLOSURE_DIGEST = ''Duplicate Disclosure digest''"

definition executor_contract_error :: "string \<Rightarrow> error" where
  "executor_contract_error message =
     InvalidState (''Disclosure preprocessing executor contract violation: '' @ message)"

definition process_disclosure :: "'k externals \<Rightarrow> disclosure_job \<Rightarrow> disclosure_outcome" where
  "process_disclosure X job =
     \<lparr>out_ordinal = job_ordinal job,
      out_encoded = job_encoded job,
      out_result = Some (
        rbind (remap_err (\<lambda>err. InvalidDisclosure (''Error decoding disclosure: '' @ error_display err))
                (base64url_decode X (job_encoded job))) (\<lambda>bytes.
        rbind (map_err (\<lambda>err. InvalidDisclosure (''Error parsing disclosure: '' @ err))
                (json_from_slice X bytes)) (\<lambda>decoded.
        Ok \<lparr>proc_digest = base64_hash X (job_encoded job), proc_decoded = decoded\<rparr>)))\<rparr>"

definition plan_from :: "nat \<Rightarrow> string list \<Rightarrow> disclosure_job list" where
  "plan_from n encs = map (\<lambda>(i, e). \<lparr>job_ordinal = i, job_encoded = e\<rparr>) (enumerate n encs)"

definition plan_disclosures :: "string list \<Rightarrow> disclosure_job list" where
  "plan_disclosures encs = plan_from 0 encs"

text \<open>Publishing one processed disclosure: the duplicate check, then the three insertions.\<close>

definition add_processed ::
    "string \<Rightarrow> processed_disclosure \<Rightarrow> disclosure_mappings \<Rightarrow> disclosure_mappings result" where
  "add_processed enc processed m =
     (if proc_digest processed \<in> dom (dm_decoded m)
      then Err (DuplicateDigestError DUPLICATE_DISCLOSURE_DIGEST)
      else Ok \<lparr>dm_decoded = (dm_decoded m)(proc_digest processed \<mapsto> proc_decoded processed),
               dm_encoded = (dm_encoded m)(proc_digest processed \<mapsto> enc),
               dm_ordered = dm_ordered m @ [proc_digest processed]\<rparr>)"

subsection \<open>The serial executor\<close>

fun serial_loop ::
    "(disclosure_job \<Rightarrow> disclosure_outcome) \<Rightarrow> nat \<Rightarrow> disclosure_mappings \<Rightarrow> string list
       \<Rightarrow> disclosure_mappings result" where
  "serial_loop worker ordinal m [] = Ok m"
| "serial_loop worker ordinal m (enc # encs) =
     (let outcome = worker \<lparr>job_ordinal = ordinal, job_encoded = enc\<rparr>
      in if out_ordinal outcome \<noteq> ordinal
         then Err (executor_contract_error (''outcome ordinal '' @ dec (out_ordinal outcome)
                    @ '' does not match planned ordinal '' @ dec ordinal))
         else if out_encoded outcome \<noteq> enc
         then Err (executor_contract_error (''encoded identity changed for ordinal '' @ dec ordinal))
         else rbind (case out_result outcome of
                       Some r \<Rightarrow> r
                     | None \<Rightarrow> Err (executor_contract_error
                         (''no preprocessing result was returned for ordinal '' @ dec ordinal))) (\<lambda>processed.
              rbind (add_processed enc processed m) (\<lambda>m'.
              serial_loop worker (Suc ordinal) m' encs)))"

definition serial_preprocess_with_worker ::
    "(disclosure_job \<Rightarrow> disclosure_outcome) \<Rightarrow> string list \<Rightarrow> disclosure_mappings result" where
  "serial_preprocess_with_worker worker encs = serial_loop worker 0 empty_mappings encs"

definition serial_preprocess :: "'k externals \<Rightarrow> string list \<Rightarrow> disclosure_mappings result" where
  "serial_preprocess X encs = serial_preprocess_with_worker (process_disclosure X) encs"

subsection \<open>Assembly of outcomes\<close>

fun check_job_ordinals :: "nat \<Rightarrow> disclosure_job list \<Rightarrow> unit result" where
  "check_job_ordinals expected [] = Ok ()"
| "check_job_ordinals expected (job # jobs) =
     (if job_ordinal job \<noteq> expected
      then Err (executor_contract_error (''job ordinal '' @ dec (job_ordinal job)
                 @ '' does not match planned ordinal '' @ dec expected))
      else check_job_ordinals (Suc expected) jobs)"

fun find_duplicate :: "disclosure_outcome list \<Rightarrow> disclosure_outcome option" where
  "find_duplicate (a # b # os) =
     (if out_ordinal a = out_ordinal b then Some a else find_duplicate (b # os))"
| "find_duplicate os = None"

fun check_outcomes :: "disclosure_job list \<Rightarrow> nat \<Rightarrow> disclosure_outcome list \<Rightarrow> unit result" where
  "check_outcomes jobs expected [] = Ok ()"
| "check_outcomes jobs expected (outcome # os) =
     (if out_ordinal outcome \<noteq> expected
      then Err (executor_contract_error (''no outcome was returned for ordinal '' @ dec expected))
      else if length jobs \<le> expected then Panic
      else if out_encoded outcome \<noteq> job_encoded (jobs ! expected)
      then Err (executor_contract_error (''encoded identity changed for ordinal '' @ dec expected))
      else check_outcomes jobs (Suc expected) os)"

definition validate_outcome_contract ::
    "disclosure_job list \<Rightarrow> disclosure_outcome list \<Rightarrow> unit result" where
  "validate_outcome_contract jobs outcomes =
     rbind (check_job_ordinals 0 jobs) (\<lambda>_.
     case find (\<lambda>outcome. length jobs \<le> out_ordinal outcome) outcomes of
       Some outcome \<Rightarrow>
         Err (executor_contract_error (''outcome ordinal '' @ dec (out_ordinal outcome)
                @ '' is out of range for '' @ dec (length jobs) @ '' jobs''))
     | None \<Rightarrow>
         (case find_duplicate outcomes of
            Some duplicate \<Rightarrow>
              Err (executor_contract_error (''multiple outcomes were returned for ordinal ''
                     @ dec (out_ordinal duplicate)))
          | None \<Rightarrow>
              rbind (check_outcomes jobs 0 outcomes) (\<lambda>_.
              if length outcomes < length jobs
              then Err (executor_contract_error (''no outcome was returned for ordinal ''
                          @ dec (length outcomes)))
              else Ok ())))"

fun assemble_loop ::
    "disclosure_mappings \<Rightarrow> disclosure_outcome list \<Rightarrow> disclosure_mappings result" where
  "assemble_loop m [] = Ok m"
| "assemble_loop m (outcome # os) =
     rbind (case out_result outcome of
              Some r \<Rightarrow> r
            | None \<Rightarrow> Err (executor_contract_error
                (''no preprocessing result was returned for ordinal '' @ dec (out_ordinal outcome)))) (\<lambda>processed.
     rbind (add_processed (out_encoded outcome) processed m) (\<lambda>m'.
     assemble_loop m' os))"

definition assemble_disclosures ::
    "disclosure_job list \<Rightarrow> disclosure_outcome list \<Rightarrow> disclosure_mappings result" where
  "assemble_disclosures jobs outcomes =
     (let sorted_outcomes = sort_key out_ordinal outcomes
      in rbind (validate_outcome_contract jobs sorted_outcomes) (\<lambda>_.
         assemble_loop empty_mappings sorted_outcomes))"

subsection \<open>The bounded native executor\<close>

definition MAX_PARALLEL_WORKERS :: nat where "MAX_PARALLEL_WORKERS = 4"

definition PARALLEL_WORKER_FAILURE :: string where
  "PARALLEL_WORKER_FAILURE = ''Disclosure preprocessing executor failure: worker panicked''"

definition PARALLEL_SPAWN_FAILURE :: string where
  "PARALLEL_SPAWN_FAILURE = ''Disclosure preprocessing executor failure: could not spawn worker''"

definition clamp_workers :: "nat \<Rightarrow> nat" where
  "clamp_workers n = min (max n 1) MAX_PARALLEL_WORKERS"

definition native_execute ::
    "nat \<Rightarrow> (nat \<Rightarrow> bool) \<Rightarrow> (disclosure_job \<Rightarrow> disclosure_outcome option) \<Rightarrow> disclosure_job list
       \<Rightarrow> disclosure_outcome list result" where
  "native_execute worker_count spawn worker jobs =
     (if jobs = [] then Ok []
      else let workers = min worker_count (length jobs);
               chunk_size = static_chunk_size (length jobs) workers
           in run_chunks (InvalidState PARALLEL_SPAWN_FAILURE) (InvalidState PARALLEL_WORKER_FAILURE)
                spawn worker (chunks chunk_size jobs))"

definition preprocess_parallel_with_lease ::
    "'k externals \<Rightarrow> (nat \<Rightarrow> bool) \<Rightarrow> string list \<Rightarrow> nat \<Rightarrow> disclosure_mappings result" where
  "preprocess_parallel_with_lease X spawn encs lease =
     (let jobs = plan_disclosures encs
      in rbind (native_execute (clamp_workers lease) spawn (\<lambda>job. Some (process_disclosure X job)) jobs) (\<lambda>outcomes.
         assemble_disclosures jobs outcomes))"

subsection \<open>The execution policy\<close>

definition PARALLEL_MIN_DISCLOSURES :: nat where "PARALLEL_MIN_DISCLOSURES = 128"

definition PARALLEL_MIN_TOTAL_ENCODED_BYTES :: nat where
  "PARALLEL_MIN_TOTAL_ENCODED_BYTES = 1024 * 1024"

datatype execution_mode = SerialMode | NativeParallel nat

fun total_loop :: "nat \<Rightarrow> nat \<Rightarrow> nat \<Rightarrow> nat list \<Rightarrow> (nat \<times> nat) option" where
  "total_loop disclosure_count observed total_bytes [] = Some (observed, total_bytes)"
| "total_loop disclosure_count observed total_bytes (l # ls) =
     (if observed = disclosure_count then None
      else total_loop disclosure_count (observed + 1) (saturating_add_u128 total_bytes l) ls)"

definition eligible_total_encoded_bytes :: "nat \<Rightarrow> nat list \<Rightarrow> nat option" where
  "eligible_total_encoded_bytes disclosure_count encoded_lengths =
     (if disclosure_count < PARALLEL_MIN_DISCLOSURES then None
      else case total_loop disclosure_count 0 0 encoded_lengths of
             None \<Rightarrow> None
           | Some (observed, total_bytes) \<Rightarrow>
               if observed \<noteq> disclosure_count \<or> total_bytes < PARALLEL_MIN_TOTAL_ENCODED_BYTES then None
               else Some total_bytes)"

definition bounded_worker_count :: "nat \<Rightarrow> nat \<Rightarrow> nat option" where
  "bounded_worker_count disclosure_count available_threads =
     (let worker_count = min (min available_threads disclosure_count) MAX_PARALLEL_WORKERS
      in if 1 < worker_count then Some worker_count else None)"

fun balance_loop :: "nat \<Rightarrow> nat \<Rightarrow> nat \<Rightarrow> nat \<Rightarrow> nat \<Rightarrow> nat list \<Rightarrow> (nat \<times> nat \<times> nat) option" where
  "balance_loop disclosure_count chunk_size observed current largest [] =
     Some (observed, current, largest)"
| "balance_loop disclosure_count chunk_size observed current largest (l # ls) =
     (if observed = disclosure_count then None
      else let current' = saturating_add_u128 current l; observed' = observed + 1
           in if chunk_size dvd observed'
              then balance_loop disclosure_count chunk_size observed' 0 (max largest current') ls
              else balance_loop disclosure_count chunk_size observed' current' largest ls)"

definition select_execution_mode_for_balanced_lengths ::
    "nat \<Rightarrow> nat list \<Rightarrow> nat \<Rightarrow> nat \<Rightarrow> execution_mode" where
  "select_execution_mode_for_balanced_lengths disclosure_count encoded_lengths total_bytes available_threads =
     (case bounded_worker_count disclosure_count available_threads of
        None \<Rightarrow> SerialMode
      | Some worker_count \<Rightarrow>
          (case balance_loop disclosure_count (static_chunk_size disclosure_count worker_count)
                  0 0 0 encoded_lengths of
             None \<Rightarrow> SerialMode
           | Some (observed, current, largest) \<Rightarrow>
               if observed \<noteq> disclosure_count then SerialMode
               else if total_bytes div 2 + total_bytes mod 2 < max largest current then SerialMode
               else NativeParallel worker_count))"

text \<open>
  The adaptive entry point returns the mappings and the budget afterwards: every path gives back
  the permits it took.
\<close>

definition preprocess_with_budget ::
    "'k externals \<Rightarrow> (nat \<Rightarrow> bool) \<Rightarrow> string list \<Rightarrow> worker_budget \<Rightarrow> nat
       \<Rightarrow> disclosure_mappings result \<times> worker_budget" where
  "preprocess_with_budget X spawn encs budget available_threads =
     (if length encs < PARALLEL_MIN_DISCLOSURES then (serial_preprocess X encs, budget)
      else case eligible_total_encoded_bytes (length encs) (map length encs) of
        None \<Rightarrow> (serial_preprocess X encs, budget)
      | Some total_bytes \<Rightarrow>
          (case bounded_worker_count (length encs) available_threads of
             None \<Rightarrow> (serial_preprocess X encs, budget)
           | Some worker_count \<Rightarrow>
               (case try_acquire budget worker_count of
                  (None, budget') \<Rightarrow> (serial_preprocess X encs, budget')
                | (Some lease, budget') \<Rightarrow>
                    (case select_execution_mode_for_balanced_lengths (length encs)
                            (map length encs) total_bytes available_threads of
                       SerialMode \<Rightarrow> (serial_preprocess X encs, drop_lease budget' lease)
                     | NativeParallel selected \<Rightarrow>
                         (preprocess_parallel_with_lease X spawn encs lease,
                          drop_lease budget' lease)))))"

text \<open>
  The verifier's entry point is adaptive when the \<open>parallel\<close> feature is compiled in on x86-64
  (\<open>par\<close>), serial otherwise; the holder's is always serial.
\<close>

definition preprocess_disclosures ::
    "bool \<Rightarrow> 'k externals \<Rightarrow> (nat \<Rightarrow> bool) \<Rightarrow> worker_budget \<Rightarrow> nat \<Rightarrow> string list
       \<Rightarrow> disclosure_mappings result \<times> worker_budget" where
  "preprocess_disclosures par X spawn budget available_threads encs =
     (if par then preprocess_with_budget X spawn encs budget available_threads
      else (serial_preprocess X encs, budget))"

definition preprocess_disclosures_serial ::
    "'k externals \<Rightarrow> string list \<Rightarrow> disclosure_mappings result" where
  "preprocess_disclosures_serial X encs = serial_preprocess X encs"

subsection \<open>What a disclosure contributes\<close>

text \<open>The specification: the decoded value of one encoded disclosure, and its fault if it has one.\<close>

definition decode_disclosure :: "'k externals \<Rightarrow> string \<Rightarrow> json result" where
  "decode_disclosure X enc =
     (case base64_decode X enc of
        Inl err \<Rightarrow> Err (InvalidDisclosure
                     (''Error decoding disclosure: '' @ error_display (DeserializationError err)))
      | Inr bytes \<Rightarrow>
          (case json_from_slice X bytes of
             Inl err \<Rightarrow> Err (InvalidDisclosure (''Error parsing disclosure: '' @ err))
           | Inr v \<Rightarrow> Ok v))"

lemma decode_disclosure_not_Panic: "decode_disclosure X enc \<noteq> Panic"
  by (simp add: decode_disclosure_def split: sum.split)

lemma process_disclosure_sel [simp]:
  "out_ordinal (process_disclosure X job) = job_ordinal job"
  "out_encoded (process_disclosure X job) = job_encoded job"
  "out_result (process_disclosure X job) =
     Some (rbind (decode_disclosure X (job_encoded job)) (\<lambda>v.
       Ok \<lparr>proc_digest = base64_hash X (job_encoded job), proc_decoded = v\<rparr>))"
  by (simp_all add: process_disclosure_def decode_disclosure_def base64url_decode_def
      split: sum.split)

lemma plan_from_simps [simp]:
  "plan_from n [] = []"
  "plan_from n (e # es) = \<lparr>job_ordinal = n, job_encoded = e\<rparr> # plan_from (Suc n) es"
  by (simp_all add: plan_from_def)

lemma plan_from_ordinals: "map job_ordinal (plan_from n es) = [n..<n + length es]"
proof (induction es arbitrary: n)
  case Nil
  then show ?case by simp
next
  case (Cons e es)
  have "n < n + length (e # es)" by simp
  then have "[n..<n + length (e # es)] = n # [Suc n..<n + length (e # es)]"
    by (rule upt_conv_Cons)
  then show ?case
    using Cons.IH [of "Suc n"] by (simp del: upt_Suc)
qed

lemma plan_from_encoded: "map job_encoded (plan_from n es) = es"
  by (induction es arbitrary: n) auto

lemma length_plan_from [simp]: "length (plan_from n es) = length es"
  by (simp add: plan_from_def)

subsection \<open>The serial executor, functionally\<close>

definition mappings_of :: "'k externals \<Rightarrow> string list \<Rightarrow> disclosure_mappings" where
  "mappings_of X encs =
     \<lparr>dm_decoded = map_of (rev (map (\<lambda>e. (base64_hash X e,
          case decode_disclosure X e of Ok v \<Rightarrow> v | _ \<Rightarrow> Null)) encs)),
      dm_encoded = map_of (rev (map (\<lambda>e. (base64_hash X e, e)) encs)),
      dm_ordered = map (base64_hash X) encs\<rparr>"

lemma mappings_of_Nil: "mappings_of X [] = empty_mappings"
  by (simp add: mappings_of_def empty_mappings_def)

lemma dom_mappings_of: "dom (dm_decoded (mappings_of X encs)) = base64_hash X ` set encs"
  by (simp add: mappings_of_def dom_map_of_conv_image_fst image_image)

lemma add_processed_mappings_of:
  "decode_disclosure X e = Ok v \<Longrightarrow>
     add_processed e \<lparr>proc_digest = base64_hash X e, proc_decoded = v\<rparr> (mappings_of X encs) =
       (if base64_hash X e \<in> base64_hash X ` set encs
        then Err (DuplicateDigestError DUPLICATE_DISCLOSURE_DIGEST)
        else Ok (mappings_of X (encs @ [e])))"
  using dom_mappings_of [of X encs]
  by (auto simp: add_processed_def) (simp_all add: mappings_of_def)

definition serial_step :: "'k externals \<Rightarrow> string \<Rightarrow> disclosure_mappings \<Rightarrow> disclosure_mappings result" where
  "serial_step X e m =
     rbind (decode_disclosure X e) (\<lambda>v.
     add_processed e \<lparr>proc_digest = base64_hash X e, proc_decoded = v\<rparr> m)"

lemma serial_loop_Cons:
  "serial_loop (process_disclosure X) n m (e # es) =
     rbind (serial_step X e m) (\<lambda>m'. serial_loop (process_disclosure X) (Suc n) m' es)"
  by (simp add: serial_step_def rbind_assoc)

lemma assemble_loop_plan_Cons:
  "assemble_loop m (map (process_disclosure X) (plan_from n (e # es))) =
     rbind (serial_step X e m) (\<lambda>m'. assemble_loop m' (map (process_disclosure X) (plan_from (Suc n) es)))"
  by (simp add: serial_step_def rbind_assoc)

text \<open>Assembly over outcomes in input order is the serial loop, faults included.\<close>

lemma assemble_loop_plan:
  "assemble_loop m (map (process_disclosure X) (plan_from n es)) =
     serial_loop (process_disclosure X) n m es"
proof (induction es arbitrary: n m)
  case Nil
  then show ?case by simp
next
  case (Cons e es)
  show ?case
    unfolding assemble_loop_plan_Cons serial_loop_Cons by (simp only: Cons.IH)
qed

lemma serial_loop_append:
  "serial_loop (process_disclosure X) n m (es @ es') =
     rbind (serial_loop (process_disclosure X) n m es) (\<lambda>m'.
       serial_loop (process_disclosure X) (n + length es) m' es')"
proof (induction es arbitrary: n m)
  case Nil
  then show ?case by simp
next
  case (Cons e es)
  have "serial_loop (process_disclosure X) n m (e # es @ es') =
      rbind (serial_step X e m) (\<lambda>m'. serial_loop (process_disclosure X) (Suc n) m' (es @ es'))"
    by (rule serial_loop_Cons)
  then show ?case
    unfolding append_Cons serial_loop_Cons Cons.IH by (simp add: rbind_assoc)
qed

definition presentable :: "'k externals \<Rightarrow> string list \<Rightarrow> bool" where
  "presentable X encs \<longleftrightarrow>
     (\<forall>e \<in> set encs. is_ok (decode_disclosure X e)) \<and> distinct (map (base64_hash X) encs)"

lemma serial_loop_mappings:
  "presentable X pre \<Longrightarrow>
     serial_loop (process_disclosure X) n (mappings_of X pre) es =
       (if presentable X (pre @ es) then Ok (mappings_of X (pre @ es))
        else serial_loop (process_disclosure X) n (mappings_of X pre) es)"
proof (induction es arbitrary: n pre)
  case Nil
  then show ?case by simp
next
  case (Cons e es)
  show ?case
  proof (cases "presentable X (pre @ e # es)")
    case False
    then show ?thesis by simp
  next
    case True
    then obtain v where v: "decode_disclosure X e = Ok v"
      by (auto simp: presentable_def is_ok_conv)
    have "presentable X (pre @ [e])" and "base64_hash X e \<notin> base64_hash X ` set pre"
      using True by (auto simp: presentable_def)
    then show ?thesis
      using Cons.IH [of "pre @ [e]" "Suc n"] True v
      unfolding serial_loop_Cons by (simp add: serial_step_def add_processed_mappings_of)
  qed
qed

lemma serial_loop_Ok_presentable:
  "serial_loop (process_disclosure X) n (mappings_of X pre) es = Ok m \<Longrightarrow> presentable X pre \<Longrightarrow>
     presentable X (pre @ es) \<and> m = mappings_of X (pre @ es)"
proof (induction es arbitrary: n pre)
  case Nil
  then show ?case by simp
next
  case (Cons e es)
  from Cons.prems(1) obtain v where v: "decode_disclosure X e = Ok v"
    and fresh: "base64_hash X e \<notin> base64_hash X ` set pre"
    and rest: "serial_loop (process_disclosure X) (Suc n) (mappings_of X (pre @ [e])) es = Ok m"
    unfolding serial_loop_Cons
    by (auto simp: serial_step_def rbind_eq_Ok add_processed_mappings_of split: if_splits)
  have "presentable X (pre @ [e])"
    using Cons.prems(2) v fresh by (auto simp: presentable_def)
  from Cons.IH [OF rest this] show ?case by simp
qed

lemma serial_preprocess_Ok:
  "serial_preprocess X encs = Ok m \<longleftrightarrow> presentable X encs \<and> m = mappings_of X encs"
proof
  assume "serial_preprocess X encs = Ok m"
  then show "presentable X encs \<and> m = mappings_of X encs"
    using serial_loop_Ok_presentable [of X 0 "[]" encs m]
    by (simp add: serial_preprocess_def serial_preprocess_with_worker_def mappings_of_Nil
        presentable_def)
next
  assume "presentable X encs \<and> m = mappings_of X encs"
  then show "serial_preprocess X encs = Ok m"
    using serial_loop_mappings [of X "[]" 0 encs]
    by (simp add: serial_preprocess_def serial_preprocess_with_worker_def mappings_of_Nil
        presentable_def)
qed

lemma serial_step_not_Panic: "serial_step X e m \<noteq> Panic"
  by (simp add: serial_step_def rbind_eq_Panic decode_disclosure_not_Panic add_processed_def)

lemma serial_loop_not_Panic: "serial_loop (process_disclosure X) n m es \<noteq> Panic"
proof (induction es arbitrary: n m)
  case Nil
  then show ?case by simp
next
  case (Cons e es)
  then show ?case
    unfolding serial_loop_Cons by (simp add: rbind_eq_Panic serial_step_not_Panic)
qed


lemma serial_preprocess_not_Panic: "serial_preprocess X encs \<noteq> Panic"
  by (simp add: serial_preprocess_def serial_preprocess_with_worker_def serial_loop_not_Panic)

lemma serial_preprocess_append_Err:
  "serial_preprocess X es = Err e \<Longrightarrow> serial_preprocess X (es @ es') = Err e"
  by (simp add: serial_preprocess_def serial_preprocess_with_worker_def serial_loop_append)

subsection \<open>Assembly accepts exactly one outcome per job, in any order\<close>

lemma check_job_ordinals_iff:
  "check_job_ordinals n jobs = Ok () \<longleftrightarrow> map job_ordinal jobs = [n..<n + length jobs]"
proof (induction jobs arbitrary: n)
  case Nil
  then show ?case by simp
next
  case (Cons j js)
  have "[n..<n + length (j # js)] = n # [Suc n..<Suc n + length js]"
    by (simp add: upt_conv_Cons del: upt_Suc)
  then show ?case
    using Cons.IH [of "Suc n"] by (auto simp del: upt_Suc)
qed

lemma find_duplicate_None: "distinct (map out_ordinal os) \<Longrightarrow> find_duplicate os = None"
  by (induction os rule: find_duplicate.induct) auto

lemma check_outcomes_iff:
  "n + length os \<le> length jobs \<Longrightarrow>
     check_outcomes jobs n os = Ok () \<longleftrightarrow>
       map (\<lambda>r. (out_ordinal r, out_encoded r)) os =
       map (\<lambda>i. (i, job_encoded (jobs ! i))) [n..<n + length os]"
proof (induction os arbitrary: n)
  case Nil
  then show ?case by simp
next
  case (Cons r rs)
  have up: "[n..<n + length (r # rs)] = n # [Suc n..<Suc n + length rs]"
    by (simp add: upt_conv_Cons del: upt_Suc)
  show ?case
    unfolding up using Cons.IH [of "Suc n"] Cons.prems by (auto simp del: upt_Suc)
qed

lemma check_outcomes_no_Panic:
  "\<forall>r \<in> set os. out_ordinal r < length jobs \<Longrightarrow> check_outcomes jobs n os \<noteq> Panic"
  by (induction os arbitrary: n) auto

lemma check_outcomes_ordinals:
  "check_outcomes jobs n os = Ok () \<Longrightarrow> map out_ordinal os = [n..<n + length os]"
proof (induction os arbitrary: n)
  case Nil
  then show ?case by simp
next
  case (Cons r rs)
  have "[n..<n + length (r # rs)] = n # [Suc n..<Suc n + length rs]"
    by (simp add: upt_conv_Cons del: upt_Suc)
  then show ?case
    using Cons.IH [of "Suc n"] Cons.prems by (auto simp del: upt_Suc split: if_splits)
qed

text \<open>The identity of a job: what an outcome must repeat to be accepted for it.\<close>

definition outcome_identity :: "disclosure_outcome \<Rightarrow> nat \<times> string" where
  "outcome_identity r = (out_ordinal r, out_encoded r)"

definition job_identity :: "disclosure_job \<Rightarrow> nat \<times> string" where
  "job_identity j = (job_ordinal j, job_encoded j)"

lemma job_identities_indexed:
  assumes "map job_ordinal jobs = [0..<length jobs]"
  shows "map job_identity jobs = map (\<lambda>i. (i, job_encoded (jobs ! i))) [0..<length jobs]"
proof (rule nth_equalityI)
  fix i assume "i < length (map job_identity jobs)"
  moreover from this have "job_ordinal (jobs ! i) = i"
    using arg_cong [where f = "\<lambda>xs. xs ! i", OF assms] by simp
  ultimately show "map job_identity jobs ! i = map (\<lambda>i. (i, job_encoded (jobs ! i))) [0..<length jobs] ! i"
    by (simp add: job_identity_def)
qed simp

lemma validate_outcome_contract_iff:
  "validate_outcome_contract jobs os = Ok () \<longleftrightarrow>
     map job_ordinal jobs = [0..<length jobs] \<and> map outcome_identity os = map job_identity jobs"
proof
  assume ok: "validate_outcome_contract jobs os = Ok ()"
  then have j: "map job_ordinal jobs = [0..<length jobs]"
    using check_job_ordinals_iff [of 0 jobs]
    by (auto simp: validate_outcome_contract_def rbind_eq_Ok)
  from ok have inr: "find (\<lambda>r. length jobs \<le> out_ordinal r) os = None"
    and chk: "check_outcomes jobs 0 os = Ok ()" and len: "length jobs \<le> length os"
    by (auto simp: validate_outcome_contract_def rbind_eq_Ok split: option.splits if_splits)
  have ords: "map out_ordinal os = [0..<length os]"
    using check_outcomes_ordinals [OF chk] by simp
  have "length os \<le> length jobs"
  proof (rule ccontr)
    assume long: "\<not> length os \<le> length jobs"
    then have "out_ordinal (os ! length jobs) = length jobs"
      using arg_cong [where f = "\<lambda>xs. xs ! length jobs", OF ords] by simp
    moreover have "os ! length jobs \<in> set os"
      using long by simp
    ultimately show False
      using inr by (auto simp: find_None_iff)
  qed
  with len have "length os = length jobs" by simp
  with chk check_outcomes_iff [of 0 os jobs] job_identities_indexed [OF j]
  show "map job_ordinal jobs = [0..<length jobs] \<and> map outcome_identity os = map job_identity jobs"
    using j by (simp add: outcome_identity_def [abs_def])
next
  assume asm: "map job_ordinal jobs = [0..<length jobs] \<and> map outcome_identity os = map job_identity jobs"
  then have ids: "map (\<lambda>r. (out_ordinal r, out_encoded r)) os =
      map (\<lambda>i. (i, job_encoded (jobs ! i))) [0..<length jobs]"
    using job_identities_indexed [of jobs] by (simp add: outcome_identity_def [abs_def])
  then have len: "length os = length jobs"
    by (metis diff_zero length_map length_upt)
  have "map fst (map (\<lambda>r. (out_ordinal r, out_encoded r)) os) = [0..<length jobs]"
    unfolding ids by (simp add: comp_def)
  then have ords: "map out_ordinal os = [0..<length jobs]"
    by (simp add: comp_def)
  then have "distinct (map out_ordinal os)" by simp
  moreover have "\<And>r. r \<in> set os \<Longrightarrow> out_ordinal r < length jobs"
  proof -
    fix r assume "r \<in> set os"
    then have "out_ordinal r \<in> set (map out_ordinal os)" by simp
    then show "out_ordinal r < length jobs" unfolding ords by simp
  qed
  then have "find (\<lambda>r. length jobs \<le> out_ordinal r) os = None"
    by (fastforce simp: find_None_iff)
  ultimately show "validate_outcome_contract jobs os = Ok ()"
    using asm ids len check_outcomes_iff [of 0 os jobs] check_job_ordinals_iff [of 0 jobs]
    by (simp add: validate_outcome_contract_def find_duplicate_None)
qed


lemma validate_outcome_contract_not_Panic: "validate_outcome_contract jobs os \<noteq> Panic"
proof -
  have "check_job_ordinals n js \<noteq> Panic" for n and js :: "disclosure_job list"
    by (induction js arbitrary: n) auto
  moreover have "find (\<lambda>r. length jobs \<le> out_ordinal r) os = None \<Longrightarrow> check_outcomes jobs 0 os \<noteq> Panic"
    by (rule check_outcomes_no_Panic) (auto simp: find_None_iff not_le)
  ultimately show ?thesis
    by (auto simp: validate_outcome_contract_def rbind_eq_Panic split: option.splits if_splits)
qed

lemma plan_disclosures_ordinals:
  "map job_ordinal (plan_disclosures encs) = [0..<length (plan_disclosures encs)]"
  using plan_from_ordinals [of 0 encs] by (simp add: plan_disclosures_def)

lemma process_identity: "outcome_identity (process_disclosure X j) = job_identity j"
  by (simp add: outcome_identity_def job_identity_def)

lemma sort_key_plan:
  assumes "mset os = mset (map (process_disclosure X) (plan_disclosures encs))"
  shows "sort_key out_ordinal os = map (process_disclosure X) (plan_disclosures encs)"
proof (rule sort_key_inj_key_eq)
  let ?ys = "map (process_disclosure X) (plan_disclosures encs)"
  have ords: "map out_ordinal ?ys = [0..<length (plan_disclosures encs)]"
    using plan_disclosures_ordinals [of encs] by (simp add: comp_def)
  show "mset os = mset ?ys" by fact
  have "distinct (map out_ordinal ?ys)"
    unfolding ords by simp
  then have "inj_on out_ordinal (set ?ys)"
    by (simp only: distinct_map)
  then show "inj_on out_ordinal (set os)"
    using mset_eq_setD [OF assms] by simp
  show "sorted (map out_ordinal ?ys)"
    unfolding ords by simp
qed

lemma assemble_processed:
  assumes "mset os = mset (map (process_disclosure X) (plan_disclosures encs))"
  shows "assemble_disclosures (plan_disclosures encs) os = serial_preprocess X encs"
proof -
  have "validate_outcome_contract (plan_disclosures encs)
          (map (process_disclosure X) (plan_disclosures encs)) = Ok ()"
    by (simp add: validate_outcome_contract_iff plan_disclosures_ordinals process_identity)
  then show ?thesis
    by (simp add: assemble_disclosures_def sort_key_plan [OF assms] Let_def
        plan_disclosures_def assemble_loop_plan serial_preprocess_def
        serial_preprocess_with_worker_def)
qed

subsection \<open>The native executor and the budgeted entry point\<close>

lemma clamp_workers_bounds: "1 \<le> clamp_workers n \<and> clamp_workers n \<le> MAX_PARALLEL_WORKERS"
  by (auto simp: clamp_workers_def MAX_PARALLEL_WORKERS_def)

lemma native_execute_total:
  assumes "\<And>i. spawn i" and "0 < w"
  shows "native_execute w spawn (\<lambda>j. Some (f j)) jobs = Ok (map f jobs)"
proof (cases "jobs = []")
  case False
  with assms(2) have "0 < static_chunk_size (length jobs) (min w (length jobs))"
    by (intro static_chunk_size_pos) auto
  with False show ?thesis
    by (simp add: native_execute_def Let_def run_chunks_total [OF assms(1)] concat_chunks)
qed (simp add: native_execute_def)

lemma native_execute_cases:
  assumes "0 < w"
  shows "native_execute w spawn worker jobs
           \<in> {Err (InvalidState PARALLEL_SPAWN_FAILURE), Err (InvalidState PARALLEL_WORKER_FAILURE)} \<or>
         (\<exists>rs. native_execute w spawn worker jobs = Ok rs \<and> map worker jobs = map Some rs)"
proof (cases "jobs = []")
  case False
  with assms have "0 < static_chunk_size (length jobs) (min w (length jobs))"
    by (intro static_chunk_size_pos) auto
  with False show ?thesis
    using run_chunks_cases [of "InvalidState PARALLEL_SPAWN_FAILURE" "InvalidState PARALLEL_WORKER_FAILURE"
        spawn worker "chunks (static_chunk_size (length jobs) (min w (length jobs))) jobs"]
    by (simp add: native_execute_def Let_def concat_chunks)
qed (simp add: native_execute_def)

lemma preprocess_parallel_cases:
  "preprocess_parallel_with_lease X spawn encs lease = serial_preprocess X encs \<or>
   preprocess_parallel_with_lease X spawn encs lease = Err (InvalidState PARALLEL_SPAWN_FAILURE) \<or>
   preprocess_parallel_with_lease X spawn encs lease = Err (InvalidState PARALLEL_WORKER_FAILURE)"
proof -
  have pos: "0 < clamp_workers lease"
    using clamp_workers_bounds [of lease] by simp
  consider (fail) "native_execute (clamp_workers lease) spawn (\<lambda>job. Some (process_disclosure X job)) (plan_disclosures encs)
           \<in> {Err (InvalidState PARALLEL_SPAWN_FAILURE), Err (InvalidState PARALLEL_WORKER_FAILURE)}"
    | (finished) rs where
        "native_execute (clamp_workers lease) spawn (\<lambda>job. Some (process_disclosure X job)) (plan_disclosures encs) = Ok rs"
        "map (\<lambda>job. Some (process_disclosure X job)) (plan_disclosures encs) = map Some rs"
    using native_execute_cases [OF pos, of spawn "\<lambda>job. Some (process_disclosure X job)" "plan_disclosures encs"]
    by blast
  then show ?thesis
  proof cases
    case fail
    then show ?thesis by (auto simp: preprocess_parallel_with_lease_def Let_def)
  next
    case finished
    have "map Some (map (process_disclosure X) (plan_disclosures encs)) = map Some rs"
      using finished(2) by (simp add: comp_def)
    then have "rs = map (process_disclosure X) (plan_disclosures encs)"
      by (simp only: map_Some_inject)
    then show ?thesis
      using finished(1) by (simp add: preprocess_parallel_with_lease_def assemble_processed)
  qed
qed

lemma preprocess_parallel_total:
  assumes "\<And>i. spawn i"
  shows "preprocess_parallel_with_lease X spawn encs lease = serial_preprocess X encs"
proof -
  have "0 < clamp_workers lease"
    using clamp_workers_bounds [of lease] by simp
  then show ?thesis
    by (simp add: preprocess_parallel_with_lease_def native_execute_total [OF assms] assemble_processed)
qed

lemma preprocess_with_budget_fst:
  "fst (preprocess_with_budget X spawn encs b n) = serial_preprocess X encs \<or>
   (\<exists>lease. fst (preprocess_with_budget X spawn encs b n) =
      preprocess_parallel_with_lease X spawn encs lease)"
  by (auto simp: preprocess_with_budget_def split: option.splits prod.splits execution_mode.splits)

lemma preprocess_with_budget_outcomes:
  "fst (preprocess_with_budget X spawn encs b n) = serial_preprocess X encs \<or>
   fst (preprocess_with_budget X spawn encs b n) = Err (InvalidState PARALLEL_SPAWN_FAILURE) \<or>
   fst (preprocess_with_budget X spawn encs b n) = Err (InvalidState PARALLEL_WORKER_FAILURE)"
  using preprocess_with_budget_fst [of X spawn encs b n] preprocess_parallel_cases [of X spawn encs]
  by (elim disjE exE) simp_all

lemma preprocess_with_budget_snd: "snd (preprocess_with_budget X spawn encs b n) = b"
  using disclosure_budget.acquire_release [of b] disclosure_budget.acquire_None [of b]
  by (auto simp: preprocess_with_budget_def split: option.splits prod.splits execution_mode.splits)

end
