(* ===== verification/Engine.thy ===== *)
theory Engine
  imports Preprocessing Policy
begin

text \<open>
  \<open>SDJWTCommon\<close> of src/src/lib.rs, the state the holder and the verifier share: parsing of the
  three serializations, the signature check, and the digest tables built from the presented
  disclosures. A method on \<open>&mut self\<close> returns its result and the state it leaves, on errors too.
\<close>

subsection \<open>Constants and state\<close>

definition SD_DIGESTS_KEY :: string where "SD_DIGESTS_KEY = ''_sd''"
definition DIGEST_ALG_KEY :: string where "DIGEST_ALG_KEY = ''_sd_alg''"
definition DEFAULT_DIGEST_ALG :: string where "DEFAULT_DIGEST_ALG = ''sha-256''"
definition SD_LIST_PREFIX :: string where "SD_LIST_PREFIX = ''...''"
definition KB_JWT_TYP_HEADER :: string where "KB_JWT_TYP_HEADER = ''kb+jwt''"
definition KB_DIGEST_KEY :: string where "KB_DIGEST_KEY = ''sd_hash''"
definition COMBINED_SERIALIZATION_FORMAT_SEPARATOR :: string where
  "COMBINED_SERIALIZATION_FORMAT_SEPARATOR = ''~''"
definition MAX_SD_JWT_INPUT_BYTES :: nat where "MAX_SD_JWT_INPUT_BYTES = 2 * 1024 * 1024"
definition MAX_SD_JWT_DISCLOSURES :: nat where "MAX_SD_JWT_DISCLOSURES = 8192"
definition MAX_SD_JWT_DISCLOSURE_BYTES :: nat where "MAX_SD_JWT_DISCLOSURE_BYTES = 64 * 1024"

lemmas key_defs = SD_DIGESTS_KEY_def DIGEST_ALG_KEY_def SD_LIST_PREFIX_def KB_DIGEST_KEY_def
  CNF_KEY_def JWK_KEY_def

record sd_common =
  format :: serialization_format
  unverified_kb_jwt :: "string option"
  unverified_sd_jwt :: "string option"
  unverified_payload :: "json_map option"
  hash_to_decoded :: "string \<rightharpoonup> json"
  hash_to_disclosure :: "string \<rightharpoonup> string"
  input_disclosures :: "string list"
  ordered_digests :: "string list"
  sign_alg :: "string option"

definition common_new :: "serialization_format \<Rightarrow> sd_common" where
  "common_new fmt =
     \<lparr>format = fmt, unverified_kb_jwt = None, unverified_sd_jwt = None, unverified_payload = None,
      hash_to_decoded = Map.empty, hash_to_disclosure = Map.empty, input_disclosures = [],
      ordered_digests = [], sign_alg = None\<rparr>"

subsection \<open>Headers and the parts of a JWT\<close>

definition header_alg :: "json \<Rightarrow> string option" where
  "header_alg v = Option.bind (Option.bind (as_object v) (\<lambda>m. map_get m ''alg'')) as_str"

definition decode_header_and_get_sign_algorithm :: "'k externals \<Rightarrow> string \<Rightarrow> string option" where
  "decode_header_and_get_sign_algorithm X sd_jwt =
     (let parts = split_on (CHR ''.'') sd_jwt
      in if length parts < 2 then None
         else case base64url_decode X (parts ! 0) of
                Ok decoded \<Rightarrow>
                  (if \<not> json_is_utf8 X decoded then None
                   else case json_from_slice X decoded of
                          Inl e \<Rightarrow> None
                        | Inr v \<Rightarrow> header_alg v)
              | _ \<Rightarrow> None)"

definition split_jwt :: "string \<Rightarrow> (string \<times> string \<times> string) result" where
  "split_jwt jwt =
     (case split_on (CHR ''.'') jwt of
        [protected, payload, signature] \<Rightarrow> Ok (protected, payload, signature)
      | _ \<Rightarrow> Err (InvalidState ''Invalid signed JWT, expected three parts''))"

definition jwt_of_parts :: "string \<Rightarrow> string \<Rightarrow> string \<Rightarrow> string" where
  "jwt_of_parts protected payload signature = protected @ ''.'' @ payload @ ''.'' @ signature"

subsection \<open>Parsing\<close>

text \<open>What the compact form loads once it is cut at its separators.\<close>

definition load_compact_parts ::
    "'k externals \<Rightarrow> sd_common \<Rightarrow> string \<Rightarrow> string list \<Rightarrow> string \<Rightarrow> unit result \<times> sd_common" where
  "load_compact_parts X s sd_jwt disclosures trailing =
     (let s1 = s\<lparr>sign_alg := decode_header_and_get_sign_algorithm X sd_jwt,
                 unverified_kb_jwt := (if trailing = [] then None else Some trailing),
                 input_disclosures := disclosures,
                 unverified_sd_jwt := Some sd_jwt\<rparr>
      in case split_on (CHR ''.'') sd_jwt of
           _ # jwt_body # _ \<Rightarrow>
             (case jwt_payload_decode X jwt_body of
                Ok payload \<Rightarrow> (Ok (), s1\<lparr>unverified_payload := Some payload\<rparr>)
              | Err e \<Rightarrow> (Err e, s1)
              | Panic \<Rightarrow> (Panic, s1))
         | _ \<Rightarrow> (Err (IndexOutOfBounds 1 3 ''Invalid JWT: cannot extract payload''), s1))"

definition parse_compact_sd_jwt ::
    "'k externals \<Rightarrow> sd_common \<Rightarrow> string \<Rightarrow> unit result \<times> sd_common" where
  "parse_compact_sd_jwt X s input =
     (if MAX_SD_JWT_DISCLOSURES + 1 < count_list input (CHR ''~'')
      then (Err (InvalidInput ''SD-JWT exceeds the disclosure count limit''), s)
      else let parts = split_on (CHR ''~'') input
      in if length parts < 2
      then (Err (InvalidInput (''Invalid SD-JWT length: '' @ dec (length parts))), s)
      else load_compact_parts X s (hd parts) (butlast (tl parts)) (last (tl parts)))"

text \<open>What the two JSON serializations do once their text is parsed.\<close>

definition load_json_parts ::
    "'k externals \<Rightarrow> sd_common \<Rightarrow> unprotected_header \<Rightarrow> string \<Rightarrow> string \<Rightarrow> string
       \<Rightarrow> unit result \<times> sd_common" where
  "load_json_parts X s header protected payload signature =
     (let s1 = s\<lparr>unverified_kb_jwt := hdr_kb_jwt header,
                 input_disclosures := hdr_disclosures header\<rparr>
      in case jwt_payload_decode X payload of
           Err e \<Rightarrow> (Err e, s1)
         | Panic \<Rightarrow> (Panic, s1)
         | Ok claims \<Rightarrow>
             (let sd_jwt = jwt_of_parts protected payload signature
              in (Ok (), s1\<lparr>unverified_payload := Some claims,
                            unverified_sd_jwt := Some sd_jwt,
                            sign_alg := decode_header_and_get_sign_algorithm X sd_jwt\<rparr>)))"

definition parse_flattened_json_sd_jwt ::
    "'k externals \<Rightarrow> sd_common \<Rightarrow> string \<Rightarrow> unit result \<times> sd_common" where
  "parse_flattened_json_sd_jwt X s input =
     (case flattened_from_str X input of
        Inl e \<Rightarrow> (Err (DeserializationError e), s)
      | Inr parsed \<Rightarrow>
          load_json_parts X s (fj_header parsed) (fj_protected parsed) (fj_payload parsed)
            (fj_signature parsed))"

definition parse_general_json_sd_jwt ::
    "'k externals \<Rightarrow> sd_common \<Rightarrow> string \<Rightarrow> unit result \<times> sd_common" where
  "parse_general_json_sd_jwt X s input =
     (case general_from_str X input of
        Inl e \<Rightarrow> (Err (DeserializationError e), s)
      | Inr parsed \<Rightarrow>
          (case gj_signatures parsed of
             [] \<Rightarrow> (Err (InvalidInput ''General JSON SD-JWT must contain at least one signature''), s)
           | [signature] \<Rightarrow>
               load_json_parts X s (gs_header signature) (gs_protected signature) (gj_payload parsed)
                 (gs_signature signature)
           | _ \<Rightarrow> (Err (InvalidInput
                    ''General JSON SD-JWT with multiple signatures is not supported yet''), s)))"

fun parse_format ::
    "serialization_format \<Rightarrow> 'k externals \<Rightarrow> sd_common \<Rightarrow> string \<Rightarrow> unit result \<times> sd_common" where
  "parse_format Compact = parse_compact_sd_jwt"
| "parse_format FlattenedJson = parse_flattened_json_sd_jwt"
| "parse_format GeneralJson = parse_general_json_sd_jwt"

definition parse_sd_jwt :: "'k externals \<Rightarrow> sd_common \<Rightarrow> string \<Rightarrow> unit result \<times> sd_common" where
  "parse_sd_jwt X s input =
     (if MAX_SD_JWT_INPUT_BYTES < length input
      then (Err (InvalidInput ''SD-JWT exceeds the serialized input size limit''), s)
      else case parse_format (format s) X s input of
        (Ok _, s') \<Rightarrow>
          (if MAX_SD_JWT_DISCLOSURES < length (input_disclosures s')
           then (Err (InvalidInput ''SD-JWT exceeds the disclosure count limit''), s')
           else if list_ex (\<lambda>d. MAX_SD_JWT_DISCLOSURE_BYTES < length d) (input_disclosures s')
           then (Err (InvalidInput ''SD-JWT disclosure exceeds the encoded size limit''), s')
           else (Ok (), s'))
      | (r, s') \<Rightarrow> (r, s'))"

subsection \<open>The signature check and the digest tables\<close>

text \<open>The validation settings of an issuer-signed JWT: \<open>exp\<close> optional, \<open>nbf\<close> honoured, \<open>aud\<close> not checked.\<close>

definition issuer_validation :: "'k externals \<Rightarrow> algorithm \<Rightarrow> validation" where
  "issuer_validation X a =
     (let v = validation_new X a
      in v\<lparr>val_required := removeAll ''exp'' (val_required v), val_nbf := True, val_aud := False\<rparr>)"

definition verify_signature ::
    "'k externals \<Rightarrow> sd_common \<Rightarrow> 'k \<Rightarrow> verification_policy \<Rightarrow> unit result" where
  "verify_signature X s key policy =
     rbind (ok_or (unverified_sd_jwt s) (InvalidState ''Cannot reference jwt'')) (\<lambda>sd_jwt.
     rbind (ok_or (sign_alg s)
             (InvalidInput ''Issuer-signed JWT header is missing the `alg` parameter'')) (\<lambda>alg_str.
     rbind (map_err DeserializationError (algorithm_from_str X alg_str)) (\<lambda>a.
     if \<not> policy_allows policy a
     then Err (InvalidInput (''Issuer-signed JWT algorithm '' @ alg_debug a
                 @ '' is not allowed by verification policy''))
     else rbind (map_err (\<lambda>e. DeserializationError (''Issuer signature verification failed: '' @ e))
                  (jwt_decode X sd_jwt key (issuer_validation X a))) (\<lambda>_. Ok ()))))"

definition clear_mappings :: "sd_common \<Rightarrow> sd_common" where
  "clear_mappings s =
     s\<lparr>hash_to_decoded := Map.empty, hash_to_disclosure := Map.empty, ordered_digests := []\<rparr>"

definition publish_mappings :: "disclosure_mappings result \<Rightarrow> sd_common \<Rightarrow> unit result \<times> sd_common" where
  "publish_mappings r s =
     (case r of
        Ok m \<Rightarrow> (Ok (), s\<lparr>hash_to_decoded := dm_decoded m, hash_to_disclosure := dm_encoded m,
                          ordered_digests := dm_ordered m\<rparr>)
      | Err e \<Rightarrow> (Err e, s)
      | Panic \<Rightarrow> (Panic, s))"

definition create_hash_mappings :: "'k externals \<Rightarrow> sd_common \<Rightarrow> unit result \<times> sd_common" where
  "create_hash_mappings X s =
     publish_mappings (preprocess_disclosures_serial X (input_disclosures s)) (clear_mappings s)"

definition create_verifier_hash_mappings ::
    "bool \<Rightarrow> 'k externals \<Rightarrow> (nat \<Rightarrow> bool) \<Rightarrow> nat \<Rightarrow> worker_budget \<Rightarrow> sd_common
       \<Rightarrow> unit result \<times> sd_common \<times> worker_budget" where
  "create_verifier_hash_mappings par X spawn available_threads budget s =
     (case preprocess_disclosures par X spawn budget available_threads (input_disclosures s) of
        (r, budget') \<Rightarrow>
          (case publish_mappings r (clear_mappings s) of (res, s') \<Rightarrow> (res, s', budget')))"

subsection \<open>Reserved claim names\<close>

fun check_for_sd_claim :: "json \<Rightarrow> unit result"
  and check_sd_members :: "(string \<times> json) list \<Rightarrow> unit result"
  and check_sd_items :: "json list \<Rightarrow> unit result"
where
  "check_for_sd_claim (Object m) = check_sd_members m"
| "check_for_sd_claim (Array vs) = check_sd_items vs"
| "check_for_sd_claim v = Ok ()"
| "check_sd_members [] = Ok ()"
| "check_sd_members ((key, value) # ms) =
     (if key = SD_DIGESTS_KEY \<or> key = SD_LIST_PREFIX
      then Err (DataFieldMismatch (''Claim object cannot have `'' @ key @ ''` field''))
      else rbind (check_for_sd_claim value) (\<lambda>_. check_sd_members ms))"
| "check_sd_items [] = Ok ()"
| "check_sd_items (v # vs) = rbind (check_for_sd_claim v) (\<lambda>_. check_sd_items vs)"

text \<open>The specification: no object at any depth of the value has a member of these names.\<close>

fun keys_avoid :: "string set \<Rightarrow> json \<Rightarrow> bool" where
  "keys_avoid K (Object m) = list_all (\<lambda>(k, v). k \<notin> K \<and> keys_avoid K v) m"
| "keys_avoid K (Array vs) = list_all (keys_avoid K) vs"
| "keys_avoid K v = True"

definition reserved_keys :: "string set" where
  "reserved_keys = {SD_DIGESTS_KEY, SD_LIST_PREFIX}"

lemma check_for_sd_claim_iff:
  "check_for_sd_claim v = Ok () \<longleftrightarrow> keys_avoid reserved_keys v"
  "check_sd_members ms = Ok () \<longleftrightarrow> list_all (\<lambda>(k, v). k \<notin> reserved_keys \<and> keys_avoid reserved_keys v) ms"
  "check_sd_items vs = Ok () \<longleftrightarrow> list_all (keys_avoid reserved_keys) vs"
  by (induction v and ms and vs rule: check_for_sd_claim_check_sd_members_check_sd_items.induct)
    (auto simp: rbind_eq_Ok reserved_keys_def)

lemma check_for_sd_claim_not_Panic:
  "check_for_sd_claim v \<noteq> Panic" "check_sd_members ms \<noteq> Panic" "check_sd_items vs \<noteq> Panic"
  by (induction v and ms and vs rule: check_for_sd_claim_check_sd_members_check_sd_items.induct)
    (auto simp: rbind_eq_Panic)

lemma keys_avoid_member: "keys_avoid K (Object m) \<Longrightarrow> map_get m k = Some v \<Longrightarrow> k \<notin> K \<and> keys_avoid K v"
  by (auto simp: map_get_def list_all_iff dest!: map_of_SomeD)

lemma keys_avoid_contains: "keys_avoid K (Object m) \<Longrightarrow> k \<in> K \<Longrightarrow> \<not> contains_key m k"
  by (auto simp: contains_key_conv list_all_iff)


subsection \<open>Parsing, functionally\<close>

lemma count_list_join:
  "ps \<noteq> [] \<Longrightarrow> (\<And>p. p \<in> set ps \<Longrightarrow> c \<notin> set p) \<Longrightarrow> count_list (join [c] ps) c = length ps - 1"
  using length_split_on [of c "join [c] ps"] split_on_join [of ps c] by simp

lemma parse_compact_join:
  assumes "CHR ''~'' \<notin> set sd_jwt" and "CHR ''~'' \<notin> set kb"
    and "\<And>d. d \<in> set ds \<Longrightarrow> CHR ''~'' \<notin> set d" and "length ds \<le> MAX_SD_JWT_DISCLOSURES"
  shows "parse_compact_sd_jwt X s (join ''~'' (sd_jwt # ds @ [kb])) = load_compact_parts X s sd_jwt ds kb"
proof -
  have free: "p \<in> set (sd_jwt # ds @ [kb]) \<Longrightarrow> CHR ''~'' \<notin> set p" for p
    using assms by auto
  have "split_on (CHR ''~'') (join ''~'' (sd_jwt # ds @ [kb])) = sd_jwt # ds @ [kb]"
    by (rule split_on_join [OF _ free]) simp
  moreover have "count_list (join ''~'' (sd_jwt # ds @ [kb])) (CHR ''~'') = Suc (length ds)"
    using count_list_join [of "sd_jwt # ds @ [kb]" "CHR ''~''", OF _ free] by simp
  ultimately show ?thesis
    using assms(4) by (simp add: parse_compact_sd_jwt_def)
qed

definition parsed_with :: "sd_common \<Rightarrow> json_map \<Rightarrow> bool" where
  "parsed_with s payload \<longleftrightarrow>
     unverified_payload s = Some payload \<and> wf_json (Object payload) \<and> unverified_sd_jwt s \<noteq> None"

lemma load_compact_parts_Ok:
  "load_compact_parts X s sd_jwt ds kb = (Ok (), s') \<longleftrightarrow>
     (\<exists>h body rest payload. split_on (CHR ''.'') sd_jwt = h # body # rest \<and>
        jwt_payload_decode X body = Ok payload \<and>
        s' = s\<lparr>sign_alg := decode_header_and_get_sign_algorithm X sd_jwt,
               unverified_kb_jwt := (if kb = [] then None else Some kb),
               input_disclosures := ds, unverified_sd_jwt := Some sd_jwt,
               unverified_payload := Some payload\<rparr>)"
  by (auto simp: load_compact_parts_def Let_def split: list.splits result.splits)

lemma load_json_parts_Ok:
  "load_json_parts X s header p pl sg = (Ok (), s') \<longleftrightarrow>
     (\<exists>payload. jwt_payload_decode X pl = Ok payload \<and>
        s' = s\<lparr>unverified_kb_jwt := hdr_kb_jwt header, input_disclosures := hdr_disclosures header,
               unverified_payload := Some payload,
               unverified_sd_jwt := Some (jwt_of_parts p pl sg),
               sign_alg := decode_header_and_get_sign_algorithm X (jwt_of_parts p pl sg)\<rparr>)"
  by (auto simp: load_json_parts_def Let_def split: result.splits)

lemma parse_format_Ok:
  assumes "parse_format fmt X s input = (Ok (), s')"
  shows "(\<exists>payload. parsed_with s' payload) \<and> format s' = format s \<and>
         hash_to_decoded s' = hash_to_decoded s \<and> hash_to_disclosure s' = hash_to_disclosure s"
  using assms
  by (cases fmt)
    (auto simp: parse_compact_sd_jwt_def parse_flattened_json_sd_jwt_def parse_general_json_sd_jwt_def
      load_compact_parts_Ok load_json_parts_Ok parsed_with_def Let_def
      dest: jwt_payload_decode_wf split: if_splits sum.splits list.splits)

lemma load_compact_parts_not_Panic: "fst (load_compact_parts X s sd_jwt ds kb) \<noteq> Panic"
  by (auto simp: load_compact_parts_def Let_def jwt_payload_decode_not_Panic
      split: list.splits result.splits)

lemma load_json_parts_not_Panic: "fst (load_json_parts X s h p pl sg) \<noteq> Panic"
  by (auto simp: load_json_parts_def Let_def jwt_payload_decode_not_Panic split: result.splits)

lemma parse_format_not_Panic: "fst (parse_format fmt X s input) \<noteq> Panic"
  by (cases fmt)
    (auto simp: parse_compact_sd_jwt_def parse_flattened_json_sd_jwt_def parse_general_json_sd_jwt_def
      load_compact_parts_not_Panic load_json_parts_not_Panic Let_def split: sum.splits list.splits)

lemma parse_sd_jwt_Ok:
  "parse_sd_jwt X s input = (Ok (), s') \<longleftrightarrow>
     length input \<le> MAX_SD_JWT_INPUT_BYTES \<and> parse_format (format s) X s input = (Ok (), s') \<and>
     length (input_disclosures s') \<le> MAX_SD_JWT_DISCLOSURES \<and>
     (\<forall>d \<in> set (input_disclosures s'). length d \<le> MAX_SD_JWT_DISCLOSURE_BYTES)"
proof -
  have ex: "list_ex (\<lambda>d. n < length d) ds \<longleftrightarrow> \<not> (\<forall>d \<in> set ds. length d \<le> n)" for n and ds :: "string list"
    by (auto simp: list_ex_iff not_le)
  show ?thesis
    unfolding parse_sd_jwt_def ex by (auto split: prod.splits result.splits if_splits)
qed

definition within_limits :: "string \<Rightarrow> string list \<Rightarrow> bool" where
  "within_limits presentation disclosures \<longleftrightarrow>
     length presentation \<le> MAX_SD_JWT_INPUT_BYTES \<and> length disclosures \<le> MAX_SD_JWT_DISCLOSURES \<and>
     (\<forall>d \<in> set disclosures. length d \<le> MAX_SD_JWT_DISCLOSURE_BYTES)"

lemma parse_sd_jwt_not_Panic: "fst (parse_sd_jwt X s input) \<noteq> Panic"
  using parse_format_not_Panic [of "format s" X s input]
  by (auto simp: parse_sd_jwt_def split: prod.splits result.splits if_splits)

lemma split_jwt_Ok:
  "split_jwt jwt = Ok (p, pl, sg) \<longleftrightarrow> split_on (CHR ''.'') jwt = [p, pl, sg]"
  by (auto simp: split_jwt_def split: list.splits)

lemma jwt_of_parts_join: "jwt_of_parts p pl sg = join ''.'' [p, pl, sg]"
  by (simp add: jwt_of_parts_def)

lemma split_jwt_of_parts:
  "CHR ''.'' \<notin> set p \<Longrightarrow> CHR ''.'' \<notin> set pl \<Longrightarrow> CHR ''.'' \<notin> set sg \<Longrightarrow>
     split_on (CHR ''.'') (jwt_of_parts p pl sg) = [p, pl, sg]"
  unfolding jwt_of_parts_join by (rule split_on_join) auto

subsection \<open>The digest tables, functionally\<close>

text \<open>A published table: what the verifier and the holder rely on after the mappings are built.\<close>

definition published :: "'k externals \<Rightarrow> sd_common \<Rightarrow> bool" where
  "published X s \<longleftrightarrow>
     presentable X (input_disclosures s) \<and>
     hash_to_decoded s = dm_decoded (mappings_of X (input_disclosures s)) \<and>
     hash_to_disclosure s = dm_encoded (mappings_of X (input_disclosures s)) \<and>
     ordered_digests s = map (base64_hash X) (input_disclosures s)"

lemma publish_serial_Ok:
  "publish_mappings (serial_preprocess X (input_disclosures s)) (clear_mappings s) = (Ok (), s') \<Longrightarrow>
     published X s' \<and> input_disclosures s' = input_disclosures s \<and> format s' = format s \<and>
     unverified_payload s' = unverified_payload s \<and> unverified_sd_jwt s' = unverified_sd_jwt s \<and>
     unverified_kb_jwt s' = unverified_kb_jwt s \<and> sign_alg s' = sign_alg s"
  by (auto simp: publish_mappings_def published_def serial_preprocess_Ok clear_mappings_def
      mappings_of_def split: result.splits)

lemma publish_failure:
  "fst (publish_mappings r (clear_mappings s)) \<noteq> Ok () \<Longrightarrow>
     snd (publish_mappings r (clear_mappings s)) = clear_mappings s"
  by (auto simp: publish_mappings_def split: result.splits)

lemma mappings_decoded:
  assumes "presentable X es"
  shows "dm_decoded (mappings_of X es) h = Some v \<longleftrightarrow>
     (\<exists>e \<in> set es. base64_hash X e = h \<and> decode_disclosure X e = Ok v)"
proof -
  let ?ps = "map (\<lambda>e. (base64_hash X e, case decode_disclosure X e of Ok v \<Rightarrow> v | _ \<Rightarrow> Null)) es"
  have "distinct (map fst ?ps)" and ok: "\<forall>e \<in> set es. is_ok (decode_disclosure X e)"
    using assms by (simp_all add: presentable_def comp_def)
  then have "map_of (rev ?ps) h = Some v \<longleftrightarrow> (h, v) \<in> set ?ps"
    using map_of_eq_Some_iff [of "rev ?ps" h v] by (simp add: rev_map [symmetric])
  moreover have "(h, v) \<in> set ?ps \<longleftrightarrow>
      (\<exists>e \<in> set es. base64_hash X e = h \<and> decode_disclosure X e = Ok v)"
    using ok by (fastforce simp: is_ok_conv)
  ultimately show ?thesis
    by (simp add: mappings_of_def)
qed

lemma published_decoded:
  assumes "published X s"
  shows "hash_to_decoded s h = Some v \<longleftrightarrow>
     (\<exists>e \<in> set (input_disclosures s). base64_hash X e = h \<and> decode_disclosure X e = Ok v)"
  using assms mappings_decoded [of X "input_disclosures s" h v] by (simp add: published_def)

end
