(* ===== verification/Strategy.thy ===== *)
theory Strategy
  imports Engine
begin

text \<open>
  Which claims become selectively disclosable, and where the issuer's randomness comes from
  (src/src/issuer.rs): \<open>ClaimsForSelectiveDisclosureStrategy\<close> and \<open>IssuanceRandomSource\<close>.
\<close>

subsection \<open>Disclosure strategies\<close>

datatype strategy = NoSDClaims | TopLevel | AllLevels | Custom "string list"

fun finalize_input :: "strategy \<Rightarrow> strategy result" where
  "finalize_input (Custom keys) =
     rbind (try_map (\<lambda>key. ok_or (strip_prefix ''$.'' key) (InvalidPath ''Invalid JSONPath'')) keys)
       (\<lambda>keys'. Ok (Custom keys'))"
| "finalize_input s = Ok s"

text \<open>One JSONPath seen from below the member \<open>key\<close>: what is left of it after that token.\<close>

definition next_path :: "string \<Rightarrow> string \<Rightarrow> string option" where
  "next_path key path =
     (case strip_prefix key path of
        None \<Rightarrow> None
      | Some rest \<Rightarrow>
          (case rest of
             [] \<Rightarrow> None
           | c # rest' \<Rightarrow>
               if c = CHR ''.'' then Some rest'
               else if c = CHR ''['' then Some rest
               else None))"

fun next_level :: "strategy \<Rightarrow> string \<Rightarrow> strategy" where
  "next_level NoSDClaims key = NoSDClaims"
| "next_level TopLevel key = NoSDClaims"
| "next_level AllLevels key = AllLevels"
| "next_level (Custom sd_keys) key = Custom (List.map_filter (next_path key) sd_keys)"

fun sd_for_key :: "strategy \<Rightarrow> string \<Rightarrow> bool" where
  "sd_for_key NoSDClaims key = False"
| "sd_for_key TopLevel key = True"
| "sd_for_key AllLevels key = True"
| "sd_for_key (Custom sd_keys) key = (key \<in> set sd_keys)"

text \<open>The key a strategy sees for an array element: \<open>[i]\<close>.\<close>

definition index_key :: "nat \<Rightarrow> string" where
  "index_key i = CHR ''['' # dec i @ '']''"

lemma finalize_input_Custom:
  "finalize_input (Custom keys) = Ok s \<longleftrightarrow> (\<exists>rests. keys = map ((@) ''$.'') rests \<and> s = Custom rests)"
proof -
  have "try_map (\<lambda>key. ok_or (strip_prefix ''$.'' key) e) keys = Ok rests \<longleftrightarrow> keys = map ((@) ''$.'') rests"
    for e rests
    by (induction keys arbitrary: rests)
      (auto simp: rbind_eq_Ok strip_prefix_eq_Some map_eq_Cons_conv Cons_eq_map_conv)
  then show ?thesis
    by (auto simp: rbind_eq_Ok)
qed

lemma finalize_input_not_Panic: "finalize_input s \<noteq> Panic"
proof (cases s)
  case (Custom keys)
  have "try_map (\<lambda>key. ok_or (strip_prefix ''$.'' key) e) keys \<noteq> Panic" for e
    by (induction keys) (auto simp: rbind_eq_Panic)
  then show ?thesis by (simp add: Custom rbind_eq_Panic)
qed simp_all

lemma next_path_Some:
  "next_path key path = Some rest \<longleftrightarrow>
     path = key @ CHR ''.'' # rest \<or> (\<exists>r. rest = CHR ''['' # r \<and> path = key @ rest)"
  by (auto simp: next_path_def strip_prefix_eq_Some split: option.splits list.splits if_splits)

text \<open>A custom strategy marks a claim when the joined path of its tokens is one of the paths.\<close>

lemma custom_next_level:
  "sd_for_key (next_level (Custom paths) key) child \<longleftrightarrow>
     key @ CHR ''.'' # child \<in> set paths \<or> (\<exists>r. child = CHR ''['' # r) \<and> key @ child \<in> set paths"
proof -
  have "child \<in> set (List.map_filter (next_path key) paths) \<longleftrightarrow> (\<exists>p \<in> set paths. next_path key p = Some child)"
    by (induction paths) (auto simp: List.map_filter_simps split: option.split)
  then show ?thesis
    by (auto simp: next_path_Some)
qed

subsection \<open>The random source\<close>

text \<open>
  The trait's three methods, over the state \<open>'r\<close> of the source. \<open>decoy_count\<close> is given the range
  \<open>DECOY_MIN_ELEMENTS..DECOY_MAX_ELEMENTS\<close>.
\<close>

definition DECOY_MIN_ELEMENTS :: nat where "DECOY_MIN_ELEMENTS = 2"
definition DECOY_MAX_ELEMENTS :: nat where "DECOY_MAX_ELEMENTS = 5"

record 'r random_source =
  disclosure_salt :: "'r \<Rightarrow> string \<times> 'r"
  decoy_count :: "nat \<Rightarrow> nat \<Rightarrow> 'r \<Rightarrow> nat \<times> 'r"
  decoy_salt :: "'r \<Rightarrow> string \<times> 'r"

text \<open>
  The production source: a generator made on first use, \<open>fill_bytes\<close> and \<open>gen_range\<close> being the
  generator's, \<open>initialize\<close> the constructor.
\<close>

definition legacy_rng :: "'g \<Rightarrow> 'g option \<Rightarrow> 'g" where
  "legacy_rng initialize rng = (case rng of None \<Rightarrow> initialize | Some g \<Rightarrow> g)"

definition legacy_random_source ::
    "'k externals \<Rightarrow> (nat \<Rightarrow> 'g \<Rightarrow> string \<times> 'g) \<Rightarrow> (nat \<Rightarrow> nat \<Rightarrow> 'g \<Rightarrow> nat \<times> 'g) \<Rightarrow> 'g
       \<Rightarrow> 'g option random_source" where
  "legacy_random_source X fill_bytes gen_range initialize =
     \<lparr>disclosure_salt = (\<lambda>rng.
        case generate_salt_with_rng X fill_bytes (legacy_rng initialize rng) of (salt, g) \<Rightarrow> (salt, Some g)),
      decoy_count = (\<lambda>low high rng.
        case gen_range low high (legacy_rng initialize rng) of (n, g) \<Rightarrow> (n, Some g)),
      decoy_salt = (\<lambda>rng.
        case generate_salt_with_rng X fill_bytes (legacy_rng initialize rng) of (salt, g) \<Rightarrow> (salt, Some g))\<rparr>"

text \<open>The decoys of one object: a count, then that many salts.\<close>

fun draw_decoys :: "'r random_source \<Rightarrow> nat \<Rightarrow> 'r \<Rightarrow> string list \<times> 'r" where
  "draw_decoys R 0 r = ([], r)"
| "draw_decoys R (Suc n) r =
     (let (salt, r1) = decoy_salt R r; (salts, r2) = draw_decoys R n r1 in (salt # salts, r2))"

lemma length_draw_decoys: "length (fst (draw_decoys R n r)) = n"
proof (induction n arbitrary: r)
  case (Suc n)
  obtain salt r1 where "decoy_salt R r = (salt, r1)" by fastforce
  moreover obtain salts r2 where "draw_decoys R n r1 = (salts, r2)" by fastforce
  ultimately show ?case using Suc [of r1] by simp
qed simp

end
