(* ===== verification/Issuance_Plan.thy ===== *)
theory Issuance_Plan
  imports Strategy Disclosure
begin

text \<open>
  The immutable issuance plan of src/src/issuer/issuance_plan.rs: the plan's data, the planner that
  numbers locations and jobs and draws the salts depth first, and the registry checks. Job and
  location identities are \<open>u64\<close> values, as \<open>nat\<close> with the overflow test of the source.
\<close>

subsection \<open>Plans\<close>

datatype planned_operation =
    ObjectDisclosure nat string string
  | ArrayDisclosure nat string
  | Decoy string

datatype planned_kind = ObjectKind | ArrayKind | DecoyKind

record planned_job =
  pj_id :: nat
  pj_location :: nat
  pj_operation :: planned_operation

fun operation_kind :: "planned_operation \<Rightarrow> planned_kind" where
  "operation_kind (ObjectDisclosure ordinal key salt) = ObjectKind"
| "operation_kind (ArrayDisclosure ordinal salt) = ArrayKind"
| "operation_kind (Decoy salt) = DecoyKind"

fun disclosure_ordinal :: "planned_operation \<Rightarrow> nat option" where
  "disclosure_ordinal (ObjectDisclosure ordinal key salt) = Some ordinal"
| "disclosure_ordinal (ArrayDisclosure ordinal salt) = Some ordinal"
| "disclosure_ordinal (Decoy salt) = None"

datatype planned_value = PlannedValue nat planned_value_kind
  and planned_value_kind =
    PScalar json
  | PArray "planned_array_entry list"
  | PObject "planned_object_entry list" "nat list"
  and planned_array_entry = AVisible planned_value | ADisclosed planned_value nat
  and planned_object_entry = OVisible string planned_value | ODisclosed planned_value nat

fun location_of :: "planned_value \<Rightarrow> nat" where
  "location_of (PlannedValue location kind) = location"

record issuance_plan =
  ip_root :: planned_value
  ip_jobs :: "planned_job list"
  ip_disclosure_job_ids :: "nat list"

definition invalid_plan :: "string \<Rightarrow> error" where
  "invalid_plan message = InvalidState (''invalid issuance plan: '' @ message)"

subsection \<open>The planner\<close>

text \<open>The planner's mutable fields; \<open>add_decoy_claims\<close> does not change and is an argument.\<close>

record planner =
  next_location_id :: nat
  pl_jobs :: "planned_job list"
  pl_disclosure_job_ids :: "nat list"

definition allocate_location_id :: "planner \<Rightarrow> (nat \<times> planner) result" where
  "allocate_location_id p =
     (case checked_add (next_location_id p) 1 of
        None \<Rightarrow> Err (invalid_plan ''issuance location identity overflow'')
      | Some next_id \<Rightarrow> Ok (next_location_id p, p\<lparr>next_location_id := next_id\<rparr>))"

definition allocate_job_id :: "planner \<Rightarrow> nat result" where
  "allocate_job_id p =
     (if length (pl_jobs p) \<le> usize_max then Ok (length (pl_jobs p))
      else Err (invalid_plan ''issuance job identity overflow''))"

definition plan_object_disclosure ::
    "'r random_source \<Rightarrow> nat \<Rightarrow> string \<Rightarrow> planner \<Rightarrow> 'r \<Rightarrow> (nat \<times> planner \<times> 'r) result" where
  "plan_object_disclosure R location key p r =
     rbind (allocate_job_id p) (\<lambda>job_id.
     case disclosure_salt R r of (salt, r') \<Rightarrow>
       Ok (job_id,
           p\<lparr>pl_jobs := pl_jobs p @ [\<lparr>pj_id = job_id, pj_location = location,
                pj_operation = ObjectDisclosure (length (pl_disclosure_job_ids p)) key salt\<rparr>],
             pl_disclosure_job_ids := pl_disclosure_job_ids p @ [job_id]\<rparr>,
           r'))"

definition plan_array_disclosure ::
    "'r random_source \<Rightarrow> nat \<Rightarrow> planner \<Rightarrow> 'r \<Rightarrow> (nat \<times> planner \<times> 'r) result" where
  "plan_array_disclosure R location p r =
     rbind (allocate_job_id p) (\<lambda>job_id.
     case disclosure_salt R r of (salt, r') \<Rightarrow>
       Ok (job_id,
           p\<lparr>pl_jobs := pl_jobs p @ [\<lparr>pj_id = job_id, pj_location = location,
                pj_operation = ArrayDisclosure (length (pl_disclosure_job_ids p)) salt\<rparr>],
             pl_disclosure_job_ids := pl_disclosure_job_ids p @ [job_id]\<rparr>,
           r'))"

definition plan_decoy ::
    "'r random_source \<Rightarrow> nat \<Rightarrow> planner \<Rightarrow> 'r \<Rightarrow> (nat \<times> planner \<times> 'r) result" where
  "plan_decoy R location p r =
     rbind (allocate_job_id p) (\<lambda>job_id.
     case decoy_salt R r of (salt, r') \<Rightarrow>
       Ok (job_id,
           p\<lparr>pl_jobs := pl_jobs p @ [\<lparr>pj_id = job_id, pj_location = location,
                pj_operation = Decoy salt\<rparr>]\<rparr>,
           r'))"

fun plan_decoys ::
    "'r random_source \<Rightarrow> nat \<Rightarrow> nat \<Rightarrow> planner \<Rightarrow> 'r \<Rightarrow> (nat list \<times> planner \<times> 'r) result" where
  "plan_decoys R location 0 p r = Ok ([], p, r)"
| "plan_decoys R location (Suc n) p r =
     rbind (plan_decoy R location p r) (\<lambda>(job_id, p1, r1).
     rbind (plan_decoys R location n p1 r1) (\<lambda>(job_ids, p2, r2).
     Ok (job_id # job_ids, p2, r2)))"

definition plan_object_decoys ::
    "'r random_source \<Rightarrow> bool \<Rightarrow> nat \<Rightarrow> planner \<Rightarrow> 'r \<Rightarrow> (nat list \<times> planner \<times> 'r) result" where
  "plan_object_decoys R add_decoys location p r =
     (if add_decoys
      then case decoy_count R DECOY_MIN_ELEMENTS DECOY_MAX_ELEMENTS r of
             (n, r1) \<Rightarrow> plan_decoys R location n p r1
      else Ok ([], p, r))"

fun plan_value ::
      "'r random_source \<Rightarrow> bool \<Rightarrow> json \<Rightarrow> strategy \<Rightarrow> nat \<Rightarrow> planner \<Rightarrow> 'r
         \<Rightarrow> (planned_value \<times> planner \<times> 'r) result"
  and plan_array ::
      "'r random_source \<Rightarrow> bool \<Rightarrow> nat \<Rightarrow> json list \<Rightarrow> strategy \<Rightarrow> planner \<Rightarrow> 'r
         \<Rightarrow> (planned_array_entry list \<times> planner \<times> 'r) result"
  and plan_object ::
      "'r random_source \<Rightarrow> bool \<Rightarrow> json_map \<Rightarrow> strategy \<Rightarrow> planner \<Rightarrow> 'r
         \<Rightarrow> (planned_object_entry list \<times> planner \<times> 'r) result"
where
  "plan_value R decoys (Array vs) strat location p r =
     rbind (plan_array R decoys 0 vs strat p r) (\<lambda>(entries, p1, r1).
     Ok (PlannedValue location (PArray entries), p1, r1))"
| "plan_value R decoys (Object ms) strat location p r =
     rbind (plan_object R decoys ms strat p r) (\<lambda>(entries, p1, r1).
     rbind (plan_object_decoys R decoys location p1 r1) (\<lambda>(decoy_job_ids, p2, r2).
     Ok (PlannedValue location (PObject entries decoy_job_ids), p2, r2)))"
| "plan_value R decoys scalar strat location p r = Ok (PlannedValue location (PScalar scalar), p, r)"
| "plan_array R decoys index [] strat p r = Ok ([], p, r)"
| "plan_array R decoys index (v # vs) strat p r =
     rbind (allocate_location_id p) (\<lambda>(location, p1).
     rbind (plan_value R decoys v (next_level strat (index_key index)) location p1 r) (\<lambda>(planned, p2, r2).
     rbind (if sd_for_key strat (index_key index)
            then rbind (plan_array_disclosure R location p2 r2) (\<lambda>(job_id, p3, r3).
                 Ok (ADisclosed planned job_id, p3, r3))
            else Ok (AVisible planned, p2, r2)) (\<lambda>(entry, p3, r3).
     rbind (plan_array R decoys (Suc index) vs strat p3 r3) (\<lambda>(entries, p4, r4).
     Ok (entry # entries, p4, r4)))))"
| "plan_object R decoys [] strat p r = Ok ([], p, r)"
| "plan_object R decoys ((key, v) # ms) strat p r =
     rbind (allocate_location_id p) (\<lambda>(location, p1).
     rbind (plan_value R decoys v (next_level strat key) location p1 r) (\<lambda>(planned, p2, r2).
     rbind (if sd_for_key strat key
            then rbind (plan_object_disclosure R location key p2 r2) (\<lambda>(job_id, p3, r3).
                 Ok (ODisclosed planned job_id, p3, r3))
            else Ok (OVisible key planned, p2, r2)) (\<lambda>(entry, p3, r3).
     rbind (plan_object R decoys ms strat p3 r3) (\<lambda>(entries, p4, r4).
     Ok (entry # entries, p4, r4)))))"

definition plan_create ::
    "'r random_source \<Rightarrow> json \<Rightarrow> strategy \<Rightarrow> bool \<Rightarrow> 'r \<Rightarrow> (issuance_plan \<times> 'r) result" where
  "plan_create R claims strat add_decoy_claims r =
     (let p0 = \<lparr>next_location_id = 0, pl_jobs = [], pl_disclosure_job_ids = []\<rparr>
      in rbind (allocate_location_id p0) (\<lambda>(root_location, p1).
         rbind (plan_value R add_decoy_claims claims strat root_location p1 r) (\<lambda>(root, p2, r2).
         Ok (\<lparr>ip_root = root, ip_jobs = pl_jobs p2, ip_disclosure_job_ids = pl_disclosure_job_ids p2\<rparr>, r2))))"

subsection \<open>The assembler\<close>

record assembler =
  as_disclosures :: "disclosure option list"
  as_jobs :: "planned_job option list"
  as_job_ids :: "nat list"

fun validate_jobs :: "nat list \<Rightarrow> nat \<Rightarrow> planned_job list \<Rightarrow> unit result" where
  "validate_jobs ids index [] = Ok ()"
| "validate_jobs ids index (job # jobs) =
     (if usize_max < index then Err (invalid_plan ''issuance job registry exceeds identity capacity'')
      else if pj_id job \<noteq> index
      then Err (invalid_plan ''a job descriptor identity does not match its registry index'')
      else case disclosure_ordinal (pj_operation job) of
             None \<Rightarrow> validate_jobs ids (Suc index) jobs
           | Some ordinal \<Rightarrow>
               if length ids \<le> ordinal then Err (invalid_plan ''a disclosure ordinal is out of bounds'')
               else if ids ! ordinal \<noteq> pj_id job
               then Err (invalid_plan ''a disclosure ordinal is bound to the wrong job identity'')
               else validate_jobs ids (Suc index) jobs)"

fun validate_ids :: "planned_job list \<Rightarrow> nat \<Rightarrow> nat list \<Rightarrow> unit result" where
  "validate_ids jobs ordinal [] = Ok ()"
| "validate_ids jobs ordinal (job_id # ids) =
     (if length jobs \<le> job_id then Err (invalid_plan ''a disclosure job identity is out of bounds'')
      else if disclosure_ordinal (pj_operation (jobs ! job_id)) \<noteq> Some ordinal
      then Err (invalid_plan ''a disclosure registry entry is bound to the wrong ordinal'')
      else validate_ids jobs (Suc ordinal) ids)"

definition validate_registry :: "planned_job list \<Rightarrow> nat list \<Rightarrow> unit result" where
  "validate_registry jobs ids = rbind (validate_jobs ids 0 jobs) (\<lambda>_. validate_ids jobs 0 ids)"

definition assembler_new :: "planned_job list \<Rightarrow> nat list \<Rightarrow> assembler result" where
  "assembler_new jobs ids =
     rbind (validate_registry jobs ids) (\<lambda>_.
     Ok \<lparr>as_disclosures = replicate (length ids) None, as_jobs = map Some jobs, as_job_ids = ids\<rparr>)"

definition take_planned_job ::
    "nat \<Rightarrow> nat \<Rightarrow> planned_kind \<Rightarrow> assembler \<Rightarrow> (planned_job \<times> assembler) result" where
  "take_planned_job job_id location expected_kind s =
     (if length (as_jobs s) \<le> job_id then Err (invalid_plan ''an issuance job identity is out of bounds'')
      else case as_jobs s ! job_id of
             None \<Rightarrow> Err (invalid_plan ''an issuance job was executed more than once'')
           | Some job \<Rightarrow>
               if pj_id job \<noteq> job_id
               then Err (invalid_plan ''an issuance job returned the wrong identity'')
               else if pj_location job \<noteq> location
               then Err (invalid_plan ''an issuance job was restored at the wrong structural location'')
               else if operation_kind (pj_operation job) \<noteq> expected_kind
               then Err (invalid_plan ''an issuance job has the wrong operation kind'')
               else Ok (job, s\<lparr>as_jobs := (as_jobs s)[job_id := None]\<rparr>))"

definition take_job ::
    "nat \<Rightarrow> nat \<Rightarrow> planned_kind \<Rightarrow> assembler \<Rightarrow> (planned_operation \<times> assembler) result" where
  "take_job job_id location expected_kind s =
     rbind (take_planned_job job_id location expected_kind s) (\<lambda>(job, s'). Ok (pj_operation job, s'))"

definition record_disclosure :: "nat \<Rightarrow> nat \<Rightarrow> disclosure \<Rightarrow> assembler \<Rightarrow> assembler result" where
  "record_disclosure job_id ordinal d s =
     (if length (as_job_ids s) \<le> ordinal \<or> as_job_ids s ! ordinal \<noteq> job_id
      then Err (invalid_plan ''a disclosure result is bound to the wrong job identity'')
      else if length (as_disclosures s) \<le> ordinal
      then Err (invalid_plan ''a disclosure ordinal is out of bounds'')
      else if as_disclosures s ! ordinal \<noteq> None
      then Err (invalid_plan ''a disclosure ordinal appears more than once'')
      else Ok (s\<lparr>as_disclosures := (as_disclosures s)[ordinal := Some d]\<rparr>))"

record issuance_assembly =
  ia_claims :: json
  ia_disclosures :: "disclosure list"

definition assembler_finish :: "json \<Rightarrow> assembler \<Rightarrow> issuance_assembly result" where
  "assembler_finish claims s =
     (if list_ex (\<lambda>job. job \<noteq> None) (as_jobs s)
      then Err (invalid_plan ''not every issuance job was executed'')
      else rbind (try_map (\<lambda>d. ok_or d (invalid_plan ''a planned disclosure result is missing''))
                    (as_disclosures s)) (\<lambda>disclosures.
           Ok \<lparr>ia_claims = claims, ia_disclosures = disclosures\<rparr>))"

subsection \<open>Serial execution\<close>

text \<open>\<open>json!({ "...": digest })\<close>, and the end of an object: drop \<open>_sd\<close>, or fill it sorted.\<close>

definition placeholder :: "string \<Rightarrow> json" where
  "placeholder digest = Object [(SD_LIST_PREFIX, String digest)]"

definition finish_object :: "json_map \<Rightarrow> string list \<Rightarrow> json" where
  "finish_object claims digests =
     (if digests = [] then Object (shift_remove SD_DIGESTS_KEY claims)
      else Object (map_insert SD_DIGESTS_KEY (Array (map String (sort digests))) claims))"

fun execute_decoys ::
    "'k externals \<Rightarrow> nat \<Rightarrow> nat list \<Rightarrow> assembler \<Rightarrow> (string list \<times> assembler) result" where
  "execute_decoys X location [] s = Ok ([], s)"
| "execute_decoys X location (job_id # job_ids) s =
     rbind (take_job job_id location DecoyKind s) (\<lambda>(operation, s1).
     case operation of
       Decoy salt \<Rightarrow>
         rbind (execute_decoys X location job_ids s1) (\<lambda>(digests, s2).
         Ok (base64_hash X salt # digests, s2))
     | _ \<Rightarrow> Err (invalid_plan ''a decoy entry references the wrong job kind''))"

text \<open>The object loop carries the claims inserted and the digests pushed so far.\<close>

primrec execute_value :: "'k externals \<Rightarrow> planned_value \<Rightarrow> assembler \<Rightarrow> (json \<times> assembler) result"
  and execute_kind :: "'k externals \<Rightarrow> nat \<Rightarrow> planned_value_kind \<Rightarrow> assembler \<Rightarrow> (json \<times> assembler) result"
  and execute_array_entry :: "'k externals \<Rightarrow> planned_array_entry \<Rightarrow> assembler \<Rightarrow> (json \<times> assembler) result"
  and execute_array :: "'k externals \<Rightarrow> planned_array_entry list \<Rightarrow> assembler \<Rightarrow> (json list \<times> assembler) result"
  and execute_object_entry ::
        "'k externals \<Rightarrow> planned_object_entry \<Rightarrow> json_map \<Rightarrow> string list \<Rightarrow> assembler
           \<Rightarrow> (json_map \<times> string list \<times> assembler) result"
  and execute_object ::
        "'k externals \<Rightarrow> planned_object_entry list \<Rightarrow> json_map \<Rightarrow> string list \<Rightarrow> assembler
           \<Rightarrow> (json_map \<times> string list \<times> assembler) result"
where
  "execute_value X (PlannedValue location kind) s = execute_kind X location kind s"
| "execute_kind X location (PScalar v) s = Ok (v, s)"
| "execute_kind X location (PArray entries) s =
     rbind (execute_array X entries s) (\<lambda>(claims, s'). Ok (Array claims, s'))"
| "execute_kind X location (PObject entries decoys) s =
     rbind (execute_object X entries (map_insert SD_DIGESTS_KEY Null []) [] s) (\<lambda>(claims, digests, s1).
     rbind (execute_decoys X location decoys s1) (\<lambda>(decoy_digests, s2).
     Ok (finish_object claims (digests @ decoy_digests), s2)))"
| "execute_array_entry X (AVisible v) s = execute_value X v s"
| "execute_array_entry X (ADisclosed v job_id) s =
     rbind (execute_value X v s) (\<lambda>(subtree, s1).
     rbind (take_job job_id (location_of v) ArrayKind s1) (\<lambda>(operation, s2).
     case operation of
       ArrayDisclosure ordinal salt \<Rightarrow>
         (let d = new_with_salt X None subtree salt
          in rbind (record_disclosure job_id ordinal d s2) (\<lambda>s3. Ok (placeholder (hash d), s3)))
     | _ \<Rightarrow> Err (invalid_plan ''an array entry references the wrong job kind'')))"
| "execute_array X [] s = Ok ([], s)"
| "execute_array X (entry # entries) s =
     rbind (execute_array_entry X entry s) (\<lambda>(claim, s1).
     rbind (execute_array X entries s1) (\<lambda>(claims, s2). Ok (claim # claims, s2)))"
| "execute_object_entry X (OVisible key v) claims digests s =
     rbind (execute_value X v s) (\<lambda>(claim, s1). Ok (map_insert key claim claims, digests, s1))"
| "execute_object_entry X (ODisclosed v job_id) claims digests s =
     rbind (execute_value X v s) (\<lambda>(subtree, s1).
     rbind (take_job job_id (location_of v) ObjectKind s1) (\<lambda>(operation, s2).
     case operation of
       ObjectDisclosure ordinal key salt \<Rightarrow>
         (let d = new_with_salt X (Some key) subtree salt
          in rbind (record_disclosure job_id ordinal d s2) (\<lambda>s3. Ok (claims, digests @ [hash d], s3)))
     | _ \<Rightarrow> Err (invalid_plan ''an object entry references the wrong job kind'')))"
| "execute_object X [] claims digests s = Ok (claims, digests, s)"
| "execute_object X (entry # entries) claims digests s =
     rbind (execute_object_entry X entry claims digests s) (\<lambda>(claims1, digests1, s1).
     execute_object X entries claims1 digests1 s1)"

definition execute_serial :: "'k externals \<Rightarrow> issuance_plan \<Rightarrow> issuance_assembly result" where
  "execute_serial X plan =
     rbind (assembler_new (ip_jobs plan) (ip_disclosure_job_ids plan)) (\<lambda>s.
     rbind (execute_value X (ip_root plan) s) (\<lambda>(claims, s').
     assembler_finish claims s'))"

end
