(* ===== verification/Issuance_Spec.thy ===== *)
theory Issuance_Spec
  imports Issuance_Plan
begin

text \<open>
  The specification of issuance: \<open>direct_value\<close> conceals a value in one depth-first pass, drawing
  salts as it goes and building every disclosure at once. The planner and the serial executor
  together compute it. In between stands \<open>denotes\<close>, what a planned value stands for under a job
  registry; both executors are shown correct against it.
\<close>

subsection \<open>Concealment in one pass\<close>

definition direct_decoys ::
    "'k externals \<Rightarrow> 'r random_source \<Rightarrow> bool \<Rightarrow> 'r \<Rightarrow> string list \<times> 'r" where
  "direct_decoys X R decoys r =
     (if decoys
      then case decoy_count R DECOY_MIN_ELEMENTS DECOY_MAX_ELEMENTS r of (n, r1) \<Rightarrow>
           (case draw_decoys R n r1 of (salts, r2) \<Rightarrow> (map (base64_hash X) salts, r2))
      else ([], r))"

fun direct_value ::
      "'k externals \<Rightarrow> 'r random_source \<Rightarrow> bool \<Rightarrow> json \<Rightarrow> strategy \<Rightarrow> 'r \<Rightarrow> json \<times> disclosure list \<times> 'r"
  and direct_array ::
      "'k externals \<Rightarrow> 'r random_source \<Rightarrow> bool \<Rightarrow> nat \<Rightarrow> json list \<Rightarrow> strategy \<Rightarrow> 'r
         \<Rightarrow> json list \<times> disclosure list \<times> 'r"
  and direct_object ::
      "'k externals \<Rightarrow> 'r random_source \<Rightarrow> bool \<Rightarrow> json_map \<Rightarrow> json_map \<Rightarrow> strategy \<Rightarrow> 'r
         \<Rightarrow> json_map \<times> string list \<times> disclosure list \<times> 'r"
where
  "direct_value X R decoys (Array vs) strat r =
     (case direct_array X R decoys 0 vs strat r of (outs, ds, r') \<Rightarrow> (Array outs, ds, r'))"
| "direct_value X R decoys (Object ms) strat r =
     (case direct_object X R decoys (map_insert SD_DIGESTS_KEY Null []) ms strat r of
        (claims, digests, ds, r1) \<Rightarrow>
          (case direct_decoys X R decoys r1 of (decoy_digests, r2) \<Rightarrow>
             (finish_object claims (digests @ decoy_digests), ds, r2)))"
| "direct_value X R decoys v strat r = (v, [], r)"
| "direct_array X R decoys index [] strat r = ([], [], r)"
| "direct_array X R decoys index (v # vs) strat r =
     (case direct_value X R decoys v (next_level strat (index_key index)) r of (out, ds, r1) \<Rightarrow>
      if sd_for_key strat (index_key index)
      then case disclosure_salt R r1 of (salt, r2) \<Rightarrow>
           (let d = new_with_salt X None out salt
            in case direct_array X R decoys (Suc index) vs strat r2 of (outs, ds', r3) \<Rightarrow>
               (placeholder (hash d) # outs, ds @ d # ds', r3))
      else case direct_array X R decoys (Suc index) vs strat r1 of (outs, ds', r3) \<Rightarrow>
           (out # outs, ds @ ds', r3))"
| "direct_object X R decoys claims [] strat r = (claims, [], [], r)"
| "direct_object X R decoys claims ((key, v) # ms) strat r =
     (case direct_value X R decoys v (next_level strat key) r of (out, ds, r1) \<Rightarrow>
      if sd_for_key strat key
      then case disclosure_salt R r1 of (salt, r2) \<Rightarrow>
           (let d = new_with_salt X (Some key) out salt
            in case direct_object X R decoys claims ms strat r2 of (claims', digests, ds', r3) \<Rightarrow>
               (claims', hash d # digests, ds @ d # ds', r3))
      else case direct_object X R decoys (map_insert key out claims) ms strat r1 of
             (claims', digests, ds', r3) \<Rightarrow> (claims', digests, ds @ ds', r3))"

subsection \<open>What a planned value stands for\<close>

text \<open>
  \<open>denotes X J ids pv v ds us\<close>: under the job registry \<open>J\<close> and the ordinals \<open>ids\<close>, the planned
  value stands for \<open>v\<close>, contributes the disclosures \<open>ds\<close> (each with its job), and uses the jobs
  \<open>us\<close>, in the order of serial execution.
\<close>

definition job_at :: "planned_job list \<Rightarrow> nat \<Rightarrow> nat \<Rightarrow> planned_operation \<Rightarrow> bool" where
  "job_at J i location operation \<longleftrightarrow>
     i < length J \<and> J ! i = \<lparr>pj_id = i, pj_location = location, pj_operation = operation\<rparr>"

definition bound_at :: "nat list \<Rightarrow> nat \<Rightarrow> nat \<Rightarrow> bool" where
  "bound_at ids ordinal i \<longleftrightarrow> ordinal < length ids \<and> ids ! ordinal = i"

inductive decoys_denote ::
    "'k externals \<Rightarrow> planned_job list \<Rightarrow> nat \<Rightarrow> nat list \<Rightarrow> string list \<Rightarrow> bool" for X J location where
  dd_Nil: "decoys_denote X J location [] []"
| dd_Cons: "job_at J i location (Decoy salt) \<Longrightarrow> decoys_denote X J location us digests \<Longrightarrow>
    decoys_denote X J location (i # us) (base64_hash X salt # digests)"

inductive denotes ::
      "'k externals \<Rightarrow> planned_job list \<Rightarrow> nat list \<Rightarrow> planned_value \<Rightarrow> json
         \<Rightarrow> (nat \<times> disclosure) list \<Rightarrow> nat list \<Rightarrow> bool"
  and denotes_array ::
      "'k externals \<Rightarrow> planned_job list \<Rightarrow> nat list \<Rightarrow> planned_array_entry list \<Rightarrow> json list
         \<Rightarrow> (nat \<times> disclosure) list \<Rightarrow> nat list \<Rightarrow> bool"
  and denotes_object ::
      "'k externals \<Rightarrow> planned_job list \<Rightarrow> nat list \<Rightarrow> json_map \<Rightarrow> planned_object_entry list
         \<Rightarrow> json_map \<Rightarrow> string list \<Rightarrow> (nat \<times> disclosure) list \<Rightarrow> nat list \<Rightarrow> bool"
  for X J ids
where
  dn_scalar: "denotes X J ids (PlannedValue location (PScalar v)) v [] []"
| dn_array: "denotes_array X J ids entries outs ds us \<Longrightarrow>
    denotes X J ids (PlannedValue location (PArray entries)) (Array outs) ds us"
| dn_object: "denotes_object X J ids (map_insert SD_DIGESTS_KEY Null []) entries claims digests ds us \<Longrightarrow>
    decoys_denote X J location decoys decoy_digests \<Longrightarrow>
    denotes X J ids (PlannedValue location (PObject entries decoys))
      (finish_object claims (digests @ decoy_digests)) ds (us @ decoys)"
| da_Nil: "denotes_array X J ids [] [] [] []"
| da_visible: "denotes X J ids v out ds us \<Longrightarrow> denotes_array X J ids entries outs ds' us' \<Longrightarrow>
    denotes_array X J ids (AVisible v # entries) (out # outs) (ds @ ds') (us @ us')"
| da_disclosed: "denotes X J ids v out ds us \<Longrightarrow>
    job_at J i (location_of v) (ArrayDisclosure ordinal salt) \<Longrightarrow> bound_at ids ordinal i \<Longrightarrow>
    d = new_with_salt X None out salt \<Longrightarrow> denotes_array X J ids entries outs ds' us' \<Longrightarrow>
    denotes_array X J ids (ADisclosed v i # entries) (placeholder (hash d) # outs)
      (ds @ (i, d) # ds') (us @ i # us')"
| do_Nil: "denotes_object X J ids claims [] claims [] [] []"
| do_visible: "denotes X J ids v out ds us \<Longrightarrow>
    denotes_object X J ids (map_insert key out claims) entries claims' digests ds' us' \<Longrightarrow>
    denotes_object X J ids claims (OVisible key v # entries) claims' digests (ds @ ds') (us @ us')"
| do_disclosed: "denotes X J ids v out ds us \<Longrightarrow>
    job_at J i (location_of v) (ObjectDisclosure ordinal key salt) \<Longrightarrow> bound_at ids ordinal i \<Longrightarrow>
    d = new_with_salt X (Some key) out salt \<Longrightarrow>
    denotes_object X J ids claims entries claims' digests ds' us' \<Longrightarrow>
    denotes_object X J ids claims (ODisclosed v i # entries) claims' (hash d # digests)
      (ds @ (i, d) # ds') (us @ i # us')"

lemmas denotes_intros = denotes_denotes_array_denotes_object.intros
lemmas denotes_induct = denotes_denotes_array_denotes_object.inducts

lemma job_at_append: "job_at J i l operation \<Longrightarrow> job_at (J @ J') i l operation"
  by (simp add: job_at_def nth_append)

lemma bound_at_append: "bound_at ids n i \<Longrightarrow> bound_at (ids @ ids') n i"
  by (simp add: bound_at_def nth_append)

lemma decoys_denote_append:
  "decoys_denote X J l us digests \<Longrightarrow> decoys_denote X (J @ J') l us digests"
  by (induction rule: decoys_denote.induct) (auto intro: decoys_denote.intros job_at_append)

text \<open>A longer registry changes nothing.\<close>

lemma denotes_append:
  "denotes X J ids pv v ds us \<Longrightarrow> denotes X (J @ J') (ids @ ids') pv v ds us"
  "denotes_array X J ids entries outs ds us \<Longrightarrow> denotes_array X (J @ J') (ids @ ids') entries outs ds us"
  "denotes_object X J ids claims oentries claims' digests ds us \<Longrightarrow>
     denotes_object X (J @ J') (ids @ ids') claims oentries claims' digests ds us"
  by (induction rule: denotes_induct)
    (auto intro: denotes_intros job_at_append bound_at_append decoys_denote_append)

lemma denotes_jobs:
  "denotes X J ids pv v ds us \<Longrightarrow> set (map fst ds) \<subseteq> set us \<and> (distinct us \<longrightarrow> distinct (map fst ds))"
  "denotes_array X J ids entries outs ds us \<Longrightarrow>
     set (map fst ds) \<subseteq> set us \<and> (distinct us \<longrightarrow> distinct (map fst ds))"
  "denotes_object X J ids claims oentries claims' digests ds us \<Longrightarrow>
     set (map fst ds) \<subseteq> set us \<and> (distinct us \<longrightarrow> distinct (map fst ds))"
  by (induction rule: denotes_induct) auto


subsection \<open>The planner computes a plan of the one-pass concealment\<close>

text \<open>What planning does to the planner: jobs are appended, and the new ordinals are those of \<open>ds\<close>.\<close>

definition grows :: "planner \<Rightarrow> planner \<Rightarrow> (nat \<times> disclosure) list \<Rightarrow> bool" where
  "grows p p' ds \<longleftrightarrow>
     (\<exists>J. pl_jobs p' = pl_jobs p @ J) \<and> pl_disclosure_job_ids p' = pl_disclosure_job_ids p @ map fst ds"

definition new_jobs :: "planner \<Rightarrow> planner \<Rightarrow> nat list" where
  "new_jobs p p' = [length (pl_jobs p)..<length (pl_jobs p')]"

lemma grows_refl [simp]: "grows p p []"
  by (simp add: grows_def)

lemma grows_trans: "grows p p' ds \<Longrightarrow> grows p' p'' ds' \<Longrightarrow> grows p p'' (ds @ ds')"
  by (auto simp: grows_def)

lemma grows_length: "grows p p' ds \<Longrightarrow> length (pl_jobs p) \<le> length (pl_jobs p')"
  by (auto simp: grows_def)

lemma new_jobs_refl [simp]: "new_jobs p p = []"
  by (simp add: new_jobs_def)

lemma new_jobs_trans: "grows p p' ds \<Longrightarrow> grows p' p'' ds' \<Longrightarrow> new_jobs p p' @ new_jobs p' p'' = new_jobs p p''"
  using grows_length [of p p' ds] grows_length [of p' p'' ds']
    upt_add_eq_append [of "length (pl_jobs p)" "length (pl_jobs p')" "length (pl_jobs p'') - length (pl_jobs p')"]
  by (simp add: new_jobs_def)

lemma grows_denotes:
  "denotes X (pl_jobs p) (pl_disclosure_job_ids p) pv v ds us \<Longrightarrow> grows p p' ds' \<Longrightarrow>
     denotes X (pl_jobs p') (pl_disclosure_job_ids p') pv v ds us"
  by (auto simp: grows_def intro: denotes_append(1))

lemma grows_decoys:
  "decoys_denote X (pl_jobs p) l us digests \<Longrightarrow> grows p p' ds' \<Longrightarrow> decoys_denote X (pl_jobs p') l us digests"
  by (auto simp: grows_def intro: decoys_denote_append)

lemma grows_denotes_object:
  "denotes_object X (pl_jobs p) (pl_disclosure_job_ids p) claims pv v digests ds us \<Longrightarrow> grows p p' ds' \<Longrightarrow>
     denotes_object X (pl_jobs p') (pl_disclosure_job_ids p') claims pv v digests ds us"
  by (auto simp: grows_def intro: denotes_append(3))

lemma grows_job: "job_at (pl_jobs p) i l operation \<Longrightarrow> grows p p' ds \<Longrightarrow> job_at (pl_jobs p') i l operation"
  by (auto simp: grows_def intro: job_at_append)

lemma grows_bound:
  "bound_at (pl_disclosure_job_ids p) n i \<Longrightarrow> grows p p' ds \<Longrightarrow> bound_at (pl_disclosure_job_ids p') n i"
  by (auto simp: grows_def intro: bound_at_append)

lemma allocate_location_id_Ok:
  "allocate_location_id p = Ok (l, p') \<longleftrightarrow>
     l = next_location_id p \<and> next_location_id p + 1 \<le> usize_max \<and> p' = p\<lparr>next_location_id := next_location_id p + 1\<rparr>"
  by (auto simp: allocate_location_id_def checked_add_def)

lemma grows_location: "grows (p\<lparr>next_location_id := n\<rparr>) p' ds = grows p p' ds"
  by (simp add: grows_def)

lemma new_jobs_location: "new_jobs (p\<lparr>next_location_id := n\<rparr>) p' = new_jobs p p'"
  by (simp add: new_jobs_def)

lemma plan_array_disclosure_grows:
  assumes "plan_array_disclosure R l p r = Ok (i, p', r')"
  obtains salt ordinal where "disclosure_salt R r = (salt, r')" "grows p p' [(i, d)]" "new_jobs p p' = [i]"
    "job_at (pl_jobs p') i l (ArrayDisclosure ordinal salt)" "bound_at (pl_disclosure_job_ids p') ordinal i"
  using assms
  by (auto simp: plan_array_disclosure_def allocate_job_id_def grows_def new_jobs_def job_at_def bound_at_def
      split: if_splits prod.splits)

lemma plan_object_disclosure_grows:
  assumes "plan_object_disclosure R l key p r = Ok (i, p', r')"
  obtains salt ordinal where "disclosure_salt R r = (salt, r')" "grows p p' [(i, d)]" "new_jobs p p' = [i]"
    "job_at (pl_jobs p') i l (ObjectDisclosure ordinal key salt)" "bound_at (pl_disclosure_job_ids p') ordinal i"
  using assms
  by (auto simp: plan_object_disclosure_def allocate_job_id_def grows_def new_jobs_def job_at_def bound_at_def
      split: if_splits prod.splits)

lemma plan_decoys_denote:
  "plan_decoys R l n p r = Ok (us, p', r') \<Longrightarrow>
     \<exists>salts. draw_decoys R n r = (salts, r') \<and> grows p p' [] \<and> us = new_jobs p p' \<and>
       decoys_denote X (pl_jobs p') l us (map (base64_hash X) salts)"
proof (induction n arbitrary: p r us)
  case 0
  then show ?case by (auto intro: decoys_denote.intros)
next
  case (Suc n)
  then obtain i p1 r1 us' where d: "plan_decoy R l p r = Ok (i, p1, r1)"
    and rest: "plan_decoys R l n p1 r1 = Ok (us', p', r')" and us: "us = i # us'"
    by (auto simp: rbind_eq_Ok)
  from d obtain salt where salt: "decoy_salt R r = (salt, r1)" and g: "grows p p1 []"
    and i: "new_jobs p p1 = [i]" and j: "job_at (pl_jobs p1) i l (Decoy salt)"
    by (auto simp: plan_decoy_def allocate_job_id_def grows_def new_jobs_def job_at_def split: if_splits prod.splits)
  from Suc.IH [OF rest] obtain salts where "draw_decoys R n r1 = (salts, r')" and g': "grows p1 p' []"
    and us': "us' = new_jobs p1 p'" and dd: "decoys_denote X (pl_jobs p') l us' (map (base64_hash X) salts)"
    by blast
  moreover have "decoys_denote X (pl_jobs p') l (i # us') (map (base64_hash X) (salt # salts))"
    using grows_job [OF j g'] dd by (auto intro: decoys_denote.intros)
  moreover have "i # us' = new_jobs p p'"
    using new_jobs_trans [OF g g'] i us' by simp
  ultimately show ?case
    using us salt grows_trans [OF g g'] by (simp add: Let_def)
qed

lemma plan_object_decoys_denote:
  "plan_object_decoys R decoys l p r = Ok (us, p', r') \<Longrightarrow>
     \<exists>digests. direct_decoys X R decoys r = (digests, r') \<and> grows p p' [] \<and> us = new_jobs p p' \<and>
       decoys_denote X (pl_jobs p') l us digests"
proof (cases decoys)
  case True
  obtain n r1 where n: "decoy_count R DECOY_MIN_ELEMENTS DECOY_MAX_ELEMENTS r = (n, r1)" by fastforce
  assume "plan_object_decoys R decoys l p r = Ok (us, p', r')"
  with True n have "plan_decoys R l n p r1 = Ok (us, p', r')"
    by (simp add: plan_object_decoys_def)
  from plan_decoys_denote [OF this, of X] True n show ?thesis
    by (auto simp: direct_decoys_def)
qed (auto simp: plan_object_decoys_def direct_decoys_def intro: decoys_denote.intros)

text \<open>One planned value, with everything the later steps need to know about it.\<close>

definition planned_as ::
    "'k externals \<Rightarrow> planner \<Rightarrow> planner \<Rightarrow> planned_value \<Rightarrow> json \<Rightarrow> (nat \<times> disclosure) list \<Rightarrow> bool" where
  "planned_as X p p' pv out ds \<longleftrightarrow>
     grows p p' ds \<and> denotes X (pl_jobs p') (pl_disclosure_job_ids p') pv out ds (new_jobs p p')"

lemma plan_denotes:
  fixes X :: "'k externals"
  shows "plan_value R decoys v strat l p r = Ok (pv, p', r') \<Longrightarrow>
     \<exists>out ds. direct_value X R decoys v strat r = (out, map snd ds, r') \<and> location_of pv = l \<and>
       planned_as X p p' pv out ds"
  and "plan_array R decoys n vs strat p r = Ok (aes, p', r') \<Longrightarrow>
     \<exists>outs ds. direct_array X R decoys n vs strat r = (outs, map snd ds, r') \<and> grows p p' ds \<and>
       denotes_array X (pl_jobs p') (pl_disclosure_job_ids p') aes outs ds (new_jobs p p')"
  and "plan_object R decoys ms strat p r = Ok (oes, p', r') \<Longrightarrow>
     (\<forall>claims. \<exists>claims' digests ds. direct_object X R decoys claims ms strat r = (claims', digests, map snd ds, r') \<and>
       grows p p' ds \<and>
       denotes_object X (pl_jobs p') (pl_disclosure_job_ids p') claims oes claims' digests ds (new_jobs p p'))"
proof (induction R decoys v strat l p r and R decoys n vs strat p r and R decoys ms strat p r
    arbitrary: pv p' r' and aes p' r' and oes p' r'
    rule: plan_value_plan_array_plan_object.induct)
  case (1 R decoys vs strat l p r)
  then obtain entries where "plan_array R decoys 0 vs strat p r = Ok (entries, p', r')"
    and "pv = PlannedValue l (PArray entries)"
    by (auto simp: rbind_eq_Ok)
  moreover from "1.IH" [OF this(1)] obtain outs ds
    where "direct_array X R decoys 0 vs strat r = (outs, map snd ds, r')" "grows p p' ds"
      "denotes_array X (pl_jobs p') (pl_disclosure_job_ids p') entries outs ds (new_jobs p p')" by blast
  ultimately show ?case
    by (intro exI [of _ "Array outs"] exI [of _ ds]) (auto simp: planned_as_def intro: dn_array)
next
  case (2 R decoys ms strat l p r)
  then obtain entries p1 r1 us where e: "plan_object R decoys ms strat p r = Ok (entries, p1, r1)"
    and d: "plan_object_decoys R decoys l p1 r1 = Ok (us, p', r')"
    and pv: "pv = PlannedValue l (PObject entries us)"
    by (auto simp: rbind_eq_Ok)
  from "2.IH" [OF e] obtain claims digests ds
    where de: "direct_object X R decoys (map_insert SD_DIGESTS_KEY Null []) ms strat r = (claims, digests, map snd ds, r1)"
      and g: "grows p p1 ds"
      and o1: "denotes_object X (pl_jobs p1) (pl_disclosure_job_ids p1) (map_insert SD_DIGESTS_KEY Null [])
                 entries claims digests ds (new_jobs p p1)"
    by blast
  from plan_object_decoys_denote [OF d, of X] obtain dg
    where dd: "direct_decoys X R decoys r1 = (dg, r')" and g': "grows p1 p' []"
      and us: "us = new_jobs p1 p'" and od: "decoys_denote X (pl_jobs p') l us dg"
    by blast
  have "planned_as X p p' pv (finish_object claims (digests @ dg)) ds"
    using dn_object [OF grows_denotes_object [OF o1 g'] od] grows_trans [OF g g'] new_jobs_trans [OF g g'] us
    by (simp add: planned_as_def pv)
  then show ?case using de dd pv by auto
next
  case (5 R decoys n v vs strat p r)
  let ?k = "index_key n"
  from "5.prems" obtain location p1 planned p2 r2 entry p3 r3 entries
    where loc: "allocate_location_id p = Ok (location, p1)"
      and v: "plan_value R decoys v (next_level strat ?k) location p1 r = Ok (planned, p2, r2)"
      and entry: "(if sd_for_key strat ?k
            then rbind (plan_array_disclosure R location p2 r2) (\<lambda>(job_id, p3, r3).
                 Ok (ADisclosed planned job_id, p3, r3))
            else Ok (AVisible planned, p2, r2)) = Ok (entry, p3, r3)"
      and rest: "plan_array R decoys (Suc n) vs strat p3 r3 = Ok (entries, p', r')"
      and aes: "aes = entry # entries"
    by (auto simp: rbind_eq_Ok)
  from "5.IH"(1) [OF loc refl v] obtain out ds
    where dv: "direct_value X R decoys v (next_level strat ?k) r = (out, map snd ds, r2)"
      and l: "location_of planned = location" and g1: "grows p p2 ds"
      and n1: "denotes X (pl_jobs p2) (pl_disclosure_job_ids p2) planned out ds (new_jobs p p2)"
    using loc by (auto simp: planned_as_def allocate_location_id_Ok grows_location new_jobs_location)
  from "5.IH"(2) [OF loc refl v refl refl entry refl refl rest] obtain outs ds'
    where dr: "direct_array X R decoys (Suc n) vs strat r3 = (outs, map snd ds', r')" and g3: "grows p3 p' ds'"
      and n3: "denotes_array X (pl_jobs p') (pl_disclosure_job_ids p') entries outs ds' (new_jobs p3 p')"
    by blast
  show ?case
  proof (cases "sd_for_key strat ?k")
    case False
    with entry have eq: "entry = AVisible planned" "p3 = p2" "r3 = r2" by simp_all
    have "denotes_array X (pl_jobs p') (pl_disclosure_job_ids p') aes (out # outs) (ds @ ds') (new_jobs p p')"
      using da_visible [OF grows_denotes [OF n1 g3 [unfolded eq]] n3] new_jobs_trans [OF g1 g3 [unfolded eq]]
      by (simp add: aes eq)
    moreover have "grows p p' (ds @ ds')"
      by (rule grows_trans [OF g1 g3 [unfolded eq]])
    ultimately show ?thesis
      using dv dr False eq by (intro exI [of _ "out # outs"] exI [of _ "ds @ ds'"]) simp
  next
    case True
    with entry obtain i where pa: "plan_array_disclosure R location p2 r2 = Ok (i, p3, r3)"
      and e: "entry = ADisclosed planned i"
      by (auto simp: rbind_eq_Ok)
    obtain salt where salt: "disclosure_salt R r2 = (salt, r3)"
      using pa by (auto elim: plan_array_disclosure_grows)
    let ?d = "new_with_salt X None out salt"
    obtain ordinal where g2: "grows p2 p3 [(i, ?d)]" and ni: "new_jobs p2 p3 = [i]"
      and j: "job_at (pl_jobs p3) i location (ArrayDisclosure ordinal salt)"
      and b: "bound_at (pl_disclosure_job_ids p3) ordinal i"
      using pa salt by (auto elim!: plan_array_disclosure_grows [where d = ?d])
    have g13: "grows p p3 (ds @ [(i, ?d)])" and g23: "grows p2 p' ([(i, ?d)] @ ds')"
      using grows_trans [OF g1 g2] grows_trans [OF g2 g3] by simp_all
    have "denotes_array X (pl_jobs p') (pl_disclosure_job_ids p') aes (placeholder (hash ?d) # outs)
        (ds @ (i, ?d) # ds') (new_jobs p p2 @ i # new_jobs p3 p')"
      unfolding aes e
      by (rule da_disclosed [OF grows_denotes [OF n1 g23] _ _ refl n3])
        (use grows_job [OF j g3] grows_bound [OF b g3] l in auto)
    moreover have "new_jobs p p2 @ i # new_jobs p3 p' = new_jobs p p'"
      using new_jobs_trans [OF g1 g2] new_jobs_trans [OF g13 g3] ni
        by (metis append.assoc append_Cons append_Nil)
    moreover have "grows p p' (ds @ (i, ?d) # ds')"
      using grows_trans [OF g13 g3] by simp
    ultimately show ?thesis
      using dv dr salt True by (intro exI [of _ "placeholder (hash ?d) # outs"] exI [of _ "ds @ (i, ?d) # ds'"])
        (simp add: Let_def)
  qed
next
  case (7 R decoys key v ms strat p r)
  from "7.prems" obtain location p1 planned p2 r2 entry p3 r3 entries
    where loc: "allocate_location_id p = Ok (location, p1)"
      and v: "plan_value R decoys v (next_level strat key) location p1 r = Ok (planned, p2, r2)"
      and entry: "(if sd_for_key strat key
            then rbind (plan_object_disclosure R location key p2 r2) (\<lambda>(job_id, p3, r3).
                 Ok (ODisclosed planned job_id, p3, r3))
            else Ok (OVisible key planned, p2, r2)) = Ok (entry, p3, r3)"
      and rest: "plan_object R decoys ms strat p3 r3 = Ok (entries, p', r')"
      and oes: "oes = entry # entries"
    by (auto simp: rbind_eq_Ok)
  from "7.IH"(1) [OF loc refl v] obtain out ds
    where dv: "direct_value X R decoys v (next_level strat key) r = (out, map snd ds, r2)"
      and l: "location_of planned = location" and g1: "grows p p2 ds"
      and n1: "denotes X (pl_jobs p2) (pl_disclosure_job_ids p2) planned out ds (new_jobs p p2)"
    using loc by (auto simp: planned_as_def allocate_location_id_Ok grows_location new_jobs_location)
  note IH = "7.IH"(2) [OF loc refl v refl refl entry refl refl rest, rule_format]
  show ?case
  proof
    fix claims
    show "\<exists>claims' digests ds. direct_object X R decoys claims ((key, v) # ms) strat r = (claims', digests, map snd ds, r') \<and>
       grows p p' ds \<and>
       denotes_object X (pl_jobs p') (pl_disclosure_job_ids p') claims oes claims' digests ds (new_jobs p p')"
    proof (cases "sd_for_key strat key")
      case False
      with entry have eq: "entry = OVisible key planned" "p3 = p2" "r3 = r2" by simp_all
      from IH [of "map_insert key out claims"] obtain claims' digests ds'
        where dr: "direct_object X R decoys (map_insert key out claims) ms strat r3 = (claims', digests, map snd ds', r')"
          and g3: "grows p3 p' ds'"
          and n3: "denotes_object X (pl_jobs p') (pl_disclosure_job_ids p') (map_insert key out claims)
             entries claims' digests ds' (new_jobs p3 p')" by blast
      have "denotes_object X (pl_jobs p') (pl_disclosure_job_ids p') claims oes claims' digests (ds @ ds') (new_jobs p p')"
        using do_visible [OF grows_denotes [OF n1 g3 [unfolded eq]] n3] new_jobs_trans [OF g1 g3 [unfolded eq]]
        by (simp add: oes eq)
      moreover have "grows p p' (ds @ ds')"
        by (rule grows_trans [OF g1 g3 [unfolded eq]])
      ultimately show ?thesis
        using dv dr False eq by (intro exI [of _ claims'] exI [of _ digests] exI [of _ "ds @ ds'"]) simp
    next
      case True
      with entry obtain i where pa: "plan_object_disclosure R location key p2 r2 = Ok (i, p3, r3)"
        and e: "entry = ODisclosed planned i"
        by (auto simp: rbind_eq_Ok)
      from IH [of claims] obtain claims' digests ds'
        where dr: "direct_object X R decoys claims ms strat r3 = (claims', digests, map snd ds', r')"
          and g3: "grows p3 p' ds'"
          and n3: "denotes_object X (pl_jobs p') (pl_disclosure_job_ids p') claims entries claims' digests ds' (new_jobs p3 p')"
        by blast
      obtain salt where salt: "disclosure_salt R r2 = (salt, r3)"
        using pa by (auto elim: plan_object_disclosure_grows)
      let ?d = "new_with_salt X (Some key) out salt"
      obtain ordinal where g2: "grows p2 p3 [(i, ?d)]" and ni: "new_jobs p2 p3 = [i]"
        and j: "job_at (pl_jobs p3) i location (ObjectDisclosure ordinal key salt)"
        and b: "bound_at (pl_disclosure_job_ids p3) ordinal i"
        using pa salt by (auto elim!: plan_object_disclosure_grows [where d = ?d])
      have g13: "grows p p3 (ds @ [(i, ?d)])" and g23: "grows p2 p' ([(i, ?d)] @ ds')"
        using grows_trans [OF g1 g2] grows_trans [OF g2 g3] by simp_all
      have "denotes_object X (pl_jobs p') (pl_disclosure_job_ids p') claims oes claims' (hash ?d # digests)
          (ds @ (i, ?d) # ds') (new_jobs p p2 @ i # new_jobs p3 p')"
        unfolding oes e
        by (rule do_disclosed [OF grows_denotes [OF n1 g23] _ _ refl n3])
          (use grows_job [OF j g3] grows_bound [OF b g3] l in auto)
      moreover have "new_jobs p p2 @ i # new_jobs p3 p' = new_jobs p p'"
        using new_jobs_trans [OF g1 g2] new_jobs_trans [OF g13 g3] ni
        by (metis append.assoc append_Cons append_Nil)
      moreover have "grows p p' (ds @ (i, ?d) # ds')"
        using grows_trans [OF g13 g3] by simp
      ultimately show ?thesis
        using dv dr salt True
        by (intro exI [of _ claims'] exI [of _ "hash ?d # digests"] exI [of _ "ds @ (i, ?d) # ds'"])
          (simp add: Let_def)
    qed
  qed
qed (auto simp: planned_as_def intro: denotes_intros)

end
