(* ===== verification/Issuance_Serial.thy ===== *)
theory Issuance_Serial
  imports Issuance_Spec
begin

text \<open>
  The plan a planner creates passes the registry checks, and executing it serially gives exactly
  the one-pass concealment: the same claims and the same disclosures in the same order.
\<close>

subsection \<open>The registry of a created plan\<close>

definition registry_ok :: "planned_job list \<Rightarrow> nat list \<Rightarrow> bool" where
  "registry_ok J ids \<longleftrightarrow>
     (\<forall>i < length J. pj_id (J ! i) = i \<and>
        (\<forall>ordinal. disclosure_ordinal (pj_operation (J ! i)) = Some ordinal \<longrightarrow> bound_at ids ordinal i)) \<and>
     (\<forall>ordinal < length ids. ids ! ordinal < length J \<and>
        disclosure_ordinal (pj_operation (J ! (ids ! ordinal))) = Some ordinal)"

lemma registry_ok_Nil: "registry_ok [] []"
  by (simp add: registry_ok_def)

lemma registry_ok_disclosure:
  assumes "registry_ok J ids" and "disclosure_ordinal operation = Some (length ids)"
  shows "registry_ok (J @ [\<lparr>pj_id = length J, pj_location = l, pj_operation = operation\<rparr>]) (ids @ [length J])"
  using assms
  by (auto simp: registry_ok_def bound_at_def nth_append less_Suc_eq)

lemma registry_ok_decoy:
  assumes "registry_ok J ids" and "disclosure_ordinal operation = None"
  shows "registry_ok (J @ [\<lparr>pj_id = length J, pj_location = l, pj_operation = operation\<rparr>]) ids"
  using assms
  by (auto simp: registry_ok_def bound_at_def nth_append less_Suc_eq)

lemma registry_ok_distinct: "registry_ok J ids \<Longrightarrow> distinct ids"
  by (auto simp: registry_ok_def distinct_conv_nth) (metis option.inject)

definition planner_ok :: "planner \<Rightarrow> bool" where
  "planner_ok p \<longleftrightarrow>
     registry_ok (pl_jobs p) (pl_disclosure_job_ids p) \<and> length (pl_jobs p) \<le> Suc usize_max"

lemma planner_ok_location [simp]: "planner_ok (p\<lparr>next_location_id := n\<rparr>) = planner_ok p"
  by (simp add: planner_ok_def)

lemma plan_disclosures_ok:
  "plan_object_disclosure R l key p r = Ok (i, p', r') \<Longrightarrow> planner_ok p \<Longrightarrow> planner_ok p'"
  "plan_array_disclosure R l p r = Ok (i, p', r') \<Longrightarrow> planner_ok p \<Longrightarrow> planner_ok p'"
  "plan_decoy R l p r = Ok (i, p', r') \<Longrightarrow> planner_ok p \<Longrightarrow> planner_ok p'"
  by (auto simp: plan_object_disclosure_def plan_array_disclosure_def plan_decoy_def planner_ok_def
      allocate_job_id_def registry_ok_disclosure registry_ok_decoy split: if_splits prod.splits)

lemma plan_decoys_ok: "plan_decoys R l n p r = Ok (us, p', r') \<Longrightarrow> planner_ok p \<Longrightarrow> planner_ok p'"
  by (induction n arbitrary: p r us) (auto simp: rbind_eq_Ok dest: plan_disclosures_ok)

lemma plan_object_decoys_ok:
  "plan_object_decoys R decoys l p r = Ok (us, p', r') \<Longrightarrow> planner_ok p \<Longrightarrow> planner_ok p'"
  by (auto simp: plan_object_decoys_def dest: plan_decoys_ok split: if_splits prod.splits)

lemma plan_value_ok:
  "plan_value R decoys v strat l p r = Ok (pv, p', r') \<Longrightarrow> planner_ok p \<Longrightarrow> planner_ok p'"
  "plan_array R decoys n vs strat p r = Ok (aes, p', r') \<Longrightarrow> planner_ok p \<Longrightarrow> planner_ok p'"
  "plan_object R decoys ms strat p r = Ok (oes, p', r') \<Longrightarrow> planner_ok p \<Longrightarrow> planner_ok p'"
proof (induction R decoys v strat l p r and R decoys n vs strat p r and R decoys ms strat p r
    arbitrary: pv p' r' and aes p' r' and oes p' r'
    rule: plan_value_plan_array_plan_object.induct)
  case (1 R decoys vs strat l p r)
  then show ?case by (auto simp: rbind_eq_Ok)
next
  case (2 R decoys ms strat l p r)
  then show ?case by (auto simp: rbind_eq_Ok dest: plan_object_decoys_ok)
next
  case (5 R decoys n v vs strat p r)
  from "5.prems"(1) obtain location p1 planned p2 r2 entry p3 r3 entries
    where loc: "allocate_location_id p = Ok (location, p1)"
      and v: "plan_value R decoys v (next_level strat (index_key n)) location p1 r = Ok (planned, p2, r2)"
      and entry: "(if sd_for_key strat (index_key n)
            then rbind (plan_array_disclosure R location p2 r2) (\<lambda>(job_id, p3, r3).
                 Ok (ADisclosed planned job_id, p3, r3))
            else Ok (AVisible planned, p2, r2)) = Ok (entry, p3, r3)"
      and rest: "plan_array R decoys (Suc n) vs strat p3 r3 = Ok (entries, p', r')"
    by (auto simp: rbind_eq_Ok)
  have "planner_ok p2"
    using "5.IH"(1) [OF loc refl v] loc "5.prems"(2) by (auto simp: allocate_location_id_Ok)
  with entry have "planner_ok p3"
    by (auto simp: rbind_eq_Ok dest: plan_disclosures_ok split: if_splits)
  from "5.IH"(2) [OF loc refl v refl refl entry refl refl rest this] show ?case .
next
  case (7 R decoys key v ms strat p r)
  from "7.prems"(1) obtain location p1 planned p2 r2 entry p3 r3 entries
    where loc: "allocate_location_id p = Ok (location, p1)"
      and v: "plan_value R decoys v (next_level strat key) location p1 r = Ok (planned, p2, r2)"
      and entry: "(if sd_for_key strat key
            then rbind (plan_object_disclosure R location key p2 r2) (\<lambda>(job_id, p3, r3).
                 Ok (ODisclosed planned job_id, p3, r3))
            else Ok (OVisible key planned, p2, r2)) = Ok (entry, p3, r3)"
      and rest: "plan_object R decoys ms strat p3 r3 = Ok (entries, p', r')"
    by (auto simp: rbind_eq_Ok)
  have "planner_ok p2"
    using "7.IH"(1) [OF loc refl v] loc "7.prems"(2) by (auto simp: allocate_location_id_Ok)
  with entry have "planner_ok p3"
    by (auto simp: rbind_eq_Ok dest: plan_disclosures_ok split: if_splits)
  from "7.IH"(2) [OF loc refl v refl refl entry refl refl rest this] show ?case .
qed simp_all

subsection \<open>The registry checks\<close>

lemma validate_jobs_Ok:
  "n + length jobs \<le> Suc usize_max \<Longrightarrow>
     (\<forall>i < length jobs. pj_id (jobs ! i) = n + i \<and>
        (\<forall>ordinal. disclosure_ordinal (pj_operation (jobs ! i)) = Some ordinal \<longrightarrow> bound_at ids ordinal (n + i))) \<Longrightarrow>
     validate_jobs ids n jobs = Ok ()"
proof (induction jobs arbitrary: n)
  case Nil
  then show ?case by simp
next
  case (Cons job jobs)
  have "validate_jobs ids (Suc n) jobs = Ok ()"
  proof (rule Cons.IH)
    show "\<forall>i < length jobs. pj_id (jobs ! i) = Suc n + i \<and>
        (\<forall>ordinal. disclosure_ordinal (pj_operation (jobs ! i)) = Some ordinal \<longrightarrow> bound_at ids ordinal (Suc n + i))"
      using Cons.prems(2) [rule_format, of "Suc _"] by auto
  qed (use Cons.prems(1) in simp)
  moreover have "pj_id job = n"
    and "\<And>ordinal. disclosure_ordinal (pj_operation job) = Some ordinal \<Longrightarrow> bound_at ids ordinal n"
    using Cons.prems(2) by (auto dest: spec [of _ 0])
  ultimately show ?case
    using Cons.prems(1) by (auto simp: bound_at_def split: option.split)
qed

lemma validate_ids_Ok:
  "\<forall>k < length ids. ids ! k < length jobs \<and>
     disclosure_ordinal (pj_operation (jobs ! (ids ! k))) = Some (n + k) \<Longrightarrow>
   validate_ids jobs n ids = Ok ()"
proof (induction ids arbitrary: n)
  case Nil
  then show ?case by simp
next
  case (Cons i ids)
  have "validate_ids jobs (Suc n) ids = Ok ()"
    by (rule Cons.IH) (use Cons.prems [rule_format, of "Suc _"] in auto)
  moreover have "i < length jobs \<and> disclosure_ordinal (pj_operation (jobs ! i)) = Some n"
    using Cons.prems by (auto dest: spec [of _ 0])
  ultimately show ?case by simp
qed

lemma validate_registry_Ok: "registry_ok J ids \<Longrightarrow> length J \<le> Suc usize_max \<Longrightarrow> validate_registry J ids = Ok ()"
  by (simp add: validate_registry_def registry_ok_def validate_jobs_Ok validate_ids_Ok)


subsection \<open>Serial execution\<close>

text \<open>
  The assembler's state, by what has happened: the jobs \<open>T\<close> are taken, the disclosures of the jobs
  \<open>S\<close> are recorded, \<open>D\<close> giving each job's disclosure.
\<close>

definition asm_state ::
    "planned_job list \<Rightarrow> nat list \<Rightarrow> (nat \<Rightarrow> disclosure) \<Rightarrow> nat set \<Rightarrow> nat set \<Rightarrow> assembler" where
  "asm_state J ids D T S =
     \<lparr>as_disclosures = map (\<lambda>i. if i \<in> S then Some (D i) else None) ids,
      as_jobs = map (\<lambda>i. if i \<in> T then None else Some (J ! i)) [0..<length J],
      as_job_ids = ids\<rparr>"

definition agrees :: "(nat \<Rightarrow> disclosure) \<Rightarrow> (nat \<times> disclosure) list \<Rightarrow> bool" where
  "agrees D ds \<longleftrightarrow> (\<forall>(i, d) \<in> set ds. D i = d)"

lemma agrees_simps [simp]:
  "agrees D []" "agrees D ((i, d) # ds) \<longleftrightarrow> D i = d \<and> agrees D ds"
  "agrees D (ds @ ds') \<longleftrightarrow> agrees D ds \<and> agrees D ds'"
  by (auto simp: agrees_def ball_Un)

lemma take_planned_job_state:
  assumes "job_at J i l operation" and "operation_kind operation = kind" and "i \<notin> T"
  shows "take_planned_job i l kind (asm_state J ids D T S) =
     Ok (\<lparr>pj_id = i, pj_location = l, pj_operation = operation\<rparr>, asm_state J ids D (insert i T) S)"
proof -
  have "(map (\<lambda>k. if k \<in> T then None else Some (J ! k)) [0..<length J])[i := None] =
      map (\<lambda>k. if k \<in> insert i T then None else Some (J ! k)) [0..<length J]"
    using assms(1) by (intro nth_equalityI) (auto simp: job_at_def nth_list_update)
  then show ?thesis
    using assms by (simp add: take_planned_job_def asm_state_def job_at_def)
qed

lemma take_job_state:
  "job_at J i l operation \<Longrightarrow> operation_kind operation = kind \<Longrightarrow> i \<notin> T \<Longrightarrow>
     take_job i l kind (asm_state J ids D T S) = Ok (operation, asm_state J ids D (insert i T) S)"
  by (simp add: take_job_def take_planned_job_state)

lemma record_disclosure_state:
  assumes "bound_at ids ordinal i" and "distinct ids" and "i \<notin> S"
  shows "record_disclosure i ordinal (D i) (asm_state J ids D T S) = Ok (asm_state J ids D T (insert i S))"
proof -
  have "(map (\<lambda>k. if k \<in> S then Some (D k) else None) ids)[ordinal := Some (D i)] =
      map (\<lambda>k. if k \<in> insert i S then Some (D k) else None) ids"
    using assms by (intro nth_equalityI) (auto simp: bound_at_def nth_list_update nth_eq_iff_index_eq)
  then show ?thesis
    using assms by (auto simp: record_disclosure_def asm_state_def bound_at_def)
qed

lemma execute_decoys_state:
  "decoys_denote X J l us digests \<Longrightarrow> distinct us \<Longrightarrow> set us \<inter> T = {} \<Longrightarrow>
     execute_decoys X l us (asm_state J ids D T S) = Ok (digests, asm_state J ids D (set us \<union> T) S)"
proof (induction arbitrary: T rule: decoys_denote.induct)
  case dd_Nil
  then show ?case by simp
next
  case (dd_Cons i salt us digests)
  have "execute_decoys X l us (asm_state J ids D (insert i T) S) = Ok (digests, asm_state J ids D (set us \<union> insert i T) S)"
    by (rule dd_Cons.IH) (use dd_Cons.prems in auto)
  with take_job_state [OF dd_Cons.hyps(1), of DecoyKind T] dd_Cons.prems show ?case by simp
qed


text \<open>The jobs and disclosures a run may still take and record.\<close>

definition fresh :: "nat list \<Rightarrow> nat set \<Rightarrow> nat set \<Rightarrow> bool" where
  "fresh us T S \<longleftrightarrow> distinct us \<and> set us \<inter> T = {} \<and> set us \<inter> S = {}"

lemma fresh_Nil [simp]: "fresh [] T S"
  by (simp add: fresh_def)

lemma fresh_append: "fresh (us @ us') T S \<longleftrightarrow> fresh us T S \<and> fresh us' (set us \<union> T) (set us \<union> S)"
  by (auto simp: fresh_def)

lemma fresh_Cons: "fresh (i # us) T S \<longleftrightarrow> i \<notin> T \<and> i \<notin> S \<and> fresh us (insert i T) (insert i S)"
  by (auto simp: fresh_def)

lemma fresh_mono: "fresh us T S \<Longrightarrow> S' \<subseteq> S \<Longrightarrow> fresh us T S'"
  by (auto simp: fresh_def)

lemma execute_denotes:
  assumes "distinct ids"
  shows "denotes X J ids pv v ds us \<Longrightarrow> (\<And>T S T' S'. agrees D ds \<Longrightarrow> fresh us T S \<Longrightarrow>
       T' = set us \<union> T \<Longrightarrow> S' = set (map fst ds) \<union> S \<Longrightarrow>
       execute_value X pv (asm_state J ids D T S) = Ok (v, asm_state J ids D T' S'))"
    and "denotes_array X J ids entries outs ds us \<Longrightarrow> (\<And>T S T' S'. agrees D ds \<Longrightarrow> fresh us T S \<Longrightarrow>
       T' = set us \<union> T \<Longrightarrow> S' = set (map fst ds) \<union> S \<Longrightarrow>
       execute_array X entries (asm_state J ids D T S) = Ok (outs, asm_state J ids D T' S'))"
    and "denotes_object X J ids claims oentries claims' digests ds us \<Longrightarrow> (\<And>T S T' S' dg. agrees D ds \<Longrightarrow>
       fresh us T S \<Longrightarrow> T' = set us \<union> T \<Longrightarrow> S' = set (map fst ds) \<union> S \<Longrightarrow>
       execute_object X oentries claims dg (asm_state J ids D T S) =
         Ok (claims', dg @ digests, asm_state J ids D T' S'))"
proof (induction rule: denotes_induct)
  case (dn_object entries claims digests ds us location decoys decoy_digests)
  have f: "fresh us T S" "fresh decoys (set us \<union> T) (set us \<union> S)"
    using dn_object.prems(2) by (simp_all add: fresh_append)
  have "execute_object X entries (map_insert SD_DIGESTS_KEY Null []) [] (asm_state J ids D T S) =
      Ok (claims, [] @ digests, asm_state J ids D (set us \<union> T) (set (map fst ds) \<union> S))"
    by (rule dn_object.IH(2) [OF dn_object.prems(1) f(1) refl refl])
  moreover have "execute_decoys X location decoys (asm_state J ids D (set us \<union> T) (set (map fst ds) \<union> S)) =
      Ok (decoy_digests, asm_state J ids D (set decoys \<union> (set us \<union> T)) (set (map fst ds) \<union> S))"
    by (rule execute_decoys_state [OF dn_object(3)]) (use f(2) in \<open>auto simp: fresh_def\<close>)
  moreover have "set decoys \<union> (set us \<union> T) = T'"
    using dn_object.prems(3) by auto
  ultimately show ?case
    using dn_object.prems(4) by simp
next
  case (da_visible v out ds us entries outs ds' us')
  have f: "fresh us T S" "fresh us' (set us \<union> T) (set us \<union> S)"
    using da_visible.prems(2) by (simp_all add: fresh_append)
  have "set (map fst ds) \<union> S \<subseteq> set us \<union> S"
    using denotes_jobs(1) [OF da_visible(1)] by auto
  from fresh_mono [OF f(2) this] da_visible f(1) show ?case by (auto simp: Un_ac)
next
  case (da_disclosed v out ds us i ordinal salt d entries outs ds' us')
  have f: "fresh us T S" "i \<notin> set us \<union> T" "i \<notin> set us \<union> S"
      "fresh us' (insert i (set us \<union> T)) (insert i (set us \<union> S))"
    using da_disclosed.prems(2) by (simp_all add: fresh_append fresh_Cons)
  have sub: "set (map fst ds) \<union> S \<subseteq> set us \<union> S"
    using denotes_jobs(1) [OF da_disclosed(1)] by auto
  have "i \<notin> set (map fst ds) \<union> S" using f(3) sub by blast
  note rec = record_disclosure_state [OF da_disclosed(4) assms this, of D J "insert i (set us \<union> T)"]
  have "execute_value X v (asm_state J ids D T S) = Ok (out, asm_state J ids D (set us \<union> T) (set (map fst ds) \<union> S))"
    by (rule da_disclosed(2)) (use da_disclosed.prems f in auto)
  moreover note take_job_state [OF da_disclosed(3) _ f(2), of ArrayKind ids D "set (map fst ds) \<union> S"]
  moreover have "execute_array X entries
      (asm_state J ids D (insert i (set us \<union> T)) (insert i (set (map fst ds) \<union> S))) =
      Ok (outs, asm_state J ids D T' S')"
  proof (rule da_disclosed(7))
    show "fresh us' (insert i (set us \<union> T)) (insert i (set (map fst ds) \<union> S))"
      by (rule fresh_mono [OF f(4)]) (use sub in blast)
  qed (use da_disclosed.prems in auto)
  moreover have "D i = d" using da_disclosed.prems(1) by simp
  ultimately show ?case
    using rec da_disclosed(5) by (simp add: Let_def)
next
  case (do_visible v out ds us key claims entries claims' digests ds' us')
  have f: "fresh us T S" "fresh us' (set us \<union> T) (set us \<union> S)"
    using do_visible.prems(2) by (simp_all add: fresh_append)
  have "set (map fst ds) \<union> S \<subseteq> set us \<union> S"
    using denotes_jobs(1) [OF do_visible(1)] by auto
  from fresh_mono [OF f(2) this] do_visible f(1) show ?case by (auto simp: Un_ac)
next
  case (do_disclosed v out ds us i ordinal key salt d claims entries claims' digests ds' us')
  have f: "fresh us T S" "i \<notin> set us \<union> T" "i \<notin> set us \<union> S"
      "fresh us' (insert i (set us \<union> T)) (insert i (set us \<union> S))"
    using do_disclosed.prems(2) by (simp_all add: fresh_append fresh_Cons)
  have sub: "set (map fst ds) \<union> S \<subseteq> set us \<union> S"
    using denotes_jobs(1) [OF do_disclosed(1)] by auto
  have "i \<notin> set (map fst ds) \<union> S" using f(3) sub by blast
  note rec = record_disclosure_state [OF do_disclosed(4) assms this, of D J "insert i (set us \<union> T)"]
  have "execute_value X v (asm_state J ids D T S) = Ok (out, asm_state J ids D (set us \<union> T) (set (map fst ds) \<union> S))"
    by (rule do_disclosed(2)) (use do_disclosed.prems f in auto)
  moreover note take_job_state [OF do_disclosed(3) _ f(2), of ObjectKind ids D "set (map fst ds) \<union> S"]
  moreover have "execute_object X entries claims (dg @ [hash d])
      (asm_state J ids D (insert i (set us \<union> T)) (insert i (set (map fst ds) \<union> S))) =
      Ok (claims', (dg @ [hash d]) @ digests, asm_state J ids D T' S')"
  proof (rule do_disclosed(7))
    show "fresh us' (insert i (set us \<union> T)) (insert i (set (map fst ds) \<union> S))"
      by (rule fresh_mono [OF f(4)]) (use sub in blast)
  qed (use do_disclosed.prems in auto)
  moreover have "D i = d" using do_disclosed.prems(1) by simp
  ultimately show ?case
    using rec do_disclosed(5) by (simp add: Let_def)
qed auto


subsection \<open>Planning and serial execution together\<close>

definition complete_plan ::
    "'k externals \<Rightarrow> issuance_plan \<Rightarrow> json \<Rightarrow> (nat \<times> disclosure) list \<Rightarrow> bool" where
  "complete_plan X plan out ds \<longleftrightarrow>
     registry_ok (ip_jobs plan) (ip_disclosure_job_ids plan) \<and> length (ip_jobs plan) \<le> Suc usize_max \<and>
     ip_disclosure_job_ids plan = map fst ds \<and>
     denotes X (ip_jobs plan) (ip_disclosure_job_ids plan) (ip_root plan) out ds [0..<length (ip_jobs plan)]"

lemma plan_create_complete:
  assumes "plan_create R claims strat decoys r = Ok (plan, r')"
  shows "\<exists>out ds. direct_value X R decoys claims strat r = (out, map snd ds, r') \<and> complete_plan X plan out ds"
proof -
  let ?p0 = "\<lparr>next_location_id = 0, pl_jobs = [], pl_disclosure_job_ids = []\<rparr>"
  from assms obtain l p1 root p2 where loc: "allocate_location_id ?p0 = Ok (l, p1)"
    and v: "plan_value R decoys claims strat l p1 r = Ok (root, p2, r')"
    and plan: "plan = \<lparr>ip_root = root, ip_jobs = pl_jobs p2, ip_disclosure_job_ids = pl_disclosure_job_ids p2\<rparr>"
    by (auto simp: plan_create_def rbind_eq_Ok)
  from loc have p1: "pl_jobs p1 = []" "pl_disclosure_job_ids p1 = []"
    by (auto simp: allocate_location_id_Ok)
  then have "planner_ok p1"
    by (simp add: planner_ok_def registry_ok_Nil)
  from plan_value_ok(1) [OF v this] have "planner_ok p2" .
  with plan_denotes(1) [OF v, of X] p1 plan show ?thesis
    by (auto simp: planned_as_def grows_def new_jobs_def planner_ok_def complete_plan_def)
qed

lemma asm_state_start:
  "\<lparr>as_disclosures = replicate (length ids) None, as_jobs = map Some J, as_job_ids = ids\<rparr> = asm_state J ids D {} {}"
proof -
  have "map Some J = map (\<lambda>i. Some (J ! i)) [0..<length J]"
    by (rule nth_equalityI) simp_all
  then show ?thesis
    by (simp add: asm_state_def map_replicate_const)
qed

lemma finish_state:
  assumes "{..<length J} \<subseteq> T" and "set ids \<subseteq> S"
  shows "assembler_finish claims (asm_state J ids D T S) = Ok \<lparr>ia_claims = claims, ia_disclosures = map D ids\<rparr>"
proof -
  have "try_map (\<lambda>d. ok_or d e) (map (\<lambda>i. if i \<in> S then Some (D i) else None) ids) = Ok (map D ids)" for e
    using assms(2) by (induction ids) auto
  then show ?thesis
    using assms(1) by (auto simp: assembler_finish_def asm_state_def list_ex_iff)
qed

text \<open>The disclosure of each job of a complete plan.\<close>

definition job_disclosure :: "(nat \<times> disclosure) list \<Rightarrow> nat \<Rightarrow> disclosure" where
  "job_disclosure ds i = the (map_of ds i)"

lemma agrees_job_disclosure: "distinct (map fst ds) \<Longrightarrow> agrees (job_disclosure ds) ds"
  by (auto simp: agrees_def job_disclosure_def)

lemma map_job_disclosure: "distinct (map fst ds) \<Longrightarrow> map (job_disclosure ds) (map fst ds) = map snd ds"
  by (auto simp: job_disclosure_def)

lemma assembler_new_complete:
  "complete_plan X plan out ds \<Longrightarrow>
     assembler_new (ip_jobs plan) (ip_disclosure_job_ids plan) =
       Ok (asm_state (ip_jobs plan) (ip_disclosure_job_ids plan) D {} {})"
proof -
  assume c: "complete_plan X plan out ds"
  then have "validate_registry (ip_jobs plan) (ip_disclosure_job_ids plan) = Ok ()"
    unfolding complete_plan_def by (blast intro: validate_registry_Ok)
  then show ?thesis
    by (simp only: assembler_new_def rbind.simps asm_state_start [where D = D])
qed

lemma execute_serial_complete:
  assumes "complete_plan X plan out ds"
  shows "execute_serial X plan = Ok \<lparr>ia_claims = out, ia_disclosures = map snd ds\<rparr>"
proof -
  let ?J = "ip_jobs plan" and ?ids = "ip_disclosure_job_ids plan" and ?D = "job_disclosure ds"
  from assms have reg: "registry_ok ?J ?ids" and ids: "?ids = map fst ds"
    and den: "denotes X ?J ?ids (ip_root plan) out ds [0..<length ?J]"
    unfolding complete_plan_def by blast+
  have dist: "distinct ?ids" by (rule registry_ok_distinct [OF reg])
  have "execute_value X (ip_root plan) (asm_state ?J ?ids ?D {} {}) =
      Ok (out, asm_state ?J ?ids ?D {..<length ?J} (set ?ids))"
    by (rule execute_denotes(1) [OF dist den])
      (use dist ids in \<open>auto simp: agrees_job_disclosure fresh_def\<close>)
  moreover have "assembler_finish out (asm_state ?J ?ids ?D {..<length ?J} (set ?ids)) =
      Ok \<lparr>ia_claims = out, ia_disclosures = map ?D ?ids\<rparr>"
    by (rule finish_state) auto
  moreover have "map ?D ?ids = map snd ds"
    using dist unfolding ids by (rule map_job_disclosure)
  ultimately show ?thesis
    by (simp only: execute_serial_def assembler_new_complete [OF assms, of ?D] rbind.simps prod.case)
qed

subsection \<open>Planning succeeds\<close>

text \<open>Locations and jobs that a value can need: one location per node, one job and the decoys.\<close>

fun node_count :: "json \<Rightarrow> nat" and nodes_array :: "json list \<Rightarrow> nat" and nodes_object :: "json_map \<Rightarrow> nat" where
  "node_count (Array vs) = Suc (nodes_array vs)"
| "node_count (Object ms) = Suc (nodes_object ms)"
| "node_count v = 1"
| "nodes_array [] = 0"
| "nodes_array (v # vs) = node_count v + nodes_array vs"
| "nodes_object [] = 0"
| "nodes_object ((k, v) # ms) = node_count v + nodes_object ms"

definition decoys_in_range :: "'r random_source \<Rightarrow> bool" where
  "decoys_in_range R \<longleftrightarrow> (\<forall>r. fst (decoy_count R DECOY_MIN_ELEMENTS DECOY_MAX_ELEMENTS r) < DECOY_MAX_ELEMENTS)"


lemma plan_decoys_progress:
  "length (pl_jobs p) + n \<le> usize_max \<Longrightarrow>
     \<exists>us p' r'. plan_decoys R l n p r = Ok (us, p', r') \<and> next_location_id p' = next_location_id p \<and>
       length (pl_jobs p') = length (pl_jobs p) + n"
proof (induction n arbitrary: p r)
  case 0
  then show ?case by simp
next
  case (Suc n)
  obtain salt r1 where salt: "decoy_salt R r = (salt, r1)" by fastforce
  define p1 where "p1 = p\<lparr>pl_jobs := pl_jobs p @ [\<lparr>pj_id = length (pl_jobs p), pj_location = l, pj_operation = Decoy salt\<rparr>]\<rparr>"
  have "plan_decoy R l p r = Ok (length (pl_jobs p), p1, r1)"
    using Suc.prems salt by (simp add: plan_decoy_def allocate_job_id_def p1_def)
  moreover have "length (pl_jobs p1) + n \<le> usize_max"
    using Suc.prems by (simp add: p1_def)
  from Suc.IH [OF this, of r1] obtain us p' r' where "plan_decoys R l n p1 r1 = Ok (us, p', r')"
    "next_location_id p' = next_location_id p1" "length (pl_jobs p') = length (pl_jobs p1) + n" by blast
  ultimately show ?case by (simp add: p1_def)
qed

lemma plan_object_decoys_progress:
  assumes "decoys_in_range R" and "length (pl_jobs p) + 4 \<le> usize_max"
  shows "\<exists>us p' r'. plan_object_decoys R decoys l p r = Ok (us, p', r') \<and>
     next_location_id p' = next_location_id p \<and> length (pl_jobs p') \<le> length (pl_jobs p) + 4"
proof (cases decoys)
  case True
  obtain n r1 where n: "decoy_count R DECOY_MIN_ELEMENTS DECOY_MAX_ELEMENTS r = (n, r1)" by fastforce
  have "fst (decoy_count R DECOY_MIN_ELEMENTS DECOY_MAX_ELEMENTS r) < 5"
    using assms(1) unfolding decoys_in_range_def by (simp add: DECOY_MAX_ELEMENTS_def)
  with n have "n \<le> 4" by simp
  with assms(2) have "length (pl_jobs p) + n \<le> usize_max" by simp
  from plan_decoys_progress [OF this, of R l r1] \<open>n \<le> 4\<close> True n show ?thesis
    by (auto simp: plan_object_decoys_def)
qed (simp add: plan_object_decoys_def)

lemma plan_disclosures_progress:
  assumes "length (pl_jobs p) \<le> usize_max"
  shows "\<exists>i p' r'. plan_array_disclosure R l p r = Ok (i, p', r') \<and>
      next_location_id p' = next_location_id p \<and> length (pl_jobs p') = Suc (length (pl_jobs p))"
    and "\<exists>i p' r'. plan_object_disclosure R l key p r = Ok (i, p', r') \<and>
      next_location_id p' = next_location_id p \<and> length (pl_jobs p') = Suc (length (pl_jobs p))"
  using assms by (auto simp: plan_array_disclosure_def plan_object_disclosure_def allocate_job_id_def split: prod.split)

lemma plan_progress:
  assumes "decoys_in_range R"
  shows "next_location_id p + node_count v \<le> Suc usize_max \<Longrightarrow> length (pl_jobs p) + 6 * node_count v \<le> usize_max \<Longrightarrow>
     \<exists>pv p' r'. plan_value R decoys v strat l p r = Ok (pv, p', r') \<and>
       next_location_id p' + 1 \<le> next_location_id p + node_count v \<and>
       length (pl_jobs p') + 2 \<le> length (pl_jobs p) + 6 * node_count v"
  and "next_location_id p + nodes_array vs \<le> usize_max \<Longrightarrow> length (pl_jobs p) + 6 * nodes_array vs \<le> usize_max \<Longrightarrow>
     \<exists>es p' r'. plan_array R decoys n vs strat p r = Ok (es, p', r') \<and>
       next_location_id p' \<le> next_location_id p + nodes_array vs \<and>
       length (pl_jobs p') \<le> length (pl_jobs p) + 6 * nodes_array vs"
  and "next_location_id p + nodes_object ms \<le> usize_max \<Longrightarrow> length (pl_jobs p) + 6 * nodes_object ms \<le> usize_max \<Longrightarrow>
     \<exists>es p' r'. plan_object R decoys ms strat p r = Ok (es, p', r') \<and>
       next_location_id p' \<le> next_location_id p + nodes_object ms \<and>
       length (pl_jobs p') \<le> length (pl_jobs p) + 6 * nodes_object ms"
proof (induction v and vs and ms arbitrary: strat l p r and n strat p r and strat p r
    rule: node_count_nodes_array_nodes_object.induct)
  case (1 vs)
  then have "next_location_id p + nodes_array vs \<le> usize_max" "length (pl_jobs p) + 6 * nodes_array vs \<le> usize_max"
    by simp_all
  from "1.IH" [OF this, of 0 strat r] show ?case by auto
next
  case (2 ms)
  then have "next_location_id p + nodes_object ms \<le> usize_max" "length (pl_jobs p) + 6 * nodes_object ms \<le> usize_max"
    by simp_all
  from "2.IH" [OF this, of strat r] obtain es p1 r1 where 1: "plan_object R decoys ms strat p r = Ok (es, p1, r1)"
      "next_location_id p1 \<le> next_location_id p + nodes_object ms"
      "length (pl_jobs p1) \<le> length (pl_jobs p) + 6 * nodes_object ms" by blast
  then have "length (pl_jobs p1) + 4 \<le> usize_max"
    using "2.prems" by simp
  from plan_object_decoys_progress [OF assms this, of decoys l r1] 1 "2.prems" show ?case by fastforce
next
  case (5 v vs)
  define p1 where "p1 = p\<lparr>next_location_id := next_location_id p + 1\<rparr>"
  have pos: "1 \<le> node_count v" by (cases v) auto
  have loc: "allocate_location_id p = Ok (next_location_id p, p1)"
    using "5.prems" pos by (simp add: allocate_location_id_Ok p1_def)
  have "next_location_id p1 + node_count v \<le> Suc usize_max" "length (pl_jobs p1) + 6 * node_count v \<le> usize_max"
    using "5.prems" by (simp_all add: p1_def)
  from "5.IH"(1) [OF this, of "next_level strat (index_key n)" "next_location_id p" r]
  obtain pv p2 r2 where v: "plan_value R decoys v (next_level strat (index_key n)) (next_location_id p) p1 r = Ok (pv, p2, r2)"
    and n2: "next_location_id p2 \<le> next_location_id p + node_count v"
    and j2: "length (pl_jobs p2) + 2 \<le> length (pl_jobs p) + 6 * node_count v"
    by (auto simp: p1_def)
  have "length (pl_jobs p2) \<le> usize_max" using j2 "5.prems" by simp
  from plan_disclosures_progress(1) [OF this, of R "next_location_id p" r2]
  obtain entry p3 r3 where e: "(if sd_for_key strat (index_key n)
            then rbind (plan_array_disclosure R (next_location_id p) p2 r2) (\<lambda>(job_id, p3, r3).
                 Ok (ADisclosed pv job_id, p3, r3))
            else Ok (AVisible pv, p2, r2)) = Ok (entry, p3, r3)"
    and n3: "next_location_id p3 = next_location_id p2" and j3: "length (pl_jobs p3) \<le> Suc (length (pl_jobs p2))"
    by (cases "sd_for_key strat (index_key n)") auto
  have "next_location_id p3 + nodes_array vs \<le> usize_max" "length (pl_jobs p3) + 6 * nodes_array vs \<le> usize_max"
    using n2 n3 j2 j3 "5.prems" by simp_all
  from "5.IH"(2) [OF this, of "Suc n" strat r3] n2 n3 j2 j3 loc v e show ?case
    by fastforce
next
  case (7 k v ms)
  define p1 where "p1 = p\<lparr>next_location_id := next_location_id p + 1\<rparr>"
  have pos: "1 \<le> node_count v" by (cases v) auto
  have loc: "allocate_location_id p = Ok (next_location_id p, p1)"
    using "7.prems" pos by (simp add: allocate_location_id_Ok p1_def)
  have "next_location_id p1 + node_count v \<le> Suc usize_max" "length (pl_jobs p1) + 6 * node_count v \<le> usize_max"
    using "7.prems" by (simp_all add: p1_def)
  from "7.IH"(1) [OF this, of "next_level strat k" "next_location_id p" r]
  obtain pv p2 r2 where v: "plan_value R decoys v (next_level strat k) (next_location_id p) p1 r = Ok (pv, p2, r2)"
    and n2: "next_location_id p2 \<le> next_location_id p + node_count v"
    and j2: "length (pl_jobs p2) + 2 \<le> length (pl_jobs p) + 6 * node_count v"
    by (auto simp: p1_def)
  have "length (pl_jobs p2) \<le> usize_max" using j2 "7.prems" by simp
  from plan_disclosures_progress(2) [OF this, of R "next_location_id p" k r2]
  obtain entry p3 r3 where e: "(if sd_for_key strat k
            then rbind (plan_object_disclosure R (next_location_id p) k p2 r2) (\<lambda>(job_id, p3, r3).
                 Ok (ODisclosed pv job_id, p3, r3))
            else Ok (OVisible k pv, p2, r2)) = Ok (entry, p3, r3)"
    and n3: "next_location_id p3 = next_location_id p2" and j3: "length (pl_jobs p3) \<le> Suc (length (pl_jobs p2))"
    by (cases "sd_for_key strat k") auto
  have "next_location_id p3 + nodes_object ms \<le> usize_max" "length (pl_jobs p3) + 6 * nodes_object ms \<le> usize_max"
    using n2 n3 j2 j3 "7.prems" by simp_all
  from "7.IH"(2) [OF this, of strat r3] n2 n3 j2 j3 loc v e show ?case
    by fastforce
qed simp_all

lemma plan_create_progress:
  assumes "decoys_in_range R" and "6 * node_count v \<le> usize_max"
  shows "\<exists>plan r'. plan_create R v strat decoys r = Ok (plan, r')"
proof -
  let ?p0 = "\<lparr>next_location_id = 0, pl_jobs = [], pl_disclosure_job_ids = []\<rparr>"
  let ?p1 = "?p0\<lparr>next_location_id := 1\<rparr>"
  have "allocate_location_id ?p0 = Ok (0, ?p1)"
    by (simp add: allocate_location_id_Ok usize_max_def)
  moreover have "next_location_id ?p1 + node_count v \<le> Suc usize_max" "length (pl_jobs ?p1) + 6 * node_count v \<le> usize_max"
    using assms(2) by simp_all
  from plan_progress(1) [OF assms(1) this, of decoys strat 0 r] obtain pv p' r'
    where "plan_value R decoys v strat 0 ?p1 r = Ok (pv, p', r')" by blast
  ultimately show ?thesis by (simp add: plan_create_def)
qed

end
