(* ===== verification/Issuance_Executor.thy ===== *)
theory Issuance_Executor
  imports Issuance_Serial
begin

text \<open>
  The executors of src/src/issuer/issuance_plan.rs. An executor is handed the ready jobs of one
  array or object and returns their outcomes, in any order; \<open>restore_issuance_outcomes\<close> checks that
  every job has exactly one outcome of its own and puts them back in planned order. The state
  \<open>'o\<close> of an executor is whatever it shares with the rest of the process (the worker budget).
\<close>

subsection \<open>Jobs and outcomes\<close>

record job_identity =
  ji_job_id :: nat
  ji_location_id :: nat
  ji_kind :: planned_kind
  ji_ordinal :: "nat option"

datatype issuance_operation =
    IssueObject string string json
  | IssueArray string json
  | IssueDecoy string

record issuance_job =
  ij_identity :: job_identity
  ij_operation :: issuance_operation

datatype issuance_product = ProductDisclosure disclosure | ProductDecoy string

record issuance_outcome =
  io_identity :: job_identity
  io_result :: "issuance_product result option"

fun issuance_product_of :: "'k externals \<Rightarrow> issuance_operation \<Rightarrow> issuance_product" where
  "issuance_product_of X (IssueObject key salt v) = ProductDisclosure (new_with_salt X (Some key) v salt)"
| "issuance_product_of X (IssueArray salt v) = ProductDisclosure (new_with_salt X None v salt)"
| "issuance_product_of X (IssueDecoy salt) = ProductDecoy (base64_hash X salt)"

definition process_issuance_job :: "'k externals \<Rightarrow> issuance_job \<Rightarrow> issuance_outcome" where
  "process_issuance_job X job =
     \<lparr>io_identity = ij_identity job, io_result = Some (Ok (issuance_product_of X (ij_operation job)))\<rparr>"

definition serial_issuance_execute ::
    "(issuance_job \<Rightarrow> issuance_outcome) \<Rightarrow> issuance_job list \<Rightarrow> issuance_outcome list result" where
  "serial_issuance_execute worker jobs = Ok (map worker jobs)"

subsection \<open>Restoring the planned order\<close>

record restored_job =
  rj_identity :: job_identity
  rj_product :: issuance_product

definition executor_issue_error :: "string \<Rightarrow> error" where
  "executor_issue_error message = InvalidState (''invalid issuance executor result: '' @ message)"

text \<open>The index of each planned job, by its identity number.\<close>

definition expected_index :: "job_identity list \<Rightarrow> nat \<Rightarrow> nat option" where
  "expected_index expected = map_of (rev (map (\<lambda>(i, identity). (ji_job_id identity, i)) (enumerate 0 expected)))"

record restore_state =
  rs_slots :: "issuance_outcome option list"
  rs_unexpected :: bool
  rs_duplicate :: bool
  rs_misplaced :: bool

fun place_outcomes :: "job_identity list \<Rightarrow> issuance_outcome list \<Rightarrow> restore_state \<Rightarrow> restore_state" where
  "place_outcomes expected [] s = s"
| "place_outcomes expected (r # rs) s =
     (case expected_index expected (ji_job_id (io_identity r)) of
        None \<Rightarrow> place_outcomes expected rs (s\<lparr>rs_unexpected := True\<rparr>)
      | Some index \<Rightarrow>
          if rs_slots s ! index \<noteq> None
          then place_outcomes expected rs (s\<lparr>rs_duplicate := True\<rparr>)
          else place_outcomes expected rs
                 (s\<lparr>rs_misplaced := (rs_misplaced s \<or> io_identity r \<noteq> expected ! index),
                    rs_slots := (rs_slots s)[index := Some r]\<rparr>))"

fun product_matches :: "planned_kind \<Rightarrow> issuance_product \<Rightarrow> bool" where
  "product_matches DecoyKind (ProductDecoy digest) = True"
| "product_matches DecoyKind (ProductDisclosure d) = False"
| "product_matches kind (ProductDisclosure d) = True"
| "product_matches kind (ProductDecoy digest) = False"

definition restore_slot :: "issuance_outcome option \<times> job_identity \<Rightarrow> restored_job result" where
  "restore_slot si =
     (case si of (slot, identity) \<Rightarrow>
        rbind (ok_or slot (executor_issue_error ''a planned issuance result was not returned'')) (\<lambda>r.
        rbind (case io_result r of
                 Some res \<Rightarrow> res
               | None \<Rightarrow> Err (executor_issue_error ''an issuance result contained no worker output'')) (\<lambda>product.
        if product_matches (ji_kind identity) product
        then Ok \<lparr>rj_identity = identity, rj_product = product\<rparr>
        else Err (executor_issue_error ''an issuance result has the wrong result kind''))))"

definition restore_issuance_outcomes ::
    "job_identity list \<Rightarrow> issuance_outcome list \<Rightarrow> restored_job list result" where
  "restore_issuance_outcomes expected outcomes =
     (if \<not> distinct (map ji_job_id expected)
      then Err (executor_issue_error ''planned issuance job identities are not unique'')
      else let s = place_outcomes expected outcomes
                     \<lparr>rs_slots = replicate (length expected) None, rs_unexpected = False,
                      rs_duplicate = False, rs_misplaced = False\<rparr>
      in if rs_unexpected s
         then Err (executor_issue_error ''an unexpected issuance result identity was returned'')
         else if rs_duplicate s
         then Err (executor_issue_error ''an issuance result identity was returned more than once'')
         else if rs_misplaced s
         then Err (executor_issue_error ''an issuance result was bound to the wrong planned location or kind'')
         else if None \<in> set (rs_slots s)
         then Err (executor_issue_error ''a planned issuance result was not returned'')
         else try_map restore_slot (zip (rs_slots s) expected))"

definition execute_and_restore ::
    "('o \<Rightarrow> issuance_job list \<Rightarrow> issuance_outcome list result \<times> 'o) \<Rightarrow> 'o \<Rightarrow> issuance_job list
       \<Rightarrow> restored_job list result \<times> 'o" where
  "execute_and_restore execute e jobs =
     (if jobs = [] then (Ok [], e)
      else case execute e jobs of
             (r, e') \<Rightarrow> (rbind r (restore_issuance_outcomes (map ij_identity jobs)), e'))"

subsection \<open>Execution through an executor\<close>

text \<open>What an array entry becomes before its batch has run.\<close>

datatype array_output = OutVisible json | OutDisclosure nat

fun collect_decoy_jobs ::
    "nat \<Rightarrow> nat list \<Rightarrow> issuance_job list \<Rightarrow> assembler \<Rightarrow> (issuance_job list \<times> assembler) result" where
  "collect_decoy_jobs location [] jobs s = Ok (jobs, s)"
| "collect_decoy_jobs location (job_id # job_ids) jobs s =
     rbind (take_planned_job job_id location DecoyKind s) (\<lambda>(planned, s1).
     case pj_operation planned of
       Decoy salt \<Rightarrow>
         collect_decoy_jobs location job_ids
           (jobs @ [\<lparr>ij_identity = \<lparr>ji_job_id = job_id, ji_location_id = location, ji_kind = DecoyKind,
                       ji_ordinal = None\<rparr>, ij_operation = IssueDecoy salt\<rparr>]) s1
     | _ \<Rightarrow> Err (invalid_plan ''a decoy entry references the wrong job kind''))"

fun assemble_outputs ::
    "array_output list \<Rightarrow> restored_job option list \<Rightarrow> assembler \<Rightarrow> (json list \<times> assembler) result" where
  "assemble_outputs [] restored s = Ok ([], s)"
| "assemble_outputs (OutVisible v # outputs) restored s =
     rbind (assemble_outputs outputs restored s) (\<lambda>(claims, s'). Ok (v # claims, s'))"
| "assemble_outputs (OutDisclosure index # outputs) restored s =
     rbind (ok_or (if index < length restored then restored ! index else None)
             (invalid_plan ''an array disclosure result is missing'')) (\<lambda>job.
     case rj_product job of
       ProductDisclosure d \<Rightarrow>
         rbind (ok_or (ji_ordinal (rj_identity job))
                 (executor_issue_error ''an array disclosure result has no ordinal'')) (\<lambda>ordinal.
         rbind (record_disclosure (ji_job_id (rj_identity job)) ordinal d s) (\<lambda>s1.
         rbind (assemble_outputs outputs (restored[index := None]) s1) (\<lambda>(claims, s2).
         Ok (placeholder (hash d) # claims, s2))))
     | _ \<Rightarrow> Err (executor_issue_error ''an array disclosure returned the wrong result kind''))"

fun record_restored :: "restored_job list \<Rightarrow> assembler \<Rightarrow> (string list \<times> assembler) result" where
  "record_restored [] s = Ok ([], s)"
| "record_restored (job # jobs) s =
     (case rj_product job of
        ProductDisclosure d \<Rightarrow>
          rbind (ok_or (ji_ordinal (rj_identity job))
                  (executor_issue_error ''an object disclosure result has no ordinal'')) (\<lambda>ordinal.
          rbind (record_disclosure (ji_job_id (rj_identity job)) ordinal d s) (\<lambda>s1.
          rbind (record_restored jobs s1) (\<lambda>(digests, s2). Ok (hash d # digests, s2))))
      | ProductDecoy digest \<Rightarrow>
          rbind (record_restored jobs s) (\<lambda>(digests, s'). Ok (digest # digests, s')))"

text \<open>
  The loops return the outputs or claims, the batch of jobs collected so far, the assembler and the
  executor's state.
\<close>

primrec xvalue ::
      "('o \<Rightarrow> issuance_job list \<Rightarrow> issuance_outcome list result \<times> 'o) \<Rightarrow> planned_value
         \<Rightarrow> assembler \<Rightarrow> 'o \<Rightarrow> (json \<times> assembler \<times> 'o) result"
  and xkind ::
      "('o \<Rightarrow> issuance_job list \<Rightarrow> issuance_outcome list result \<times> 'o) \<Rightarrow> nat \<Rightarrow> planned_value_kind
         \<Rightarrow> assembler \<Rightarrow> 'o \<Rightarrow> (json \<times> assembler \<times> 'o) result"
  and xarray_entry ::
      "('o \<Rightarrow> issuance_job list \<Rightarrow> issuance_outcome list result \<times> 'o) \<Rightarrow> planned_array_entry
         \<Rightarrow> issuance_job list \<Rightarrow> assembler \<Rightarrow> 'o \<Rightarrow> (array_output \<times> issuance_job list \<times> assembler \<times> 'o) result"
  and xarray ::
      "('o \<Rightarrow> issuance_job list \<Rightarrow> issuance_outcome list result \<times> 'o) \<Rightarrow> planned_array_entry list
         \<Rightarrow> issuance_job list \<Rightarrow> assembler \<Rightarrow> 'o \<Rightarrow> (array_output list \<times> issuance_job list \<times> assembler \<times> 'o) result"
  and xobject_entry ::
      "('o \<Rightarrow> issuance_job list \<Rightarrow> issuance_outcome list result \<times> 'o) \<Rightarrow> planned_object_entry
         \<Rightarrow> json_map \<Rightarrow> issuance_job list \<Rightarrow> assembler \<Rightarrow> 'o \<Rightarrow> (json_map \<times> issuance_job list \<times> assembler \<times> 'o) result"
  and xobject ::
      "('o \<Rightarrow> issuance_job list \<Rightarrow> issuance_outcome list result \<times> 'o) \<Rightarrow> planned_object_entry list
         \<Rightarrow> json_map \<Rightarrow> issuance_job list \<Rightarrow> assembler \<Rightarrow> 'o \<Rightarrow> (json_map \<times> issuance_job list \<times> assembler \<times> 'o) result"
where
  "xvalue execute (PlannedValue location kind) s e = xkind execute location kind s e"
| "xkind execute location (PScalar v) s e = Ok (v, s, e)"
| "xkind execute location (PArray entries) s e =
     rbind (xarray execute entries [] s e) (\<lambda>(outputs, jobs, s1, e1).
     case execute_and_restore execute e1 jobs of
       (r, e2) \<Rightarrow>
         rbind r (\<lambda>restored.
         rbind (assemble_outputs outputs (map Some restored) s1) (\<lambda>(claims, s2).
         Ok (Array claims, s2, e2))))"
| "xkind execute location (PObject entries decoys) s e =
     rbind (xobject execute entries (map_insert SD_DIGESTS_KEY Null []) [] s e) (\<lambda>(claims, jobs, s1, e1).
     rbind (collect_decoy_jobs location decoys jobs s1) (\<lambda>(jobs', s2).
     case execute_and_restore execute e1 jobs' of
       (r, e2) \<Rightarrow>
         rbind r (\<lambda>restored.
         rbind (record_restored restored s2) (\<lambda>(digests, s3).
         Ok (finish_object claims digests, s3, e2)))))"
| "xarray_entry execute (AVisible v) jobs s e =
     rbind (xvalue execute v s e) (\<lambda>(claim, s1, e1). Ok (OutVisible claim, jobs, s1, e1))"
| "xarray_entry execute (ADisclosed v job_id) jobs s e =
     rbind (xvalue execute v s e) (\<lambda>(subtree, s1, e1).
     rbind (take_planned_job job_id (location_of v) ArrayKind s1) (\<lambda>(planned, s2).
     case pj_operation planned of
       ArrayDisclosure ordinal salt \<Rightarrow>
         Ok (OutDisclosure (length jobs),
             jobs @ [\<lparr>ij_identity = \<lparr>ji_job_id = job_id, ji_location_id = location_of v, ji_kind = ArrayKind,
                        ji_ordinal = Some ordinal\<rparr>, ij_operation = IssueArray salt subtree\<rparr>],
             s2, e1)
     | _ \<Rightarrow> Err (invalid_plan ''an array entry references the wrong job kind'')))"
| "xarray execute [] jobs s e = Ok ([], jobs, s, e)"
| "xarray execute (entry # entries) jobs s e =
     rbind (xarray_entry execute entry jobs s e) (\<lambda>(output, jobs1, s1, e1).
     rbind (xarray execute entries jobs1 s1 e1) (\<lambda>(outputs, jobs2, s2, e2).
     Ok (output # outputs, jobs2, s2, e2)))"
| "xobject_entry execute (OVisible key v) claims jobs s e =
     rbind (xvalue execute v s e) (\<lambda>(claim, s1, e1). Ok (map_insert key claim claims, jobs, s1, e1))"
| "xobject_entry execute (ODisclosed v job_id) claims jobs s e =
     rbind (xvalue execute v s e) (\<lambda>(subtree, s1, e1).
     rbind (take_planned_job job_id (location_of v) ObjectKind s1) (\<lambda>(planned, s2).
     case pj_operation planned of
       ObjectDisclosure ordinal key salt \<Rightarrow>
         Ok (claims,
             jobs @ [\<lparr>ij_identity = \<lparr>ji_job_id = job_id, ji_location_id = location_of v, ji_kind = ObjectKind,
                        ji_ordinal = Some ordinal\<rparr>, ij_operation = IssueObject key salt subtree\<rparr>],
             s2, e1)
     | _ \<Rightarrow> Err (invalid_plan ''an object entry references the wrong job kind'')))"
| "xobject execute [] claims jobs s e = Ok (claims, jobs, s, e)"
| "xobject execute (entry # entries) claims jobs s e =
     rbind (xobject_entry execute entry claims jobs s e) (\<lambda>(claims1, jobs1, s1, e1).
     xobject execute entries claims1 jobs1 s1 e1)"

definition execute_with_executor ::
    "('o \<Rightarrow> issuance_job list \<Rightarrow> issuance_outcome list result \<times> 'o) \<Rightarrow> issuance_plan \<Rightarrow> 'o
       \<Rightarrow> (issuance_assembly \<times> 'o) result" where
  "execute_with_executor execute plan e =
     rbind (assembler_new (ip_jobs plan) (ip_disclosure_job_ids plan)) (\<lambda>s.
     rbind (xvalue execute (ip_root plan) s e) (\<lambda>(claims, s', e').
     rbind (assembler_finish claims s') (\<lambda>assembly. Ok (assembly, e'))))"

end
