(* ===== verification/Issuance_Restore.thy ===== *)
theory Issuance_Restore
  imports Issuance_Executor "HOL-Library.Multiset"
begin

text \<open>
  Restoration accepts a list of outcomes exactly when it is a permutation of one outcome per
  planned job, each carrying a product of the planned kind, and its result does not depend on the
  order in which the executor returned them.
\<close>

lemma expected_index_Some:
  assumes "distinct (map ji_job_id expected)"
  shows "expected_index expected n = Some i \<longleftrightarrow> i < length expected \<and> ji_job_id (expected ! i) = n"
proof -
  let ?ps = "map (\<lambda>(i, identity). (ji_job_id identity, i)) (enumerate 0 expected)"
  have fsts: "map fst ?ps = map ji_job_id expected"
    by (rule nth_equalityI) (auto simp: nth_enumerate_eq)
  then have "distinct (map fst (rev ?ps))"
    using assms by (simp add: rev_map [symmetric])
  then have "expected_index expected n = Some i \<longleftrightarrow> (n, i) \<in> set (rev ?ps)"
    unfolding expected_index_def by (rule map_of_eq_Some_iff)
  also have "\<dots> \<longleftrightarrow> i < length expected \<and> ji_job_id (expected ! i) = n"
    by (auto simp: in_set_enumerate_eq image_iff intro!: bexI [of _ "(i, expected ! i)"])
  finally show ?thesis .
qed

definition slots_of :: "job_identity list \<Rightarrow> issuance_outcome list \<Rightarrow> issuance_outcome option list" where
  "slots_of expected rs = map (\<lambda>identity. find (\<lambda>r. io_identity r = identity) rs) expected"

text \<open>The outcomes placed so far are new and belong to their slots.\<close>

definition clean :: "job_identity list \<Rightarrow> issuance_outcome list \<Rightarrow> bool" where
  "clean expected rs \<longleftrightarrow> distinct (map io_identity rs) \<and> io_identity ` set rs \<subseteq> set expected"

lemma find_append: "find P (xs @ ys) = (case find P xs of None \<Rightarrow> find P ys | Some x \<Rightarrow> Some x)"
  by (induction xs) auto

lemma identity_of_id:
  "distinct (map ji_job_id expected) \<Longrightarrow> a \<in> set expected \<Longrightarrow> b \<in> set expected \<Longrightarrow>
     ji_job_id a = ji_job_id b \<longleftrightarrow> a = b"
  by (auto simp: distinct_map inj_on_def)

definition flags_clear :: "restore_state \<Rightarrow> bool" where
  "flags_clear s \<longleftrightarrow> \<not> rs_unexpected s \<and> \<not> rs_duplicate s \<and> \<not> rs_misplaced s"

lemma flags_stay: "\<not> flags_clear s \<Longrightarrow> \<not> flags_clear (place_outcomes expected rs s)"
  by (induction expected rs s rule: place_outcomes.induct) (auto simp: flags_clear_def split: option.splits)

definition placed :: "job_identity list \<Rightarrow> issuance_outcome list \<Rightarrow> restore_state" where
  "placed expected rs = \<lparr>rs_slots = slots_of expected rs, rs_unexpected = False, rs_duplicate = False, rs_misplaced = False\<rparr>"

lemma placed_clear [simp]: "flags_clear (placed expected rs)"
  by (simp add: flags_clear_def placed_def)

text \<open>One outcome more: either a flag is set, or it goes to its own slot.\<close>

lemma place_one:
  assumes "distinct (map ji_job_id expected)" and "clean expected ds"
  shows "if clean expected (ds @ [r])
     then place_outcomes expected (r # rs) (placed expected ds) = place_outcomes expected rs (placed expected (ds @ [r]))
     else \<not> flags_clear (place_outcomes expected (r # rs) (placed expected ds))"
proof (cases "expected_index expected (ji_job_id (io_identity r))")
  case None
  have "io_identity r \<notin> set expected"
  proof
    assume "io_identity r \<in> set expected"
    then obtain i where "i < length expected" "expected ! i = io_identity r" by (auto simp: in_set_conv_nth)
    then have "expected_index expected (ji_job_id (io_identity r)) = Some i"
      by (simp add: expected_index_Some [OF assms(1)])
    with None show False by simp
  qed
  then have "\<not> clean expected (ds @ [r])" by (simp add: clean_def)
  moreover have "\<not> flags_clear (place_outcomes expected rs ((placed expected ds)\<lparr>rs_unexpected := True\<rparr>))"
    by (rule flags_stay) (simp add: flags_clear_def)
  ultimately show ?thesis using None by simp
next
  case (Some i)
  then have i: "i < length expected" "ji_job_id (expected ! i) = ji_job_id (io_identity r)"
    by (simp_all add: expected_index_Some [OF assms(1)])
  have slot: "rs_slots (placed expected ds) ! i = find (\<lambda>r. io_identity r = expected ! i) ds"
    using i by (simp add: placed_def slots_of_def)
  show ?thesis
  proof (cases "rs_slots (placed expected ds) ! i = None")
    case False
    then obtain r' where r': "r' \<in> set ds" "io_identity r' = expected ! i"
      unfolding slot by (auto simp: find_None_iff)
    have "\<not> clean expected (ds @ [r])"
    proof
      assume c: "clean expected (ds @ [r])"
      then have "io_identity r \<in> set expected" by (simp add: clean_def)
      then have "io_identity r = expected ! i"
        using identity_of_id [OF assms(1)] i by (metis nth_mem)
      with r' c show False by (auto simp: clean_def image_iff)
    qed
    moreover have "\<not> flags_clear (place_outcomes expected rs ((placed expected ds)\<lparr>rs_duplicate := True\<rparr>))"
      by (rule flags_stay) (simp add: flags_clear_def)
    ultimately show ?thesis using Some False by simp
  next
    case True
    show ?thesis
    proof (cases "io_identity r = expected ! i")
      case False
      have "io_identity r \<notin> set expected"
        using identity_of_id [OF assms(1)] i False by (metis nth_mem)
      then have "\<not> clean expected (ds @ [r])" by (simp add: clean_def)
      moreover have "\<not> flags_clear (place_outcomes expected rs ((placed expected ds)
            \<lparr>rs_misplaced := True, rs_slots := (rs_slots (placed expected ds))[i := Some r]\<rparr>))"
        by (rule flags_stay) (simp add: flags_clear_def)
      ultimately show ?thesis using Some True False by simp
    next
      case eq: True
      have new: "io_identity r \<notin> io_identity ` set ds"
        using True unfolding slot eq by (auto simp: find_None_iff)
      have mem: "io_identity r \<in> set expected"
        unfolding eq by (rule nth_mem [OF i(1)])
      have "clean expected (ds @ [r])"
        using assms(2) new mem unfolding clean_def by simp
      moreover
      have "(slots_of expected ds)[i := Some r] = slots_of expected (ds @ [r])"
      proof (rule nth_equalityI)
        fix k assume "k < length ((slots_of expected ds)[i := Some r])"
        then have k: "k < length expected" by (simp add: slots_of_def)
        have "expected ! k = expected ! i \<longleftrightarrow> k = i"
          using assms(1) k i(1) by (auto simp: distinct_map nth_eq_iff_index_eq)
        moreover have "find (\<lambda>r. io_identity r = expected ! i) ds = None"
          using True slot by simp
        ultimately show "(slots_of expected ds)[i := Some r] ! k = slots_of expected (ds @ [r]) ! k"
          using k i(1) eq by (auto simp: slots_of_def nth_list_update find_append split: option.split)
      qed (simp add: slots_of_def)
      ultimately show ?thesis using Some True eq by (simp add: placed_def)
    qed
  qed
qed

lemma place_all:
  assumes "distinct (map ji_job_id expected)"
  shows "clean expected ds \<Longrightarrow>
     (if clean expected (ds @ rs) then place_outcomes expected rs (placed expected ds) = placed expected (ds @ rs)
      else \<not> flags_clear (place_outcomes expected rs (placed expected ds)))"
proof (induction rs arbitrary: ds)
  case Nil
  then show ?case by simp
next
  case (Cons r rs)
  show ?case
  proof (cases "clean expected (ds @ [r])")
    case True
    with place_one [OF assms Cons.prems, of r rs] Cons.IH [OF True] show ?thesis by simp
  next
    case False
    then have "\<not> clean expected (ds @ r # rs)" by (auto simp: clean_def)
    with place_one [OF assms Cons.prems, of r rs] False show ?thesis by simp
  qed
qed

lemma clean_complete:
  assumes "distinct expected" and "clean expected rs" and "None \<notin> set (slots_of expected rs)"
  shows "mset (map io_identity rs) = mset expected"
proof -
  have "io_identity ` set rs = set expected"
  proof
    show "set expected \<subseteq> io_identity ` set rs"
    proof
      fix identity assume "identity \<in> set expected"
      then have "find (\<lambda>r. io_identity r = identity) rs \<in> set (slots_of expected rs)"
        unfolding slots_of_def set_map by (rule imageI)
      with assms(3) have "find (\<lambda>r. io_identity r = identity) rs \<noteq> None" by metis
      then show "identity \<in> io_identity ` set rs" by (auto simp: find_None_iff)
    qed
  qed (use assms(2) in \<open>simp add: clean_def\<close>)
  then show ?thesis
    using assms(1,2) by (intro set_eq_iff_mset_eq_distinct [THEN iffD1]) (auto simp: clean_def)
qed

lemma permutation_clean:
  assumes "distinct expected" and "mset (map io_identity rs) = mset expected"
  shows "clean expected rs" and "None \<notin> set (slots_of expected rs)"
proof -
  have "set (map io_identity rs) = set expected"
    using mset_eq_setD [OF assms(2)] .
  moreover have "distinct (map io_identity rs)"
    using assms by (metis mset_eq_imp_distinct_iff)
  ultimately show "clean expected rs" by (simp add: clean_def)
  show "None \<notin> set (slots_of expected rs)"
  proof
    assume "None \<in> set (slots_of expected rs)"
    then obtain identity where "identity \<in> set expected" "find (\<lambda>r. io_identity r = identity) rs = None"
      by (auto simp: slots_of_def)
    moreover from this(1) obtain r where "r \<in> set rs" "io_identity r = identity"
      using \<open>set (map io_identity rs) = set expected\<close> by (metis imageE list.set_map)
    ultimately show False
      by (auto simp: find_None_iff)
  qed
qed

text \<open>The product the outcomes hold for one identity.\<close>

definition outcome_product :: "issuance_outcome list \<Rightarrow> job_identity \<Rightarrow> issuance_product option" where
  "outcome_product rs identity =
     Option.bind (find (\<lambda>r. io_identity r = identity) rs) (\<lambda>r.
       case io_result r of Some (Ok p) \<Rightarrow> if product_matches (ji_kind identity) p then Some p else None | _ \<Rightarrow> None)"

lemma restore_slot_Ok:
  "restore_slot (slot, identity) = Ok job \<longleftrightarrow>
     rj_identity job = identity \<and>
     Option.bind slot (\<lambda>r. case io_result r of
         Some (Ok p) \<Rightarrow> if product_matches (ji_kind identity) p then Some p else None | _ \<Rightarrow> None) = Some (rj_product job)"
proof (cases slot)
  case None
  then show ?thesis by (simp add: restore_slot_def)
next
  case (Some r)
  show ?thesis
  proof (cases "io_result r")
    case None
    with Some show ?thesis by (simp add: restore_slot_def)
  next
    case res: (Some res)
    with Some show ?thesis
      by (cases res; cases job) (auto simp: restore_slot_def)
  qed
qed

lemma restore_iff:
  "restore_issuance_outcomes expected rs = Ok jobs \<longleftrightarrow>
     distinct (map ji_job_id expected) \<and> mset (map io_identity rs) = mset expected \<and>
     map rj_identity jobs = expected \<and>
     (\<forall>job \<in> set jobs. outcome_product rs (rj_identity job) = Some (rj_product job))"
proof (cases "distinct (map ji_job_id expected)")
  case False
  then show ?thesis by (simp add: restore_issuance_outcomes_def)
next
  case True
  then have dist: "distinct expected" by (simp add: distinct_map)
  have start: "\<lparr>rs_slots = replicate (length expected) None, rs_unexpected = False,
                      rs_duplicate = False, rs_misplaced = False\<rparr> = placed expected []"
    by (simp add: placed_def slots_of_def map_replicate_const)
  have nil: "clean expected []" by (simp add: clean_def)
  have slots: "try_map restore_slot (zip (slots_of expected rs) expected) = Ok jobs \<longleftrightarrow>
      map rj_identity jobs = expected \<and> (\<forall>job \<in> set jobs. outcome_product rs (rj_identity job) = Some (rj_product job))"
  proof -
    have "zip (slots_of expected rs) expected = map (\<lambda>identity. (find (\<lambda>r. io_identity r = identity) rs, identity)) expected"
      by (simp add: slots_of_def zip_map1 zip_same_conv_map)
    then have "try_map restore_slot (zip (slots_of expected rs) expected) = Ok jobs \<longleftrightarrow>
        list_all2 (\<lambda>identity job. rj_identity job = identity \<and> outcome_product rs identity = Some (rj_product job)) expected jobs"
      by (simp add: try_map_eq_Ok list_all2_map1 restore_slot_Ok outcome_product_def)
    also have "\<dots> \<longleftrightarrow> map rj_identity jobs = expected \<and>
        (\<forall>job \<in> set jobs. outcome_product rs (rj_identity job) = Some (rj_product job))"
      by (induction expected arbitrary: jobs) (auto simp: list_all2_Cons1 Cons_eq_map_conv)
    finally show ?thesis .
  qed
  show ?thesis
  proof (cases "clean expected rs \<and> None \<notin> set (slots_of expected rs)")
    case ok: True
    then have "mset (map io_identity rs) = mset expected"
      using clean_complete [OF dist] by blast
    moreover have "place_outcomes expected rs (placed expected []) = placed expected rs"
      using place_all [OF True nil, of rs] ok by simp
    ultimately show ?thesis
      using True ok slots by (simp add: restore_issuance_outcomes_def start placed_def)
  next
    case False
    then have "mset (map io_identity rs) \<noteq> mset expected"
      using permutation_clean [OF dist] by blast
    moreover have "restore_issuance_outcomes expected rs \<noteq> Ok jobs"
    proof (cases "clean expected rs")
      case cl: True
      then have "place_outcomes expected rs (placed expected []) = placed expected rs"
        using place_all [OF True nil, of rs] by simp
      then show ?thesis
        using False cl True by (simp add: restore_issuance_outcomes_def start Let_def) (simp add: placed_def)
    next
      case bad: False
      then have "\<not> flags_clear (place_outcomes expected rs (placed expected []))"
        using place_all [OF True nil, of rs] by simp
      then show ?thesis
        using True by (auto simp: restore_issuance_outcomes_def start flags_clear_def Let_def)
    qed
    ultimately show ?thesis by blast
  qed
qed

end
