(* ===== verification/Issuance_Contract.thy ===== *)
theory Issuance_Contract
  imports Issuance_Restore
begin

text \<open>
  The interface between the plan and its executors as a locale: an executor returns a permutation
  of the outcomes of the jobs it was given, or an error. Executing a complete plan through any such
  executor gives the assembly of serial execution, or the executor's own error.
\<close>

subsection \<open>Results that satisfy a condition or fail in an allowed way\<close>

fun result_sat :: "('a \<Rightarrow> bool) \<Rightarrow> (error \<Rightarrow> bool) \<Rightarrow> 'a result \<Rightarrow> bool" where
  "result_sat P E (Ok x) = P x"
| "result_sat P E (Err e) = E e"
| "result_sat P E Panic = False"

lemma rbind_sat:
  "result_sat P E m \<Longrightarrow> (\<And>x. P x \<Longrightarrow> result_sat Q E (f x)) \<Longrightarrow> result_sat Q E (rbind m f)"
  by (cases m) auto

lemma result_sat_weaken: "result_sat P E m \<Longrightarrow> (\<And>x. P x \<Longrightarrow> Q x) \<Longrightarrow> result_sat Q E m"
  by (cases m) auto

subsection \<open>Restored jobs and their products\<close>

definition job_id_of :: "issuance_job \<Rightarrow> nat" where
  "job_id_of job = ji_job_id (ij_identity job)"

definition restored_of :: "'k externals \<Rightarrow> issuance_job \<Rightarrow> restored_job" where
  "restored_of X job = \<lparr>rj_identity = ij_identity job, rj_product = issuance_product_of X (ij_operation job)\<rparr>"

lemma restored_of_sel [simp]:
  "rj_identity (restored_of X job) = ij_identity job"
  "rj_product (restored_of X job) = issuance_product_of X (ij_operation job)"
  by (simp_all add: restored_of_def)

definition matching_job :: "'k externals \<Rightarrow> issuance_job \<Rightarrow> bool" where
  "matching_job X job \<longleftrightarrow> product_matches (ji_kind (ij_identity job)) (issuance_product_of X (ij_operation job))"

lemma restore_permutation:
  assumes "distinct (map job_id_of jobs)" and "\<forall>job \<in> set jobs. matching_job X job"
    and "mset rs = mset (map (process_issuance_job X) jobs)"
  shows "restore_issuance_outcomes (map ij_identity jobs) rs = Ok (map (restored_of X) jobs)"
proof -
  have ids: "distinct (map ji_job_id (map ij_identity jobs))"
    using assms(1) by (simp add: comp_def job_id_of_def [abs_def])
  then have dist: "distinct (map ij_identity jobs)"
    unfolding distinct_map [of ji_job_id "map ij_identity jobs"] by blast
  have perm: "mset (map io_identity rs) = mset (map ij_identity jobs)"
    using arg_cong [where f = "image_mset io_identity", OF assms(3)]
    by (simp add: image_mset.compositionality comp_def process_issuance_job_def)
  have "outcome_product rs (ij_identity job) = Some (issuance_product_of X (ij_operation job))"
    if job: "job \<in> set jobs" for job
  proof -
    have all: "set rs = process_issuance_job X ` set jobs"
      using mset_eq_setD [OF assms(3)] by simp
    then have mem: "process_issuance_job X job \<in> set rs" using job by simp
    have "find (\<lambda>r. io_identity r = ij_identity job) rs = Some (process_issuance_job X job)"
    proof (cases "find (\<lambda>r. io_identity r = ij_identity job) rs")
      case None
      with mem show ?thesis by (auto simp: find_None_iff process_issuance_job_def)
    next
      case (Some r)
      then have r: "r \<in> set rs" "io_identity r = ij_identity job"
        by (auto simp: find_Some_iff)
      with all obtain job' where "job' \<in> set jobs" "r = process_issuance_job X job'" by auto
      moreover have "inj_on ij_identity (set jobs)"
        using dist by (simp add: distinct_map)
      ultimately show ?thesis
        using Some r job by (auto simp: process_issuance_job_def dest: inj_onD)
    qed
    then show ?thesis
      using assms(2) job by (auto simp: outcome_product_def process_issuance_job_def matching_job_def)
  qed
  then show ?thesis
    using ids perm by (subst restore_iff) auto
qed

text \<open>
  A job that yields the disclosure \<open>d\<close> for a bound ordinal; the outputs of an array against its
  batch (numbered from \<open>n\<close>); the digests of an object against its batch.
\<close>

definition disclosure_job_ok ::
    "'k externals \<Rightarrow> nat list \<Rightarrow> (nat \<Rightarrow> disclosure) \<Rightarrow> issuance_job \<Rightarrow> disclosure \<Rightarrow> bool" where
  "disclosure_job_ok X ids D job d \<longleftrightarrow>
     (\<exists>ordinal. ji_ordinal (ij_identity job) = Some ordinal \<and> bound_at ids ordinal (job_id_of job)) \<and>
     issuance_product_of X (ij_operation job) = ProductDisclosure d \<and> D (job_id_of job) = d \<and>
     ji_kind (ij_identity job) \<noteq> DecoyKind"

inductive outputs_for ::
    "'k externals \<Rightarrow> nat list \<Rightarrow> (nat \<Rightarrow> disclosure) \<Rightarrow> nat \<Rightarrow> array_output list \<Rightarrow> issuance_job list
       \<Rightarrow> json list \<Rightarrow> bool" for X ids D where
  of_Nil: "outputs_for X ids D n [] [] []"
| of_visible: "outputs_for X ids D n outputs jobs claims \<Longrightarrow>
    outputs_for X ids D n (OutVisible v # outputs) jobs (v # claims)"
| of_disclosure: "disclosure_job_ok X ids D job d \<Longrightarrow> outputs_for X ids D (Suc n) outputs jobs claims \<Longrightarrow>
    outputs_for X ids D n (OutDisclosure n # outputs) (job # jobs) (placeholder (hash d) # claims)"

inductive digests_for ::
    "'k externals \<Rightarrow> nat list \<Rightarrow> (nat \<Rightarrow> disclosure) \<Rightarrow> issuance_job list \<Rightarrow> string list \<Rightarrow> nat list \<Rightarrow> bool"
  for X ids D where
  df_Nil: "digests_for X ids D [] [] []"
| df_disclosure: "disclosure_job_ok X ids D job d \<Longrightarrow> digests_for X ids D jobs digests recorded \<Longrightarrow>
    digests_for X ids D (job # jobs) (hash d # digests) (job_id_of job # recorded)"
| df_decoy: "issuance_product_of X (ij_operation job) = ProductDecoy digest \<Longrightarrow>
    ji_kind (ij_identity job) = DecoyKind \<Longrightarrow> digests_for X ids D jobs digests recorded \<Longrightarrow>
    digests_for X ids D (job # jobs) (digest # digests) recorded"

lemma disclosure_job_matching: "disclosure_job_ok X ids D job d \<Longrightarrow> matching_job X job"
  by (cases "ji_kind (ij_identity job)") (auto simp: disclosure_job_ok_def matching_job_def)

lemma outputs_for_matching: "outputs_for X ids D n outputs jobs claims \<Longrightarrow> \<forall>job \<in> set jobs. matching_job X job"
  by (induction rule: outputs_for.induct) (auto dest: disclosure_job_matching)

lemma digests_for_matching: "digests_for X ids D jobs digests recorded \<Longrightarrow> \<forall>job \<in> set jobs. matching_job X job"
  by (induction rule: digests_for.induct) (auto dest: disclosure_job_matching simp: matching_job_def)

lemma digests_for_append:
  "digests_for X ids D jobs digests recorded \<Longrightarrow> digests_for X ids D jobs' digests' recorded' \<Longrightarrow>
     digests_for X ids D (jobs @ jobs') (digests @ digests') (recorded @ recorded')"
  by (induction rule: digests_for.induct) (auto intro: digests_for.intros)

lemma record_job_state:
  assumes "disclosure_job_ok X ids D job d" and "distinct ids" and "job_id_of job \<notin> S"
  obtains ordinal where "ji_ordinal (ij_identity job) = Some ordinal"
    "record_disclosure (ji_job_id (ij_identity job)) ordinal d (asm_state J ids D T S) =
       Ok (asm_state J ids D T (insert (job_id_of job) S))"
proof -
  from assms(1) obtain ordinal where ord: "ji_ordinal (ij_identity job) = Some ordinal"
      "bound_at ids ordinal (job_id_of job)" and d: "D (job_id_of job) = d"
    by (auto simp: disclosure_job_ok_def)
  show thesis
    by (rule that [OF ord(1)])
      (use record_disclosure_state [OF ord(2) assms(2,3), of D J T] d in \<open>simp add: job_id_of_def\<close>)
qed

lemma assemble_outputs_state:
  assumes "distinct ids"
  shows "outputs_for X ids D n outputs jobs claims \<Longrightarrow>
     drop n restored = map Some (map (restored_of X) jobs) \<Longrightarrow> distinct (map job_id_of jobs) \<Longrightarrow>
     job_id_of ` set jobs \<inter> S = {} \<Longrightarrow>
     assemble_outputs outputs restored (asm_state J ids D T S) =
       Ok (claims, asm_state J ids D T (job_id_of ` set jobs \<union> S))"
proof (induction arbitrary: restored S rule: outputs_for.induct)
  case (of_Nil n)
  then show ?case by simp
next
  case (of_visible n outputs jobs claims v)
  then show ?case by simp
next
  case (of_disclosure job d n outputs jobs claims)
  have len: "n < length restored"
    using of_disclosure.prems(1) by (cases "n < length restored") auto
  then have at: "restored ! n = Some (restored_of X job)"
    and rest: "drop (Suc n) (restored[n := None]) = map Some (map (restored_of X) jobs)"
    using of_disclosure.prems(1) by (simp_all add: Cons_nth_drop_Suc [symmetric])
  have "job_id_of job \<notin> S" using of_disclosure.prems(3) by auto
  then obtain ordinal where rec: "ji_ordinal (ij_identity job) = Some ordinal"
      "record_disclosure (ji_job_id (ij_identity job)) ordinal d (asm_state J ids D T S) =
         Ok (asm_state J ids D T (insert (job_id_of job) S))"
    using record_job_state [OF of_disclosure.hyps(1) assms] by metis
  have "assemble_outputs outputs (restored[n := None]) (asm_state J ids D T (insert (job_id_of job) S)) =
      Ok (claims, asm_state J ids D T (job_id_of ` set jobs \<union> insert (job_id_of job) S))"
    by (rule of_disclosure.IH [OF rest]) (use of_disclosure.prems in auto)
  moreover have "issuance_product_of X (ij_operation job) = ProductDisclosure d"
    using of_disclosure.hyps(1) by (simp add: disclosure_job_ok_def)
  ultimately show ?case
    using len at rec by simp
qed

lemma record_restored_state:
  assumes "distinct ids"
  shows "digests_for X ids D jobs digests recorded \<Longrightarrow> distinct recorded \<Longrightarrow> set recorded \<inter> S = {} \<Longrightarrow>
     record_restored (map (restored_of X) jobs) (asm_state J ids D T S) =
       Ok (digests, asm_state J ids D T (set recorded \<union> S))"
proof (induction arbitrary: S rule: digests_for.induct)
  case df_Nil
  then show ?case by simp
next
  case (df_disclosure job d jobs digests recorded)
  then obtain ordinal where rec: "ji_ordinal (ij_identity job) = Some ordinal"
      "record_disclosure (ji_job_id (ij_identity job)) ordinal d (asm_state J ids D T S) =
         Ok (asm_state J ids D T (insert (job_id_of job) S))"
    using record_job_state [OF df_disclosure.hyps(1) assms, of S J T] by auto
  have "record_restored (map (restored_of X) jobs) (asm_state J ids D T (insert (job_id_of job) S)) =
      Ok (digests, asm_state J ids D T (set recorded \<union> insert (job_id_of job) S))"
    by (rule df_disclosure.IH) (use df_disclosure.prems in auto)
  moreover have "issuance_product_of X (ij_operation job) = ProductDisclosure d"
    using df_disclosure.hyps(1) by (simp add: disclosure_job_ok_def)
  ultimately show ?case
    using rec by simp
next
  case (df_decoy job digest jobs digests recorded)
  then show ?case by simp
qed

lemma collect_decoy_jobs_state:
  "decoys_denote X J l us digests \<Longrightarrow> distinct us \<Longrightarrow> set us \<inter> T = {} \<Longrightarrow>
     \<exists>new. collect_decoy_jobs l us jobs (asm_state J ids D T S) = Ok (jobs @ new, asm_state J ids D (set us \<union> T) S) \<and>
       digests_for X ids D new digests [] \<and> map job_id_of new = us"
proof (induction arbitrary: T jobs rule: decoys_denote.induct)
  case dd_Nil
  then show ?case by (auto intro: df_Nil)
next
  case (dd_Cons i salt us digests)
  let ?job = "\<lparr>ij_identity = \<lparr>ji_job_id = i, ji_location_id = l, ji_kind = DecoyKind, ji_ordinal = None\<rparr>,
    ij_operation = IssueDecoy salt\<rparr>"
  have "distinct us" "set us \<inter> insert i T = {}" using dd_Cons.prems by auto
  from dd_Cons.IH [OF this, of "jobs @ [?job]"] obtain new
    where "collect_decoy_jobs l us (jobs @ [?job]) (asm_state J ids D (insert i T) S) =
        Ok ((jobs @ [?job]) @ new, asm_state J ids D (set us \<union> insert i T) S)"
      and new: "digests_for X ids D new digests []" "map job_id_of new = us" by blast
  moreover have "digests_for X ids D (?job # new) (base64_hash X salt # digests) []"
    by (rule df_decoy) (use new in simp_all)
  moreover have "i \<notin> T" using dd_Cons.prems by auto
  moreover have "job_id_of ?job = i" by (simp add: job_id_of_def)
  ultimately show ?case
    using take_planned_job_state [OF dd_Cons.hyps(1), of DecoyKind T ids D S]
    by (intro exI [of _ "?job # new"]) simp
qed


subsection \<open>The executor contract\<close>

definition executor_failure ::
    "('o \<Rightarrow> issuance_job list \<Rightarrow> issuance_outcome list result \<times> 'o) \<Rightarrow> error \<Rightarrow> bool" where
  "executor_failure execute err \<longleftrightarrow> (\<exists>e jobs. fst (execute e jobs) = Err err)"

text \<open>What the loops over an array and an object have produced when they return.\<close>

definition array_ready ::
    "'k externals \<Rightarrow> planned_job list \<Rightarrow> nat list \<Rightarrow> (nat \<Rightarrow> disclosure) \<Rightarrow> issuance_job list \<Rightarrow> json list
       \<Rightarrow> (nat \<times> disclosure) list \<Rightarrow> nat set \<Rightarrow> nat set
       \<Rightarrow> array_output list \<times> issuance_job list \<times> assembler \<times> 'o \<Rightarrow> bool" where
  "array_ready X J ids D jobs outs ds T S res \<longleftrightarrow>
     (case res of (outputs, jobs', s, e) \<Rightarrow>
        \<exists>new nested. jobs' = jobs @ new \<and> s = asm_state J ids D T (set nested \<union> S) \<and>
          outputs_for X ids D (length jobs) outputs new outs \<and>
          mset (map fst ds) = mset (nested @ map job_id_of new))"

definition object_ready ::
    "'k externals \<Rightarrow> planned_job list \<Rightarrow> nat list \<Rightarrow> (nat \<Rightarrow> disclosure) \<Rightarrow> issuance_job list \<Rightarrow> json_map
       \<Rightarrow> string list \<Rightarrow> (nat \<times> disclosure) list \<Rightarrow> nat set \<Rightarrow> nat set
       \<Rightarrow> json_map \<times> issuance_job list \<times> assembler \<times> 'o \<Rightarrow> bool" where
  "object_ready X J ids D jobs claims digests ds T S res \<longleftrightarrow>
     (case res of (claims', jobs', s, e) \<Rightarrow>
        \<exists>new nested. claims' = claims \<and> jobs' = jobs @ new \<and> s = asm_state J ids D T (set nested \<union> S) \<and>
          digests_for X ids D new digests (map job_id_of new) \<and>
          mset (map fst ds) = mset (nested @ map job_id_of new))"

definition value_ready ::
    "planned_job list \<Rightarrow> nat list \<Rightarrow> (nat \<Rightarrow> disclosure) \<Rightarrow> json \<Rightarrow> nat set \<Rightarrow> nat set
       \<Rightarrow> json \<times> assembler \<times> 'o \<Rightarrow> bool" where
  "value_ready J ids D v T S res \<longleftrightarrow> (case res of (w, s, e) \<Rightarrow> w = v \<and> s = asm_state J ids D T S)"

lemma mset_split_facts:
  assumes "mset xs = mset (ys @ zs)" and "distinct xs"
  shows "set xs = set ys \<union> set zs" and "distinct zs" and "set ys \<inter> set zs = {}"
proof -
  have "distinct (ys @ zs)" by (rule mset_eq_imp_distinct_iff [OF assms(1), THEN iffD1]) fact
  then show "distinct zs" "set ys \<inter> set zs = {}" by auto
  show "set xs = set ys \<union> set zs" using mset_eq_setD [OF assms(1)] by simp
qed

locale issuance_executor =
  fixes execute :: "'o \<Rightarrow> issuance_job list \<Rightarrow> issuance_outcome list result \<times> 'o"
    and X :: "'k externals"
  assumes permutes: "fst (execute e jobs) = Ok rs \<Longrightarrow> mset rs = mset (map (process_issuance_job X) jobs)"
    and no_panic: "fst (execute e jobs) \<noteq> Panic"
begin

lemma execute_and_restore_sat:
  assumes "distinct (map job_id_of jobs)" and "\<forall>job \<in> set jobs. matching_job X job"
  shows "result_sat (\<lambda>rs. rs = map (restored_of X) jobs) (executor_failure execute)
           (fst (execute_and_restore execute e jobs))"
proof (cases "fst (execute e jobs)")
  case (Ok rs)
  then show ?thesis
    using restore_permutation [OF assms permutes [OF Ok]]
    by (auto simp: execute_and_restore_def split: prod.split)
next
  case (Err err)
  then have "executor_failure execute err" unfolding executor_failure_def by blast
  with Err show ?thesis
    by (auto simp: execute_and_restore_def split: prod.split)
qed (use no_panic in blast)

lemma finish_array:
  assumes dist: "distinct ids" and ds: "distinct (map fst ds)" "set (map fst ds) \<inter> S = {}"
    and ready: "array_ready X J ids D [] outs ds T S (outputs, jobs, s, e)"
  shows "result_sat (value_ready J ids D (Array outs) T (set (map fst ds) \<union> S)) (executor_failure execute)
     (case execute_and_restore execute e jobs of
        (r, e2) \<Rightarrow> rbind r (\<lambda>restored.
          rbind (assemble_outputs outputs (map Some restored) s) (\<lambda>(claims, s2). Ok (Array claims, s2, e2))))"
proof -
  from ready obtain nested where s: "s = asm_state J ids D T (set nested \<union> S)"
    and outs: "outputs_for X ids D 0 outputs jobs outs"
    and perm: "mset (map fst ds) = mset (nested @ map job_id_of jobs)"
    by (auto simp: array_ready_def)
  note sp = mset_split_facts [OF perm ds(1)]
  obtain r e2 where er: "execute_and_restore execute e jobs = (r, e2)" by fastforce
  have "result_sat (\<lambda>rs. rs = map (restored_of X) jobs) (executor_failure execute) r"
    using execute_and_restore_sat [OF sp(2) outputs_for_matching [OF outs], of e] er by simp
  moreover have "assemble_outputs outputs (map Some (map (restored_of X) jobs)) s =
      Ok (outs, asm_state J ids D T (job_id_of ` set jobs \<union> (set nested \<union> S)))"
    unfolding s by (rule assemble_outputs_state [OF dist outs]) (use sp ds(2) in auto)
  moreover have "job_id_of ` set jobs \<union> (set nested \<union> S) = set (map fst ds) \<union> S"
    using sp(1) by auto
  ultimately show ?thesis
    unfolding er prod.case by (elim rbind_sat) (simp add: value_ready_def)
qed

lemma finish_object_batch:
  assumes dist: "distinct ids" and ds: "distinct (map fst ds)" "set (map fst ds) \<inter> S = {}"
    and decoys: "decoys_denote X J l us decoy_digests" "distinct us" "set us \<inter> T = {}" "set us \<inter> set (map fst ds) = {}"
    and ready: "object_ready X J ids D [] claims digests ds T S (claims', jobs, s, e)"
  shows "result_sat (value_ready J ids D (finish_object claims (digests @ decoy_digests)) (set us \<union> T) (set (map fst ds) \<union> S))
     (executor_failure execute)
     (rbind (collect_decoy_jobs l us jobs s) (\<lambda>(jobs', s2).
        case execute_and_restore execute e jobs' of
          (r, e2) \<Rightarrow> rbind r (\<lambda>restored. rbind (record_restored restored s2) (\<lambda>(digests, s3).
             Ok (finish_object claims' digests, s3, e2)))))"
proof -
  from ready obtain nested where s: "s = asm_state J ids D T (set nested \<union> S)" and claims: "claims' = claims"
    and df: "digests_for X ids D jobs digests (map job_id_of jobs)"
    and perm: "mset (map fst ds) = mset (nested @ map job_id_of jobs)"
    by (auto simp: object_ready_def)
  note sp = mset_split_facts [OF perm ds(1)]
  from collect_decoy_jobs_state [OF decoys(1-3), of jobs ids D "set nested \<union> S"] obtain new
    where c: "collect_decoy_jobs l us jobs s = Ok (jobs @ new, asm_state J ids D (set us \<union> T) (set nested \<union> S))"
      and new: "digests_for X ids D new decoy_digests []" "map job_id_of new = us"
    unfolding s by blast
  have all: "digests_for X ids D (jobs @ new) (digests @ decoy_digests) (map job_id_of jobs)"
    using digests_for_append [OF df new(1)] by simp
  have "distinct (map job_id_of (jobs @ new))"
    unfolding map_append new(2) distinct_append using sp decoys(2,4) by blast
  moreover obtain r e2 where er: "execute_and_restore execute e (jobs @ new) = (r, e2)" by fastforce
  ultimately have "result_sat (\<lambda>rs. rs = map (restored_of X) (jobs @ new)) (executor_failure execute) r"
    using execute_and_restore_sat [OF _ digests_for_matching [OF all], of e] by simp
  moreover have "record_restored (map (restored_of X) (jobs @ new)) (asm_state J ids D (set us \<union> T) (set nested \<union> S)) =
      Ok (digests @ decoy_digests, asm_state J ids D (set us \<union> T) (set (map job_id_of jobs) \<union> (set nested \<union> S)))"
    by (rule record_restored_state [OF dist all]) (use sp ds(2) in auto)
  moreover have "set (map job_id_of jobs) \<union> (set nested \<union> S) = set (map fst ds) \<union> S"
    using sp(1) by auto
  ultimately show ?thesis
    unfolding c rbind.simps er prod.case by (elim rbind_sat) (simp add: value_ready_def claims)
qed

lemma xvalue_denotes:
  assumes dist: "distinct ids"
  shows "denotes X J ids pv v ds us \<Longrightarrow> (\<And>T S e. agrees D ds \<Longrightarrow> fresh us T S \<Longrightarrow>
       result_sat (value_ready J ids D v (set us \<union> T) (set (map fst ds) \<union> S)) (executor_failure execute)
         (xvalue execute pv (asm_state J ids D T S) e))"
    and "denotes_array X J ids entries outs ds us \<Longrightarrow> (\<And>jobs T S e. agrees D ds \<Longrightarrow> fresh us T S \<Longrightarrow>
       result_sat (array_ready X J ids D jobs outs ds (set us \<union> T) S) (executor_failure execute)
         (xarray execute entries jobs (asm_state J ids D T S) e))"
    and "denotes_object X J ids claims oentries claims' digests ds us \<Longrightarrow> (\<And>jobs T S e. agrees D ds \<Longrightarrow>
       fresh us T S \<Longrightarrow>
       result_sat (object_ready X J ids D jobs claims' digests ds (set us \<union> T) S) (executor_failure execute)
         (xobject execute oentries claims jobs (asm_state J ids D T S) e))"
proof (induction rule: denotes_induct)
  case (dn_scalar location v)
  then show ?case by (simp add: value_ready_def)
next
  case (dn_array entries outs ds us location)
  have "distinct (map fst ds)" "set (map fst ds) \<inter> S = {}"
    using denotes_jobs(2) [OF dn_array(1)] dn_array.prems(2) by (auto simp: fresh_def)
  note fin = finish_array [OF dist this]
  show ?case
    unfolding xvalue.simps xkind.simps
    by (rule rbind_sat [OF dn_array(2) [OF dn_array.prems]]) (auto intro: fin simp del: set_map)
next
  case (dn_object entries claims digests ds us location decoys decoy_digests)
  have f: "fresh us T S" "fresh decoys (set us \<union> T) (set us \<union> S)"
    using dn_object.prems(2) by (simp_all add: fresh_append)
  have ds: "distinct (map fst ds)" "set (map fst ds) \<inter> S = {}" "set (map fst ds) \<subseteq> set us"
    using denotes_jobs(3) [OF dn_object(1)] f(1) by (auto simp: fresh_def)
  have dec: "distinct decoys" "set decoys \<inter> (set us \<union> T) = {}" "set decoys \<inter> set (map fst ds) = {}"
    using f(2) ds(3) by (auto simp: fresh_def)
  have T: "set (us @ decoys) \<union> T = set decoys \<union> (set us \<union> T)" by auto
  note fin = finish_object_batch [OF dist ds(1,2) dn_object(3) dec]
  show ?case
    unfolding xvalue.simps xkind.simps T
    by (rule rbind_sat [OF dn_object(2) [OF dn_object.prems(1) f(1)]]) (auto intro: fin simp del: set_map)
next
  case da_Nil
  then show ?case by (auto simp: array_ready_def intro: of_Nil)
next
  case (da_visible v out ds us entries outs ds' us')
  have f: "fresh us T S" "fresh us' (set us \<union> T) (set (map fst ds) \<union> S)"
    using da_visible.prems(2) denotes_jobs(1) [OF da_visible(1)]
    by (auto simp: fresh_append intro: fresh_mono)
  have "result_sat (\<lambda>(output, jobs', s, e). output = OutVisible out \<and> jobs' = jobs \<and>
      s = asm_state J ids D (set us \<union> T) (set (map fst ds) \<union> S)) (executor_failure execute)
      (xarray_entry execute (AVisible v) jobs (asm_state J ids D T S) e)"
    unfolding xarray_entry.simps
    by (rule rbind_sat [OF da_visible(2) [OF _ f(1)]]) (use da_visible.prems in \<open>auto simp: value_ready_def\<close>)
  then show ?case
    unfolding xarray.simps
  proof (rule rbind_sat, elim case_prodE conjE, hypsubst, unfold prod.case)
    fix e1
    show "result_sat (array_ready X J ids D jobs (out # outs) (ds @ ds') (set (us @ us') \<union> T) S) (executor_failure execute)
        (rbind (xarray execute entries jobs (asm_state J ids D (set us \<union> T) (set (map fst ds) \<union> S)) e1)
          (\<lambda>(outputs, jobs2, s2, e2). Ok (OutVisible out # outputs, jobs2, s2, e2)))"
    proof (rule rbind_sat [OF da_visible(4) [OF _ f(2)]])
      fix res :: "array_output list \<times> issuance_job list \<times> assembler \<times> 'a"
      assume ready: "array_ready X J ids D jobs outs ds' (set us' \<union> (set us \<union> T)) (set (map fst ds) \<union> S) res"
      obtain outputs jobs2 s2 e2 where res: "res = (outputs, jobs2, s2, e2)" by (cases res) auto
      from ready obtain new nested where "jobs2 = jobs @ new"
          "s2 = asm_state J ids D (set us' \<union> (set us \<union> T)) (set nested \<union> (set (map fst ds) \<union> S))"
          "outputs_for X ids D (length jobs) outputs new outs" "mset (map fst ds') = mset (nested @ map job_id_of new)"
        by (auto simp: array_ready_def res)
      then show "result_sat (array_ready X J ids D jobs (out # outs) (ds @ ds') (set (us @ us') \<union> T) S) (executor_failure execute)
          (case res of (outputs, jobs2, s2, e2) \<Rightarrow> Ok (OutVisible out # outputs, jobs2, s2, e2))"
        by (auto simp: res array_ready_def Un_ac intro!: exI [of _ new] exI [of _ "map fst ds @ nested"] of_visible)
    qed (use da_visible.prems in simp)
  qed
next
  case (da_disclosed v out ds us i ordinal salt d entries outs ds' us')
  have f: "fresh us T S" "i \<notin> set us \<union> T" "fresh us' (insert i (set us \<union> T)) (set (map fst ds) \<union> S)"
    using da_disclosed.prems(2) denotes_jobs(1) [OF da_disclosed(1)]
    by (auto simp: fresh_append fresh_Cons intro: fresh_mono)
  let ?job = "\<lparr>ij_identity = \<lparr>ji_job_id = i, ji_location_id = location_of v, ji_kind = ArrayKind,
    ji_ordinal = Some ordinal\<rparr>, ij_operation = IssueArray salt out\<rparr>"
  let ?S = "set (map fst ds) \<union> S" and ?T = "insert i (set us \<union> T)"
  have ok: "disclosure_job_ok X ids D ?job d" "job_id_of ?job = i"
    using da_disclosed(4,5) da_disclosed.prems(1) by (simp_all add: disclosure_job_ok_def job_id_of_def)
  have "result_sat (\<lambda>(output, jobs', s, e). output = OutDisclosure (length jobs) \<and> jobs' = jobs @ [?job] \<and>
      s = asm_state J ids D ?T ?S) (executor_failure execute)
      (xarray_entry execute (ADisclosed v i) jobs (asm_state J ids D T S) e)"
    unfolding xarray_entry.simps
    by (rule rbind_sat [OF da_disclosed(2) [OF _ f(1)]])
      (use da_disclosed.prems take_planned_job_state [OF da_disclosed(3) _ f(2), of ArrayKind ids D ?S]
        in \<open>auto simp: value_ready_def\<close>)
  then show ?case
    unfolding xarray.simps
  proof (rule rbind_sat, elim case_prodE conjE, hypsubst, unfold prod.case)
    fix e1
    show "result_sat (array_ready X J ids D jobs (placeholder (hash d) # outs) (ds @ (i, d) # ds')
          (set (us @ i # us') \<union> T) S) (executor_failure execute)
        (rbind (xarray execute entries (jobs @ [?job]) (asm_state J ids D ?T ?S) e1)
          (\<lambda>(outputs, jobs2, s2, e2). Ok (OutDisclosure (length jobs) # outputs, jobs2, s2, e2)))"
    proof (rule rbind_sat [OF da_disclosed(7) [OF _ f(3)]])
      fix res :: "array_output list \<times> issuance_job list \<times> assembler \<times> 'a"
      assume ready: "array_ready X J ids D (jobs @ [?job]) outs ds' (set us' \<union> ?T) ?S res"
      obtain outputs jobs2 s2 e2 where res: "res = (outputs, jobs2, s2, e2)" by (cases res) auto
      from ready obtain new nested where "jobs2 = (jobs @ [?job]) @ new"
          "s2 = asm_state J ids D (set us' \<union> ?T) (set nested \<union> ?S)"
          "outputs_for X ids D (Suc (length jobs)) outputs new outs" "mset (map fst ds') = mset (nested @ map job_id_of new)"
        by (auto simp: array_ready_def res)
      with ok show "result_sat (array_ready X J ids D jobs (placeholder (hash d) # outs) (ds @ (i, d) # ds')
            (set (us @ i # us') \<union> T) S) (executor_failure execute)
          (case res of (outputs, jobs2, s2, e2) \<Rightarrow> Ok (OutDisclosure (length jobs) # outputs, jobs2, s2, e2))"
        by (auto simp: res array_ready_def Un_ac
            intro!: exI [of _ "?job # new"] exI [of _ "map fst ds @ nested"] of_disclosure)
    qed (use da_disclosed.prems in simp)
  qed
next
  case (do_Nil claims)
  then show ?case by (auto simp: object_ready_def intro: df_Nil)
next
  case (do_visible v out ds us key claims entries claims' digests ds' us')
  have f: "fresh us T S" "fresh us' (set us \<union> T) (set (map fst ds) \<union> S)"
    using do_visible.prems(2) denotes_jobs(1) [OF do_visible(1)]
    by (auto simp: fresh_append intro: fresh_mono)
  let ?S = "set (map fst ds) \<union> S"
  have "result_sat (\<lambda>(claims1, jobs', s, e). claims1 = map_insert key out claims \<and> jobs' = jobs \<and>
      s = asm_state J ids D (set us \<union> T) ?S) (executor_failure execute)
      (xobject_entry execute (OVisible key v) claims jobs (asm_state J ids D T S) e)"
    unfolding xobject_entry.simps
    by (rule rbind_sat [OF do_visible(2) [OF _ f(1)]]) (use do_visible.prems in \<open>auto simp: value_ready_def\<close>)
  then show ?case
    unfolding xobject.simps
  proof (rule rbind_sat, elim case_prodE conjE, hypsubst, unfold prod.case)
    fix e1
    show "result_sat (object_ready X J ids D jobs claims' digests (ds @ ds') (set (us @ us') \<union> T) S) (executor_failure execute)
        (xobject execute entries (map_insert key out claims) jobs (asm_state J ids D (set us \<union> T) ?S) e1)"
    proof (rule result_sat_weaken [OF do_visible(4) [OF _ f(2)]])
      fix res :: "json_map \<times> issuance_job list \<times> assembler \<times> 'a"
      assume ready: "object_ready X J ids D jobs claims' digests ds' (set us' \<union> (set us \<union> T)) ?S res"
      obtain c jobs2 s2 e2 where res: "res = (c, jobs2, s2, e2)" by (cases res) auto
      from ready obtain new nested where "c = claims'" "jobs2 = jobs @ new"
          "s2 = asm_state J ids D (set us' \<union> (set us \<union> T)) (set nested \<union> ?S)"
          "digests_for X ids D new digests (map job_id_of new)" "mset (map fst ds') = mset (nested @ map job_id_of new)"
        by (auto simp: object_ready_def res)
      then show "object_ready X J ids D jobs claims' digests (ds @ ds') (set (us @ us') \<union> T) S res"
        by (auto simp: res object_ready_def Un_ac intro!: exI [of _ new] exI [of _ "map fst ds @ nested"])
    qed (use do_visible.prems in simp)
  qed
next
  case (do_disclosed v out ds us i ordinal key salt d claims entries claims' digests ds' us')
  have f: "fresh us T S" "i \<notin> set us \<union> T" "fresh us' (insert i (set us \<union> T)) (set (map fst ds) \<union> S)"
    using do_disclosed.prems(2) denotes_jobs(1) [OF do_disclosed(1)]
    by (auto simp: fresh_append fresh_Cons intro: fresh_mono)
  let ?job = "\<lparr>ij_identity = \<lparr>ji_job_id = i, ji_location_id = location_of v, ji_kind = ObjectKind,
    ji_ordinal = Some ordinal\<rparr>, ij_operation = IssueObject key salt out\<rparr>"
  let ?S = "set (map fst ds) \<union> S" and ?T = "insert i (set us \<union> T)"
  have ok: "disclosure_job_ok X ids D ?job d" "job_id_of ?job = i"
    using do_disclosed(4,5) do_disclosed.prems(1) by (simp_all add: disclosure_job_ok_def job_id_of_def)
  have "result_sat (\<lambda>(claims1, jobs', s, e). claims1 = claims \<and> jobs' = jobs @ [?job] \<and>
      s = asm_state J ids D ?T ?S) (executor_failure execute)
      (xobject_entry execute (ODisclosed v i) claims jobs (asm_state J ids D T S) e)"
    unfolding xobject_entry.simps
    by (rule rbind_sat [OF do_disclosed(2) [OF _ f(1)]])
      (use do_disclosed.prems take_planned_job_state [OF do_disclosed(3) _ f(2), of ObjectKind ids D ?S]
        in \<open>auto simp: value_ready_def\<close>)
  then show ?case
    unfolding xobject.simps
  proof (rule rbind_sat, elim case_prodE conjE, hypsubst, unfold prod.case)
    fix e1
    show "result_sat (object_ready X J ids D jobs claims' (hash d # digests) (ds @ (i, d) # ds')
          (set (us @ i # us') \<union> T) S) (executor_failure execute)
        (xobject execute entries claims (jobs @ [?job]) (asm_state J ids D ?T ?S) e1)"
    proof (rule result_sat_weaken [OF do_disclosed(7) [OF _ f(3)]])
      fix res :: "json_map \<times> issuance_job list \<times> assembler \<times> 'a"
      assume ready: "object_ready X J ids D (jobs @ [?job]) claims' digests ds' (set us' \<union> ?T) ?S res"
      obtain c jobs2 s2 e2 where res: "res = (c, jobs2, s2, e2)" by (cases res) auto
      from ready obtain new nested where "c = claims'" "jobs2 = (jobs @ [?job]) @ new"
          "s2 = asm_state J ids D (set us' \<union> ?T) (set nested \<union> ?S)"
          "digests_for X ids D new digests (map job_id_of new)" "mset (map fst ds') = mset (nested @ map job_id_of new)"
        by (auto simp: object_ready_def res)
      moreover have "digests_for X ids D (?job # new) (hash d # digests) (map job_id_of (?job # new))"
        using df_disclosure [OF ok(1) calculation(4)] by simp
      ultimately show "object_ready X J ids D jobs claims' (hash d # digests) (ds @ (i, d) # ds')
            (set (us @ i # us') \<union> T) S res"
        using ok(2) by (auto simp: res object_ready_def Un_ac
            intro!: exI [of _ "?job # new"] exI [of _ "map fst ds @ nested"])
    qed (use do_disclosed.prems in simp)
  qed
qed

text \<open>The client's theorem: execution through the executor is serial execution.\<close>

lemma execute_with_executor_complete:
  assumes "complete_plan X plan out ds"
  shows "result_sat (\<lambda>(assembly, e'). Ok assembly = execute_serial X plan) (executor_failure execute)
           (execute_with_executor execute plan e)"
proof -
  let ?J = "ip_jobs plan" and ?ids = "ip_disclosure_job_ids plan" and ?D = "job_disclosure ds"
  from assms have reg: "registry_ok ?J ?ids" and ids: "?ids = map fst ds"
    and den: "denotes X ?J ?ids (ip_root plan) out ds [0..<length ?J]"
    unfolding complete_plan_def by blast+
  have dist: "distinct ?ids" by (rule registry_ok_distinct [OF reg])
  have "result_sat (value_ready ?J ?ids ?D out (set [0..<length ?J] \<union> {}) (set (map fst ds) \<union> {})) (executor_failure execute)
      (xvalue execute (ip_root plan) (asm_state ?J ?ids ?D {} {}) e)"
    by (rule xvalue_denotes(1) [OF dist den])
      (use dist ids in \<open>auto simp: agrees_job_disclosure fresh_def\<close>)
  moreover have "assembler_finish out (asm_state ?J ?ids ?D {..<length ?J} (set ?ids)) =
      Ok \<lparr>ia_claims = out, ia_disclosures = map ?D ?ids\<rparr>"
    by (rule finish_state) auto
  moreover have "map ?D ?ids = map snd ds"
    using dist unfolding ids by (rule map_job_disclosure)
  moreover have "set [0..<length ?J] \<union> {} = {..<length ?J}" "set (map fst ds) \<union> {} = set ?ids"
    using ids by auto
  ultimately show ?thesis
    unfolding execute_with_executor_def assembler_new_complete [OF assms, of ?D] rbind.simps
    by (elim rbind_sat) (auto simp: value_ready_def execute_serial_complete [OF assms])
qed

end

end
