(* ===== verification/Issuance_Adaptive.thy ===== *)
theory Issuance_Adaptive
  imports Issuance_Contract Chunks Worker_Budget
begin

text \<open>
  The bounded native executor of src/src/issuer/issuance_plan.rs and the policy that selects it:
  the work estimate, the thresholds, the process-wide worker budget, and the trace a benchmark
  records of each decision. All three executors satisfy the executor contract.
\<close>

subsection \<open>The work estimate\<close>

text \<open>\<open>checked_add\<close> of two results that may already have overflowed.\<close>

definition add_opt :: "nat option \<Rightarrow> nat option \<Rightarrow> nat option" where
  "add_opt a b = Option.bind a (\<lambda>m. Option.bind b (\<lambda>n. checked_add m n))"

fun estimate_value :: "'k externals \<Rightarrow> json \<Rightarrow> nat option"
  and estimate_array :: "'k externals \<Rightarrow> nat \<Rightarrow> nat \<Rightarrow> json list \<Rightarrow> nat option"
  and estimate_object :: "'k externals \<Rightarrow> nat \<Rightarrow> nat \<Rightarrow> json_map \<Rightarrow> nat option"
where
  "estimate_value X Null = Some 4"
| "estimate_value X (Bool b) = Some (if b then 4 else 5)"
| "estimate_value X (Number n) = Some (length (json_to_string X (Number n)))"
| "estimate_value X (String s) = checked_add (length s) 2"
| "estimate_value X (Array vs) = estimate_array X 2 0 vs"
| "estimate_value X (Object ms) = estimate_object X 2 0 ms"
| "estimate_array X acc index [] = Some acc"
| "estimate_array X acc index (v # vs) =
     (case checked_add acc (if index \<noteq> 0 then 1 else 0) of
        None \<Rightarrow> None
      | Some acc1 \<Rightarrow>
          (case estimate_value X v of
             None \<Rightarrow> None
           | Some bytes \<Rightarrow>
               (case checked_add acc1 bytes of
                  None \<Rightarrow> None
                | Some acc2 \<Rightarrow> estimate_array X acc2 (Suc index) vs)))"
| "estimate_object X acc index [] = Some acc"
| "estimate_object X acc index ((key, v) # ms) =
     (case checked_add acc (if index \<noteq> 0 then 1 else 0) of
        None \<Rightarrow> None
      | Some acc1 \<Rightarrow>
          (case add_opt (Some acc1) (checked_add (length key) 3) of
             None \<Rightarrow> None
           | Some acc2 \<Rightarrow>
               (case estimate_value X v of
                  None \<Rightarrow> None
                | Some bytes \<Rightarrow>
                    (case checked_add acc2 bytes of
                       None \<Rightarrow> None
                     | Some acc3 \<Rightarrow> estimate_object X acc3 (Suc index) ms))))"

fun estimate_operation :: "'k externals \<Rightarrow> issuance_operation \<Rightarrow> nat option" where
  "estimate_operation X (IssueObject key salt v) =
     add_opt (add_opt (checked_add (length salt) (length key)) (estimate_value X v)) (Some 10)"
| "estimate_operation X (IssueArray salt v) = add_opt (add_opt (Some (length salt)) (estimate_value X v)) (Some 6)"
| "estimate_operation X (IssueDecoy salt) = Some (length salt)"

fun estimate_from :: "'k externals \<Rightarrow> nat \<Rightarrow> issuance_job list \<Rightarrow> nat option" where
  "estimate_from X acc [] = Some acc"
| "estimate_from X acc (job # jobs) =
     (case add_opt (Some acc) (estimate_operation X (ij_operation job)) of
        None \<Rightarrow> None
      | Some acc' \<Rightarrow> estimate_from X acc' jobs)"

definition estimate_ready_job_work_bytes :: "'k externals \<Rightarrow> issuance_job list \<Rightarrow> nat option" where
  "estimate_ready_job_work_bytes X jobs = estimate_from X 0 jobs"

subsection \<open>The bounded native executor\<close>

definition MAX_PARALLEL_ISSUANCE_WORKERS :: nat where "MAX_PARALLEL_ISSUANCE_WORKERS = 4"

definition PARALLEL_ISSUANCE_WORKER_FAILURE :: string where
  "PARALLEL_ISSUANCE_WORKER_FAILURE = ''SD-JWT issuance executor failure: worker panicked''"

definition PARALLEL_ISSUANCE_SPAWN_FAILURE :: string where
  "PARALLEL_ISSUANCE_SPAWN_FAILURE = ''SD-JWT issuance executor failure: could not spawn worker''"

definition native_issuance_new :: "nat \<Rightarrow> nat" where
  "native_issuance_new worker_count = min (max worker_count 1) MAX_PARALLEL_ISSUANCE_WORKERS"

definition native_issuance_execute ::
    "nat \<Rightarrow> (nat \<Rightarrow> bool) \<Rightarrow> (issuance_job \<Rightarrow> issuance_outcome option) \<Rightarrow> issuance_job list
       \<Rightarrow> issuance_outcome list result" where
  "native_issuance_execute worker_count spawn worker jobs =
     (if length jobs < 2 \<or> worker_count < 2
      then (case run_chunk worker jobs of None \<Rightarrow> Panic | Some rs \<Rightarrow> Ok rs)
      else let workers = min worker_count (length jobs);
               chunk_size = static_chunk_size (length jobs) workers
           in run_chunks (InvalidState PARALLEL_ISSUANCE_SPAWN_FAILURE)
                (InvalidState PARALLEL_ISSUANCE_WORKER_FAILURE) spawn worker (chunks chunk_size jobs))"

subsection \<open>The worker budget of the issuer\<close>

record issuance_budget =
  ib_available :: nat
  ib_capacity :: nat

definition issuance_budget_new :: "nat \<Rightarrow> issuance_budget" where
  "issuance_budget_new n = \<lparr>ib_available = n, ib_capacity = n\<rparr>"

definition issuance_try_acquire :: "issuance_budget \<Rightarrow> nat \<Rightarrow> nat option \<times> issuance_budget" where
  "issuance_try_acquire b worker_count =
     (if worker_count < 2 \<or> ib_capacity b < worker_count then (None, b)
      else if ib_available b < worker_count then (None, b)
      else (Some worker_count, b\<lparr>ib_available := ib_available b - worker_count\<rparr>))"

definition issuance_drop_lease :: "issuance_budget \<Rightarrow> nat \<Rightarrow> issuance_budget" where
  "issuance_drop_lease b worker_count = b\<lparr>ib_available := ib_available b + worker_count\<rparr>"

interpretation issuance_budget: permit_budget issuance_try_acquire issuance_drop_lease ib_available ib_capacity
proof unfold_locales
  show "b = b'" if "ib_available b = ib_available b'" "ib_capacity b = ib_capacity b'" for b b' :: issuance_budget
    using that by (cases b, cases b') simp
qed (auto simp: issuance_try_acquire_def issuance_drop_lease_def split: if_splits)

subsection \<open>The selection policy\<close>

record issuance_thresholds =
  min_jobs :: nat
  min_estimated_work_bytes :: nat

definition QUALIFIED_ISSUANCE_THRESHOLDS :: "issuance_thresholds option" where
  "QUALIFIED_ISSUANCE_THRESHOLDS = None"

definition BENCHMARK_ISSUANCE_THRESHOLDS :: issuance_thresholds where
  "BENCHMARK_ISSUANCE_THRESHOLDS = \<lparr>min_jobs = 2, min_estimated_work_bytes = 1\<rparr>"

datatype issuance_mode = IssuanceSerial | IssuanceNative nat

datatype issuance_reason =
    BelowMinJobs | WorkEstimateOverflow | BelowMinEstimatedWorkBytes
  | InsufficientAvailableParallelism | WorkerBudgetUnavailable | BoundedNative

record issuance_decision =
  id_mode :: issuance_mode
  id_reason :: issuance_reason

datatype issuance_selection = SelectSerial issuance_decision | SelectNative issuance_decision nat

fun selection_decision :: "issuance_selection \<Rightarrow> issuance_decision" where
  "selection_decision (SelectSerial d) = d"
| "selection_decision (SelectNative d lease) = d"

definition decision_serial :: "issuance_reason \<Rightarrow> issuance_selection" where
  "decision_serial reason = SelectSerial \<lparr>id_mode = IssuanceSerial, id_reason = reason\<rparr>"

definition issuance_worker_count :: "nat \<Rightarrow> nat \<Rightarrow> nat" where
  "issuance_worker_count available_threads job_count =
     min (min available_threads MAX_PARALLEL_ISSUANCE_WORKERS) job_count"

text \<open>\<open>estimate\<close> is what the estimator would return if it is asked.\<close>

definition select_execution_with_estimate ::
    "nat \<Rightarrow> nat option \<Rightarrow> issuance_thresholds \<Rightarrow> nat \<Rightarrow> issuance_budget
       \<Rightarrow> issuance_selection \<times> issuance_budget" where
  "select_execution_with_estimate job_count estimate thresholds available_threads budget =
     (if job_count < min_jobs thresholds then (decision_serial BelowMinJobs, budget)
      else case estimate of
        None \<Rightarrow> (decision_serial WorkEstimateOverflow, budget)
      | Some estimated \<Rightarrow>
          (if estimated < min_estimated_work_bytes thresholds
           then (decision_serial BelowMinEstimatedWorkBytes, budget)
           else let worker_count = issuance_worker_count available_threads job_count
           in if worker_count < 2 then (decision_serial InsufficientAvailableParallelism, budget)
              else case issuance_try_acquire budget worker_count of
                (None, budget') \<Rightarrow> (decision_serial WorkerBudgetUnavailable, budget')
              | (Some lease, budget') \<Rightarrow>
                  (SelectNative \<lparr>id_mode = IssuanceNative lease, id_reason = BoundedNative\<rparr> lease, budget')))"

definition select_execution ::
    "'k externals \<Rightarrow> issuance_job list \<Rightarrow> issuance_thresholds \<Rightarrow> nat \<Rightarrow> issuance_budget
       \<Rightarrow> issuance_selection \<times> issuance_budget" where
  "select_execution X jobs thresholds available_threads budget =
     select_execution_with_estimate (length jobs) (estimate_ready_job_work_bytes X jobs) thresholds
       available_threads budget"

subsection \<open>The adaptive executor\<close>

text \<open>What the host grants: whether each thread can be started, and the available parallelism.\<close>

record issuance_host =
  ih_spawn :: "nat \<Rightarrow> bool"
  ih_threads :: nat

definition run_selection ::
    "'k externals \<Rightarrow> issuance_host \<Rightarrow> issuance_selection \<times> issuance_budget \<Rightarrow> issuance_job list
       \<Rightarrow> issuance_outcome list result \<times> issuance_budget" where
  "run_selection X host selection jobs =
     (case selection of
        (SelectSerial decision, budget) \<Rightarrow>
          (if id_reason decision = BoundedNative then Panic
           else serial_issuance_execute (process_issuance_job X) jobs, budget)
      | (SelectNative decision lease, budget) \<Rightarrow>
          (case id_mode decision of
             IssuanceSerial \<Rightarrow> (Panic, budget)
           | IssuanceNative worker_count \<Rightarrow>
               (native_issuance_execute (native_issuance_new worker_count) (ih_spawn host)
                  (\<lambda>job. Some (process_issuance_job X job)) jobs,
                issuance_drop_lease budget lease)))"

definition adaptive_execute ::
    "'k externals \<Rightarrow> issuance_host \<Rightarrow> issuance_thresholds \<Rightarrow> issuance_budget \<Rightarrow> issuance_job list
       \<Rightarrow> issuance_outcome list result \<times> issuance_budget" where
  "adaptive_execute X host thresholds budget jobs =
     run_selection X host (select_execution X jobs thresholds (ih_threads host) budget) jobs"

definition execute_adaptively ::
    "'k externals \<Rightarrow> issuance_host \<Rightarrow> issuance_thresholds option \<Rightarrow> issuance_plan \<Rightarrow> issuance_budget
       \<Rightarrow> (issuance_assembly \<times> issuance_budget) result" where
  "execute_adaptively X host thresholds plan budget =
     (case thresholds of
        None \<Rightarrow> rbind (execute_serial X plan) (\<lambda>assembly. Ok (assembly, budget))
      | Some t \<Rightarrow> execute_with_executor (adaptive_execute X host t) plan budget)"

text \<open>
  \<open>IssuancePlan::execute\<close>: the production policy where the native executor is compiled in
  (\<open>par\<close>), serial execution elsewhere; and the benchmark's candidate.
\<close>

definition plan_execute ::
    "bool \<Rightarrow> 'k externals \<Rightarrow> issuance_host \<Rightarrow> issuance_plan \<Rightarrow> issuance_budget
       \<Rightarrow> (issuance_assembly \<times> issuance_budget) result" where
  "plan_execute par X host plan budget =
     (if par then execute_adaptively X host QUALIFIED_ISSUANCE_THRESHOLDS plan budget
      else rbind (execute_serial X plan) (\<lambda>assembly. Ok (assembly, budget)))"

definition execute_benchmark_candidate ::
    "bool \<Rightarrow> 'k externals \<Rightarrow> issuance_host \<Rightarrow> issuance_plan \<Rightarrow> issuance_budget
       \<Rightarrow> (issuance_assembly \<times> issuance_budget) result" where
  "execute_benchmark_candidate par X host plan budget =
     (if par then execute_adaptively X host (Some BENCHMARK_ISSUANCE_THRESHOLDS) plan budget
      else rbind (execute_serial X plan) (\<lambda>assembly. Ok (assembly, budget)))"

subsection \<open>The executors satisfy the contract\<close>

lemma native_issuance_cases:
  "native_issuance_execute w spawn worker jobs
      \<in> {Panic, Err (InvalidState PARALLEL_ISSUANCE_SPAWN_FAILURE), Err (InvalidState PARALLEL_ISSUANCE_WORKER_FAILURE)} \<or>
   (\<exists>rs. native_issuance_execute w spawn worker jobs = Ok rs \<and> map worker jobs = map Some rs)"
proof (cases "length jobs < 2 \<or> w < 2")
  case True
  then show ?thesis
    by (auto simp: native_issuance_execute_def dest: run_chunk_Some split: option.split)
next
  case False
  then have "0 < static_chunk_size (length jobs) (min w (length jobs))"
    by (intro static_chunk_size_pos) auto
  with False show ?thesis
    using run_chunks_cases [of "InvalidState PARALLEL_ISSUANCE_SPAWN_FAILURE"
        "InvalidState PARALLEL_ISSUANCE_WORKER_FAILURE" spawn worker
        "chunks (static_chunk_size (length jobs) (min w (length jobs))) jobs"]
    by (auto simp: native_issuance_execute_def Let_def concat_chunks)
qed

lemma native_issuance_total:
  assumes "\<And>i. spawn i"
  shows "native_issuance_execute w spawn (\<lambda>job. Some (f job)) jobs = Ok (map f jobs)"
proof (cases "length jobs < 2 \<or> w < 2")
  case True
  then show ?thesis by (simp add: native_issuance_execute_def run_chunk_total)
next
  case False
  then have "0 < static_chunk_size (length jobs) (min w (length jobs))"
    by (intro static_chunk_size_pos) auto
  with False show ?thesis
    by (simp add: native_issuance_execute_def Let_def run_chunks_total [OF assms] concat_chunks)
qed

lemma native_issuance_not_Panic:
  "native_issuance_execute w spawn (\<lambda>job. Some (f job)) jobs \<noteq> Panic"
  by (auto simp: native_issuance_execute_def run_chunk_total run_chunks_def Let_def)

lemma native_issuance_Ok:
  "native_issuance_execute w spawn (\<lambda>job. Some (f job)) jobs = Ok rs \<Longrightarrow> rs = map f jobs"
  using native_issuance_cases [of w spawn "\<lambda>job. Some (f job)" jobs]
  by (auto simp: comp_def dest: arg_cong [where f = "map the"])

lemma select_execution_cases:
  "(\<exists>reason. select_execution_with_estimate n est t k b = (decision_serial reason, b) \<and> reason \<noteq> BoundedNative) \<or>
   (\<exists>w. select_execution_with_estimate n est t k b =
      (SelectNative \<lparr>id_mode = IssuanceNative w, id_reason = BoundedNative\<rparr> w,
       b\<lparr>ib_available := ib_available b - w\<rparr>) \<and> 2 \<le> w \<and> w \<le> min MAX_PARALLEL_ISSUANCE_WORKERS n \<and> w \<le> ib_available b)"
proof -
  let ?w = "issuance_worker_count k n"
  have w: "?w \<le> min MAX_PARALLEL_ISSUANCE_WORKERS n"
    by (simp add: issuance_worker_count_def)
  consider "n < min_jobs t" | "\<not> n < min_jobs t" "est = None"
    | e where "\<not> n < min_jobs t" "est = Some e" "e < min_estimated_work_bytes t"
    | e where "\<not> n < min_jobs t" "est = Some e" "\<not> e < min_estimated_work_bytes t" "?w < 2"
    | e where "\<not> n < min_jobs t" "est = Some e" "\<not> e < min_estimated_work_bytes t" "\<not> ?w < 2"
        "ib_capacity b < ?w \<or> ib_available b < ?w"
    | e where "\<not> n < min_jobs t" "est = Some e" "\<not> e < min_estimated_work_bytes t" "\<not> ?w < 2"
        "\<not> ib_capacity b < ?w" "\<not> ib_available b < ?w"
    by (cases est) auto
  then show ?thesis
  proof cases
    case 6
    then show ?thesis
      using w by (intro disjI2 exI [of _ ?w])
        (simp add: select_execution_with_estimate_def issuance_try_acquire_def Let_def)
  next
    case 5
    then show ?thesis
      by (intro disjI1 exI [of _ WorkerBudgetUnavailable])
        (auto simp: select_execution_with_estimate_def issuance_try_acquire_def Let_def)
  qed (rule disjI1, force simp: select_execution_with_estimate_def issuance_try_acquire_def)+
qed

lemma run_selection_cases:
  assumes "selection = select_execution_with_estimate (length jobs) est t k b"
  shows "snd (run_selection X host selection jobs) = b \<and>
     (fst (run_selection X host selection jobs) = Ok (map (process_issuance_job X) jobs) \<or>
      \<not> (\<forall>i. ih_spawn host i) \<and> fst (run_selection X host selection jobs)
        \<in> {Err (InvalidState PARALLEL_ISSUANCE_SPAWN_FAILURE), Err (InvalidState PARALLEL_ISSUANCE_WORKER_FAILURE)})"
  using select_execution_cases [of "length jobs" est t k b]
proof (elim disjE exE conjE)
  fix reason
  assume "select_execution_with_estimate (length jobs) est t k b = (decision_serial reason, b)" "reason \<noteq> BoundedNative"
  then show ?thesis
    by (simp add: assms run_selection_def decision_serial_def serial_issuance_execute_def)
next
  fix w
  assume sel: "select_execution_with_estimate (length jobs) est t k b =
      (SelectNative \<lparr>id_mode = IssuanceNative w, id_reason = BoundedNative\<rparr> w, b\<lparr>ib_available := ib_available b - w\<rparr>)"
    and w: "w \<le> ib_available b"
  let ?r = "native_issuance_execute (native_issuance_new w) (ih_spawn host) (\<lambda>job. Some (process_issuance_job X job)) jobs"
  have "?r = Ok (map (process_issuance_job X) jobs) \<or> \<not> (\<forall>i. ih_spawn host i) \<and> ?r
      \<in> {Err (InvalidState PARALLEL_ISSUANCE_SPAWN_FAILURE), Err (InvalidState PARALLEL_ISSUANCE_WORKER_FAILURE)}"
    using native_issuance_cases [of "native_issuance_new w" "ih_spawn host" "\<lambda>job. Some (process_issuance_job X job)" jobs]
      native_issuance_not_Panic [of "native_issuance_new w" "ih_spawn host" "process_issuance_job X" jobs]
      native_issuance_total [of "ih_spawn host" "native_issuance_new w" "process_issuance_job X" jobs]
    by (auto dest: native_issuance_Ok)
  then show ?thesis
    using w by (simp add: assms sel run_selection_def issuance_drop_lease_def)
qed

lemmas adaptive_execute_cases =
  run_selection_cases [OF refl, of X host jobs "estimate_ready_job_work_bytes X jobs" t "ih_threads host" b,
    folded select_execution_def, folded adaptive_execute_def] for X host jobs t b

interpretation serial_executor: issuance_executor
  "\<lambda>e jobs. (serial_issuance_execute (process_issuance_job X) jobs, e)" X for X :: "'k externals"
  by unfold_locales (simp_all add: serial_issuance_execute_def)

interpretation native_executor: issuance_executor
  "\<lambda>e jobs. (native_issuance_execute w spawn (\<lambda>job. Some (process_issuance_job X job)) jobs, e)" X
  for X :: "'k externals" and w spawn
  by unfold_locales (auto simp: native_issuance_not_Panic dest: native_issuance_Ok)

interpretation adaptive_executor: issuance_executor "adaptive_execute X host t" X
  for X :: "'k externals" and host t
proof
  show "mset rs = mset (map (process_issuance_job X) jobs)" if "fst (adaptive_execute X host t e jobs) = Ok rs" for e jobs rs
    using adaptive_execute_cases [where X = X and host = host and t = t and b = e and jobs = jobs] that by auto
  show "fst (adaptive_execute X host t e jobs) \<noteq> Panic" for e jobs
    using adaptive_execute_cases [where X = X and host = host and t = t and b = e and jobs = jobs] by auto
qed

lemma operation_case_Ok:
  "(case u of ObjectDisclosure a b c \<Rightarrow> f a b c | ArrayDisclosure d k \<Rightarrow> g d k | Decoy z \<Rightarrow> h z) = Ok y \<longleftrightarrow>
     (\<exists>a b c. u = ObjectDisclosure a b c \<and> f a b c = Ok y) \<or>
     (\<exists>d k. u = ArrayDisclosure d k \<and> g d k = Ok y) \<or> (\<exists>z. u = Decoy z \<and> h z = Ok y)"
  by (cases u) auto

subsection \<open>An executor with an invariant\<close>

text \<open>
  The contract of an executor that keeps an invariant of the state it shares with the process,
  such as a worker budget that is whole again after every batch: executing a plan keeps it too.
  No empty batch is ever executed.
\<close>

locale stable_executor = issuance_executor +
  fixes inv
  assumes stable: "jobs \<noteq> [] \<Longrightarrow> inv e \<Longrightarrow> inv (snd (execute e jobs))"
begin

lemma execute_and_restore_stable: "inv e \<Longrightarrow> inv (snd (execute_and_restore execute e jobs))"
  using stable [of jobs e] by (auto simp: execute_and_restore_def split: prod.splits)

lemma xarray_stable:
  assumes "\<And>entry jobs s e output jobs' s' e'. entry \<in> set entries \<Longrightarrow>
      xarray_entry execute entry jobs s e = Ok (output, jobs', s', e') \<Longrightarrow> inv e \<Longrightarrow> inv e'"
  shows "xarray execute entries jobs s e = Ok (outputs, jobs', s', e') \<Longrightarrow> inv e \<Longrightarrow> inv e'"
  using assms
proof (induction entries arbitrary: jobs s e outputs jobs' s' e')
  case (Cons entry entries)
  then show ?case by (fastforce simp: rbind_eq_Ok)
qed simp

lemma xobject_stable:
  assumes "\<And>entry claims jobs s e claims' jobs' s' e'. entry \<in> set entries \<Longrightarrow>
      xobject_entry execute entry claims jobs s e = Ok (claims', jobs', s', e') \<Longrightarrow> inv e \<Longrightarrow> inv e'"
  shows "xobject execute entries claims jobs s e = Ok (claims', jobs', s', e') \<Longrightarrow> inv e \<Longrightarrow> inv e'"
  using assms
proof (induction entries arbitrary: claims jobs s e claims' jobs' s' e')
  case (Cons entry entries)
  then show ?case by (fastforce simp: rbind_eq_Ok)
qed simp

lemma xvalue_stable:
  "xvalue execute v s e = Ok (out, s', e') \<Longrightarrow> inv e \<Longrightarrow> inv e'"
  "xkind execute l kind s e = Ok (out, s', e') \<Longrightarrow> inv e \<Longrightarrow> inv e'"
  "xarray_entry execute aentry jobs s e = Ok (x, jobs', s', e') \<Longrightarrow> inv e \<Longrightarrow> inv e'"
  "xobject_entry execute oentry claims jobs s e = Ok (claims', jobs', s', e') \<Longrightarrow> inv e \<Longrightarrow> inv e'"
proof (induction v and kind and aentry and oentry
    arbitrary: s e out s' e' and l s e out s' e' and jobs s e x jobs' s' e' and claims jobs s e claims' jobs' s' e'
    rule: planned_value.induct planned_value_kind.induct planned_array_entry.induct planned_object_entry.induct)
  case (PArray entries)
  from PArray.prems(1) obtain outputs jobs s1 e1 where run: "xarray execute entries [] s e = Ok (outputs, jobs, s1, e1)"
    and e': "e' = snd (execute_and_restore execute e1 jobs)"
    by (auto simp: rbind_eq_Ok split_def)
  have "inv e1"
    by (rule xarray_stable [OF _ run PArray.prems(2)]) (fact PArray.IH)
  with e' show ?case by (simp add: execute_and_restore_stable)
next
  case (PObject entries decoys)
  from PObject.prems(1) obtain claims jobs jobs' s1 e1 where
    run: "xobject execute entries (map_insert SD_DIGESTS_KEY Null []) [] s e = Ok (claims, jobs, s1, e1)"
    and e': "e' = snd (execute_and_restore execute e1 jobs')"
    by (auto simp: rbind_eq_Ok split_def)
  have "inv e1"
    by (rule xobject_stable [OF _ run PObject.prems(2)]) (fact PObject.IH)
  with e' show ?case by (simp add: execute_and_restore_stable)
next
  case (PlannedValue location kind)
  then show ?case by simp
next
  case (PScalar v)
  then show ?case by simp
next
  case (AVisible v)
  from AVisible.prems(1) obtain claim s1 where "xvalue execute v s e = Ok (claim, s1, e')"
    by (auto simp: rbind_eq_Ok)
  then show ?case using AVisible.prems(2) by (rule AVisible.IH)
next
  case (ADisclosed v job_id)
  from ADisclosed.prems(1) obtain claim s1 where "xvalue execute v s e = Ok (claim, s1, e')"
    by (auto simp: rbind_eq_Ok operation_case_Ok)
  then show ?case using ADisclosed.prems(2) by (rule ADisclosed.IH)
next
  case (OVisible key v)
  from OVisible.prems(1) obtain claim s1 where "xvalue execute v s e = Ok (claim, s1, e')"
    by (auto simp: rbind_eq_Ok)
  then show ?case using OVisible.prems(2) by (rule OVisible.IH)
next
  case (ODisclosed v job_id)
  from ODisclosed.prems(1) obtain claim s1 where "xvalue execute v s e = Ok (claim, s1, e')"
    by (auto simp: rbind_eq_Ok operation_case_Ok)
  then show ?case using ODisclosed.prems(2) by (rule ODisclosed.IH)
qed

lemma execute_with_executor_stable:
  "execute_with_executor execute plan e = Ok (assembly, e') \<Longrightarrow> inv e \<Longrightarrow> inv e'"
  by (auto simp: execute_with_executor_def rbind_eq_Ok dest: xvalue_stable(1))

lemma execute_with_executor_sat:
  assumes "complete_plan X plan out ds" and "inv e"
  shows "result_sat (\<lambda>(assembly, e'). Ok assembly = execute_serial X plan \<and> inv e') (executor_failure execute)
           (execute_with_executor execute plan e)"
  using execute_with_executor_complete [OF assms(1), of e] assms(2)
  by (cases "execute_with_executor execute plan e") (auto dest: execute_with_executor_stable)

end

interpretation adaptive_stable: stable_executor "adaptive_execute X host t" X "\<lambda>e. e = b"
  for X :: "'k externals" and host t b
  by unfold_locales (use adaptive_execute_cases in blast)

lemma adaptive_executor_failure:
  "executor_failure (adaptive_execute X host t) err \<Longrightarrow> \<not> (\<forall>i. ih_spawn host i) \<and>
     err \<in> {InvalidState PARALLEL_ISSUANCE_SPAWN_FAILURE, InvalidState PARALLEL_ISSUANCE_WORKER_FAILURE}"
proof -
  assume "executor_failure (adaptive_execute X host t) err"
  then obtain e jobs where "fst (adaptive_execute X host t e jobs) = Err err"
    unfolding executor_failure_def by blast
  then show ?thesis
    using adaptive_execute_cases [where X = X and host = host and t = t and b = e and jobs = jobs] by auto
qed

lemma execute_adaptively_sat:
  assumes "complete_plan X plan out ds"
  shows "result_sat (\<lambda>(assembly, b'). Ok assembly = execute_serial X plan \<and> b' = b)
     (\<lambda>err. \<not> (\<forall>i. ih_spawn host i) \<and>
        err \<in> {InvalidState PARALLEL_ISSUANCE_SPAWN_FAILURE, InvalidState PARALLEL_ISSUANCE_WORKER_FAILURE})
     (execute_adaptively X host thresholds plan b)"
proof (cases thresholds)
  case None
  then show ?thesis
    using execute_serial_complete [OF assms] by (simp add: execute_adaptively_def)
next
  case (Some t)
  then show ?thesis
    using adaptive_stable.execute_with_executor_sat [OF assms refl, where host = host and t = t and b = b]
      adaptive_executor_failure [where X = X and host = host and t = t]
    by (cases "execute_with_executor (adaptive_execute X host t) plan b") (auto simp: execute_adaptively_def)
qed

end
