(* ===== verification/Issuer.thy ===== *)
theory Issuer
  imports Issuance_Adaptive Policy
begin

text \<open>
  \<open>SDJWTIssuerPlanner\<close> and \<open>PreparedSDJWT\<close> of src/src/issuer.rs: the checks on the claims and the
  holder key, the always revealed claims, the payload around the concealed claims, the signing
  input, and the completion of a credential with a remote signature. The second half describes
  what preparation accepts and makes.
\<close>

subsection \<open>Checks\<close>

definition validate_public_holder_key :: "jwk option \<Rightarrow> unit result" where
  "validate_public_holder_key holder_key =
     (if (case holder_key of None \<Rightarrow> False | Some key \<Rightarrow> jwk_is_octet key)
      then Err (InvalidInput ''holder_key must be a public asymmetric JWK'')
      else Ok ())"

definition validate_user_confirmation_claim :: "json \<Rightarrow> unit result" where
  "validate_user_confirmation_claim user_claims =
     rbind (ok_or (as_object user_claims) (InvalidInput ''SD-JWT user claims must be a JSON object''))
       validate_public_confirmation_claim"

subsection \<open>Preparation\<close>

record issuance_options =
  opt_holder_key :: "jwk option"
  opt_add_decoy_claims :: bool
  opt_serialization_format :: serialization_format

record prepared_sd_jwt =
  prep_algorithm :: algorithm
  prep_disclosures :: "string list"
  prep_payload :: string
  prep_protected :: string
  prep_serialization_format :: serialization_format
  prep_signing_input :: string

definition planner_sign_alg :: "string option \<Rightarrow> string" where
  "planner_sign_alg alg_name = (case alg_name of None \<Rightarrow> ''ES256'' | Some a \<Rightarrow> a)"

text \<open>\<open>filter_map(shift_remove_entry)\<close>: the entries found, in the order of the keys, and the rest.\<close>

fun remove_entries :: "string list \<Rightarrow> json_map \<Rightarrow> json_map \<times> json_map" where
  "remove_entries [] claims = ([], claims)"
| "remove_entries (key # keys) claims =
     (case map_get claims key of
        None \<Rightarrow> remove_entries keys claims
      | Some v \<Rightarrow>
          (case remove_entries keys (shift_remove key claims) of
             (entries, rest) \<Rightarrow> ((key, v) # entries, rest)))"

definition always_revealed_keys :: "string list" where
  "always_revealed_keys = [''iss'', ''iat'', ''exp'']"

definition holder_confirmation :: "jwk \<Rightarrow> json" where
  "holder_confirmation key = Object [(JWK_KEY, jwk_value key)]"

definition issued_payload :: "json_map \<Rightarrow> json_map \<Rightarrow> jwk option \<Rightarrow> json_map" where
  "issued_payload concealed always_revealed holder_key =
     (let payload = map_append (map_insert DIGEST_ALG_KEY (String DEFAULT_DIGEST_ALG) concealed) always_revealed
      in case holder_key of
           None \<Rightarrow> payload
         | Some key \<Rightarrow> map_insert CNF_KEY (holder_confirmation key) payload)"

definition protected_header :: "'k externals \<Rightarrow> algorithm \<Rightarrow> jose_header" where
  "protected_header X a = (header_new X a)\<lparr>jh_typ := None\<rparr>"

definition prepare_with_plan_executor ::
    "'k externals \<Rightarrow> string \<Rightarrow> json \<Rightarrow> strategy \<Rightarrow> issuance_options \<Rightarrow> 'r random_source \<Rightarrow> 'r
       \<Rightarrow> (issuance_plan \<Rightarrow> (issuance_assembly \<times> 'b) result) \<Rightarrow> (prepared_sd_jwt \<times> 'b \<times> 'r) result" where
  "prepare_with_plan_executor X alg_name user_claims sd_strategy options R r execute_plan =
     rbind (validate_public_holder_key (opt_holder_key options)) (\<lambda>_.
     rbind (validate_user_confirmation_claim user_claims) (\<lambda>_.
     rbind (finalize_input sd_strategy) (\<lambda>strat.
     rbind (check_for_sd_claim user_claims) (\<lambda>_.
     rbind (ok_or (as_object user_claims) (ConversionError ''json object'')) (\<lambda>claims.
     let claims1 = (if opt_holder_key options \<noteq> None then shift_remove CNF_KEY claims else claims);
         (always_revealed, claims2) = remove_entries always_revealed_keys claims1
     in rbind (plan_create R (Object claims2) strat (opt_add_decoy_claims options) r) (\<lambda>(plan, r').
        rbind (execute_plan plan) (\<lambda>(assembly, b).
        let disclosures = map raw_b64 (ia_disclosures assembly)
        in rbind (ok_or (as_object (ia_claims assembly)) (ConversionError ''json object'')) (\<lambda>concealed.
        let payload = issued_payload concealed always_revealed (opt_holder_key options)
        in rbind (map_err DeserializationError (algorithm_from_str X alg_name)) (\<lambda>a.
        rbind (map_err DeserializationError (header_to_vec X (protected_header X a))) (\<lambda>header_text.
        rbind (map_err DeserializationError (map_to_vec X payload)) (\<lambda>payload_text.
        let protected = base64url_encode X header_text; payload_b64 = base64url_encode X payload_text
        in Ok (\<lparr>prep_algorithm = a, prep_disclosures = disclosures, prep_payload = payload_b64,
                prep_protected = protected, prep_serialization_format = opt_serialization_format options,
                prep_signing_input = protected @ ''.'' @ payload_b64\<rparr>, b, r'))))))))))))"

text \<open>\<open>prepare_with_random_source\<close>, and \<open>prepare\<close> with the production source of a call.\<close>

definition prepare_with_random_source ::
    "bool \<Rightarrow> 'k externals \<Rightarrow> issuance_host \<Rightarrow> issuance_budget \<Rightarrow> string \<Rightarrow> json \<Rightarrow> strategy \<Rightarrow> issuance_options
       \<Rightarrow> 'r random_source \<Rightarrow> 'r \<Rightarrow> (prepared_sd_jwt \<times> issuance_budget \<times> 'r) result" where
  "prepare_with_random_source par X host budget alg_name user_claims sd_strategy options R r =
     prepare_with_plan_executor X alg_name user_claims sd_strategy options R r
       (\<lambda>plan. plan_execute par X host plan budget)"

definition prepare_sd_jwt ::
    "bool \<Rightarrow> 'k externals \<Rightarrow> issuance_host \<Rightarrow> issuance_budget \<Rightarrow> (nat \<Rightarrow> 'g \<Rightarrow> string \<times> 'g)
       \<Rightarrow> (nat \<Rightarrow> nat \<Rightarrow> 'g \<Rightarrow> nat \<times> 'g) \<Rightarrow> 'g \<Rightarrow> string \<Rightarrow> json \<Rightarrow> strategy \<Rightarrow> issuance_options
       \<Rightarrow> (prepared_sd_jwt \<times> issuance_budget) result" where
  "prepare_sd_jwt par X host budget fill_bytes gen_range thread_rng alg_name user_claims sd_strategy options =
     rbind (prepare_with_random_source par X host budget alg_name user_claims sd_strategy options
              (legacy_random_source X fill_bytes gen_range thread_rng) None) (\<lambda>(prepared, b, _).
     Ok (prepared, b))"

subsection \<open>Completion\<close>

definition no_key_binding :: "string list \<Rightarrow> unprotected_header" where
  "no_key_binding disclosures = \<lparr>hdr_disclosures = disclosures, hdr_kb_jwt = None\<rparr>"

definition complete_encoded_signature :: "'k externals \<Rightarrow> prepared_sd_jwt \<Rightarrow> string \<Rightarrow> string result" where
  "complete_encoded_signature X p signature =
     (case prep_serialization_format p of
        Compact \<Rightarrow>
          Ok (join COMBINED_SERIALIZATION_FORMAT_SEPARATOR
                ((prep_signing_input p @ ''.'' @ signature) # prep_disclosures p)
              @ COMBINED_SERIALIZATION_FORMAT_SEPARATOR)
      | FlattenedJson \<Rightarrow>
          map_err DeserializationError (flattened_to_string X
            \<lparr>fj_protected = prep_protected p, fj_payload = prep_payload p, fj_signature = signature,
             fj_header = no_key_binding (prep_disclosures p)\<rparr>)
      | GeneralJson \<Rightarrow>
          map_err DeserializationError (general_to_string X
            \<lparr>gj_payload = prep_payload p,
             gj_signatures = [\<lparr>gs_protected = prep_protected p, gs_signature = signature,
               gs_header = no_key_binding (prep_disclosures p)\<rparr>]\<rparr>))"

definition complete :: "'k externals \<Rightarrow> prepared_sd_jwt \<Rightarrow> string \<Rightarrow> 'k \<Rightarrow> string result" where
  "complete X p signature verification_key =
     rbind (verify_remote_signature X (prep_algorithm p) (prep_signing_input p) signature verification_key) (\<lambda>_.
     complete_encoded_signature X p (base64url_encode X signature))"

definition complete_for_benchmark :: "'k externals \<Rightarrow> prepared_sd_jwt \<Rightarrow> string \<Rightarrow> string result" where
  "complete_for_benchmark X p signature =
     rbind (validate_remote_signature X (prep_algorithm p) signature) (\<lambda>_.
     complete_encoded_signature X p (base64url_encode X signature))"

subsection \<open>What preparation accepts and makes\<close>

lemma validate_public_holder_key_Ok:
  "validate_public_holder_key holder_key = Ok () \<longleftrightarrow> (\<forall>key. holder_key = Some key \<longrightarrow> \<not> jwk_is_octet key)"
  by (auto simp: validate_public_holder_key_def split: option.split)

lemma validate_user_confirmation_claim_Ok:
  "validate_user_confirmation_claim v = Ok () \<longleftrightarrow> (\<exists>m. v = Object m \<and> public_confirmation m)"
  by (auto simp: validate_user_confirmation_claim_def rbind_eq_Ok validate_public_confirmation_claim_Ok)

text \<open>The claims an issuer may sign, and their split into revealed and concealable ones.\<close>

definition admissible_claims :: "jwk option \<Rightarrow> json_map \<Rightarrow> bool" where
  "admissible_claims holder_key m \<longleftrightarrow>
     (\<forall>key. holder_key = Some key \<longrightarrow> \<not> jwk_is_octet key) \<and> public_confirmation m \<and>
     keys_avoid reserved_keys (Object m)"

definition own_claims :: "jwk option \<Rightarrow> json_map \<Rightarrow> json_map" where
  "own_claims holder_key m = (if holder_key \<noteq> None then shift_remove CNF_KEY m else m)"

definition revealed_claims :: "jwk option \<Rightarrow> json_map \<Rightarrow> json_map" where
  "revealed_claims holder_key m = fst (remove_entries always_revealed_keys (own_claims holder_key m))"

definition concealable_claims :: "jwk option \<Rightarrow> json_map \<Rightarrow> json_map" where
  "concealable_claims holder_key m = filter (\<lambda>p. fst p \<notin> set always_revealed_keys) (own_claims holder_key m)"

lemma remove_entries_Cons:
  "remove_entries (key # keys) m =
     (case map_get m key of
        None \<Rightarrow> remove_entries keys m
      | Some v \<Rightarrow> ((key, v) # fst (remove_entries keys (shift_remove key m)), snd (remove_entries keys (shift_remove key m))))"
  by (simp add: split_def split: option.split)

declare remove_entries.simps(2) [simp del]
declare remove_entries_Cons [simp]

lemma remove_entries_rest: "snd (remove_entries keys m) = filter (\<lambda>p. fst p \<notin> set keys) m"
proof (induction keys arbitrary: m)
  case (Cons k keys)
  have id: "filter (\<lambda>p. fst p \<noteq> k) m = m" if "map_get m k = None"
    using that by (auto simp: map_get_def map_of_eq_None_iff filter_id_conv)
  have both: "filter (\<lambda>p. fst p \<notin> set (k # keys)) m = filter (\<lambda>p. fst p \<notin> set keys) (filter (\<lambda>p. fst p \<noteq> k) m)"
    by (auto intro: filter_cong)
  show ?case
  proof (cases "map_get m k")
    case None
    then show ?thesis unfolding both id [OF None] using Cons.IH by simp
  next
    case (Some v)
    then show ?thesis unfolding both using Cons.IH by (simp add: shift_remove_def)
  qed
qed simp

lemma remove_entries_taken:
  "distinct keys \<Longrightarrow>
     map_get (fst (remove_entries keys m)) k = (if k \<in> set keys then map_get m k else None)"
proof (induction keys arbitrary: m)
  case (Cons k' keys)
  then show ?case
    using Cons.IH [of m] Cons.IH [of "shift_remove k' m"]
    by (auto simp: map_get_remove split: option.splits)
qed simp

lemma remove_entries_keys: "fst ` set (fst (remove_entries keys m)) \<subseteq> set keys"
  by (induction keys arbitrary: m) (fastforce split: option.splits)+

lemma remove_entries_distinct: "distinct keys \<Longrightarrow> distinct (map fst (fst (remove_entries keys m)))"
proof (induction keys arbitrary: m)
  case (Cons k keys)
  then show ?case
    using Cons.IH [of m] Cons.IH [of "shift_remove k m"] remove_entries_keys [of keys "shift_remove k m"]
    by (auto split: option.splits)
qed simp

text \<open>A preparation that returns has made the concealment, the payload and the signing input so.\<close>

definition prepared_from ::
    "'k externals \<Rightarrow> string \<Rightarrow> issuance_options \<Rightarrow> json_map \<Rightarrow> json_map \<Rightarrow> disclosure list \<Rightarrow> prepared_sd_jwt \<Rightarrow> bool" where
  "prepared_from X alg_name options m concealed ds p \<longleftrightarrow>
     (\<exists>a header_text payload_text.
        algorithm_from_str X alg_name = Inr a \<and> header_to_vec X (protected_header X a) = Inr header_text \<and>
        map_to_vec X (issued_payload concealed (revealed_claims (opt_holder_key options) m) (opt_holder_key options))
          = Inr payload_text \<and>
        p = \<lparr>prep_algorithm = a, prep_disclosures = map raw_b64 ds,
             prep_payload = base64_encode X payload_text, prep_protected = base64_encode X header_text,
             prep_serialization_format = opt_serialization_format options,
             prep_signing_input = base64_encode X header_text @ ''.'' @ base64_encode X payload_text\<rparr>)"

lemma rbind_OkE2:
  "rbind m (\<lambda>(x, y). f x y) = Ok z \<Longrightarrow> (\<And>x y. m = Ok (x, y) \<Longrightarrow> f x y = Ok z \<Longrightarrow> P) \<Longrightarrow> P"
  by (auto elim: rbind_OkE)

lemma prepare_with_plan_executor_Ok:
  "prepare_with_plan_executor X alg_name user_claims strat options R r execute = Ok (p, b, r') \<longleftrightarrow>
     (\<exists>m strat' plan assembly concealed.
        user_claims = Object m \<and> admissible_claims (opt_holder_key options) m \<and> finalize_input strat = Ok strat' \<and>
        plan_create R (Object (concealable_claims (opt_holder_key options) m)) strat' (opt_add_decoy_claims options) r
          = Ok (plan, r') \<and>
        execute plan = Ok (assembly, b) \<and> ia_claims assembly = Object concealed \<and>
        prepared_from X alg_name options m concealed (ia_disclosures assembly) p)"
proof -
  have split: "remove_entries always_revealed_keys (if opt_holder_key options \<noteq> None then shift_remove CNF_KEY m else m)
      = (revealed_claims (opt_holder_key options) m, concealable_claims (opt_holder_key options) m)" for m
    using remove_entries_rest [of always_revealed_keys "own_claims (opt_holder_key options) m"]
    by (simp add: revealed_claims_def concealable_claims_def own_claims_def prod_eq_iff)
  show ?thesis (is "?lhs \<longleftrightarrow> ?rhs")
  proof
    assume ?lhs
    then show ?rhs
      unfolding prepare_with_plan_executor_def split Let_def prod.case
      by (elim rbind_OkE2 rbind_OkE)
        (auto simp: base64url_encode_def validate_public_holder_key_Ok validate_user_confirmation_claim_Ok check_for_sd_claim_iff
          admissible_claims_def prepared_from_def)
  next
    assume ?rhs
    then show ?lhs
      unfolding prepare_with_plan_executor_def split Let_def prod.case
      by (auto simp: validate_public_holder_key_Ok [THEN iffD2] validate_user_confirmation_claim_Ok [THEN iffD2]
          check_for_sd_claim_iff(1) [THEN iffD2] admissible_claims_def prepared_from_def base64url_encode_def
          simp del: keys_avoid.simps check_for_sd_claim.simps)
  qed
qed

end
