(* ===== verification/Unpack.thy ===== *)
theory Unpack
  imports Engine
begin

text \<open>
  The recursive unpacking of src/src/verifier.rs: \<open>_sd\<close> digests and array placeholders are
  replaced by the disclosures they name, every digest met is recorded once, and the container depth of
  the processed value is limited. \<open>T\<close> is the table of decoded disclosures, \<open>seen\<close> the set of
  digests met so far. The second half gives the abstract relation \<open>reveals\<close> and shows that the
  code computes it.
\<close>

definition MAX_PROCESSED_SD_JWT_DEPTH :: nat where "MAX_PROCESSED_SD_JWT_DEPTH = 128"

definition PROCESSED_SD_JWT_DEPTH_FAILURE :: string where
  "PROCESSED_SD_JWT_DEPTH_FAILURE = ''Processed SD-JWT exceeds maximum supported nesting depth''"

definition enter_processed_container :: "nat \<Rightarrow> nat result" where
  "enter_processed_container depth =
     (case checked_add depth 1 of
        None \<Rightarrow> Err (InvalidDisclosure PROCESSED_SD_JWT_DEPTH_FAILURE)
      | Some next_depth \<Rightarrow>
          if MAX_PROCESSED_SD_JWT_DEPTH < next_depth
          then Err (InvalidDisclosure PROCESSED_SD_JWT_DEPTH_FAILURE)
          else Ok next_depth)"

definition record_digest :: "string set \<Rightarrow> string \<Rightarrow> string set result" where
  "record_digest seen digest =
     (if digest \<in> seen then Err (DuplicateDigestError DUPLICATE_DISCLOSURE_DIGEST)
      else Ok (insert digest seen))"

lemma enter_processed_container_Ok:
  "enter_processed_container d = Ok d' \<longleftrightarrow> d' = Suc d \<and> Suc d \<le> MAX_PROCESSED_SD_JWT_DEPTH"
proof -
  have "MAX_PROCESSED_SD_JWT_DEPTH \<le> usize_max"
    by (simp add: MAX_PROCESSED_SD_JWT_DEPTH_def usize_max_def)
  then show ?thesis
    by (auto simp: enter_processed_container_def checked_add_def)
qed

lemma record_digest_Ok: "record_digest seen h = Ok seen' \<longleftrightarrow> h \<notin> seen \<and> seen' = insert h seen"
  by (auto simp: record_digest_def)

text \<open>
  The parts of a decoded disclosure that the two kinds of reference accept. \<open>disclosure[i]\<close> on a vector
  panics when the vector is too short.
\<close>

definition index_vec :: "'a list \<Rightarrow> nat \<Rightarrow> 'a result" where
  "index_vec xs i = (if i < length xs then Ok (xs ! i) else Panic)"

lemma index_vec_simps [simp]:
  "i < length xs \<Longrightarrow> index_vec xs i = Ok (xs ! i)" "length xs \<le> i \<Longrightarrow> index_vec xs i = Panic"
  by (simp_all add: index_vec_def)

definition object_disclosure :: "json \<Rightarrow> (string \<times> json) result" where
  "object_disclosure d =
     rbind (ok_or (as_array d)
       (InvalidArrayDisclosureObject ''Object-property Disclosure must be a JSON array'')) (\<lambda>disclosure.
     if length disclosure \<noteq> 3
     then Err (InvalidDisclosure
            ''Object-property Disclosure must be a 3-element array [salt, name, value]'')
     else rbind (index_vec disclosure 1) (\<lambda>name.
          rbind (ok_or (as_str name) (ConversionError ''str'')) (\<lambda>key.
          if key = SD_DIGESTS_KEY \<or> key = SD_LIST_PREFIX
          then Err (InvalidDisclosure
                 ''Disclosure claim name must not use a reserved SD-JWT structural marker'')
          else rbind (index_vec disclosure 2) (\<lambda>value. Ok (key, value)))))"

definition array_disclosure :: "json \<Rightarrow> json result" where
  "array_disclosure d =
     rbind (ok_or (as_array d)
       (InvalidArrayDisclosureObject ''Array-element Disclosure must be a JSON array'')) (\<lambda>disclosure.
     if length disclosure \<noteq> 2
     then Err (InvalidArrayDisclosureObject
            ''Array-element Disclosure must be a 2-element array [salt, value]'')
     else index_vec disclosure 1)"

lemma array_of_3: "length vs = 3 \<longleftrightarrow> (\<exists>a b c. vs = [a, b, c])"
  by (auto simp: numeral_3_eq_3 length_Suc_conv)

lemma array_of_2: "length vs = 2 \<longleftrightarrow> (\<exists>a b. vs = [a, b])"
  by (auto simp: numeral_2_eq_2 length_Suc_conv)

lemma object_disclosure_Ok:
  "object_disclosure d = Ok (key, value) \<longleftrightarrow>
     (\<exists>salt. d = Array [salt, String key, value] \<and> key \<notin> reserved_keys)"
proof (cases d)
  case (Array vs)
  show ?thesis
  proof (cases "length vs = 3")
    case True
    then obtain a b c where "vs = [a, b, c]" unfolding array_of_3 by blast
    with Array show ?thesis
      by (cases b) (auto simp: object_disclosure_def reserved_keys_def)
  next
    case False
    then have "vs \<noteq> [a, b, c]" for a b c by auto
    with Array False show ?thesis by (simp add: object_disclosure_def)
  qed
qed (simp_all add: object_disclosure_def)

lemma array_disclosure_Ok:
  "array_disclosure d = Ok value \<longleftrightarrow> (\<exists>salt. d = Array [salt, value])"
proof (cases d)
  case (Array vs)
  show ?thesis
  proof (cases "length vs = 2")
    case True
    then obtain a b where "vs = [a, b]" unfolding array_of_2 by blast
    with Array show ?thesis by (auto simp: array_disclosure_def)
  next
    case False
    then have "vs \<noteq> [a, b]" for a b by auto
    with Array False show ?thesis by (simp add: array_disclosure_def)
  qed
qed (simp_all add: array_disclosure_def)

lemma disclosure_shapes_not_Panic: "object_disclosure d \<noteq> Panic" "array_disclosure d \<noteq> Panic"
  by (auto simp: object_disclosure_def array_disclosure_def rbind_eq_Panic)

text \<open>
  The loops: \<open>unpack_elements\<close> over an array, \<open>unpack_members\<close> over an object with the claims
  disclosed so far, \<open>unpack_from_digests\<close> over an \<open>_sd\<close> list.
\<close>

function (sequential)
      unpack_disclosed_claims ::
        "(string \<rightharpoonup> json) \<Rightarrow> string set \<Rightarrow> json \<Rightarrow> nat \<Rightarrow> (json \<times> string set) result"
  and unpack_disclosed_claims_in_array ::
        "(string \<rightharpoonup> json) \<Rightarrow> string set \<Rightarrow> json list \<Rightarrow> nat \<Rightarrow> (json \<times> string set) result"
  and unpack_elements ::
        "(string \<rightharpoonup> json) \<Rightarrow> string set \<Rightarrow> json list \<Rightarrow> nat \<Rightarrow> (json list \<times> string set) result"
  and unpack_disclosed_claims_in_object ::
        "(string \<rightharpoonup> json) \<Rightarrow> string set \<Rightarrow> json_map \<Rightarrow> nat \<Rightarrow> (json \<times> string set) result"
  and unpack_members ::
        "(string \<rightharpoonup> json) \<Rightarrow> string set \<Rightarrow> json_map \<Rightarrow> json_map \<Rightarrow> nat \<Rightarrow> (json_map \<times> string set) result"
  and unpack_from_digests ::
        "(string \<rightharpoonup> json) \<Rightarrow> string set \<Rightarrow> json_map \<Rightarrow> json list \<Rightarrow> nat \<Rightarrow> (json_map \<times> string set) result"
  and unpack_from_digest ::
        "(string \<rightharpoonup> json) \<Rightarrow> string set \<Rightarrow> json \<Rightarrow> nat \<Rightarrow> (json option \<times> string set) result"
where
  "unpack_disclosed_claims T seen (Array arr) depth =
     rbind (enter_processed_container depth) (\<lambda>depth'.
     unpack_disclosed_claims_in_array T seen arr depth')"
| "unpack_disclosed_claims T seen (Object obj) depth =
     rbind (enter_processed_container depth) (\<lambda>depth'.
     unpack_disclosed_claims_in_object T seen obj depth')"
| "unpack_disclosed_claims T seen v depth = Ok (v, seen)"
| "unpack_disclosed_claims_in_array T seen arr depth =
     (if arr = [] then Err (InvalidArrayDisclosureObject ''Array of disclosed claims cannot be empty'')
      else rbind (unpack_elements T seen arr depth) (\<lambda>(claims, seen'). Ok (Array claims, seen')))"
| "unpack_elements T seen [] depth = Ok ([], seen)"
| "unpack_elements T seen (value # values) depth =
     (case (case value of Object obj \<Rightarrow> map_get obj SD_LIST_PREFIX | _ \<Rightarrow> None) of
        Some digest \<Rightarrow>
          (if (case value of Object obj \<Rightarrow> 1 < length obj | _ \<Rightarrow> False)
           then Err (InvalidDisclosure ''Disclosed claim object in an array maust contain only one key'')
           else rbind (unpack_from_digest T seen digest depth) (\<lambda>(disclosed_claim, seen').
                rbind (unpack_elements T seen' values depth) (\<lambda>(claims, seen'').
                Ok (case disclosed_claim of None \<Rightarrow> claims | Some claim \<Rightarrow> claim # claims, seen''))))
      | None \<Rightarrow>
          rbind (unpack_disclosed_claims T seen value depth) (\<lambda>(claim, seen').
          rbind (unpack_elements T seen' values depth) (\<lambda>(claims, seen'').
          Ok (claim # claims, seen''))))"
| "unpack_disclosed_claims_in_object T seen obj depth =
     rbind (unpack_members T seen [] obj depth) (\<lambda>(disclosed_claims, seen').
     case map_get obj SD_DIGESTS_KEY of
       Some (Array digests) \<Rightarrow>
         rbind (unpack_from_digests T seen' disclosed_claims digests depth) (\<lambda>(disclosed_claims', seen'').
         Ok (Object disclosed_claims', seen''))
     | _ \<Rightarrow> Ok (Object disclosed_claims, seen'))"
| "unpack_members T seen disclosed [] depth = Ok (disclosed, seen)"
| "unpack_members T seen disclosed ((key, value) # members) depth =
     (if key \<noteq> SD_DIGESTS_KEY \<and> key \<noteq> DIGEST_ALG_KEY
      then rbind (unpack_disclosed_claims T seen value depth) (\<lambda>(claim, seen').
           unpack_members T seen' (map_insert key claim disclosed) members depth)
      else unpack_members T seen disclosed members depth)"
| "unpack_from_digests T seen pre_output [] depth = Ok (pre_output, seen)"
| "unpack_from_digests T seen pre_output (d # digests) depth =
     rbind (ok_or (as_str d) (ConversionError ''str'')) (\<lambda>digest.
     rbind (record_digest seen digest) (\<lambda>seen1.
     case T digest of
       None \<Rightarrow> unpack_from_digests T seen1 pre_output digests depth
     | Some value_for_digest \<Rightarrow>
         rbind (object_disclosure value_for_digest) (\<lambda>(key, value).
         if contains_key pre_output key
         then Err (DuplicateKeyError ''Duplicate disclosed claim'')
         else rbind (unpack_disclosed_claims T seen1 value depth) (\<lambda>(unpacked_value, seen2).
              unpack_from_digests T seen2 (map_insert key unpacked_value pre_output) digests depth))))"
| "unpack_from_digest T seen d depth =
     rbind (ok_or (as_str d) (ConversionError ''str'')) (\<lambda>digest.
     rbind (record_digest seen digest) (\<lambda>seen1.
     case T digest of
       None \<Rightarrow> Ok (None, seen1)
     | Some value_for_digest \<Rightarrow>
         rbind (array_disclosure value_for_digest) (\<lambda>value.
         rbind (unpack_disclosed_claims T seen1 value depth) (\<lambda>(unpacked_value, seen2).
         Ok (Some unpacked_value, seen2)))))"
  by pat_completeness auto
termination
proof (relation "measures
    [case_sum
       (case_sum (\<lambda>(T, seen, v, d). Suc MAX_PROCESSED_SD_JWT_DEPTH - d)
         (case_sum (\<lambda>(T, seen, arr, d). Suc MAX_PROCESSED_SD_JWT_DEPTH - d)
                   (\<lambda>(T, seen, arr, d). Suc MAX_PROCESSED_SD_JWT_DEPTH - d)))
       (case_sum
         (case_sum (\<lambda>(T, seen, obj, d). Suc MAX_PROCESSED_SD_JWT_DEPTH - d)
                   (\<lambda>(T, seen, acc, obj, d). Suc MAX_PROCESSED_SD_JWT_DEPTH - d))
         (case_sum (\<lambda>(T, seen, acc, ds, d). Suc MAX_PROCESSED_SD_JWT_DEPTH - d)
                   (\<lambda>(T, seen, digest, d). Suc MAX_PROCESSED_SD_JWT_DEPTH - d))),
     case_sum
       (case_sum (\<lambda>_. 0) (case_sum (\<lambda>_. 3) (\<lambda>_. 2)))
       (case_sum (case_sum (\<lambda>_. 3) (\<lambda>_. 2)) (case_sum (\<lambda>_. 2) (\<lambda>_. 1))),
     case_sum
       (case_sum (\<lambda>_. 0) (case_sum (\<lambda>_. 0) (\<lambda>(T, seen, arr, d). length arr)))
       (case_sum (case_sum (\<lambda>_. 0) (\<lambda>(T, seen, acc, obj, d). length obj))
                 (case_sum (\<lambda>(T, seen, acc, ds, d). length ds) (\<lambda>_. 0)))]")
qed (auto simp: enter_processed_container_Ok)


subsection \<open>The specification\<close>

text \<open>
  \<open>reveals T h v out ds\<close>: the value \<open>v\<close> stands for \<open>out\<close> under the disclosures \<open>T\<close>, with at most
  \<open>h\<close> nested containers, and the digests met on the way are \<open>ds\<close>, with repetitions.
\<close>

definition is_scalar_json :: "json \<Rightarrow> bool" where
  "is_scalar_json v \<longleftrightarrow> as_array v = None \<and> as_object v = None"

definition is_placeholder :: "json \<Rightarrow> bool" where
  "is_placeholder v \<longleftrightarrow> (\<exists>obj. v = Object obj \<and> contains_key obj SD_LIST_PREFIX)"

definition sd_digests :: "json_map \<Rightarrow> json list" where
  "sd_digests obj = (case map_get obj SD_DIGESTS_KEY of Some (Array ds) \<Rightarrow> ds | _ \<Rightarrow> [])"

inductive reveals :: "(string \<rightharpoonup> json) \<Rightarrow> nat \<Rightarrow> json \<Rightarrow> json \<Rightarrow> string list \<Rightarrow> bool"
  and reveals_elems :: "(string \<rightharpoonup> json) \<Rightarrow> nat \<Rightarrow> json list \<Rightarrow> json list \<Rightarrow> string list \<Rightarrow> bool"
  and reveals_members :: "(string \<rightharpoonup> json) \<Rightarrow> nat \<Rightarrow> json_map \<Rightarrow> json_map \<Rightarrow> string list \<Rightarrow> bool"
  and reveals_digests :: "(string \<rightharpoonup> json) \<Rightarrow> nat \<Rightarrow> json list \<Rightarrow> json_map \<Rightarrow> string list \<Rightarrow> bool"
  for T
where
  rv_scalar: "is_scalar_json v \<Longrightarrow> reveals T h v v []"
| rv_array: "arr \<noteq> [] \<Longrightarrow> reveals_elems T h arr outs ds \<Longrightarrow>
    reveals T (Suc h) (Array arr) (Array outs) ds"
| rv_object: "reveals_members T h obj ps ds \<Longrightarrow> reveals_digests T h (sd_digests obj) news ds' \<Longrightarrow>
    distinct (map fst news) \<Longrightarrow> fst ` set news \<inter> fst ` set ps = {} \<Longrightarrow>
    reveals T (Suc h) (Object obj) (Object (map_append [] ps @ news)) (ds @ ds')"
| el_Nil: "reveals_elems T h [] [] []"
| el_plain: "\<not> is_placeholder v \<Longrightarrow> reveals T h v out ds \<Longrightarrow> reveals_elems T h vs outs ds' \<Longrightarrow>
    reveals_elems T h (v # vs) (out # outs) (ds @ ds')"
| el_hidden: "T digest = None \<Longrightarrow> reveals_elems T h vs outs ds \<Longrightarrow>
    reveals_elems T h (Object [(SD_LIST_PREFIX, String digest)] # vs) outs (digest # ds)"
| el_shown: "T digest = Some (Array [salt, v]) \<Longrightarrow> reveals T h v out ds \<Longrightarrow>
    reveals_elems T h vs outs ds' \<Longrightarrow>
    reveals_elems T h (Object [(SD_LIST_PREFIX, String digest)] # vs) (out # outs) (digest # ds @ ds')"
| mb_Nil: "reveals_members T h [] [] []"
| mb_skip: "key = SD_DIGESTS_KEY \<or> key = DIGEST_ALG_KEY \<Longrightarrow> reveals_members T h ms ps ds \<Longrightarrow>
    reveals_members T h ((key, v) # ms) ps ds"
| mb_keep: "key \<noteq> SD_DIGESTS_KEY \<Longrightarrow> key \<noteq> DIGEST_ALG_KEY \<Longrightarrow> reveals T h v out ds \<Longrightarrow>
    reveals_members T h ms ps ds' \<Longrightarrow> reveals_members T h ((key, v) # ms) ((key, out) # ps) (ds @ ds')"
| dg_Nil: "reveals_digests T h [] [] []"
| dg_hidden: "T digest = None \<Longrightarrow> reveals_digests T h digests news ds \<Longrightarrow>
    reveals_digests T h (String digest # digests) news (digest # ds)"
| dg_shown: "T digest = Some (Array [salt, String key, v]) \<Longrightarrow> key \<notin> reserved_keys \<Longrightarrow>
    reveals T h v out ds \<Longrightarrow> reveals_digests T h digests news ds' \<Longrightarrow>
    reveals_digests T h (String digest # digests) ((key, out) # news) (digest # ds @ ds')"

lemmas reveals_intros = reveals_reveals_elems_reveals_members_reveals_digests.intros
lemmas reveals_induct = reveals_reveals_elems_reveals_members_reveals_digests.inducts

inductive_cases reveals_StringE: "reveals T h (String s) out ds"
inductive_cases reveals_ArrayE: "reveals T h (Array arr) out ds"
inductive_cases reveals_ObjectE: "reveals T h (Object obj) out ds"

text \<open>The digests \<open>ds\<close> are new, each met once, and are now recorded.\<close>

definition spent :: "string set \<Rightarrow> string list \<Rightarrow> string set \<Rightarrow> bool" where
  "spent seen ds seen' \<longleftrightarrow> distinct ds \<and> set ds \<inter> seen = {} \<and> seen' = seen \<union> set ds"

lemma spent_Nil [simp]: "spent seen [] seen' \<longleftrightarrow> seen' = seen"
  by (auto simp: spent_def)

lemma spent_Cons: "spent seen (d # ds) seen' \<longleftrightarrow> d \<notin> seen \<and> spent (insert d seen) ds seen'"
  by (auto simp: spent_def)

lemma spent_append: "spent seen (ds @ ds') seen'' \<longleftrightarrow> (\<exists>seen'. spent seen ds seen' \<and> spent seen' ds' seen'')"
  by (auto simp: spent_def)

lemma placeholder_cases:
  "(case v of Object obj \<Rightarrow> map_get obj SD_LIST_PREFIX | _ \<Rightarrow> None) = None \<longleftrightarrow> \<not> is_placeholder v"
  by (cases v) (auto simp: is_placeholder_def contains_key_get)

lemma placeholder_single:
  assumes "(case v of Object obj \<Rightarrow> map_get obj SD_LIST_PREFIX | _ \<Rightarrow> None) = Some digest"
    and "\<not> (case v of Object obj \<Rightarrow> 1 < length obj | _ \<Rightarrow> False)"
  shows "v = Object [(SD_LIST_PREFIX, digest)]"
proof (cases v)
  case (Object obj)
  with assms show ?thesis
    by (cases obj) (auto split: if_splits)
qed (use assms in simp_all)

lemma in_object_conv:
  "unpack_disclosed_claims_in_object T seen obj depth =
     rbind (unpack_members T seen [] obj depth) (\<lambda>(ms, seen').
     rbind (unpack_from_digests T seen' ms (sd_digests obj) depth) (\<lambda>(out, seen'').
     Ok (Object out, seen'')))"
proof -
  have "(case map_get obj SD_DIGESTS_KEY of
       Some (Array digests) \<Rightarrow>
         rbind (unpack_from_digests T seen' ms digests depth) (\<lambda>(out, seen''). Ok (Object out, seen''))
     | _ \<Rightarrow> Ok (Object ms, seen')) =
     rbind (unpack_from_digests T seen' ms (sd_digests obj) depth) (\<lambda>(out, seen''). Ok (Object out, seen''))"
    for ms seen'
    by (simp add: sd_digests_def split: option.split json.split)
  then show ?thesis by simp
qed


subsection \<open>The code computes the specification\<close>

declare unpack_disclosed_claims_in_object.simps [simp del]

text \<open>Completeness: what the relation reveals, the code returns, within the depth limit.\<close>

lemma unpack_complete:
  "reveals T h v out ds \<Longrightarrow> (\<And>seen seen' d. spent seen ds seen' \<Longrightarrow> d + h \<le> MAX_PROCESSED_SD_JWT_DEPTH \<Longrightarrow>
     unpack_disclosed_claims T seen v d = Ok (out, seen'))"
  "reveals_elems T h vs outs ds \<Longrightarrow> (\<And>seen seen' d. spent seen ds seen' \<Longrightarrow> d + h \<le> MAX_PROCESSED_SD_JWT_DEPTH \<Longrightarrow>
     unpack_elements T seen vs d = Ok (outs, seen'))"
  "reveals_members T h ms ps ds \<Longrightarrow> (\<And>seen seen' acc d. spent seen ds seen' \<Longrightarrow> d + h \<le> MAX_PROCESSED_SD_JWT_DEPTH \<Longrightarrow>
     unpack_members T seen acc ms d = Ok (map_append acc ps, seen'))"
  "reveals_digests T h digests news ds \<Longrightarrow> (\<And>seen seen' acc d. spent seen ds seen' \<Longrightarrow> d + h \<le> MAX_PROCESSED_SD_JWT_DEPTH \<Longrightarrow>
     distinct (map fst news) \<Longrightarrow> fst ` set news \<inter> fst ` set acc = {} \<Longrightarrow>
     unpack_from_digests T seen acc digests d = Ok (acc @ news, seen'))"
proof (induction rule: reveals_induct)
  case (rv_scalar v h)
  then show ?case by (cases v) (auto simp: is_scalar_json_def)
next
  case (rv_array arr h outs ds)
  then have "enter_processed_container d = Ok (Suc d)"
    by (simp add: enter_processed_container_Ok)
  with rv_array show ?case by simp
next
  case (rv_object h obj ps ds news ds')
  from rv_object.prems(1) obtain mid where mid: "spent seen ds mid" "spent mid ds' seen'"
    by (auto simp: spent_append)
  have "enter_processed_container d = Ok (Suc d)"
    using rv_object.prems by (simp add: enter_processed_container_Ok)
  moreover have "unpack_members T seen [] obj (Suc d) = Ok (map_append [] ps, mid)"
    using rv_object mid by simp
  moreover have "unpack_from_digests T mid (map_append [] ps) (sd_digests obj) (Suc d)
      = Ok (map_append [] ps @ news, seen')"
    using rv_object mid by (simp add: keys_append)
  ultimately show ?case by (simp add: in_object_conv)
next
  case (el_plain v h out ds vs outs ds')
  then show ?case
    by (auto simp: spent_append placeholder_cases [THEN iffD2])
next
  case (el_hidden digest h vs outs ds)
  then show ?case by (auto simp: spent_Cons record_digest_def)
next
  case (el_shown digest salt v h out ds vs outs ds')
  then show ?case by (auto simp: spent_Cons spent_append record_digest_def array_disclosure_def)
next
  case (mb_keep key h v out ds ms ps ds')
  then show ?case by (auto simp: spent_append map_append_Cons)
next
  case (dg_hidden digest h digests news ds)
  then show ?case by (auto simp: spent_Cons record_digest_def)
next
  case (dg_shown digest salt key v h out ds digests news ds')
  have shape: "object_disclosure (Array [salt, String key, v]) = Ok (key, v)"
    using dg_shown.hyps by (simp add: object_disclosure_Ok)
  from dg_shown.prems(1) obtain mid where mid: "digest \<notin> seen" "spent (insert digest seen) ds mid" "spent mid ds' seen'"
    by (auto simp: spent_Cons spent_append)
  have fresh: "\<not> contains_key acc key"
    using dg_shown.prems by (auto simp: contains_key_conv)
  then have ins: "map_insert key out acc = acc @ [(key, out)]"
    by (intro map_insert_new) (simp add: contains_key_conv)
  have "unpack_from_digests T mid (map_insert key out acc) digests d = Ok (map_insert key out acc @ news, seen')"
    by (rule dg_shown.IH(5) [OF mid(3) dg_shown.prems(2)]) (use dg_shown.prems in \<open>auto simp: ins\<close>)
  then show ?case
    using dg_shown mid fresh shape by (simp add: record_digest_def ins)
qed (auto simp: spent_Nil)


text \<open>
  Soundness, by the recursion of the code: a returned value is revealed, and exactly the digests
  met are newly recorded. \<open>remaining d\<close> is the number of containers that may still be entered.
\<close>

definition remaining :: "nat \<Rightarrow> nat" where
  "remaining d = MAX_PROCESSED_SD_JWT_DEPTH - d"

lemma remaining_Suc: "Suc d \<le> MAX_PROCESSED_SD_JWT_DEPTH \<Longrightarrow> remaining d = Suc (remaining (Suc d))"
  by (simp add: remaining_def)

definition elem_out :: "json option \<Rightarrow> json list" where
  "elem_out x = (case x of None \<Rightarrow> [] | Some v \<Rightarrow> [v])"

definition sound_value :: "(string \<rightharpoonup> json) \<Rightarrow> string set \<Rightarrow> json \<Rightarrow> nat \<Rightarrow> json \<times> string set \<Rightarrow> bool" where
  "sound_value T seen v d r \<longleftrightarrow> (\<exists>ds. reveals T (remaining d) v (fst r) ds \<and> spent seen ds (snd r))"

definition sound_elems :: "(string \<rightharpoonup> json) \<Rightarrow> string set \<Rightarrow> json list \<Rightarrow> nat \<Rightarrow> json list \<times> string set \<Rightarrow> bool" where
  "sound_elems T seen vs d r \<longleftrightarrow> (\<exists>ds. reveals_elems T (remaining d) vs (fst r) ds \<and> spent seen ds (snd r))"

definition sound_members ::
    "(string \<rightharpoonup> json) \<Rightarrow> string set \<Rightarrow> json_map \<Rightarrow> json_map \<Rightarrow> nat \<Rightarrow> json_map \<times> string set \<Rightarrow> bool" where
  "sound_members T seen acc ms d r \<longleftrightarrow>
     (\<exists>ps ds. reveals_members T (remaining d) ms ps ds \<and> fst r = map_append acc ps \<and> spent seen ds (snd r))"

definition sound_digests ::
    "(string \<rightharpoonup> json) \<Rightarrow> string set \<Rightarrow> json_map \<Rightarrow> json list \<Rightarrow> nat \<Rightarrow> json_map \<times> string set \<Rightarrow> bool" where
  "sound_digests T seen acc digests d r \<longleftrightarrow>
     (\<exists>news ds. reveals_digests T (remaining d) digests news ds \<and> fst r = acc @ news \<and>
        distinct (map fst news) \<and> fst ` set news \<inter> fst ` set acc = {} \<and> spent seen ds (snd r))"

definition sound_digest :: "(string \<rightharpoonup> json) \<Rightarrow> string set \<Rightarrow> json \<Rightarrow> nat \<Rightarrow> json option \<times> string set \<Rightarrow> bool" where
  "sound_digest T seen dg d r \<longleftrightarrow>
     (\<exists>digest ds. dg = String digest \<and> digest \<notin> seen \<and> spent (insert digest seen) ds (snd r) \<and>
        (case fst r of
           None \<Rightarrow> T digest = None \<and> ds = []
         | Some out \<Rightarrow> (\<exists>salt v. T digest = Some (Array [salt, v]) \<and> reveals T (remaining d) v out ds)))"

lemmas sound_defs = sound_value_def sound_elems_def sound_members_def sound_digests_def sound_digest_def

lemma sound_scalar: "is_scalar_json v \<Longrightarrow> sound_value T seen v d (v, seen)"
  unfolding sound_value_def by (intro exI [of _ "[]"] conjI) (auto intro: rv_scalar)

lemma sound_Nil:
  "sound_elems T seen [] d ([], seen)"
  "sound_members T seen acc [] d (acc, seen)"
  "sound_digests T seen acc [] d (acc, seen)"
  unfolding sound_defs
  by (intro exI [of _ "[]"] conjI; auto intro: reveals_intros)+

lemma sound_elems_plain:
  assumes "\<not> is_placeholder v" and "sound_value T seen v d (out, mid)" and "sound_elems T mid vs d (outs, seen')"
  shows "sound_elems T seen (v # vs) d (out # outs, seen')"
proof -
  from assms obtain ds ds' where "reveals T (remaining d) v out ds" "spent seen ds mid"
    and "reveals_elems T (remaining d) vs outs ds'" "spent mid ds' seen'"
    by (auto simp: sound_defs)
  then have "reveals_elems T (remaining d) (v # vs) (out # outs) (ds @ ds')" "spent seen (ds @ ds') seen'"
    using assms(1) by (auto simp: spent_append intro: el_plain)
  then show ?thesis by (auto simp: sound_defs)
qed

lemma sound_elems_placeholder:
  assumes "sound_digest T seen dg d (out, mid)" and "sound_elems T mid vs d (outs, seen')"
  shows "sound_elems T seen (Object [(SD_LIST_PREFIX, dg)] # vs) d
           (case out of None \<Rightarrow> outs | Some claim \<Rightarrow> claim # outs, seen')"
proof -
  from assms obtain digest ds ds' where dg: "dg = String digest" "digest \<notin> seen" "spent (insert digest seen) ds mid"
    and rest: "reveals_elems T (remaining d) vs outs ds'" "spent mid ds' seen'"
    and shown: "case out of
           None \<Rightarrow> T digest = None \<and> ds = []
         | Some out \<Rightarrow> (\<exists>salt v. T digest = Some (Array [salt, v]) \<and> reveals T (remaining d) v out ds)"
    by (auto simp: sound_defs)
  have "reveals_elems T (remaining d) (Object [(SD_LIST_PREFIX, dg)] # vs)
          (case out of None \<Rightarrow> outs | Some claim \<Rightarrow> claim # outs) (digest # ds @ ds')"
    using dg rest shown by (auto intro: el_hidden el_shown split: option.splits)
  moreover have "spent seen (digest # ds @ ds') seen'"
    using dg rest by (auto simp: spent_Cons spent_append)
  ultimately show ?thesis by (auto simp: sound_defs)
qed

lemma sound_members_keep:
  assumes "key \<noteq> SD_DIGESTS_KEY" and "key \<noteq> DIGEST_ALG_KEY" and "sound_value T seen v d (claim, mid)"
    and "sound_members T mid (map_insert key claim acc) ms d r"
  shows "sound_members T seen acc ((key, v) # ms) d r"
proof -
  from assms obtain ds ds' ps where "reveals T (remaining d) v claim ds" "spent seen ds mid"
    and "reveals_members T (remaining d) ms ps ds'" "fst r = map_append (map_insert key claim acc) ps"
      "spent mid ds' (snd r)"
    by (auto simp: sound_defs)
  then have "reveals_members T (remaining d) ((key, v) # ms) ((key, claim) # ps) (ds @ ds')"
    and "spent seen (ds @ ds') (snd r)" and "fst r = map_append acc ((key, claim) # ps)"
    using assms(1,2) by (auto simp: spent_append map_append_Cons intro: mb_keep)
  then show ?thesis unfolding sound_defs by blast
qed

lemma sound_digests_shown:
  assumes "digest \<notin> seen" and "T digest = Some shape" and "object_disclosure shape = Ok (key, v)"
    and "\<not> contains_key acc key" and "sound_value T (insert digest seen) v d (out, mid)"
    and "sound_digests T mid (map_insert key out acc) digests d r"
  shows "sound_digests T seen acc (String digest # digests) d r"
proof -
  have ins: "map_insert key out acc = acc @ [(key, out)]"
    using assms(4) by (intro map_insert_new) (simp add: contains_key_conv)
  from assms(3) obtain salt where shape: "shape = Array [salt, String key, v]" "key \<notin> reserved_keys"
    by (auto simp: object_disclosure_Ok)
  from assms(5,6) obtain ds ds' news where 1: "reveals T (remaining d) v out ds" "spent (insert digest seen) ds mid"
    and 2: "reveals_digests T (remaining d) digests news ds'" "fst r = map_insert key out acc @ news"
      "distinct (map fst news)" "fst ` set news \<inter> fst ` set (map_insert key out acc) = {}" "spent mid ds' (snd r)"
    by (auto simp: sound_defs)
  have "reveals_digests T (remaining d) (String digest # digests) ((key, out) # news) (digest # ds @ ds')"
    using dg_shown 1 2 shape assms(2) by metis
  moreover have "fst r = acc @ (key, out) # news"
    using 2 ins by simp
  moreover have "distinct (map fst ((key, out) # news))"
    and "fst ` set ((key, out) # news) \<inter> fst ` set acc = {}"
    using 2 ins assms(4) by (auto simp: contains_key_conv)
  moreover have "spent seen (digest # ds @ ds') (snd r)"
    using 1 2 assms(1) by (auto simp: spent_Cons spent_append)
  ultimately show ?thesis unfolding sound_defs by blast
qed

lemma sound_object:
  assumes "Suc d \<le> MAX_PROCESSED_SD_JWT_DEPTH"
    and "sound_members T seen [] obj (Suc d) (ms, mid)"
    and "sound_digests T mid ms (sd_digests obj) (Suc d) (out, seen')"
  shows "sound_value T seen (Object obj) d (Object out, seen')"
proof -
  from assms(2,3) obtain ps ds news ds' where
      "reveals_members T (remaining (Suc d)) obj ps ds" "ms = map_append [] ps" "spent seen ds mid"
      "reveals_digests T (remaining (Suc d)) (sd_digests obj) news ds'" "out = ms @ news"
      "distinct (map fst news)" "fst ` set news \<inter> fst ` set ms = {}" "spent mid ds' seen'"
    by (auto simp: sound_defs)
  then have "reveals T (Suc (remaining (Suc d))) (Object obj) (Object out) (ds @ ds')"
    and "spent seen (ds @ ds') seen'"
    by (auto simp: keys_append spent_append intro: rv_object)
  then show ?thesis
    unfolding sound_value_def remaining_Suc [OF assms(1)] by auto
qed


lemma unpack_sound:
  "unpack_disclosed_claims T seen v d = Ok r \<Longrightarrow> sound_value T seen v d r"
  "unpack_disclosed_claims_in_array T seen arr d = Ok r \<Longrightarrow>
     arr \<noteq> [] \<and> (\<exists>outs. fst r = Array outs \<and> sound_elems T seen arr d (outs, snd r))"
  "unpack_elements T seen vs d = Ok rs \<Longrightarrow> sound_elems T seen vs d rs"
  "unpack_disclosed_claims_in_object T seen obj d = Ok r \<Longrightarrow>
     (\<exists>ms mid out. sound_members T seen [] obj d (ms, mid) \<and>
        sound_digests T mid ms (sd_digests obj) d (out, snd r) \<and> fst r = Object out)"
  "unpack_members T seen acc obj d = Ok rm \<Longrightarrow> sound_members T seen acc obj d rm"
  "unpack_from_digests T seen acc digests d = Ok rm \<Longrightarrow> sound_digests T seen acc digests d rm"
  "unpack_from_digest T seen dg d = Ok ro \<Longrightarrow> sound_digest T seen dg d ro"
proof (induction T seen v d and T seen arr d and T seen vs d and T seen obj d and T seen acc obj d
    and T seen acc digests d and T seen dg d
    arbitrary: r and r and rs and r and rm and rm and ro
    rule: unpack_disclosed_claims_unpack_disclosed_claims_in_array_unpack_elements_unpack_disclosed_claims_in_object_unpack_members_unpack_from_digests_unpack_from_digest.induct)
  case (1 T seen arr depth)
  from "1.prems" have lim: "Suc depth \<le> MAX_PROCESSED_SD_JWT_DEPTH"
    and enter: "enter_processed_container depth = Ok (Suc depth)"
    and arr: "unpack_disclosed_claims_in_array T seen arr (Suc depth) = Ok r"
    by (auto simp: rbind_eq_Ok enter_processed_container_Ok)
  from "1.IH" [OF enter arr] obtain outs ds where "arr \<noteq> []" "fst r = Array outs"
      "reveals_elems T (remaining (Suc depth)) arr outs ds" "spent seen ds (snd r)"
    by (auto simp: sound_defs)
  then show ?case
    unfolding sound_value_def remaining_Suc [OF lim] by (auto intro: rv_array)
next
  case (2 T seen obj depth)
  from "2.prems" have lim: "Suc depth \<le> MAX_PROCESSED_SD_JWT_DEPTH"
    and enter: "enter_processed_container depth = Ok (Suc depth)"
    and obj: "unpack_disclosed_claims_in_object T seen obj (Suc depth) = Ok r"
    by (auto simp: rbind_eq_Ok enter_processed_container_Ok)
  from "2.IH" [OF enter obj] show ?case
    using sound_object [OF lim] by (metis prod.collapse)
next
  case (4 T seen arr depth)
  then have "arr \<noteq> []" by auto
  with "4.prems" obtain outs where elems: "unpack_elements T seen arr depth = Ok (outs, snd r)"
    and "fst r = Array outs"
    by (cases r) (auto simp: rbind_eq_Ok)
  then show ?case
    using "4.IH" [OF \<open>arr \<noteq> []\<close> elems] \<open>arr \<noteq> []\<close> by blast
next
  case (6 T seen val vals depth)
  show ?case
  proof (cases "case val of Object obj \<Rightarrow> map_get obj SD_LIST_PREFIX | _ \<Rightarrow> None")
    case None
    with "6.prems" obtain claim mid claims seen'
      where v: "unpack_disclosed_claims T seen val depth = Ok (claim, mid)"
        and vs: "unpack_elements T mid vals depth = Ok (claims, seen')"
        and rs: "rs = (claim # claims, seen')"
      by (auto simp: rbind_eq_Ok)
    show ?thesis
      unfolding rs
      by (rule sound_elems_plain [OF placeholder_cases [THEN iffD1, OF None]
            "6.IH"(1) [OF None v] "6.IH"(2) [OF None v refl vs]])
  next
    case (Some digest)
    with "6.prems" obtain claim mid claims seen'
      where single: "\<not> (case val of Object obj \<Rightarrow> 1 < length obj | _ \<Rightarrow> False)"
        and v: "unpack_from_digest T seen digest depth = Ok (claim, mid)"
        and vs: "unpack_elements T mid vals depth = Ok (claims, seen')"
        and rs: "rs = (case claim of None \<Rightarrow> claims | Some c \<Rightarrow> c # claims, seen')"
      by (auto simp: rbind_eq_Ok split: if_splits)
    show ?thesis
      unfolding rs placeholder_single [OF Some single]
      by (rule sound_elems_placeholder [OF "6.IH"(3) [OF Some single v] "6.IH"(4) [OF Some single v refl vs]])
  qed
next
  case (7 T seen obj depth)
  from "7.prems" obtain ms mid out
    where ms: "unpack_members T seen [] obj depth = Ok (ms, mid)"
      and out: "unpack_from_digests T mid ms (sd_digests obj) depth = Ok (out, snd r)"
      and r: "fst r = Object out"
    by (auto simp: in_object_conv rbind_eq_Ok)
  have "sound_digests T mid ms (sd_digests obj) depth (out, snd r)"
  proof (cases "\<exists>digests. map_get obj SD_DIGESTS_KEY = Some (Array digests)")
    case True
    then obtain digests where digests: "map_get obj SD_DIGESTS_KEY = Some (Array digests)" by blast
    with out have "unpack_from_digests T mid ms digests depth = Ok (out, snd r)"
      by (simp add: sd_digests_def)
    with "7.IH"(2) [OF ms refl digests refl] digests show ?thesis
      by (simp add: sd_digests_def)
  next
    case False
    then have "sd_digests obj = []"
      by (auto simp: sd_digests_def split: option.split json.split)
    with out show ?thesis
      by (auto simp: sound_defs intro: dg_Nil)
  qed
  then show ?case
    using "7.IH"(1) [OF ms] r by blast
next
  case (9 T seen disclosed key val members depth)
  show ?case
  proof (cases "key \<noteq> SD_DIGESTS_KEY \<and> key \<noteq> DIGEST_ALG_KEY")
    case True
    with "9.prems" obtain claim mid
      where v: "unpack_disclosed_claims T seen val depth = Ok (claim, mid)"
        and ms: "unpack_members T mid (map_insert key claim disclosed) members depth = Ok rm"
      by (auto simp: rbind_eq_Ok)
    show ?thesis
      using sound_members_keep "9.IH"(1) [OF True v] "9.IH"(2) [OF True v refl ms] True by blast
  next
    case False
    with "9.prems" have "unpack_members T seen disclosed members depth = Ok rm"
      by (simp only: unpack_members.simps if_False)
    from "9.IH"(3) [OF False this] False show ?thesis
      unfolding sound_defs by (metis mb_skip)
  qed
next
  case (11 T seen pre_output dg digests depth)
  then obtain digest where dg: "dg = String digest" and new: "digest \<notin> seen"
    by (auto simp: rbind_eq_Ok record_digest_Ok)
  then have id: "ok_or (as_str dg) (ConversionError ''str'') = Ok digest"
    and rec: "record_digest seen digest = Ok (insert digest seen)"
    by (simp_all add: record_digest_def)
  show ?case
  proof (cases "T digest")
    case None
    with "11.prems" dg rec have "unpack_from_digests T (insert digest seen) pre_output digests depth = Ok rm"
      by simp
    from "11.IH"(1) [OF id rec None this] None show ?thesis
      unfolding sound_defs dg by (metis new spent_Cons dg_hidden)
  next
    case (Some shape)
    with "11.prems" dg rec obtain key val claim mid
      where sh: "object_disclosure shape = Ok (key, val)" and fresh: "\<not> contains_key pre_output key"
        and v: "unpack_disclosed_claims T (insert digest seen) val depth = Ok (claim, mid)"
        and ds: "unpack_from_digests T mid (map_insert key claim pre_output) digests depth = Ok rm"
      by (auto simp: rbind_eq_Ok split: if_splits)
    show ?thesis
      unfolding dg
      by (rule sound_digests_shown [where T = T, OF new Some sh fresh
            "11.IH"(2) [OF id rec Some sh refl fresh v]
            "11.IH"(3) [OF id rec Some sh refl fresh v refl ds]])
  qed
next
  case (12 T seen dg depth)
  then obtain digest where dg: "dg = String digest" and new: "digest \<notin> seen"
    by (auto simp: rbind_eq_Ok record_digest_Ok)
  then have id: "ok_or (as_str dg) (ConversionError ''str'') = Ok digest"
    and rec: "record_digest seen digest = Ok (insert digest seen)"
    by (simp_all add: record_digest_def)
  show ?case
  proof (cases "T digest")
    case None
    with "12.prems" dg rec have "ro = (None, insert digest seen)" by simp
    with None new dg show ?thesis
      unfolding sound_defs by auto
  next
    case (Some shape)
    with "12.prems" dg rec obtain val claim mid
      where sh: "array_disclosure shape = Ok val" and ro: "ro = (Some claim, mid)"
        and v: "unpack_disclosed_claims T (insert digest seen) val depth = Ok (claim, mid)"
      by (auto simp: rbind_eq_Ok)
    from sh obtain salt where "shape = Array [salt, val]"
      by (auto simp: array_disclosure_Ok)
    with "12.IH" [OF id rec Some sh v] Some new dg ro show ?thesis
      unfolding sound_defs by auto
  qed
qed (auto simp: is_scalar_json_def intro: sound_scalar sound_Nil)

lemma unpack_iff:
  "unpack_disclosed_claims T seen v d = Ok (out, seen') \<longleftrightarrow>
     (\<exists>ds. reveals T (remaining d) v out ds \<and> spent seen ds seen')"
  if "d \<le> MAX_PROCESSED_SD_JWT_DEPTH"
proof
  assume "unpack_disclosed_claims T seen v d = Ok (out, seen')"
  then show "\<exists>ds. reveals T (remaining d) v out ds \<and> spent seen ds seen'"
    using unpack_sound(1) by (fastforce simp: sound_value_def)
next
  assume "\<exists>ds. reveals T (remaining d) v out ds \<and> spent seen ds seen'"
  then show "unpack_disclosed_claims T seen v d = Ok (out, seen')"
    using unpack_complete(1) that by (fastforce simp: remaining_def)
qed

lemma unpack_not_Panic:
  "unpack_disclosed_claims T seen v d \<noteq> Panic"
  "unpack_disclosed_claims_in_array T seen arr d \<noteq> Panic"
  "unpack_elements T seen vs d \<noteq> Panic"
  "unpack_disclosed_claims_in_object T seen obj d \<noteq> Panic"
  "unpack_members T seen acc obj d \<noteq> Panic"
  "unpack_from_digests T seen acc digests d \<noteq> Panic"
  "unpack_from_digest T seen dg d \<noteq> Panic"
proof (induction T seen v d and T seen arr d and T seen vs d and T seen obj d and T seen acc obj d
    and T seen acc digests d and T seen dg d
    rule: unpack_disclosed_claims_unpack_disclosed_claims_in_array_unpack_elements_unpack_disclosed_claims_in_object_unpack_members_unpack_from_digests_unpack_from_digest.induct)
  case (1 T seen arr depth)
  then show ?case
    by (auto simp: rbind_eq_Panic enter_processed_container_def split: option.splits if_splits)
next
  case (2 T seen obj depth)
  then show ?case
    by (auto simp: rbind_eq_Panic enter_processed_container_def split: option.splits if_splits)
next
  case (6 T seen val vals depth)
  then show ?case
    by (auto simp: rbind_eq_Panic split: option.splits)
next
  case (7 T seen obj depth)
  then show ?case
    by (auto simp: unpack_disclosed_claims_in_object.simps rbind_eq_Panic split: option.splits json.splits)
next
  case (11 T seen acc dg digests depth)
  then show ?case
    by (auto simp: rbind_eq_Panic record_digest_def disclosure_shapes_not_Panic split: option.splits if_splits)
next
  case (12 T seen dg depth)
  then show ?case
    by (auto simp: rbind_eq_Panic record_digest_def disclosure_shapes_not_Panic split: option.splits if_splits)
qed (auto simp: rbind_eq_Panic)

subsection \<open>What a revealed value looks like\<close>

lemma keys_avoid_map_append:
  "keys_avoid K (Object m) \<Longrightarrow> keys_avoid K (Object m') \<Longrightarrow> keys_avoid K (Object (map_append m m'))"
proof (induction m' arbitrary: m)
  case Nil
  then show ?case by simp
next
  case (Cons p m')
  obtain k v where p: "p = (k, v)" by (cases p)
  have "keys_avoid K (Object (map_insert k v m))" if "k \<notin> K" "keys_avoid K v" "keys_avoid K (Object m)" for m
    using that by (induction m) (auto simp: map_insert_def)
  with Cons show ?case by (simp add: p map_append_Cons)
qed

text \<open>No \<open>_sd\<close> list is left anywhere in the output, and the output is no deeper than allowed.\<close>

lemma reveals_no_sd:
  "reveals T h v out ds \<Longrightarrow> keys_avoid {SD_DIGESTS_KEY} out"
  "reveals_elems T h vs outs ds \<Longrightarrow> list_all (keys_avoid {SD_DIGESTS_KEY}) outs"
  "reveals_members T h ms ps ds \<Longrightarrow> keys_avoid {SD_DIGESTS_KEY} (Object ps)"
  "reveals_digests T h digests news ds \<Longrightarrow> keys_avoid {SD_DIGESTS_KEY} (Object news)"
proof (induction rule: reveals_induct)
  case (rv_scalar v h)
  then show ?case by (cases v) (auto simp: is_scalar_json_def)
next
  case (rv_object h obj ps ds news ds')
  then have "keys_avoid {SD_DIGESTS_KEY} (Object (map_append [] ps))"
    by (intro keys_avoid_map_append) auto
  with rv_object show ?case by simp
qed (auto simp: reserved_keys_def)

lemma map_append_values:
  "\<forall>p \<in> set m. P (snd p) \<Longrightarrow> \<forall>p \<in> set m'. P (snd p) \<Longrightarrow> \<forall>p \<in> set (map_append m m'). P (snd p)"
proof (induction m' arbitrary: m)
  case Nil
  then show ?case by simp
next
  case (Cons p m')
  obtain k v where p: "p = (k, v)" by (cases p)
  have "\<forall>p \<in> set (map_insert k v m). P (snd p)"
    using Cons.prems by (induction m) (auto simp: map_insert_def p)
  then show ?case
    unfolding p map_append_Cons using Cons.prems(2) by (intro Cons.IH) auto
qed

lemma reveals_depth:
  "reveals T h v out ds \<Longrightarrow> json_depth out \<le> h"
  "reveals_elems T h vs outs ds \<Longrightarrow> \<forall>out \<in> set outs. json_depth out \<le> h"
  "reveals_members T h ms ps ds \<Longrightarrow> \<forall>p \<in> set ps. json_depth (snd p) \<le> h"
  "reveals_digests T h digests news ds \<Longrightarrow> \<forall>p \<in> set news. json_depth (snd p) \<le> h"
proof (induction rule: reveals_induct)
  case (rv_scalar v h)
  then show ?case by (cases v) (auto simp: is_scalar_json_def)
next
  case (rv_array arr h outs ds)
  then show ?case by (simp only: json_depth_Array_le)
next
  case (rv_object h obj ps ds news ds')
  have "\<forall>p \<in> set (map_append [] ps). json_depth (snd p) \<le> h"
    by (rule map_append_values [OF _ rv_object.IH(2)]) simp
  with rv_object.IH(4) show ?case
    by (auto simp: json_depth_Object_le simp del: json_depth.simps)
qed auto

lemma unpack_at_limit:
  assumes "MAX_PROCESSED_SD_JWT_DEPTH \<le> d"
  shows "unpack_disclosed_claims T seen v d =
    (if is_scalar_json v then Ok (v, seen) else Err (InvalidDisclosure PROCESSED_SD_JWT_DEPTH_FAILURE))"
proof -
  have "enter_processed_container d = Err (InvalidDisclosure PROCESSED_SD_JWT_DEPTH_FAILURE)"
    using assms by (simp add: enter_processed_container_def checked_add_def)
  then show ?thesis
    by (cases v) (simp_all add: is_scalar_json_def del: unpack_disclosed_claims.simps, simp_all)
qed

lemma unpack_depth:
  assumes "unpack_disclosed_claims T seen v d = Ok (out, seen')"
  shows "json_depth out \<le> MAX_PROCESSED_SD_JWT_DEPTH - d"
proof (cases "d \<le> MAX_PROCESSED_SD_JWT_DEPTH")
  case True
  with assms obtain ds where "reveals T (remaining d) v out ds"
    unfolding unpack_iff [OF True] by blast
  then show ?thesis using reveals_depth(1) by (simp add: remaining_def)
next
  case False
  with assms unpack_at_limit [of d T seen v] have "is_scalar_json out"
    by (auto split: if_splits)
  then show ?thesis by (cases out) (simp_all add: is_scalar_json_def)
qed

text \<open>Every object of the output was rebuilt, so no name occurs twice in it, whatever was signed.\<close>

lemma reveals_wf:
  "reveals T h v out ds \<Longrightarrow> wf_json out"
  "reveals_elems T h vs outs ds \<Longrightarrow> list_all wf_json outs"
  "reveals_members T h ms ps ds \<Longrightarrow> \<forall>p \<in> set ps. wf_json (snd p)"
  "reveals_digests T h digests news ds \<Longrightarrow> \<forall>p \<in> set news. wf_json (snd p)"
proof (induction rule: reveals_induct)
  case (rv_scalar v h)
  then show ?case by (cases v) (auto simp: is_scalar_json_def)
next
  case (rv_object h obj ps ds news ds')
  have "\<forall>p \<in> set (map_append [] ps). wf_json (snd p)"
    by (rule map_append_values [OF _ rv_object.IH(2)]) simp
  with rv_object.IH(4) have "list_all (\<lambda>(k, v). wf_json v) (map_append [] ps @ news)"
    by (auto simp: list_all_iff)
  moreover have "distinct (map fst (map_append [] ps @ news))"
    using rv_object.hyps distinct_append_map [of "[]" ps] keys_append [of "[]" ps] by (auto simp: image_def)
  ultimately show ?case by simp
qed auto

end
