(* ===== verification/Recovery.thy ===== *)
theory Recovery
  imports Issuance_Serial Unpack Engine
begin

text \<open>
  Issuance against verification: when every disclosure an issuer made is presented, unpacking the
  concealed value gives the issuer's claims back, up to the order of the members of objects.
\<close>

subsection \<open>What the two sides agree on\<close>

text \<open>The decoded form of a disclosure.\<close>

definition disclosure_content :: "string option \<Rightarrow> json \<Rightarrow> string \<Rightarrow> json" where
  "disclosure_content key v salt =
     (case key of Some k \<Rightarrow> Array [String salt, String k, v] | None \<Rightarrow> Array [String salt, v])"

text \<open>
  What the one-pass concealment puts into disclosures, in their order: for each the name of the
  member (none for an array element), the concealed value and the salt drawn for it.
\<close>

type_synonym disclosed_content = "string option \<times> json \<times> string"

fun direct_contents ::
      "'k externals \<Rightarrow> 'r random_source \<Rightarrow> bool \<Rightarrow> json \<Rightarrow> strategy \<Rightarrow> 'r \<Rightarrow> disclosed_content list"
  and array_contents ::
      "'k externals \<Rightarrow> 'r random_source \<Rightarrow> bool \<Rightarrow> nat \<Rightarrow> json list \<Rightarrow> strategy \<Rightarrow> 'r \<Rightarrow> disclosed_content list"
  and object_contents ::
      "'k externals \<Rightarrow> 'r random_source \<Rightarrow> bool \<Rightarrow> json_map \<Rightarrow> strategy \<Rightarrow> 'r \<Rightarrow> disclosed_content list"
where
  "direct_contents X R decoys (Array vs) strat r = array_contents X R decoys 0 vs strat r"
| "direct_contents X R decoys (Object ms) strat r = object_contents X R decoys ms strat r"
| "direct_contents X R decoys v strat r = []"
| "array_contents X R decoys index [] strat r = []"
| "array_contents X R decoys index (v # vs) strat r =
     (case direct_value X R decoys v (next_level strat (index_key index)) r of (out, ds, r1) \<Rightarrow>
      direct_contents X R decoys v (next_level strat (index_key index)) r @
      (if sd_for_key strat (index_key index)
       then case disclosure_salt R r1 of (salt, r2) \<Rightarrow>
            (None, out, salt) # array_contents X R decoys (Suc index) vs strat r2
       else array_contents X R decoys (Suc index) vs strat r1))"
| "object_contents X R decoys [] strat r = []"
| "object_contents X R decoys ((key, v) # ms) strat r =
     (case direct_value X R decoys v (next_level strat key) r of (out, ds, r1) \<Rightarrow>
      direct_contents X R decoys v (next_level strat key) r @
      (if sd_for_key strat key
       then case disclosure_salt R r1 of (salt, r2) \<Rightarrow>
            (Some key, out, salt) # object_contents X R decoys ms strat r2
       else object_contents X R decoys ms strat r1))"

definition disclosure_of :: "'k externals \<Rightarrow> disclosed_content \<Rightarrow> disclosure" where
  "disclosure_of X c = (case c of (key, v, salt) \<Rightarrow> new_with_salt X key v salt)"

text \<open>A digest table that has its decoded form for each of these disclosures.\<close>

definition opens :: "'k externals \<Rightarrow> (string \<rightharpoonup> json) \<Rightarrow> disclosed_content list \<Rightarrow> bool" where
  "opens X T cs \<longleftrightarrow>
     list_all (\<lambda>(key, v, salt). T (hash (new_with_salt X key v salt)) = Some (disclosure_content key v salt)) cs"

text \<open>Claims that survive the round trip: no structural names, no empty arrays.\<close>

fun no_empty_array :: "json \<Rightarrow> bool" where
  "no_empty_array (Array vs) = (vs \<noteq> [] \<and> list_all no_empty_array vs)"
| "no_empty_array (Object m) = list_all (\<lambda>(k, v). no_empty_array v) m"
| "no_empty_array v = True"

definition structural_keys :: "string set" where
  "structural_keys = {SD_DIGESTS_KEY, SD_LIST_PREFIX, DIGEST_ALG_KEY}"

definition issuable :: "json \<Rightarrow> bool" where
  "issuable v \<longleftrightarrow> wf_json v \<and> keys_avoid structural_keys v \<and> no_empty_array v"

lemma direct_contents_made:
  "fst (snd (direct_value X R decoys v strat r)) = map (disclosure_of X) (direct_contents X R decoys v strat r)"
  "fst (snd (direct_array X R decoys i vs strat r)) = map (disclosure_of X) (array_contents X R decoys i vs strat r)"
  "fst (snd (snd (direct_object X R decoys claims ms strat r))) = map (disclosure_of X) (object_contents X R decoys ms strat r)"
  by (induction X R decoys v strat r and X R decoys i vs strat r and X R decoys claims ms strat r
      rule: direct_value_direct_array_direct_object.induct)
    (auto simp: Let_def disclosure_of_def split: prod.splits)

lemma opens_simps [simp]:
  "opens X T []" "opens X T (cs @ cs') \<longleftrightarrow> opens X T cs \<and> opens X T cs'"
  "opens X T ((key, v, salt) # cs) \<longleftrightarrow>
     T (hash (new_with_salt X key v salt)) = Some (disclosure_content key v salt) \<and> opens X T cs"
  by (simp_all add: opens_def)

lemma issuable_Array: "issuable (Array vs) \<longleftrightarrow> vs \<noteq> [] \<and> (\<forall>v \<in> set vs. issuable v)"
  by (auto simp: issuable_def list_all_iff)

lemma issuable_Object:
  "issuable (Object ms) \<longleftrightarrow>
     distinct (map fst ms) \<and> (\<forall>(k, v) \<in> set ms. k \<notin> structural_keys \<and> issuable v)"
  by (auto simp: issuable_def list_all_iff)

lemma structural_reserved: "reserved_keys \<subseteq> structural_keys"
  by (auto simp: reserved_keys_def structural_keys_def)

subsection \<open>Disclosed members in any order\<close>

text \<open>
  An entry: a digest, the member it discloses (none for a decoy), and the digests below it.
\<close>

type_synonym revealed_entry = "string \<times> (string \<times> json) option \<times> string list"

definition entry_ok :: "(string \<rightharpoonup> json) \<Rightarrow> nat \<Rightarrow> revealed_entry \<Rightarrow> bool" where
  "entry_ok T h e \<longleftrightarrow>
     (case e of (dg, member, D) \<Rightarrow>
        (case member of
           None \<Rightarrow> T dg = None \<and> D = []
         | Some (k, out) \<Rightarrow> (\<exists>salt v. T dg = Some (Array [salt, String k, v]) \<and> k \<notin> reserved_keys \<and> reveals T h v out D)))"

definition entry_members :: "revealed_entry list \<Rightarrow> json_map" where
  "entry_members es = List.map_filter (\<lambda>e. fst (snd e)) es"

definition entry_digests :: "revealed_entry list \<Rightarrow> string list" where
  "entry_digests es = concat (map (\<lambda>e. fst e # snd (snd e)) es)"

lemma entries_revealed:
  "\<forall>e \<in> set es. entry_ok T h e \<Longrightarrow>
     reveals_digests T h (map (\<lambda>e. String (fst e)) es) (entry_members es) (entry_digests es)"
proof (induction es)
  case Nil
  then show ?case by (simp add: entry_members_def entry_digests_def List.map_filter_simps dg_Nil)
next
  case (Cons e es)
  obtain dg member D where e: "e = (dg, member, D)" by (cases e)
  from Cons have IH: "reveals_digests T h (map (\<lambda>e. String (fst e)) es) (entry_members es) (entry_digests es)"
    and ok: "entry_ok T h e" by auto
  show ?case
  proof (cases member)
    case None
    with ok e have "T dg = None" "D = []" by (auto simp: entry_ok_def)
    with IH e None show ?thesis
      by (simp add: entry_members_def entry_digests_def List.map_filter_simps dg_hidden)
  next
    case (Some m)
    obtain k out where m: "m = (k, out)" by (cases m)
    with ok e Some obtain salt v where "T dg = Some (Array [salt, String k, v])" "k \<notin> reserved_keys" "reveals T h v out D"
      by (auto simp: entry_ok_def)
    from dg_shown [OF this IH] show ?thesis
      using e Some m by (simp add: entry_members_def entry_digests_def List.map_filter_simps)
  qed
qed

text \<open>Any rearrangement of the digests lists some rearrangement of the entries.\<close>

lemma entries_permuted:
  "mset digests = mset (map fst (es :: revealed_entry list)) \<Longrightarrow> \<exists>es'. digests = map fst es' \<and> mset es' = mset es"
proof (induction digests arbitrary: es)
  case Nil
  then show ?case by simp
next
  case (Cons d digests)
  from Cons.prems have "d \<in> set (map fst es)" by (metis list.set_intros(1) set_mset_mset)
  then obtain e where e: "e \<in> set es" "d = fst e" by auto
  then obtain es1 where es1: "mset es = add_mset e (mset es1)"
    by (metis ex_mset multi_member_split set_mset_mset)
  with Cons.prems e have "mset digests = mset (map fst es1)" by simp
  from Cons.IH [OF this] obtain es' where "digests = map fst es'" "mset es' = mset es1" by blast
  with e es1 show ?case by (intro exI [of _ "e # es'"]) simp
qed

lemma entry_members_conv: "set (entry_members es) = {m. \<exists>dg D. (dg, Some m, D) \<in> set es}"
  by (force simp: entry_members_def List.map_filter_def image_iff)

lemma entry_members_permuted: "mset es = mset es' \<Longrightarrow> mset (entry_members es) = mset (entry_members es')"
  by (simp add: entry_members_def List.map_filter_def)

lemma entry_digests_permuted: "mset es = mset es' \<Longrightarrow> mset (entry_digests es) = mset (entry_digests es')"
proof -
  have "mset (entry_digests es) = (\<Sum>e \<in># mset es. mset (fst e # snd (snd e)))" for es
    by (induction es) (auto simp: entry_digests_def)
  then show "mset es = mset es' \<Longrightarrow> mset (entry_digests es) = mset (entry_digests es')" by simp
qed

subsection \<open>Recovery of a concealed value\<close>

text \<open>No decoy the source can draw is the digest of a disclosure.\<close>

definition decoys_hidden :: "'k externals \<Rightarrow> 'r random_source \<Rightarrow> bool \<Rightarrow> (string \<rightharpoonup> json) \<Rightarrow> bool" where
  "decoys_hidden X R decoys T \<longleftrightarrow> (\<forall>r. \<forall>dg \<in> set (fst (direct_decoys X R decoys r)). T dg = None)"

lemma direct_decoys_none: "direct_decoys X R False r = ([], r)"
  by (simp add: direct_decoys_def)

lemma decoys_hidden_none: "decoys_hidden X R False T"
  by (simp add: decoys_hidden_def direct_decoys_none)

text \<open>Digests of the disclosures, and of decoys when there are some.\<close>

definition covers_digests :: "bool \<Rightarrow> disclosure list \<Rightarrow> string list \<Rightarrow> bool" where
  "covers_digests decoys ds D \<longleftrightarrow>
     hash ` set ds \<subseteq> set D \<and> (\<not> decoys \<longrightarrow> mset D = mset (map hash ds))"

lemma covers_Nil [simp]: "covers_digests decoys [] []"
  by (simp add: covers_digests_def)

lemma covers_append: "covers_digests c ds D \<Longrightarrow> covers_digests c ds' D' \<Longrightarrow> covers_digests c (ds @ ds') (D @ D')"
  by (auto simp: covers_digests_def)

lemma covers_Cons: "covers_digests c ds D \<Longrightarrow> covers_digests c (d # ds) (hash d # D)"
  by (auto simp: covers_digests_def)

lemma covers_mset: "covers_digests c ds D \<Longrightarrow> mset ds = mset ds' \<Longrightarrow> mset D = mset D' \<Longrightarrow> covers_digests c ds' D'"
proof -
  assume c: "covers_digests c ds D" and m: "mset ds = mset ds'" "mset D = mset D'"
  from m have "set ds = set ds'" "set D = set D'" by (metis set_mset_mset)+
  moreover have "mset (map hash ds) = mset (map hash ds')" using m(1) by (simp add: mset_map)
  ultimately show ?thesis using c m(2) by (simp add: covers_digests_def)
qed

definition recovers :: "(string \<rightharpoonup> json) \<Rightarrow> nat \<Rightarrow> bool \<Rightarrow> json \<Rightarrow> json \<Rightarrow> disclosure list \<Rightarrow> bool" where
  "recovers T h c v out ds \<longleftrightarrow>
     (\<exists>out' D. reveals T h out out' D \<and> json_eqv v out' \<and> covers_digests c ds D) \<and> \<not> is_placeholder out"

definition recovers_elems :: "(string \<rightharpoonup> json) \<Rightarrow> nat \<Rightarrow> bool \<Rightarrow> json list \<Rightarrow> json list \<Rightarrow> disclosure list \<Rightarrow> bool" where
  "recovers_elems T h c vs outs ds \<longleftrightarrow>
     (\<exists>outs' D. reveals_elems T h outs outs' D \<and> list_all2 json_eqv vs outs' \<and> covers_digests c ds D)"

text \<open>
  For the members of an object: the visible ones \<open>vis\<close>, revealed as \<open>ps\<close> with digests \<open>D\<close>, and the
  disclosed ones as entries.
\<close>

definition recovers_members ::
    "(string \<rightharpoonup> json) \<Rightarrow> nat \<Rightarrow> bool \<Rightarrow> json_map \<Rightarrow> json_map \<Rightarrow> string list \<Rightarrow> disclosure list \<Rightarrow> bool" where
  "recovers_members T h c ms vis digests ds \<longleftrightarrow>
     (\<exists>ps D es. reveals_members T h vis ps D \<and> map fst ps = map fst vis \<and> digests = map fst es \<and>
        (\<forall>e \<in> set es. entry_ok T h e \<and> fst (snd e) \<noteq> None) \<and>
        mset (map fst (ps @ entry_members es)) = mset (map fst ms) \<and>
        (\<forall>(k, v) \<in> set ms. \<exists>out. (k, out) \<in> set (ps @ entry_members es) \<and> json_eqv v out) \<and>
        covers_digests c ds (D @ entry_digests es))"

lemma recovers_members_Nil: "recovers_members T h c [] [] [] []"
  unfolding recovers_members_def
  by (intro exI [of _ "[]"]) (simp add: mb_Nil entry_members_def entry_digests_def List.map_filter_simps)

lemma recovers_members_visible:
  assumes "recovers T h c v out ds1" and "recovers_members T h c ms vis digests ds2"
    and "key \<noteq> SD_DIGESTS_KEY" and "key \<noteq> DIGEST_ALG_KEY"
  shows "recovers_members T h c ((key, v) # ms) ((key, out) # vis) digests (ds1 @ ds2)"
proof -
  from assms(1) obtain out' D1 where v: "reveals T h out out' D1" "json_eqv v out'" "covers_digests c ds1 D1"
    unfolding recovers_def by blast
  from assms(2) obtain ps D es where m: "reveals_members T h vis ps D" "map fst ps = map fst vis" "digests = map fst es"
    "\<forall>e \<in> set es. entry_ok T h e \<and> fst (snd e) \<noteq> None" "mset (map fst (ps @ entry_members es)) = mset (map fst ms)"
    "\<forall>(k, v) \<in> set ms. \<exists>out. (k, out) \<in> set (ps @ entry_members es) \<and> json_eqv v out"
    "covers_digests c ds2 (D @ entry_digests es)" unfolding recovers_members_def by blast
  have "reveals_members T h ((key, out) # vis) ((key, out') # ps) (D1 @ D)"
    by (rule mb_keep) (use assms v m in simp_all)
  moreover have "covers_digests c (ds1 @ ds2) ((D1 @ D) @ entry_digests es)"
    using covers_append [OF v(3) m(7)] by simp
  moreover have "\<forall>(k, w) \<in> set ((key, v) # ms). \<exists>out. (k, out) \<in> set (((key, out') # ps) @ entry_members es) \<and> json_eqv w out"
    using m(6) v(2) by auto
  ultimately show ?thesis
    unfolding recovers_members_def using m(2-5)
    by (intro exI [of _ "(key, out') # ps"] exI [of _ "D1 @ D"] exI [of _ es]) simp
qed

lemma recovers_members_disclosed:
  assumes "recovers T h c v out ds1" and "recovers_members T h c ms vis digests ds2"
    and "key \<notin> reserved_keys" and "d = new_with_salt X (Some key) out salt"
    and "T (hash d) = Some (disclosure_content (Some key) out salt)"
  shows "recovers_members T h c ((key, v) # ms) vis (hash d # digests) (ds1 @ d # ds2)"
proof -
  from assms(1) obtain out' D1 where v: "reveals T h out out' D1" "json_eqv v out'" "covers_digests c ds1 D1"
    unfolding recovers_def by blast
  from assms(2) obtain ps D es where m: "reveals_members T h vis ps D" "map fst ps = map fst vis" "digests = map fst es"
    "\<forall>e \<in> set es. entry_ok T h e \<and> fst (snd e) \<noteq> None" "mset (map fst (ps @ entry_members es)) = mset (map fst ms)"
    "\<forall>(k, v) \<in> set ms. \<exists>out. (k, out) \<in> set (ps @ entry_members es) \<and> json_eqv v out"
    "covers_digests c ds2 (D @ entry_digests es)" unfolding recovers_members_def by blast
  let ?e = "(hash d, Some (key, out'), D1)"
  have ok: "entry_ok T h ?e"
    using assms(3,5) v(1) by (auto simp: entry_ok_def disclosure_content_def)
  have mem: "entry_members (?e # es) = (key, out') # entry_members es"
    by (simp add: entry_members_def List.map_filter_simps)
  have "covers_digests c ([d] @ ds1 @ ds2) (([hash d] @ D1) @ (D @ entry_digests es))"
    using covers_append [OF covers_Cons [OF v(3), of d] m(7)] by simp
  then have "covers_digests c (ds1 @ d # ds2) (D @ entry_digests (?e # es))"
    by (rule covers_mset) (simp_all add: entry_digests_def)
  moreover have "\<forall>(k, w) \<in> set ((key, v) # ms). \<exists>out. (k, out) \<in> set (ps @ entry_members (?e # es)) \<and> json_eqv w out"
    using m(6) v(2) by (auto simp: mem)
  ultimately show ?thesis
    unfolding recovers_members_def using m(1-5) ok
    by (intro exI [of _ ps] exI [of _ D] exI [of _ "?e # es"]) (simp add: mem)
qed

lemma recovers_elems_Nil: "recovers_elems T h c [] [] []"
  unfolding recovers_elems_def by (intro exI [of _ "[]"]) (simp add: el_Nil)

lemma recovers_elems_visible:
  assumes "recovers T h c v out ds1" and "recovers_elems T h c vs outs ds2"
  shows "recovers_elems T h c (v # vs) (out # outs) (ds1 @ ds2)"
proof -
  from assms(1) obtain out' D1 where v: "reveals T h out out' D1" "json_eqv v out'" "covers_digests c ds1 D1"
    and plain: "\<not> is_placeholder out" unfolding recovers_def by blast
  from assms(2) obtain outs' D2 where vs: "reveals_elems T h outs outs' D2" "list_all2 json_eqv vs outs'"
    "covers_digests c ds2 D2" unfolding recovers_elems_def by blast
  from el_plain [OF plain v(1) vs(1)] covers_append [OF v(3) vs(3)] show ?thesis
    unfolding recovers_elems_def using v(2) vs(2) by (intro exI [of _ "out' # outs'"] exI [of _ "D1 @ D2"]) simp
qed

lemma recovers_elems_disclosed:
  assumes "recovers T h c v out ds1" and "recovers_elems T h c vs outs ds2"
    and "d = new_with_salt X None out salt" and "T (hash d) = Some (disclosure_content None out salt)"
  shows "recovers_elems T h c (v # vs) (placeholder (hash d) # outs) (ds1 @ d # ds2)"
proof -
  from assms(1) obtain out' D1 where v: "reveals T h out out' D1" "json_eqv v out'" "covers_digests c ds1 D1"
    unfolding recovers_def by blast
  from assms(2) obtain outs' D2 where vs: "reveals_elems T h outs outs' D2" "list_all2 json_eqv vs outs'"
    "covers_digests c ds2 D2" unfolding recovers_elems_def by blast
  have "T (hash d) = Some (Array [String salt, out])"
    using assms(4) by (simp add: disclosure_content_def)
  from el_shown [OF this v(1) vs(1)]
  have "reveals_elems T h (placeholder (hash d) # outs) (out' # outs') (hash d # D1 @ D2)"
    by (simp add: placeholder_def)
  moreover have "covers_digests c (ds1 @ d # ds2) (hash d # D1 @ D2)"
    by (rule covers_mset [OF covers_append [OF covers_Cons [OF v(3), of d] vs(3)]]) simp_all
  ultimately show ?thesis
    unfolding recovers_elems_def using v(2) vs(2)
    by (intro exI [of _ "out' # outs'"] exI [of _ "hash d # D1 @ D2"]) simp
qed

lemma map_append_fresh: "distinct (map fst (m @ m')) \<Longrightarrow> map_append m m' = m @ m'"
proof (induction m' arbitrary: m)
  case Nil
  then show ?case by simp
next
  case (Cons p m')
  obtain k v where p: "p = (k, v)" by (cases p)
  from Cons.prems have "k \<notin> fst ` set m" by (auto simp: p)
  then have "map_insert k v m = m @ [(k, v)]" by (rule map_insert_new)
  then show ?case
    using Cons.IH [of "m @ [(k, v)]"] Cons.prems by (simp add: p map_append_Cons)
qed

lemma json_eqv_members:
  assumes "distinct (map fst ms)" and "mset (map fst qs) = mset (map fst ms)"
    and "\<And>k v. (k, v) \<in> set ms \<Longrightarrow> \<exists>out. (k, out) \<in> set qs \<and> json_eqv v out"
  shows "json_eqv (Object ms) (Object qs)"
proof (rule eqv_Object)
  show d: "distinct (map fst qs)"
    using assms(1) mset_eq_imp_distinct_iff [OF assms(2)] by blast
  show "fst ` set ms = fst ` set qs"
    using arg_cong [OF assms(2), of set_mset] by simp
  show "json_eqv v w" if v: "(k, v) \<in> set ms" and w: "(k, w) \<in> set qs" for k v w
  proof -
    from assms(3) [OF v] obtain out where "(k, out) \<in> set qs" "json_eqv v out" by blast
    with w d show ?thesis by (metis eq_key_imp_eq_value)
  qed
qed (fact assms(1))

lemma map_get_none: "k \<notin> fst ` set m \<Longrightarrow> map_get m k = None"
  by (auto simp: map_get_def map_of_eq_None_iff)

lemma concat_singletons: "concat (map (\<lambda>x. [x]) xs) = xs"
  by (induction xs) simp_all

lemma recovers_object:
  assumes "recovers_members T h c ms vis digests ds" and "\<forall>dg \<in> set decs. T dg = None" and "decs \<noteq> [] \<Longrightarrow> c"
    and "distinct (map fst ms)" and "SD_DIGESTS_KEY \<notin> fst ` set vis" and "SD_LIST_PREFIX \<notin> fst ` set vis"
  shows "recovers T (Suc h) c (Object ms) (finish_object ((SD_DIGESTS_KEY, Null) # vis) (digests @ decs)) ds"
proof -
  from assms(1) obtain ps D es where m: "reveals_members T h vis ps D" "map fst ps = map fst vis" "digests = map fst es"
    "\<forall>e \<in> set es. entry_ok T h e \<and> fst (snd e) \<noteq> None" "mset (map fst (ps @ entry_members es)) = mset (map fst ms)"
    "\<forall>(k, v) \<in> set ms. \<exists>out. (k, out) \<in> set (ps @ entry_members es) \<and> json_eqv v out"
    "covers_digests c ds (D @ entry_digests es)" unfolding recovers_members_def by blast
  define all where "all = es @ map (\<lambda>dg. (dg, None, [])) decs"
  define listed where "listed = sort (digests @ decs)"
  have "mset listed = mset (map fst all)"
    by (simp add: listed_def all_def m(3) comp_def)
  from entries_permuted [OF this] obtain es' where es': "listed = map fst es'" "mset es' = mset all" by blast
  have mem: "mset (entry_members es') = mset (entry_members es)"
  proof -
    have "entry_members all = entry_members es"
      by (simp add: entry_members_def all_def List.map_filter_def comp_def)
    then show ?thesis using entry_members_permuted [OF es'(2)] by simp
  qed
  have setm: "set (entry_members es') = set (entry_members es)" using mem by (metis set_mset_mset)
  have "set es' = set all" using es'(2) by (metis set_mset_mset)
  then have "\<forall>e \<in> set es'. entry_ok T h e"
    using m(4) assms(2) by (auto simp: all_def entry_ok_def)
  from entries_revealed [OF this]
  have dg: "reveals_digests T h (map String listed) (entry_members es') (entry_digests es')"
    by (simp add: es'(1) comp_def)
  have keys: "mset (map fst (ps @ entry_members es')) = mset (map fst ms)"
    using m(5) mem by (simp add: mset_map)
  then have dist: "distinct (map fst (ps @ entry_members es'))"
    using assms(4) mset_eq_imp_distinct_iff by blast
  define obj where "obj = (if digests @ decs = [] then vis else (SD_DIGESTS_KEY, Array (map String listed)) # vis)"
  have "filter (\<lambda>p. fst p \<noteq> SD_DIGESTS_KEY) vis = vis"
    by (rule filter_True) (use assms(5) in force)
  then have fin: "finish_object ((SD_DIGESTS_KEY, Null) # vis) (digests @ decs) = Object obj"
    by (auto simp: finish_object_def obj_def listed_def shift_remove_def map_insert_def)
  have mb: "reveals_members T h obj ps D"
    using m(1) by (auto simp: obj_def intro: mb_skip)
  have sd: "sd_digests obj = map String listed"
    using assms(5) by (auto simp: sd_digests_def obj_def listed_def map_get_none)
  have "reveals T (Suc h) (Object obj) (Object (map_append [] ps @ entry_members es')) (D @ entry_digests es')"
    by (rule rv_object [OF mb]) (use dg sd dist in auto)
  moreover have "map_append [] ps = ps"
    using map_append_fresh [of "[]" ps] dist by simp
  moreover have "json_eqv (Object ms) (Object (ps @ entry_members es'))"
    by (rule json_eqv_members [OF assms(4) keys]) (use m(6) setm in auto)
  moreover have "covers_digests c ds (D @ entry_digests es')"
  proof -
    have ed: "entry_digests all = entry_digests es @ decs"
      using concat_singletons [of decs] by (simp add: entry_digests_def all_def comp_def)
    have "covers_digests c ds (D @ entry_digests all)"
      using m(7) assms(3) unfolding ed by (cases c; cases "decs = []") (auto simp: covers_digests_def)
    then show ?thesis
      by (rule covers_mset) (simp_all add: entry_digests_permuted [OF es'(2)])
  qed
  moreover have "\<not> is_placeholder (Object obj)"
    using assms(6) by (auto simp: is_placeholder_def contains_key_conv obj_def key_defs split: if_splits)
  ultimately show ?thesis
    unfolding recovers_def fin by auto
qed

lemma issuable_scalar: "issuable v \<Longrightarrow> is_scalar_json v \<Longrightarrow> recovers T h c v v []"
  unfolding recovers_def
  by (cases v) (auto simp: is_scalar_json_def is_placeholder_def issuable_def json_eqv_refl
      intro!: exI [of _ "[]"] exI [of _ v] rv_scalar)

lemma direct_recovers:
  "direct_value X R decoys v strat r = (out, ds, r') \<Longrightarrow> issuable v \<Longrightarrow> json_depth v \<le> h \<Longrightarrow>
     opens X T (direct_contents X R decoys v strat r) \<Longrightarrow> decoys_hidden X R decoys T \<Longrightarrow> recovers T h decoys v out ds"
  "direct_array X R decoys i vs strat r = (outs, ds, r') \<Longrightarrow> (\<forall>v \<in> set vs. issuable v \<and> json_depth v \<le> h) \<Longrightarrow>
     opens X T (array_contents X R decoys i vs strat r) \<Longrightarrow> decoys_hidden X R decoys T \<Longrightarrow> recovers_elems T h decoys vs outs ds"
  "direct_object X R decoys claims ms strat r = (claims', digests, ds, r') \<Longrightarrow> distinct (map fst ms) \<Longrightarrow>
     fst ` set ms \<inter> fst ` set claims = {} \<Longrightarrow>
     (\<forall>(k, v) \<in> set ms. k \<notin> structural_keys \<and> issuable v \<and> json_depth v \<le> h) \<Longrightarrow>
     opens X T (object_contents X R decoys ms strat r) \<Longrightarrow> decoys_hidden X R decoys T \<Longrightarrow>
     \<exists>vis. claims' = claims @ vis \<and> fst ` set vis \<subseteq> fst ` set ms \<and> recovers_members T h decoys ms vis digests ds"
proof (induction X R decoys v strat r and X R decoys i vs strat r and X R decoys claims ms strat r
    arbitrary: out ds r' h and outs ds r' h and claims' digests ds r' h
    rule: direct_value_direct_array_direct_object.induct)
  case (1 X R decoys vs strat r)
  from "1.prems"(1) obtain outs where run: "direct_array X R decoys 0 vs strat r = (outs, ds, r')" and out: "out = Array outs"
    by (auto split: prod.splits)
  from "1.prems"(2,3) obtain h' where h: "h = Suc h'" and vs: "vs \<noteq> []" "\<forall>v \<in> set vs. issuable v \<and> json_depth v \<le> h'"
    by (cases h) (auto simp: issuable_Array json_depth_Array_le simp del: json_depth.simps, simp add: json_depth.simps)
  from "1.IH" [OF run vs(2) "1.prems"(4) [unfolded direct_contents.simps] "1.prems"(5)] obtain outs' D where "reveals_elems T h' outs outs' D"
    "list_all2 json_eqv vs outs'" "covers_digests decoys ds D" unfolding recovers_elems_def by blast
  moreover from run vs(1) have "outs \<noteq> []" by (cases vs) (auto split: prod.splits if_splits simp: Let_def)
  ultimately show ?case
    unfolding recovers_def out h by (intro conjI exI [of _ "Array outs'"] exI [of _ D]) (auto simp: is_placeholder_def intro: rv_array)
next
  case (2 X R decoys ms strat r)
  from "2.prems"(1) obtain claims digests r1 decs where
    run: "direct_object X R decoys (map_insert SD_DIGESTS_KEY Null []) ms strat r = (claims, digests, ds, r1)"
    and dec: "direct_decoys X R decoys r1 = (decs, r')" and out: "out = finish_object claims (digests @ decs)"
    by (auto split: prod.splits)
  from "2.prems"(2,3) obtain h' where h: "h = Suc h'" and ms: "distinct (map fst ms)"
      "\<forall>(k, v) \<in> set ms. k \<notin> structural_keys \<and> issuable v \<and> json_depth v \<le> h'"
    by (cases h) (auto simp: issuable_Object json_depth_Object_le simp del: json_depth.simps, simp add: json_depth.simps)
  have start: "map_insert SD_DIGESTS_KEY Null [] = [(SD_DIGESTS_KEY, Null)]" by (simp add: map_insert_def)
  have sd: "SD_DIGESTS_KEY \<notin> fst ` set ms" "SD_LIST_PREFIX \<notin> fst ` set ms"
    using ms(2) by (auto simp: structural_keys_def)
  then have "fst ` set ms \<inter> fst ` set (map_insert SD_DIGESTS_KEY Null []) = {}" by (simp add: start)
  from "2.IH" [OF run ms(1) this ms(2) "2.prems"(4) [unfolded direct_contents.simps] "2.prems"(5)] obtain vis where vis: "claims = (SD_DIGESTS_KEY, Null) # vis"
    "fst ` set vis \<subseteq> fst ` set ms" "recovers_members T h' decoys ms vis digests ds" by (auto simp: start)
  have hidden: "\<forall>dg \<in> set decs. T dg = None"
    using "2.prems"(5) dec unfolding decoys_hidden_def by (metis fst_conv)
  have enabled: "decs \<noteq> [] \<Longrightarrow> decoys" using dec by (cases decoys) (auto simp: direct_decoys_def)
  show ?case
    unfolding out vis(1) h by (rule recovers_object [OF vis(3) hidden enabled]) (use ms(1) sd vis(2) in auto)
next
  case (4 X R decoys index strat r)
  then show ?case by (simp add: recovers_elems_Nil)
next
  case (5 X R decoys index v vs strat r)
  obtain out ds1 r1 where v: "direct_value X R decoys v (next_level strat (index_key index)) r = (out, ds1, r1)"
    by (rule prod_cases3)
  show ?case
  proof (cases "sd_for_key strat (index_key index)")
    case True
    obtain salt r2 where salt: "disclosure_salt R r1 = (salt, r2)" by (rule prod.exhaust)
    let ?d = "new_with_salt X None out salt"
    obtain outs2 ds2 r3 where rest: "direct_array X R decoys (Suc index) vs strat r2 = (outs2, ds2, r3)" by (rule prod_cases3)
    from "5.prems"(1) v salt rest True have eq: "outs = placeholder (hash ?d) # outs2" "ds = ds1 @ ?d # ds2"
      by (auto simp: Let_def)
    from "5.prems"(3) v salt True have op: "opens X T (direct_contents X R decoys v (next_level strat (index_key index)) r)"
      "opens X T (array_contents X R decoys (Suc index) vs strat r2)" "T (hash ?d) = Some (disclosure_content None out salt)"
      by simp_all
    have "recovers T h decoys v out ds1" by (rule "5.IH"(1) [OF v]) (use "5.prems" op in auto)
    moreover have "recovers_elems T h decoys vs outs2 ds2"
      by (rule "5.IH"(2) [OF v [symmetric] refl True salt [symmetric] refl rest]) (use "5.prems" op in auto)
    ultimately show ?thesis
      unfolding eq by (rule recovers_elems_disclosed) (use op in simp_all)
  next
    case False
    obtain outs2 ds2 r3 where rest: "direct_array X R decoys (Suc index) vs strat r1 = (outs2, ds2, r3)" by (rule prod_cases3)
    from "5.prems"(1) v rest False have eq: "outs = out # outs2" "ds = ds1 @ ds2" by auto
    from "5.prems"(3) v False have op: "opens X T (direct_contents X R decoys v (next_level strat (index_key index)) r)"
      "opens X T (array_contents X R decoys (Suc index) vs strat r1)" by simp_all
    have "recovers T h decoys v out ds1" by (rule "5.IH"(1) [OF v]) (use "5.prems" op in auto)
    moreover have "recovers_elems T h decoys vs outs2 ds2"
      by (rule "5.IH"(3) [OF v [symmetric] refl False rest]) (use "5.prems" op in auto)
    ultimately show ?thesis unfolding eq by (rule recovers_elems_visible)
  qed
next
  case (6 X R decoys claims strat r)
  then show ?case by (simp add: recovers_members_Nil)
next
  case (7 X R decoys claims key v ms strat r)
  obtain out ds1 r1 where v: "direct_value X R decoys v (next_level strat key) r = (out, ds1, r1)"
    by (rule prod_cases3)
  have key: "key \<notin> reserved_keys" "key \<noteq> SD_DIGESTS_KEY" "key \<noteq> DIGEST_ALG_KEY"
    using "7.prems"(4) structural_reserved by (auto simp: structural_keys_def)
  show ?case
  proof (cases "sd_for_key strat key")
    case True
    obtain salt r2 where salt: "disclosure_salt R r1 = (salt, r2)" by (rule prod.exhaust)
    let ?d = "new_with_salt X (Some key) out salt"
    obtain claims2 digests2 ds2 r3 where rest: "direct_object X R decoys claims ms strat r2 = (claims2, digests2, ds2, r3)"
      by (rule prod_cases4)
    from "7.prems"(1) v salt rest True have eq: "claims' = claims2" "digests = hash ?d # digests2" "ds = ds1 @ ?d # ds2"
      by (auto simp: Let_def)
    from "7.prems"(5) v salt True have op: "opens X T (direct_contents X R decoys v (next_level strat key) r)"
      "opens X T (object_contents X R decoys ms strat r2)" "T (hash ?d) = Some (disclosure_content (Some key) out salt)"
      by simp_all
    have "recovers T h decoys v out ds1" by (rule "7.IH"(1) [OF v]) (use "7.prems" op in auto)
    moreover have "\<exists>vis. claims2 = claims @ vis \<and> fst ` set vis \<subseteq> fst ` set ms \<and> recovers_members T h decoys ms vis digests2 ds2"
      by (rule "7.IH"(2) [OF v [symmetric] refl True salt [symmetric] refl rest]) (use "7.prems" op in auto)
    then obtain vis where vis: "claims2 = claims @ vis" "fst ` set vis \<subseteq> fst ` set ms"
      "recovers_members T h decoys ms vis digests2 ds2" by blast
    ultimately have "recovers_members T h decoys ((key, v) # ms) vis (hash ?d # digests2) (ds1 @ ?d # ds2)"
      by (intro recovers_members_disclosed [OF _ _ key(1) refl]) (use op in simp_all)
    with vis show ?thesis unfolding eq by auto
  next
    case False
    obtain claims2 digests2 ds2 r3 where rest: "direct_object X R decoys (map_insert key out claims) ms strat r1 = (claims2, digests2, ds2, r3)"
      by (rule prod_cases4)
    from "7.prems"(1) v rest False have eq: "claims' = claims2" "digests = digests2" "ds = ds1 @ ds2" by auto
    from "7.prems"(5) v False have op: "opens X T (direct_contents X R decoys v (next_level strat key) r)"
      "opens X T (object_contents X R decoys ms strat r1)" by simp_all
    have ins: "map_insert key out claims = claims @ [(key, out)]"
      using "7.prems"(3) by (intro map_insert_new) auto
    have "recovers T h decoys v out ds1" by (rule "7.IH"(1) [OF v]) (use "7.prems" op in auto)
    moreover have "\<exists>vis. claims2 = map_insert key out claims @ vis \<and> fst ` set vis \<subseteq> fst ` set ms \<and>
        recovers_members T h decoys ms vis digests2 ds2"
      by (rule "7.IH"(3) [OF v [symmetric] refl False rest]) (use "7.prems" op ins in auto)
    then obtain vis where "claims2 = claims @ (key, out) # vis" "fst ` set vis \<subseteq> fst ` set ms"
      "recovers_members T h decoys ms vis digests2 ds2" by (auto simp: ins)
    ultimately show ?thesis
      unfolding eq using recovers_members_visible [OF _ _ key(2,3)]
      by (intro exI [of _ "(key, out) # vis"]) auto
  qed
qed (auto simp: is_scalar_json_def intro: issuable_scalar)

subsection \<open>The presented disclosures open the concealed value\<close>

text \<open>
  What the JSON parser owes the issuer: the text of each disclosure made parses to what was put
  into it. Nothing is asked of the other contents that would give the same text.
\<close>

definition texts_parse :: "'k externals \<Rightarrow> disclosed_content list \<Rightarrow> bool" where
  "texts_parse X cs \<longleftrightarrow>
     list_all (\<lambda>(key, v, salt).
       json_from_slice X (disclosure_data X key v salt) = Inr (disclosure_content key v salt)) cs"

definition made :: "'k externals \<Rightarrow> disclosure list \<Rightarrow> bool" where
  "made X ds \<longleftrightarrow> (\<forall>d \<in> set ds. \<exists>key v salt. d = new_with_salt X key v salt)"

lemma made_simps [simp]:
  "made X []" "made X (ds @ ds') \<longleftrightarrow> made X ds \<and> made X ds'"
  "made X (d # ds) \<longleftrightarrow> (\<exists>key v salt. d = new_with_salt X key v salt) \<and> made X ds"
  by (auto simp: made_def)

lemma direct_made:
  "made X (fst (snd (direct_value X R decoys v strat r)))"
  "made X (fst (snd (direct_array X R decoys i vs strat r)))"
  "made X (fst (snd (snd (direct_object X R decoys claims ms strat r))))"
  by (induction X R decoys v strat r and X R decoys i vs strat r and X R decoys claims ms strat r
      rule: direct_value_direct_array_direct_object.induct) (auto simp: Let_def split: prod.splits)

lemma made_hash: "made X ds \<Longrightarrow> d \<in> set ds \<Longrightarrow> hash d = base64_hash X (raw_b64 d)"
  by (auto simp: made_def new_with_salt_sel)

lemma disclosure_decodes:
  assumes "base64_inverse X" and "texts_parse X cs" and "(key, v, salt) \<in> set cs"
  shows "decode_disclosure X (raw_b64 (new_with_salt X key v salt)) = Ok (disclosure_content key v salt)"
  using assms
  by (auto simp: decode_disclosure_def new_with_salt_sel base64url_encode_def base64_inverse_def texts_parse_def list_all_iff)

lemma issued_presentable:
  assumes X: "base64_inverse X" "texts_parse X cs" and ds: "ds = map (disclosure_of X) cs" "distinct (map hash ds)"
    and encs: "mset encs = mset (map raw_b64 ds)"
  shows "presentable X encs" and "opens X (dm_decoded (mappings_of X encs)) cs"
proof -
  have made: "made X ds" by (auto simp: ds(1) made_def disclosure_of_def split: prod.splits)
  have set: "set encs = raw_b64 ` set ds" using arg_cong [OF encs, of set_mset] by simp
  have hashes: "map (base64_hash X) (map raw_b64 ds) = map hash ds" using made_hash [OF made] by simp
  have "mset (map (base64_hash X) encs) = mset (map hash ds)"
    using encs by (metis hashes mset_map)
  then have "distinct (map (base64_hash X) encs)" using ds(2) mset_eq_imp_distinct_iff by blast
  moreover have "is_ok (decode_disclosure X e)" if "e \<in> set encs" for e
    using that disclosure_decodes [OF X] by (fastforce simp: set ds(1) disclosure_of_def is_ok_conv)
  ultimately show p: "presentable X encs" by (simp add: presentable_def)
  have "dm_decoded (mappings_of X encs) (hash (new_with_salt X key v salt)) = Some (disclosure_content key v salt)"
    if c: "(key, v, salt) \<in> set cs" for key v salt
  proof -
    have "new_with_salt X key v salt \<in> set ds"
      using c by (force simp: ds(1) disclosure_of_def image_iff)
    then show ?thesis
      unfolding mappings_decoded [OF p] set
      using disclosure_decodes [OF X c] made_hash [OF made] by (metis imageI)
  qed
  then show "opens X (dm_decoded (mappings_of X encs)) cs"
    by (auto simp: opens_def list_all_iff)
qed

text \<open>Without decoys: the digests met are those of the disclosures, each once.\<close>

lemma direct_unpacks:
  assumes "direct_value X R False v strat r = (out, ds, r')" and "issuable v"
    and "json_depth v \<le> MAX_PROCESSED_SD_JWT_DEPTH" and "opens X T (direct_contents X R False v strat r)" and "distinct (map hash ds)"
  shows "\<exists>out'. unpack_disclosed_claims T {} out 0 = Ok (out', hash ` set ds) \<and> json_eqv v out'"
proof -
  from direct_recovers(1) [OF assms(1-4) decoys_hidden_none] obtain out' D
    where "reveals T MAX_PROCESSED_SD_JWT_DEPTH out out' D" "json_eqv v out'" "mset D = mset (map hash ds)"
    by (auto simp: recovers_def covers_digests_def)
  moreover from this have "distinct D" "set D = hash ` set ds"
    using assms(5) mset_eq_imp_distinct_iff by (blast, metis list.set_map set_mset_mset)
  ultimately have "unpack_disclosed_claims T {} out 0 = Ok (out', hash ` set ds)"
    using unpack_iff [of 0 T "{}" out out' "hash ` set ds"]
    by (auto simp: spent_def remaining_def)
  with \<open>json_eqv v out'\<close> show ?thesis by blast
qed

end
