(* ===== verification/Verifier.thy ===== *)
theory Verifier
  imports Unpack
begin

text \<open>
  src/src/verifier.rs: \<open>SDJWTVerifier::new_with_policy\<close> and the steps it runs in order: parsing, the
  digest tables, the issuer signature, the unpacking of the claims, the key binding JWT. The key
  callback is the argument \<open>resolve\<close>; thread spawning, free threads and the worker budget are the
  arguments of the adaptive preprocessing.
\<close>

record 'k sd_jwt_verifier =
  engine :: sd_common
  sd_jwt_payload :: json_map
  holder_public_key_payload :: "json_map option"
  duplicate_hash_check :: "string set"
  verified_claims :: json
  verifier_policy :: verification_policy
  cb_get_issuer_key :: "string \<Rightarrow> jose_header \<Rightarrow> 'k result"

definition verifier_start ::
    "serialization_format \<Rightarrow> (string \<Rightarrow> jose_header \<Rightarrow> 'k result) \<Rightarrow> verification_policy
       \<Rightarrow> 'k sd_jwt_verifier" where
  "verifier_start fmt resolve policy =
     \<lparr>engine = common_new fmt, sd_jwt_payload = [], holder_public_key_payload = None,
      duplicate_hash_check = {}, verified_claims = Null, verifier_policy = policy,
      cb_get_issuer_key = resolve\<rparr>"

text \<open>The verifier leaves \<open>validate_aud\<close> as the library sets it.\<close>

definition verifier_validation :: "'k externals \<Rightarrow> algorithm \<Rightarrow> validation" where
  "verifier_validation X a =
     (let v = validation_new X a
      in v\<lparr>val_required := removeAll ''exp'' (val_required v), val_nbf := True\<rparr>)"

definition verify_sd_jwt ::
    "'k externals \<Rightarrow> 'k sd_jwt_verifier \<Rightarrow> string option \<Rightarrow> 'k sd_jwt_verifier result" where
  "verify_sd_jwt X v alg_text =
     rbind (ok_or (unverified_sd_jwt (engine v)) (ConversionError ''reference'')) (\<lambda>sd_jwt.
     rbind (map_err DeserializationError (decode_header X sd_jwt)) (\<lambda>header.
     if \<not> policy_allows (verifier_policy v) (jh_alg header)
     then Err (InvalidInput (''Issuer-signed JWT algorithm '' @ alg_debug (jh_alg header)
                 @ '' is not allowed by verification policy''))
     else rbind (ok_or alg_text
             (InvalidInput ''Issuer-signed JWT header is missing the `alg` parameter'')) (\<lambda>declared.
     rbind (map_err DeserializationError (algorithm_from_str X declared)) (\<lambda>decoded_algorithm.
     if decoded_algorithm \<noteq> jh_alg header
     then Err (InvalidInput ''Issuer-signed JWT algorithm metadata is inconsistent'')
     else rbind (ok_or (unverified_payload (engine v)) (ConversionError ''reference'')) (\<lambda>payload.
     rbind (map_index payload ''iss'') (\<lambda>iss.
     rbind (ok_or (as_str iss) (ConversionError ''str'')) (\<lambda>unverified_issuer.
     rbind (cb_get_issuer_key v unverified_issuer header) (\<lambda>issuer_public_key.
     rbind (map_err (\<lambda>e. DeserializationError (''Cannot decode jwt: '' @ e))
             (jwt_decode X sd_jwt issuer_public_key (verifier_validation X (jh_alg header)))) (\<lambda>(_, claims).
     rbind (validate_public_confirmation_claim claims) (\<lambda>_.
     Ok (v\<lparr>sd_jwt_payload := claims,
           holder_public_key_payload := Option.bind (map_get claims CNF_KEY) as_object\<rparr>)))))))))))"

fun reject_nested_sd_alg :: "json \<Rightarrow> unit result" where
  "reject_nested_sd_alg (Object obj) =
     (if contains_key obj DIGEST_ALG_KEY
      then Err (DataFieldMismatch (''`'' @ DIGEST_ALG_KEY
                 @ ''` is only allowed at the top level of the SD-JWT payload''))
      else try_for_each (\<lambda>p. reject_nested_sd_alg (snd p)) obj)"
| "reject_nested_sd_alg (Array arr) = try_for_each reject_nested_sd_alg arr"
| "reject_nested_sd_alg _ = Ok ()"

definition extract_sd_claims :: "'k sd_jwt_verifier \<Rightarrow> (json \<times> 'k sd_jwt_verifier) result" where
  "extract_sd_claims v =
     (let payload = sd_jwt_payload v; e = engine v
      in if contains_key payload DIGEST_ALG_KEY
            \<and> map_get payload DIGEST_ALG_KEY \<noteq> Some (String DEFAULT_DIGEST_ALG)
      then Err (DeserializationError ''SD-JWT digest algorithm is not supported'')
      else rbind (try_for_each (\<lambda>(key, val). if key = DIGEST_ALG_KEY then Ok () else reject_nested_sd_alg val)
                   payload) (\<lambda>_.
      rbind (unpack_disclosed_claims (hash_to_decoded e) {} (Object payload) 0) (\<lambda>(unpacked, seen).
      if length (ordered_digests e) \<noteq> length (input_disclosures e)
      then Err (InvalidState ''Disclosure preprocessing state is inconsistent'')
      else if list_ex (\<lambda>h. h \<notin> seen) (ordered_digests e)
      then Err (InvalidDisclosure ''Disclosure was not referenced by the SD-JWT'')
      else Ok (unpacked, v\<lparr>duplicate_hash_check := seen\<rparr>))))"

text \<open>The text the key binding JWT commits to: the JWT and the disclosures, each followed by \<open>~\<close>.\<close>

definition key_binding_digest_hash :: "'k externals \<Rightarrow> 'k sd_jwt_verifier \<Rightarrow> string result" where
  "key_binding_digest_hash X v =
     rbind (ok_or (unverified_sd_jwt (engine v)) (ConversionError ''reference'')) (\<lambda>sd_jwt.
     Ok (base64_hash X (join COMBINED_SERIALIZATION_FORMAT_SEPARATOR (sd_jwt # input_disclosures (engine v))
           @ COMBINED_SERIALIZATION_FORMAT_SEPARATOR)))"

definition key_binding_validation :: "'k externals \<Rightarrow> algorithm \<Rightarrow> string \<Rightarrow> validation" where
  "key_binding_validation X a expected_aud =
     (validation_new X a)\<lparr>val_audience := Some [expected_aud], val_required := [''aud'']\<rparr>"

definition check_key_binding_claims ::
    "'k externals \<Rightarrow> 'k sd_jwt_verifier \<Rightarrow> string \<Rightarrow> jose_header \<Rightarrow> json_map \<Rightarrow> unit result" where
  "check_key_binding_claims X v expected_nonce header claims =
     (if jh_typ header \<noteq> Some KB_JWT_TYP_HEADER then Err (InvalidInput ''Invalid header type'')
      else if map_get claims ''nonce'' \<noteq> Some (String expected_nonce)
      then Err (InvalidInput ''Invalid nonce'')
      else if \<not> contains_key claims ''iat''
      then Err (InvalidInput ''Missing required `iat` claim in KB-JWT'')
      else rbind (key_binding_digest_hash X v) (\<lambda>sd_hash.
      if map_get claims KB_DIGEST_KEY \<noteq> Some (String sd_hash)
      then Err (InvalidInput ''Invalid digest in KB-JWT'')
      else Ok ()))"

definition verify_key_binding_jwt ::
    "'k externals \<Rightarrow> 'k sd_jwt_verifier \<Rightarrow> string \<Rightarrow> string \<Rightarrow> unit result" where
  "verify_key_binding_jwt X v expected_aud expected_nonce =
     rbind (case holder_public_key_payload v of
              None \<Rightarrow> Err (KeyNotFound ''No holder public key in SD-JWT'')
            | Some payload \<Rightarrow> ok_or (map_get payload JWK_KEY) (InvalidInput
                (''The holder_public_key_payload is malformed. It doesn'' @ [CHR 0x27]
                 @ ''t contain the claim jwk''))) (\<lambda>holder_jwk_value.
     rbind (ok_or (unverified_kb_jwt (engine v))
             (InvalidState ''Cannot take Key Binding JWK from String'')) (\<lambda>kb_jwt.
     rbind (map_err DeserializationError (decode_header X kb_jwt)) (\<lambda>header.
     if \<not> policy_allows (verifier_policy v) (jh_alg header)
     then Err (InvalidInput (''Key Binding JWT algorithm '' @ alg_debug (jh_alg header)
                 @ '' is not allowed by verification policy''))
     else rbind (map_err (\<lambda>_. DeserializationError ''Cannot parse JWK from json'')
                  (jwk_from_value X holder_jwk_value)) (\<lambda>holder_jwk.
     rbind (validate_key_binding_jwk_policy holder_jwk (jh_alg header)) (\<lambda>_.
     rbind (map_err (\<lambda>_. DeserializationError ''Cannot parse DecodingKey from json'')
             (key_from_jwk X holder_jwk)) (\<lambda>pubkey.
     rbind (map_err DeserializationError
             (jwt_decode X kb_jwt pubkey (key_binding_validation X (jh_alg header) expected_aud))) (\<lambda>(kb_header, claims).
     check_key_binding_claims X v expected_nonce kb_header claims)))))))"

text \<open>The checks of \<open>expected_aud\<close> and \<open>expected_nonce\<close>: both, or none.\<close>

definition check_binding ::
    "'k externals \<Rightarrow> 'k sd_jwt_verifier \<Rightarrow> string option \<Rightarrow> string option \<Rightarrow> unit result" where
  "check_binding X v expected_aud expected_nonce =
     (case (expected_aud, expected_nonce) of
        (Some aud, Some nonce) \<Rightarrow> verify_key_binding_jwt X v aud nonce
      | (None, None) \<Rightarrow> Ok ()
      | _ \<Rightarrow> Err (InvalidInput
               ''Either both expected_aud and expected_nonce must be provided or both must be None''))"

record verifier_env =
  env_parallel :: bool
  env_spawn :: "nat \<Rightarrow> bool"
  env_threads :: nat
  env_budget :: worker_budget

text \<open>\<open>?\<close> on a method that updates the engine in place.\<close>

definition step_engine :: "unit result \<times> sd_common \<Rightarrow> (sd_common \<Rightarrow> 'a result) \<Rightarrow> 'a result" where
  "step_engine r f = rbind (fst r) (\<lambda>_. f (snd r))"

definition verifier_new_with_policy ::
    "'k externals \<Rightarrow> verifier_env \<Rightarrow> string \<Rightarrow> (string \<Rightarrow> jose_header \<Rightarrow> 'k result) \<Rightarrow> string option
       \<Rightarrow> string option \<Rightarrow> serialization_format \<Rightarrow> verification_policy \<Rightarrow> 'k sd_jwt_verifier result" where
  "verifier_new_with_policy X env presentation resolve expected_aud expected_nonce fmt policy =
     rbind (install_crypto_provider X) (\<lambda>_.
     (let v0 = verifier_start fmt resolve policy
      in step_engine (parse_sd_jwt X (engine v0) presentation) (\<lambda>e1.
         step_engine (case create_verifier_hash_mappings (env_parallel env) X (env_spawn env)
                             (env_threads env) (env_budget env) e1 of (r, e, _) \<Rightarrow> (r, e)) (\<lambda>e2.
         rbind (verify_sd_jwt X (v0\<lparr>engine := e2\<rparr>) (sign_alg e2)) (\<lambda>v1.
         rbind (extract_sd_claims v1) (\<lambda>(claims, v2).
         let v3 = v2\<lparr>verified_claims := claims\<rparr>
         in rbind (check_binding X v3 expected_aud expected_nonce) (\<lambda>_. Ok v3)))))))"

definition verifier_new ::
    "'k externals \<Rightarrow> verifier_env \<Rightarrow> string \<Rightarrow> (string \<Rightarrow> jose_header \<Rightarrow> 'k) \<Rightarrow> string option
       \<Rightarrow> string option \<Rightarrow> serialization_format \<Rightarrow> 'k sd_jwt_verifier result" where
  "verifier_new X env presentation get_key expected_aud expected_nonce fmt =
     verifier_new_with_policy X env presentation (\<lambda>issuer header. Ok (get_key issuer header))
       expected_aud expected_nonce fmt policy_default"


subsection \<open>Extraction, functionally\<close>

lemma reject_nested_sd_alg_iff: "reject_nested_sd_alg v = Ok () \<longleftrightarrow> keys_avoid {DIGEST_ALG_KEY} v"
proof (induction v rule: reject_nested_sd_alg.induct)
  case (1 obj)
  show ?case
  proof (cases "contains_key obj DIGEST_ALG_KEY")
    case True
    then show ?thesis by (auto simp: contains_key_conv list_all_iff)
  next
    case False
    then have "\<forall>(k, v) \<in> set obj. k \<noteq> DIGEST_ALG_KEY" by (force simp: contains_key_conv)
    with False 1 show ?thesis by (force simp: try_for_each_eq_Ok list_all_iff)
  qed
next
  case (2 arr)
  then show ?case
    by (simp add: try_for_each_eq_Ok list_all_iff)
qed simp_all

lemma reject_nested_sd_alg_not_Panic: "reject_nested_sd_alg v \<noteq> Panic"
  by (induction v rule: reject_nested_sd_alg.induct) (auto dest!: try_for_each_PanicD)

text \<open>\<open>_sd_alg\<close> is absent or names SHA-256 at the top level, and absent below it.\<close>

definition digest_algorithm_ok :: "json_map \<Rightarrow> bool" where
  "digest_algorithm_ok payload \<longleftrightarrow>
     map_get payload DIGEST_ALG_KEY \<in> {None, Some (String DEFAULT_DIGEST_ALG)} \<and>
     (\<forall>(k, v) \<in> set payload. k \<noteq> DIGEST_ALG_KEY \<longrightarrow> keys_avoid {DIGEST_ALG_KEY} v)"

lemma extract_sd_claims_Ok:
  "extract_sd_claims v = Ok (out, v') \<longleftrightarrow>
     digest_algorithm_ok (sd_jwt_payload v) \<and>
     (\<exists>ds. reveals (hash_to_decoded (engine v)) MAX_PROCESSED_SD_JWT_DEPTH (Object (sd_jwt_payload v)) out ds \<and>
        distinct ds \<and> set (ordered_digests (engine v)) \<subseteq> set ds \<and>
        length (ordered_digests (engine v)) = length (input_disclosures (engine v)) \<and>
        v' = v\<lparr>duplicate_hash_check := set ds\<rparr>)"
proof -
  let ?p = "sd_jwt_payload v" and ?e = "engine v"
  have alg: "\<not> (contains_key ?p DIGEST_ALG_KEY \<and> map_get ?p DIGEST_ALG_KEY \<noteq> Some (String DEFAULT_DIGEST_ALG))
      \<longleftrightarrow> map_get ?p DIGEST_ALG_KEY \<in> {None, Some (String DEFAULT_DIGEST_ALG)}"
    by (auto simp: contains_key_get)
  have nested: "try_for_each (\<lambda>(key, val). if key = DIGEST_ALG_KEY then Ok () else reject_nested_sd_alg val) ?p
      = Ok () \<longleftrightarrow> (\<forall>(k, v) \<in> set ?p. k \<noteq> DIGEST_ALG_KEY \<longrightarrow> keys_avoid {DIGEST_ALG_KEY} v)"
    by (auto simp: try_for_each_eq_Ok reject_nested_sd_alg_iff)
  have unpack: "unpack_disclosed_claims (hash_to_decoded ?e) {} (Object ?p) 0 = Ok (out, seen) \<longleftrightarrow>
      (\<exists>ds. reveals (hash_to_decoded ?e) MAX_PROCESSED_SD_JWT_DEPTH (Object ?p) out ds \<and> distinct ds \<and> seen = set ds)"
    for out seen
    using unpack_iff [of 0 "hash_to_decoded ?e" "{}" "Object ?p" out seen]
    by (simp add: remaining_def spent_def del: unpack_disclosed_claims.simps)
  have all: "\<not> list_ex (\<lambda>h. h \<notin> seen) (ordered_digests ?e) \<longleftrightarrow> set (ordered_digests ?e) \<subseteq> seen" for seen
    by (auto simp: list_ex_iff)
  have "extract_sd_claims v = Ok (out, v') \<longleftrightarrow>
      \<not> (contains_key ?p DIGEST_ALG_KEY \<and> map_get ?p DIGEST_ALG_KEY \<noteq> Some (String DEFAULT_DIGEST_ALG)) \<and>
      try_for_each (\<lambda>(key, val). if key = DIGEST_ALG_KEY then Ok () else reject_nested_sd_alg val) ?p = Ok () \<and>
      (\<exists>seen. unpack_disclosed_claims (hash_to_decoded ?e) {} (Object ?p) 0 = Ok (out, seen) \<and>
        length (ordered_digests ?e) = length (input_disclosures ?e) \<and>
        \<not> list_ex (\<lambda>h. h \<notin> seen) (ordered_digests ?e) \<and> v' = v\<lparr>duplicate_hash_check := seen\<rparr>)"
    by (auto simp only: extract_sd_claims_def Let_def rbind_eq_Ok prod.case result.inject prod.inject
        result.distinct not_not split: if_splits prod.splits)
  then show ?thesis
    unfolding alg nested unpack all digest_algorithm_ok_def by blast
qed

lemma extract_sd_claims_not_Panic: "extract_sd_claims v \<noteq> Panic"
proof -
  have "try_for_each (\<lambda>(key, val). if key = DIGEST_ALG_KEY then Ok () else reject_nested_sd_alg val) p \<noteq> Panic" for p
    by (auto dest!: try_for_each_PanicD simp: reject_nested_sd_alg_not_Panic split: if_splits)
  then show ?thesis
    by (auto simp: extract_sd_claims_def Let_def rbind_eq_Panic unpack_not_Panic(1)
        simp del: unpack_disclosed_claims.simps split: if_splits prod.splits)
qed

subsection \<open>The signature and the key binding, functionally\<close>

text \<open>What the issuer-signature step establishes.\<close>

definition issuer_signed ::
    "'k externals \<Rightarrow> sd_common \<Rightarrow> (string \<Rightarrow> jose_header \<Rightarrow> 'k result) \<Rightarrow> verification_policy
       \<Rightarrow> string option \<Rightarrow> json_map \<Rightarrow> bool" where
  "issuer_signed X e resolve policy alg_text claims \<longleftrightarrow>
     (\<exists>sd_jwt header declared payload issuer key signed_header.
        unverified_sd_jwt e = Some sd_jwt \<and> decode_header X sd_jwt = Inr header \<and>
        policy_allows policy (jh_alg header) \<and> alg_text = Some declared \<and>
        algorithm_from_str X declared = Inr (jh_alg header) \<and>
        unverified_payload e = Some payload \<and> map_get payload ''iss'' = Some (String issuer) \<and>
        resolve issuer header = Ok key \<and>
        jwt_decode X sd_jwt key (verifier_validation X (jh_alg header)) = Inr (signed_header, claims) \<and>
        public_confirmation claims)"

lemma map_index_eq_Ok [simp]: "map_index m k = Ok v \<longleftrightarrow> map_get m k = Some v"
  by (simp add: map_index_def map_get_def split: option.split)

lemma map_index_eq_Panic [simp]: "map_index m k = Panic \<longleftrightarrow> map_get m k = None"
  by (simp add: map_index_def map_get_def split: option.split)

lemma map_index_not_Err [simp]: "map_index m k \<noteq> Err e"
  by (simp add: map_index_def split: option.split)

lemma verify_sd_jwt_Ok:
  "verify_sd_jwt X v alg_text = Ok v' \<longleftrightarrow>
     (\<exists>claims. issuer_signed X (engine v) (cb_get_issuer_key v) (verifier_policy v) alg_text claims \<and>
        v' = v\<lparr>sd_jwt_payload := claims,
               holder_public_key_payload := Option.bind (map_get claims CNF_KEY) as_object\<rparr>)"
proof
  assume "verify_sd_jwt X v alg_text = Ok v'"
  then show "\<exists>claims. issuer_signed X (engine v) (cb_get_issuer_key v) (verifier_policy v) alg_text claims \<and>
        v' = v\<lparr>sd_jwt_payload := claims,
               holder_public_key_payload := Option.bind (map_get claims CNF_KEY) as_object\<rparr>"
    by (auto simp: verify_sd_jwt_def rbind_eq_Ok issuer_signed_def
        validate_public_confirmation_claim_Ok split: if_splits)
next
  assume "\<exists>claims. issuer_signed X (engine v) (cb_get_issuer_key v) (verifier_policy v) alg_text claims \<and>
        v' = v\<lparr>sd_jwt_payload := claims,
               holder_public_key_payload := Option.bind (map_get claims CNF_KEY) as_object\<rparr>"
  then show "verify_sd_jwt X v alg_text = Ok v'"
    by (auto simp: verify_sd_jwt_def issuer_signed_def map_index_def map_get_def
        validate_public_confirmation_claim_Ok [THEN iffD2])
qed

definition key_bound ::
    "'k externals \<Rightarrow> 'k sd_jwt_verifier \<Rightarrow> string \<Rightarrow> string \<Rightarrow> bool" where
  "key_bound X v aud nonce \<longleftrightarrow>
     (\<exists>cnf jwk_json kb header key pub kb_header claims sd_jwt.
        holder_public_key_payload v = Some cnf \<and> map_get cnf JWK_KEY = Some jwk_json \<and>
        unverified_kb_jwt (engine v) = Some kb \<and> decode_header X kb = Inr header \<and>
        policy_allows (verifier_policy v) (jh_alg header) \<and> jwk_from_value X jwk_json = Inr key \<and>
        validate_key_binding_jwk_policy key (jh_alg header) = Ok () \<and> key_from_jwk X key = Inr pub \<and>
        jwt_decode X kb pub (key_binding_validation X (jh_alg header) aud) = Inr (kb_header, claims) \<and>
        jh_typ kb_header = Some KB_JWT_TYP_HEADER \<and> map_get claims ''nonce'' = Some (String nonce) \<and>
        contains_key claims ''iat'' \<and> unverified_sd_jwt (engine v) = Some sd_jwt \<and>
        map_get claims KB_DIGEST_KEY =
          Some (String (base64_hash X (concat (map (\<lambda>part. part @ ''~'') (sd_jwt # input_disclosures (engine v)))))))"

lemma join_terminated: "ps \<noteq> [] \<Longrightarrow> join sep ps @ sep = concat (map (\<lambda>part. part @ sep) ps)"
  by (induction sep ps rule: join.induct) auto

lemma check_key_binding_claims_Ok:
  "check_key_binding_claims X v nonce header claims = Ok () \<longleftrightarrow>
     jh_typ header = Some KB_JWT_TYP_HEADER \<and> map_get claims ''nonce'' = Some (String nonce) \<and>
     contains_key claims ''iat'' \<and>
     (\<exists>sd_jwt. unverified_sd_jwt (engine v) = Some sd_jwt \<and>
        map_get claims KB_DIGEST_KEY =
          Some (String (base64_hash X (concat (map (\<lambda>part. part @ ''~'') (sd_jwt # input_disclosures (engine v)))))))"
  by (auto simp: check_key_binding_claims_def key_binding_digest_hash_def rbind_eq_Ok
      COMBINED_SERIALIZATION_FORMAT_SEPARATOR_def join_terminated split: if_splits)

lemma verify_key_binding_jwt_Ok: "verify_key_binding_jwt X v aud nonce = Ok () \<longleftrightarrow> key_bound X v aud nonce"
proof
  assume "verify_key_binding_jwt X v aud nonce = Ok ()"
  then show "key_bound X v aud nonce"
    by (auto simp: verify_key_binding_jwt_def rbind_eq_Ok check_key_binding_claims_Ok key_bound_def
        split: option.splits if_splits)
next
  assume "key_bound X v aud nonce"
  then show "verify_key_binding_jwt X v aud nonce = Ok ()"
    by (auto simp: verify_key_binding_jwt_def check_key_binding_claims_Ok key_bound_def)
qed

lemma verify_key_binding_jwt_not_Panic: "verify_key_binding_jwt X v aud nonce \<noteq> Panic"
  by (auto simp: verify_key_binding_jwt_def rbind_eq_Panic check_key_binding_claims_def
      key_binding_digest_hash_def validate_key_binding_jwk_policy_not_Panic split: option.splits)


subsection \<open>The whole verification\<close>

text \<open>The state after parsing and publishing the tables, as the specification sees it.\<close>

definition loaded :: "'k externals \<Rightarrow> serialization_format \<Rightarrow> string \<Rightarrow> sd_common \<Rightarrow> bool" where
  "loaded X fmt presentation e \<longleftrightarrow>
     (\<exists>e1. parse_sd_jwt X (common_new fmt) presentation = (Ok (), e1) \<and> presentable X (input_disclosures e1) \<and>
        e = e1\<lparr>hash_to_decoded := dm_decoded (mappings_of X (input_disclosures e1)),
               hash_to_disclosure := dm_encoded (mappings_of X (input_disclosures e1)),
               ordered_digests := map (base64_hash X) (input_disclosures e1)\<rparr>)"

lemma verifier_mappings_cases:
  "create_verifier_hash_mappings par X spawn n b s = (r, s', b') \<Longrightarrow>
     b' = b \<and> (r = Ok () \<longrightarrow> presentable X (input_disclosures s) \<and>
        s' = s\<lparr>hash_to_decoded := dm_decoded (mappings_of X (input_disclosures s)),
               hash_to_disclosure := dm_encoded (mappings_of X (input_disclosures s)),
               ordered_digests := map (base64_hash X) (input_disclosures s)\<rparr>)"
proof -
  assume cr: "create_verifier_hash_mappings par X spawn n b s = (r, s', b')"
  obtain rm where rm: "preprocess_disclosures par X spawn b n (input_disclosures s) = (rm, b)"
    and ok: "rm = serial_preprocess X (input_disclosures s) \<or> (\<exists>e. rm = Err e)"
  proof -
    have "snd (preprocess_disclosures par X spawn b n (input_disclosures s)) = b"
      by (simp add: preprocess_disclosures_def preprocess_with_budget_snd)
    moreover have "fst (preprocess_disclosures par X spawn b n (input_disclosures s))
          = serial_preprocess X (input_disclosures s) \<or>
        (\<exists>e. fst (preprocess_disclosures par X spawn b n (input_disclosures s)) = Err e)"
      using preprocess_with_budget_outcomes [of X spawn "input_disclosures s" b n]
      by (auto simp: preprocess_disclosures_def)
    ultimately show thesis by (intro that [of "fst (preprocess_disclosures par X spawn b n (input_disclosures s))"]) (auto simp: prod_eq_iff)
  qed
  from cr rm have pub: "publish_mappings rm (clear_mappings s) = (r, s')" and b: "b' = b"
    by (auto simp: create_verifier_hash_mappings_def split: prod.splits)
  have "presentable X (input_disclosures s) \<and>
        s' = s\<lparr>hash_to_decoded := dm_decoded (mappings_of X (input_disclosures s)),
               hash_to_disclosure := dm_encoded (mappings_of X (input_disclosures s)),
               ordered_digests := map (base64_hash X) (input_disclosures s)\<rparr>" if "r = Ok ()"
  proof -
    from pub that obtain m where m: "rm = Ok m"
      by (auto simp: publish_mappings_def split: result.splits)
    with ok have "serial_preprocess X (input_disclosures s) = Ok m" by auto
    then have "presentable X (input_disclosures s)" "m = mappings_of X (input_disclosures s)"
      by (simp_all add: serial_preprocess_Ok)
    then show ?thesis
      using pub m by (auto simp: publish_mappings_def clear_mappings_def mappings_of_def)
  qed
  with b show ?thesis by blast
qed

lemma verifier_mappings_complete:
  assumes "\<And>i. spawn i" and "presentable X (input_disclosures s)"
  shows "create_verifier_hash_mappings par X spawn n b s = (Ok (),
    s\<lparr>hash_to_decoded := dm_decoded (mappings_of X (input_disclosures s)),
      hash_to_disclosure := dm_encoded (mappings_of X (input_disclosures s)),
      ordered_digests := map (base64_hash X) (input_disclosures s)\<rparr>, b)"
proof -
  have "fst (preprocess_with_budget X spawn (input_disclosures s) b n) = serial_preprocess X (input_disclosures s)"
    using preprocess_with_budget_fst [of X spawn "input_disclosures s" b n]
      preprocess_parallel_total [OF assms(1), where X = X and encs = "input_disclosures s"] by auto
  then have "preprocess_disclosures par X spawn b n (input_disclosures s) = (serial_preprocess X (input_disclosures s), b)"
    using preprocess_with_budget_snd [of X spawn "input_disclosures s" b n]
    by (auto simp: preprocess_disclosures_def prod_eq_iff)
  moreover have "serial_preprocess X (input_disclosures s) = Ok (mappings_of X (input_disclosures s))"
    using assms(2) by (simp add: serial_preprocess_Ok)
  ultimately show ?thesis
    by (simp add: create_verifier_hash_mappings_def publish_mappings_def clear_mappings_def mappings_of_def)
qed

text \<open>
  A presentation is accepted: it loads to \<open>e\<close>, the issuer signed \<open>claims\<close>, they reveal \<open>out\<close>
  meeting every digest once and every presented disclosure, and the holder key is bound on request.
\<close>

definition verified_state ::
    "sd_common \<Rightarrow> (string \<Rightarrow> jose_header \<Rightarrow> 'k result) \<Rightarrow> verification_policy \<Rightarrow> json_map
       \<Rightarrow> string list \<Rightarrow> json \<Rightarrow> 'k sd_jwt_verifier" where
  "verified_state e resolve policy claims ds out =
     \<lparr>engine = e, sd_jwt_payload = claims,
      holder_public_key_payload = Option.bind (map_get claims CNF_KEY) as_object,
      duplicate_hash_check = set ds, verified_claims = out, verifier_policy = policy,
      cb_get_issuer_key = resolve\<rparr>"

definition claims_revealed ::
    "'k externals \<Rightarrow> sd_common \<Rightarrow> json_map \<Rightarrow> string list \<Rightarrow> json \<Rightarrow> bool" where
  "claims_revealed X e claims ds out \<longleftrightarrow>
     digest_algorithm_ok claims \<and>
     reveals (hash_to_decoded e) MAX_PROCESSED_SD_JWT_DEPTH (Object claims) out ds \<and> distinct ds \<and>
     base64_hash X ` set (input_disclosures e) \<subseteq> set ds"

definition bound_on_request ::
    "'k externals \<Rightarrow> 'k sd_jwt_verifier \<Rightarrow> string option \<Rightarrow> string option \<Rightarrow> bool" where
  "bound_on_request X v aud nonce \<longleftrightarrow>
     aud = None \<and> nonce = None \<or> (\<exists>a n. aud = Some a \<and> nonce = Some n \<and> key_bound X v a n)"

definition accepted_from ::
    "'k externals \<Rightarrow> sd_common \<Rightarrow> (string \<Rightarrow> jose_header \<Rightarrow> 'k result) \<Rightarrow> verification_policy
       \<Rightarrow> string option \<Rightarrow> string option \<Rightarrow> 'k sd_jwt_verifier \<Rightarrow> bool" where
  "accepted_from X e resolve policy aud nonce v \<longleftrightarrow>
     (\<exists>claims ds out. issuer_signed X e resolve policy (sign_alg e) claims \<and>
        claims_revealed X e claims ds out \<and> v = verified_state e resolve policy claims ds out \<and>
        bound_on_request X v aud nonce)"

definition accepted ::
    "'k externals \<Rightarrow> serialization_format \<Rightarrow> (string \<Rightarrow> jose_header \<Rightarrow> 'k result) \<Rightarrow> verification_policy
       \<Rightarrow> string option \<Rightarrow> string option \<Rightarrow> string \<Rightarrow> 'k sd_jwt_verifier \<Rightarrow> bool" where
  "accepted X fmt resolve policy aud nonce presentation v \<longleftrightarrow>
     (\<exists>e. loaded X fmt presentation e \<and> accepted_from X e resolve policy aud nonce v)"

lemma check_binding_Ok: "check_binding X v aud nonce = Ok () \<longleftrightarrow> bound_on_request X v aud nonce"
  by (auto simp: check_binding_def bound_on_request_def verify_key_binding_jwt_Ok split: option.splits)

lemma loaded_ordered: "loaded X fmt p e \<Longrightarrow> ordered_digests e = map (base64_hash X) (input_disclosures e)"
  by (auto simp: loaded_def)

text \<open>The steps after the tables are published.\<close>

definition verify_loaded ::
    "'k externals \<Rightarrow> sd_common \<Rightarrow> (string \<Rightarrow> jose_header \<Rightarrow> 'k result) \<Rightarrow> string option \<Rightarrow> string option
       \<Rightarrow> serialization_format \<Rightarrow> verification_policy \<Rightarrow> 'k sd_jwt_verifier result" where
  "verify_loaded X e resolve aud nonce fmt policy =
     rbind (verify_sd_jwt X ((verifier_start fmt resolve policy)\<lparr>engine := e\<rparr>) (sign_alg e)) (\<lambda>v1.
     rbind (extract_sd_claims v1) (\<lambda>(claims, v2).
     rbind (check_binding X (v2\<lparr>verified_claims := claims\<rparr>) aud nonce) (\<lambda>_.
     Ok (v2\<lparr>verified_claims := claims\<rparr>))))"

lemma verify_loaded_Ok:
  assumes "loaded X fmt p e"
  shows "verify_loaded X e resolve aud nonce fmt policy = Ok v \<longleftrightarrow> accepted_from X e resolve policy aud nonce v"
proof -
  let ?v0 = "(verifier_start fmt resolve policy)\<lparr>engine := e\<rparr>"
  let ?v1 = "\<lambda>claims. ?v0\<lparr>sd_jwt_payload := claims,
               holder_public_key_payload := Option.bind (map_get claims CNF_KEY) as_object\<rparr>"
  have sel: "engine ?v0 = e" "cb_get_issuer_key ?v0 = resolve" "verifier_policy ?v0 = policy"
    by (simp_all add: verifier_start_def)
  have unit_ex: "(\<exists>x. P x) \<longleftrightarrow> P ()" for P :: "unit \<Rightarrow> bool"
    by (metis (full_types) old.unit.exhaust)
  have ex_claims: "extract_sd_claims (?v1 claims) = Ok (out, v2) \<longleftrightarrow>
      (\<exists>ds. claims_revealed X e claims ds out \<and> v2\<lparr>verified_claims := out\<rparr> = verified_state e resolve policy claims ds out
        \<and> verified_claims v2 = Null)" for claims out v2
    using loaded_ordered [OF assms]
    by (cases v2) (auto simp: extract_sd_claims_Ok claims_revealed_def verified_state_def verifier_start_def)
  have "verify_loaded X e resolve aud nonce fmt policy = Ok v \<longleftrightarrow>
      (\<exists>claims out v2. issuer_signed X e resolve policy (sign_alg e) claims \<and>
         extract_sd_claims (?v1 claims) = Ok (out, v2) \<and> v = v2\<lparr>verified_claims := out\<rparr> \<and>
         bound_on_request X v aud nonce)"
    unfolding verify_loaded_def rbind_eq_Ok verify_sd_jwt_Ok sel split_paired_Ex split_conv unit_ex check_binding_Ok result.inject
    by blast
  also have "\<dots> \<longleftrightarrow> accepted_from X e resolve policy aud nonce v"
    unfolding accepted_from_def ex_claims
  proof (intro iffI; elim exE conjE)
    fix claims ds out
    assume "issuer_signed X e resolve policy (sign_alg e) claims" "claims_revealed X e claims ds out"
      "v = verified_state e resolve policy claims ds out" "bound_on_request X v aud nonce"
    moreover from this(3) have "v = (v\<lparr>verified_claims := Null\<rparr>)\<lparr>verified_claims := out\<rparr>"
      by (simp add: verified_state_def)
    ultimately show "\<exists>claims out v2. issuer_signed X e resolve policy (sign_alg e) claims \<and>
         (\<exists>ds. claims_revealed X e claims ds out \<and>
            v2\<lparr>verified_claims := out\<rparr> = verified_state e resolve policy claims ds out \<and> verified_claims v2 = Null) \<and>
         v = v2\<lparr>verified_claims := out\<rparr> \<and> bound_on_request X v aud nonce"
      by (intro exI [of _ claims] exI [of _ out] exI [of _ "v\<lparr>verified_claims := Null\<rparr>"]) auto
  qed blast
  finally show ?thesis .
qed

lemma verifier_new_decompose:
  "verifier_new_with_policy X env presentation resolve aud nonce fmt policy =
     rbind (install_crypto_provider X) (\<lambda>_.
     step_engine (parse_sd_jwt X (common_new fmt) presentation) (\<lambda>e1.
     step_engine (case create_verifier_hash_mappings (env_parallel env) X (env_spawn env)
                         (env_threads env) (env_budget env) e1 of (r, e, _) \<Rightarrow> (r, e)) (\<lambda>e2.
     verify_loaded X e2 resolve aud nonce fmt policy)))"
  by (simp add: verifier_new_with_policy_def verify_loaded_def Let_def verifier_start_def split_def)

lemma verifier_new_sound:
  assumes "verifier_new_with_policy X env presentation resolve aud nonce fmt policy = Ok v"
  shows "install_crypto_provider X = Ok () \<and> accepted X fmt resolve policy aud nonce presentation v"
proof -
  from assms obtain e1 e2 b where inst: "install_crypto_provider X = Ok ()"
    and parse: "parse_sd_jwt X (common_new fmt) presentation = (Ok (), e1)"
    and maps: "create_verifier_hash_mappings (env_parallel env) X (env_spawn env)
                 (env_threads env) (env_budget env) e1 = (Ok (), e2, b)"
    and rest: "verify_loaded X e2 resolve aud nonce fmt policy = Ok v"
    unfolding verifier_new_decompose step_engine_def rbind_eq_Ok
    by (auto simp: prod_eq_iff split_def)
  from verifier_mappings_cases [OF maps] parse have "loaded X fmt presentation e2"
    unfolding loaded_def by blast
  with rest inst show ?thesis
    unfolding accepted_def verify_loaded_Ok [OF \<open>loaded X fmt presentation e2\<close>] by blast
qed

lemma verifier_new_complete:
  assumes "\<And>i. env_spawn env i" and "install_crypto_provider X = Ok ()"
    and "accepted X fmt resolve policy aud nonce presentation v"
  shows "verifier_new_with_policy X env presentation resolve aud nonce fmt policy = Ok v"
proof -
  from assms(3) obtain e where e: "loaded X fmt presentation e"
    and rest: "verify_loaded X e resolve aud nonce fmt policy = Ok v"
    unfolding accepted_def using verify_loaded_Ok by metis
  from e obtain e1 where parse: "parse_sd_jwt X (common_new fmt) presentation = (Ok (), e1)"
    and pres: "presentable X (input_disclosures e1)"
    and e': "e = e1\<lparr>hash_to_decoded := dm_decoded (mappings_of X (input_disclosures e1)),
               hash_to_disclosure := dm_encoded (mappings_of X (input_disclosures e1)),
               ordered_digests := map (base64_hash X) (input_disclosures e1)\<rparr>"
    unfolding loaded_def by blast
  show ?thesis
    unfolding verifier_new_decompose step_engine_def
    by (simp add: assms(2) parse verifier_mappings_complete [OF assms(1) pres] rest flip: e')
qed

text \<open>Verification panics exactly when it reaches the issuer lookup of a payload without \<open>iss\<close>.\<close>

lemma verify_sd_jwt_Panic:
  "verify_sd_jwt X v alg_text = Panic \<longleftrightarrow>
     (\<exists>sd_jwt header declared payload.
        unverified_sd_jwt (engine v) = Some sd_jwt \<and> decode_header X sd_jwt = Inr header \<and>
        policy_allows (verifier_policy v) (jh_alg header) \<and> alg_text = Some declared \<and>
        algorithm_from_str X declared = Inr (jh_alg header) \<and> unverified_payload (engine v) = Some payload \<and>
        (map_get payload ''iss'' = None \<or>
         (\<exists>issuer. map_get payload ''iss'' = Some (String issuer) \<and>
            cb_get_issuer_key v issuer header = Panic)))"
  unfolding verify_sd_jwt_def
  by (auto simp: rbind_eq_Panic validate_public_confirmation_claim_not_Panic)

end
