(* ===== verification/Credential.thy ===== *)
theory Credential
  imports Issuer Recovery Verifier
begin

text \<open>
  From the issuer to the verifier: what the payload of an issued credential reveals, and the
  acceptance of a completed compact credential with all its disclosures.
\<close>

subsection \<open>Claims that are not concealed\<close>

lemma issuable_member: "issuable (Object m) \<Longrightarrow> (k, v) \<in> set m \<Longrightarrow> issuable v"
  by (auto simp: issuable_Object)

lemma plain_reveals: "issuable v \<Longrightarrow> json_depth v \<le> h \<Longrightarrow> reveals T h v v []"
proof (induction v arbitrary: h)
  case (Array vs)
  then obtain h' where h: "h = Suc h'" by (cases h) auto
  have "reveals_elems T h' ws ws []" if "set ws \<subseteq> set vs" for ws
    using that
  proof (induction ws)
    case (Cons w ws)
    then have "issuable w" "json_depth w \<le> h'" and w: "w \<in> set vs"
      using Array.prems unfolding h issuable_Array json_depth_Array_le by auto
    then have "reveals T h' w w []" "\<not> is_placeholder w"
      using Array.IH [OF w] by (auto simp: is_placeholder_def issuable_def contains_key_conv structural_keys_def list_all_iff)
    with Cons el_plain [of w T h' w "[]" ws ws "[]"] show ?case by simp
  qed (simp add: el_Nil)
  then show ?case
    unfolding h using Array.prems(1) by (intro rv_array) (auto simp: issuable_Array)
next
  case (Object m)
  then obtain h' where h: "h = Suc h'" by (cases h) auto
  have keys: "distinct (map fst m)" "SD_DIGESTS_KEY \<notin> fst ` set m"
    using Object.prems(1) by (auto simp: issuable_Object structural_keys_def)
  have "reveals_members T h' ms ms []" if "set ms \<subseteq> set m" for ms
    using that
  proof (induction ms)
    case (Cons p ms)
    obtain k v where p: "p = (k, v)" by (cases p)
    then have kv: "(k, v) \<in> set m" using Cons.prems by simp
    then have "issuable v" "json_depth v \<le> h'" "k \<notin> structural_keys"
      using Object.prems unfolding h issuable_Object json_depth_Object_le by auto
    with Cons mb_keep [of k T h' v v "[]" ms ms "[]"] Object.IH [OF kv, of v h'] show ?case
      by (simp add: p structural_keys_def)
  qed (simp add: mb_Nil)
  from rv_object [OF this [OF subset_refl], of "[]" "[]"] keys show ?case
    unfolding h using map_append_fresh [of "[]" m] by (simp add: sd_digests_def map_get_none dg_Nil)
qed (auto intro: rv_scalar simp: is_scalar_json_def)

lemma reveals_members_append:
  "reveals_members T h a ps ds \<Longrightarrow> reveals_members T h b qs es \<Longrightarrow> reveals_members T h (a @ b) (ps @ qs) (ds @ es)"
proof (induction a arbitrary: ps ds)
  case Nil
  then show ?case by (auto elim: reveals_members.cases)
next
  case (Cons p a)
  from Cons.prems(1) show ?case
  proof (cases rule: reveals_members.cases)
    case (mb_skip key v)
    then show ?thesis using Cons.IH [OF _ Cons.prems(2)] by (auto intro: reveals_intros)
  next
    case (mb_keep key v out ds1 ps1 ds2)
    from Unpack.mb_keep [OF mb_keep(4-6) Cons.IH [OF mb_keep(7) Cons.prems(2)]] show ?thesis
      using mb_keep by simp
  qed
qed

lemma reveals_members_keys:
  "reveals_members T h ms ps ds \<Longrightarrow> map fst ps = filter (\<lambda>k. k \<noteq> SD_DIGESTS_KEY \<and> k \<noteq> DIGEST_ALG_KEY) (map fst ms)"
proof (induction ms arbitrary: ps ds)
  case Nil
  then show ?case by (auto elim: reveals_members.cases)
next
  case (Cons p ms)
  from Cons.prems show ?case
    by (cases rule: reveals_members.cases) (auto dest: Cons.IH)
qed

lemma plain_members:
  assumes "issuable (Object m)" and "\<forall>(k, v) \<in> set m. json_depth v \<le> h"
  shows "reveals_members T h m m []"
  using assms
proof (induction m)
  case (Cons p m)
  obtain k v where p: "p = (k, v)" by (cases p)
  have "issuable v" "json_depth v \<le> h" "k \<notin> structural_keys" "issuable (Object m)"
    using Cons.prems by (auto simp: p issuable_Object)
  with Cons mb_keep [of k T h v v "[]" m m "[]"] plain_reveals [of v h T] show ?case
    by (simp add: p structural_keys_def)
qed (simp add: mb_Nil)

subsection \<open>The members of a concealed object\<close>

lemma direct_object_keys:
  "direct_object X R decoys claims ms strat r = (claims', digests, ds, r') \<Longrightarrow> distinct (map fst claims) \<Longrightarrow>
     distinct (map fst claims') \<and> fst ` set claims' \<subseteq> fst ` set claims \<union> fst ` set ms"
proof (induction ms arbitrary: claims r claims' digests ds r')
  case (Cons p ms)
  obtain k v where p: "p = (k, v)" by (cases p)
  obtain out ds1 r1 where v: "direct_value X R decoys v (next_level strat k) r = (out, ds1, r1)" by (rule prod_cases3)
  show ?case
  proof (cases "sd_for_key strat k")
    case True
    obtain salt r2 where s: "disclosure_salt R r1 = (salt, r2)" by (rule prod.exhaust)
    obtain c2 dg2 ds2 r3 where rest: "direct_object X R decoys claims ms strat r2 = (c2, dg2, ds2, r3)" by (rule prod_cases4)
    from Cons.prems(1) v s rest True have "claims' = c2" by (simp add: p Let_def)
    with Cons.IH [OF rest Cons.prems(2)] show ?thesis by auto
  next
    case False
    obtain c2 dg2 ds2 r3 where rest: "direct_object X R decoys (map_insert k out claims) ms strat r1 = (c2, dg2, ds2, r3)"
      by (rule prod_cases4)
    from Cons.prems(1) v rest False have "claims' = c2" by (simp add: p)
    with Cons.IH [OF rest distinct_insert [OF Cons.prems(2)]] show ?thesis by (auto simp: keys_insert p)
  qed
qed simp

lemma finish_object_keys:
  "distinct (map fst claims) \<Longrightarrow>
     \<exists>m. finish_object claims digests = Object m \<and> distinct (map fst m) \<and> fst ` set m \<subseteq> insert SD_DIGESTS_KEY (fst ` set claims)"
  by (auto simp: finish_object_def distinct_insert distinct_remove keys_insert keys_remove)

lemma concealed_object_keys:
  assumes "direct_value X R decoys (Object ms) strat r = (out, ds, r')"
  shows "\<exists>concealed. out = Object concealed \<and> distinct (map fst concealed) \<and>
     fst ` set concealed \<subseteq> insert SD_DIGESTS_KEY (fst ` set ms)"
proof -
  from assms obtain claims digests r1 decs where
    run: "direct_object X R decoys (map_insert SD_DIGESTS_KEY Null []) ms strat r = (claims, digests, ds, r1)"
    and out: "out = finish_object claims (digests @ decs)"
    by (auto split: prod.splits)
  have "map fst (map_insert SD_DIGESTS_KEY Null []) = [SD_DIGESTS_KEY]" by (simp add: map_insert_def)
  with direct_object_keys [OF run] have k: "distinct (map fst claims)" "fst ` set claims \<subseteq> insert SD_DIGESTS_KEY (fst ` set ms)"
    by (simp_all add: map_insert_def)
  from finish_object_keys [OF k(1), of "digests @ decs"] obtain m where
    m: "out = Object m" "distinct (map fst m)" "fst ` set m \<subseteq> insert SD_DIGESTS_KEY (fst ` set claims)"
    by (elim exE conjE) (rule that, simp_all only: out)
  from m(3) k(2) have "fst ` set m \<subseteq> insert SD_DIGESTS_KEY (fst ` set ms)"
    by (meson insert_subset order_trans subset_insertI2 insertI1)
  with m show ?thesis by simp
qed

text \<open>Concealment adds no member name but \<open>_sd\<close> and \<open>...\<close>.\<close>

lemma keys_avoid_insert: "keys_avoid K (Object m) \<Longrightarrow> k \<notin> K \<Longrightarrow> keys_avoid K v \<Longrightarrow> keys_avoid K (Object (map_insert k v m))"
  by (induction m) (auto simp: map_insert_def)

lemma keys_avoid_finish:
  "keys_avoid K (Object claims) \<Longrightarrow> SD_DIGESTS_KEY \<notin> K \<Longrightarrow> keys_avoid K (finish_object claims digests)"
proof -
  assume a: "keys_avoid K (Object claims)" "SD_DIGESTS_KEY \<notin> K"
  have "keys_avoid K (Object (shift_remove SD_DIGESTS_KEY claims))"
    using a(1) by (auto simp: shift_remove_def list_all_iff)
  moreover have "keys_avoid K (Array (map String (sort digests)))" by (simp add: list_all_iff)
  ultimately show ?thesis
    using keys_avoid_insert [OF a] by (simp add: finish_object_def del: keys_avoid.simps)
qed

lemma direct_keys_avoid:
  assumes "K \<inter> reserved_keys = {}"
  shows "keys_avoid K v \<Longrightarrow> keys_avoid K (fst (direct_value X R decoys v strat r))"
    and "list_all (keys_avoid K) vs \<Longrightarrow> list_all (keys_avoid K) (fst (direct_array X R decoys i vs strat r))"
    and "keys_avoid K (Object ms) \<Longrightarrow> keys_avoid K (Object claims) \<Longrightarrow>
      keys_avoid K (Object (fst (direct_object X R decoys claims ms strat r)))"
  using assms
proof (induction X R decoys v strat r and X R decoys i vs strat r and X R decoys claims ms strat r
    rule: direct_value_direct_array_direct_object.induct)
  case (2 X R decoys ms strat r)
  have "keys_avoid K (Object (map_insert SD_DIGESTS_KEY Null []))"
    using 2 by (auto simp: map_insert_def reserved_keys_def)
  from "2.IH" [OF "2.prems"(1) this "2.prems"(2)] show ?case
    using "2.prems"(2) by (auto simp: reserved_keys_def split: prod.splits intro: keys_avoid_finish simp del: keys_avoid.simps(1))
next
  case (7 X R decoys claims key v ms strat r)
  obtain out ds1 r1 where v: "direct_value X R decoys v (next_level strat key) r = (out, ds1, r1)" by (rule prod_cases3)
  obtain salt r2 where salt: "disclosure_salt R r1 = (salt, r2)" by (rule prod.exhaust)
  have out: "keys_avoid K out" using "7.IH"(1) "7.prems" v by simp
  then have ins: "keys_avoid K (Object (map_insert key out claims))"
    using "7.prems" by (intro keys_avoid_insert) simp_all
  have ms: "keys_avoid K (Object ms)" using "7.prems"(1) by simp
  show ?case
  proof (cases "sd_for_key strat key")
    case True
    have "keys_avoid K (Object (fst (direct_object X R decoys claims ms strat r2)))"
      by (rule "7.IH"(2) [OF v [symmetric] refl True salt [symmetric] refl ms "7.prems"(2,3)])
    then show ?thesis using v salt True by (simp add: Let_def split_def)
  next
    case False
    have "keys_avoid K (Object (fst (direct_object X R decoys (map_insert key out claims) ms strat r1)))"
      by (rule "7.IH"(3) [OF v [symmetric] refl False ms ins "7.prems"(3)])
    then show ?thesis using v False by (simp add: split_def)
  qed
next
  case (5 X R decoys index v vs strat r)
  then show ?case
    by (auto simp: Let_def placeholder_def reserved_keys_def split: prod.splits)
qed (auto split: prod.splits)

subsection \<open>What the payload reveals\<close>

text \<open>The claims the holder of a credential ends up with: the issuer's, with the holder's key.\<close>

definition credential_claims :: "jwk option \<Rightarrow> json_map \<Rightarrow> json_map" where
  "credential_claims holder_key m =
     (case holder_key of None \<Rightarrow> m | Some key \<Rightarrow> map_insert CNF_KEY (holder_confirmation key) m)"

definition confirmation_entry :: "jwk option \<Rightarrow> json_map" where
  "confirmation_entry holder_key =
     (case holder_key of None \<Rightarrow> [] | Some key \<Rightarrow> [(CNF_KEY, holder_confirmation key)])"

lemma map_get_append_list: "map_get (m @ m') k = (case map_get m k of Some v \<Rightarrow> Some v | None \<Rightarrow> map_get m' k)"
  by (simp add: map_get_def map_add_def split: option.splits)

lemma map_get_filter: "map_get (filter (\<lambda>p. P (fst p)) m) k = (if P k then map_get m k else None)"
  by (induction m) auto

lemma json_eqv_get:
  assumes "distinct (map fst m)" and "distinct (map fst m')"
    and "\<And>k. rel_option json_eqv (map_get m k) (map_get m' k)"
  shows "json_eqv (Object m) (Object m')"
proof (rule eqv_Object)
  show "fst ` set m = fst ` set m'"
  proof (rule set_eqI)
    fix k
    have "contains_key m k = contains_key m' k"
      using assms(3) [of k] by (cases "map_get m k"; cases "map_get m' k") (simp_all add: contains_key_get)
    then show "k \<in> fst ` set m \<longleftrightarrow> k \<in> fst ` set m'" by (simp only: contains_key_conv)
  qed
  show "json_eqv v w" if "(k, v) \<in> set m" "(k, w) \<in> set m'" for k v w
    using that assms(1,2) assms(3) [of k] by (simp add: map_get_def)
qed (use assms in simp_all)

lemma json_eqv_getD:
  assumes "json_eqv (Object m) (Object m')"
  shows "rel_option json_eqv (map_get m k) (map_get m' k)"
proof -
  from assms have keys: "fst ` set m = fst ` set m'" by (rule json_eqv_ObjectE) simp
  from assms have vals: "(k, v) \<in> set m \<Longrightarrow> (k, w) \<in> set m' \<Longrightarrow> json_eqv v w" for v w
    by (rule json_eqv_ObjectE) simp
  show ?thesis
  proof (cases "k \<in> fst ` set m")
    case True
    then have "k \<in> fst ` set m'" using keys by simp
    with True obtain v w where "map_get m k = Some v" "map_get m' k = Some w"
      unfolding map_get_def by (metis map_of_eq_None_iff option.exhaust)
    with vals show ?thesis by (simp add: map_get_def map_of_SomeD)
  next
    case False
    then show ?thesis using keys by (simp add: map_get_none)
  qed
qed

lemma own_claims_get: "map_get (own_claims holder_key m) k = (if holder_key \<noteq> None \<and> k = CNF_KEY then None else map_get m k)"
  by (simp add: own_claims_def map_get_remove)

lemma concealable_get:
  "map_get (concealable_claims holder_key m) k =
     (if k \<in> set always_revealed_keys then None else map_get (own_claims holder_key m) k)"
  unfolding concealable_claims_def using map_get_filter [of "\<lambda>k. k \<notin> set always_revealed_keys"] by simp

lemma revealed_get:
  "map_get (revealed_claims holder_key m) k =
     (if k \<in> set always_revealed_keys then map_get (own_claims holder_key m) k else None)"
proof -
  have "distinct always_revealed_keys" by (simp add: always_revealed_keys_def)
  from remove_entries_taken [OF this] show ?thesis by (simp add: revealed_claims_def)
qed

lemma cnf_not_revealed: "CNF_KEY \<notin> set always_revealed_keys"
  by (simp add: CNF_KEY_def always_revealed_keys_def)

lemma structural_not_revealed: "structural_keys \<inter> set always_revealed_keys = {}"
  by (simp add: structural_keys_def key_defs always_revealed_keys_def)

lemma rev_claims_issuable:
  assumes "issuable (Object m)" and "\<forall>(k, v) \<in> set m. json_depth v \<le> h"
  shows "issuable (Object (revealed_claims holder_key m))"
    and "\<forall>(k, v) \<in> set (revealed_claims holder_key m). json_depth v \<le> h"
    and "issuable (Object (concealable_claims holder_key m))"
    and "\<forall>(k, v) \<in> set (concealable_claims holder_key m). json_depth v \<le> h"
proof -
  have d: "distinct always_revealed_keys" by (simp add: always_revealed_keys_def)
  let ?rev = "revealed_claims holder_key m"
  have dist: "distinct (map fst ?rev)" unfolding revealed_claims_def by (rule remove_entries_distinct [OF d])
  have sub: "set ?rev \<subseteq> set m"
  proof
    fix p
    assume p: "p \<in> set ?rev"
    obtain k v where kv: "p = (k, v)" by (cases p)
    with p dist have "map_get ?rev k = Some v" by (simp add: map_get_def)
    then have "map_get m k = Some v" by (simp add: revealed_get own_claims_get split: if_splits)
    then show "p \<in> set m" unfolding kv map_get_def by (rule map_of_SomeD)
  qed
  from dist sub assms show "issuable (Object ?rev)" "\<forall>(k, v) \<in> set ?rev. json_depth v \<le> h"
    by (auto simp: issuable_Object)
  have sub': "set (concealable_claims holder_key m) \<subseteq> set m" "distinct (map fst (concealable_claims holder_key m))"
    using assms(1) by (auto simp: concealable_claims_def own_claims_def shift_remove_def issuable_Object distinct_map_filter)
  with assms show "issuable (Object (concealable_claims holder_key m))"
    "\<forall>(k, v) \<in> set (concealable_claims holder_key m). json_depth v \<le> h"
    by (auto simp: issuable_Object)
qed

lemma confirmation_entry_keys: "fst ` set (confirmation_entry holder_key) = (if holder_key = None then {} else {CNF_KEY})"
  by (cases holder_key) (simp_all add: confirmation_entry_def)

lemma disjoint_below: "A \<subseteq> insert s C \<Longrightarrow> C \<inter> R = {} \<Longrightarrow> B \<subseteq> R \<Longrightarrow> s \<notin> R \<Longrightarrow> A \<inter> B = {}"
  by blast

lemma disjoint_mono: "A \<subseteq> B \<Longrightarrow> C \<subseteq> D \<Longrightarrow> B \<inter> D = {} \<Longrightarrow> A \<inter> C = {}"
  by blast

text \<open>The payload is the concealed claims, the algorithm, the revealed claims and the confirmation.\<close>

lemma issued_payload_append:
  assumes "distinct (map fst concealed)" and "fst ` set concealed \<subseteq> insert SD_DIGESTS_KEY (fst ` set (concealable_claims holder_key m))"
    and "issuable (Object m)"
  shows "issued_payload concealed (revealed_claims holder_key m) holder_key =
     concealed @ (DIGEST_ALG_KEY, String DEFAULT_DIGEST_ALG) # revealed_claims holder_key m @ confirmation_entry holder_key"
    and "distinct (map fst (concealed @ revealed_claims holder_key m @ confirmation_entry holder_key))"
    and "DIGEST_ALG_KEY \<notin> fst ` set concealed" and "fst ` set (revealed_claims holder_key m) \<subseteq> set always_revealed_keys"
proof -
  let ?rev = "revealed_claims holder_key m" and ?cs = "concealable_claims holder_key m"
  have d: "distinct always_revealed_keys" by (simp add: always_revealed_keys_def)
  have rk: "fst ` set ?rev \<subseteq> set always_revealed_keys" unfolding revealed_claims_def by (rule remove_entries_keys)
  have rd: "distinct (map fst ?rev)" unfolding revealed_claims_def by (rule remove_entries_distinct [OF d])
  have ck: "fst ` set ?cs \<inter> set always_revealed_keys = {}" "fst ` set ?cs \<inter> structural_keys = {}"
      "holder_key \<noteq> None \<Longrightarrow> CNF_KEY \<notin> fst ` set ?cs"
    using assms(3) by (auto simp: concealable_claims_def own_claims_def shift_remove_def issuable_Object)
  have alg: "DIGEST_ALG_KEY \<notin> fst ` set concealed" "DIGEST_ALG_KEY \<notin> fst ` set ?rev"
    using assms(2) ck(2) rk structural_not_revealed by (auto simp: structural_keys_def key_defs)
  have sd: "SD_DIGESTS_KEY \<notin> set always_revealed_keys" "CNF_KEY \<noteq> SD_DIGESTS_KEY" "CNF_KEY \<noteq> DIGEST_ALG_KEY"
    by (simp_all add: key_defs always_revealed_keys_def)
  have cr: "fst ` set concealed \<inter> fst ` set ?rev = {}" by (rule disjoint_below [OF assms(2) ck(1) rk sd(1)])
  have cnf: "holder_key \<noteq> None \<Longrightarrow> CNF_KEY \<notin> fst ` set concealed \<union> fst ` set ?rev"
    using subsetD [OF assms(2), of CNF_KEY] subsetD [OF rk, of CNF_KEY] ck(3) sd(2) cnf_not_revealed by auto
  show all: "distinct (map fst (concealed @ ?rev @ confirmation_entry holder_key))"
    using assms(1) rd cr cnf by (auto simp: confirmation_entry_def split: option.splits)
  show "DIGEST_ALG_KEY \<notin> fst ` set concealed" "fst ` set ?rev \<subseteq> set always_revealed_keys" by (fact alg(1) rk)+
  have 1: "map_insert DIGEST_ALG_KEY (String DEFAULT_DIGEST_ALG) concealed = concealed @ [(DIGEST_ALG_KEY, String DEFAULT_DIGEST_ALG)]"
    by (rule map_insert_new [OF alg(1)])
  have 2: "map_append (concealed @ [(DIGEST_ALG_KEY, String DEFAULT_DIGEST_ALG)]) ?rev =
      (concealed @ [(DIGEST_ALG_KEY, String DEFAULT_DIGEST_ALG)]) @ ?rev"
    by (rule map_append_fresh) (use assms(1) rd cr alg in auto)
  show "issued_payload concealed ?rev holder_key =
      concealed @ (DIGEST_ALG_KEY, String DEFAULT_DIGEST_ALG) # ?rev @ confirmation_entry holder_key"
  proof (cases holder_key)
    case None
    then show ?thesis using 2 by (simp add: issued_payload_def 1 confirmation_entry_def)
  next
    case (Some key)
    then have "CNF_KEY \<notin> fst ` set (concealed @ (DIGEST_ALG_KEY, String DEFAULT_DIGEST_ALG) # ?rev)"
      using cnf sd(3) by auto
    from map_insert_new [OF this] Some 2 show ?thesis by (simp add: issued_payload_def 1 confirmation_entry_def)
  qed
qed

definition credential_shape :: "jwk option \<Rightarrow> json_map \<Rightarrow> bool" where
  "credential_shape holder_key m \<longleftrightarrow>
     issuable (Object (credential_claims holder_key m)) \<and> issuable (Object m) \<and>
     json_depth (Object (credential_claims holder_key m)) \<le> MAX_PROCESSED_SD_JWT_DEPTH \<and>
     json_depth (Object m) \<le> MAX_PROCESSED_SD_JWT_DEPTH"

lemma confirmation_entry_plain:
  assumes "credential_shape holder_key m" and "MAX_PROCESSED_SD_JWT_DEPTH = Suc h"
  shows "issuable (Object (confirmation_entry holder_key))"
    and "\<forall>(k, v) \<in> set (confirmation_entry holder_key). json_depth v \<le> h"
proof -
  have "issuable (holder_confirmation key) \<and> json_depth (holder_confirmation key) \<le> h" if k: "holder_key = Some key" for key
  proof -
    have "(CNF_KEY, holder_confirmation key) \<in> set (credential_claims holder_key m)"
      using map_get_insert [of CNF_KEY "holder_confirmation key" m CNF_KEY]
      by (simp add: k credential_claims_def map_get_def map_of_SomeD)
    moreover have "issuable (Object (credential_claims holder_key m))" "json_depth (Object (credential_claims holder_key m)) \<le> Suc h"
      using assms(1) unfolding credential_shape_def assms(2) by blast+
    ultimately show ?thesis unfolding issuable_Object json_depth_Object_le by blast
  qed
  then show "issuable (Object (confirmation_entry holder_key))" "\<forall>(k, v) \<in> set (confirmation_entry holder_key). json_depth v \<le> h"
    by (auto simp: confirmation_entry_def issuable_Object structural_keys_def key_defs split: option.split)
qed

lemma json_eqv_credential:
  assumes cc: "issuable (Object (credential_claims holder_key m))"
    and dist: "distinct (map fst (ps @ revealed_claims holder_key m @ confirmation_entry holder_key @ news))"
    and user: "json_eqv (Object (concealable_claims holder_key m)) (Object (ps @ news))"
  shows "json_eqv (Object (credential_claims holder_key m))
     (Object (ps @ revealed_claims holder_key m @ confirmation_entry holder_key @ news))"
proof (rule json_eqv_get [OF _ dist])
  show "distinct (map fst (credential_claims holder_key m))" using cc by (simp add: issuable_Object)
  fix k
  let ?c = "map_get (credential_claims holder_key m) k"
  let ?u = "map_get (concealable_claims holder_key m) k"
  have refl: "rel_option json_eqv ?c ?c"
    using cc by (auto simp: option.rel_refl_strong issuable_def json_eqv_refl list_all_iff map_get_def
        dest!: map_of_SomeD intro!: option.rel_refl_strong)
  have parts: "map_get (ps @ revealed_claims holder_key m @ confirmation_entry holder_key @ news) k =
      (case map_get (revealed_claims holder_key m) k of Some v \<Rightarrow> Some v
       | None \<Rightarrow> (case map_get (confirmation_entry holder_key) k of Some v \<Rightarrow> Some v | None \<Rightarrow> map_get (ps @ news) k))"
  proof -
    have "map_get ps k = None \<or> map_get (revealed_claims holder_key m) k = None \<and> map_get (confirmation_entry holder_key) k = None"
    proof (cases "k \<in> fst ` set ps")
      case True
      then have "k \<notin> fst ` set (revealed_claims holder_key m)" "k \<notin> fst ` set (confirmation_entry holder_key)"
        using dist by (simp_all add: disjoint_iff)
      then show ?thesis by (simp add: map_get_none)
    qed (simp add: map_get_none)
    then show ?thesis by (auto simp: map_get_append_list split: option.split)
  qed
  have cnf: "map_get (confirmation_entry holder_key) k =
      (case holder_key of None \<Rightarrow> None | Some key \<Rightarrow> if k = CNF_KEY then Some (holder_confirmation key) else None)"
    by (simp add: confirmation_entry_def split: option.split)
  have c: "?c = (case holder_key of None \<Rightarrow> map_get m k
      | Some key \<Rightarrow> if k = CNF_KEY then Some (holder_confirmation key) else map_get m k)"
    by (simp add: credential_claims_def map_get_insert split: option.split)
  have u: "rel_option json_eqv ?u (map_get (ps @ news) k)" by (rule json_eqv_getD [OF user])
  show "rel_option json_eqv ?c (map_get (ps @ revealed_claims holder_key m @ confirmation_entry holder_key @ news) k)"
  proof (cases "k \<in> set always_revealed_keys")
    case True
    with u have "map_get (ps @ news) k = None" by (simp add: concealable_get)
    then show ?thesis
      using refl True cnf_not_revealed unfolding parts cnf c
      by (cases holder_key) (auto simp: revealed_get own_claims_get split: option.splits)
  next
    case False
    then show ?thesis
      using refl u unfolding parts cnf c
      by (cases holder_key) (auto simp: revealed_get own_claims_get concealable_get split: option.splits if_splits)
  qed
qed

lemma payload_reveals:
  assumes user: "direct_value X R False (Object (concealable_claims holder_key m)) strat r = (Object concealed, ds, r')"
    and shape: "credential_shape holder_key m"
    and T: "opens X T (direct_contents X R False (Object (concealable_claims holder_key m)) strat r)"
  shows "\<exists>out D. reveals T MAX_PROCESSED_SD_JWT_DEPTH
       (Object (issued_payload concealed (revealed_claims holder_key m) holder_key)) out D \<and>
     mset D = mset (map hash ds) \<and> json_eqv (Object (credential_claims holder_key m)) out"
proof -
  let ?rev = "revealed_claims holder_key m" and ?cs = "concealable_claims holder_key m" and ?cnf = "confirmation_entry holder_key"
  let ?p = "issued_payload concealed ?rev holder_key"
  obtain h where h: "MAX_PROCESSED_SD_JWT_DEPTH = Suc h" by (simp add: MAX_PROCESSED_SD_JWT_DEPTH_def)
  have m: "issuable (Object m)" "\<forall>(k, v) \<in> set m. json_depth v \<le> h"
    using shape unfolding credential_shape_def h json_depth_Object_le by blast+
  note plain = rev_claims_issuable [OF m, of holder_key]
  have "json_depth (Object ?cs) \<le> Suc h" using plain(4) unfolding json_depth_Object_le .
  from direct_recovers(1) [OF user plain(3) this T decoys_hidden_none] obtain out0 D where
    out0: "reveals T (Suc h) (Object concealed) out0 D" "json_eqv (Object ?cs) out0" "mset D = mset (map hash ds)"
    by (auto simp: recovers_def covers_digests_def)
  from out0(1) obtain ps d1 news d2 where o: "out0 = Object (map_append [] ps @ news)" "D = d1 @ d2"
    and mb: "reveals_members T h concealed ps d1" and dg: "reveals_digests T h (sd_digests concealed) news d2"
    and news: "distinct (map fst news)" "fst ` set news \<inter> fst ` set ps = {}"
    by (cases rule: reveals_ObjectE) (auto simp: is_scalar_json_def)
  from concealed_object_keys [OF user] have ck: "distinct (map fst concealed)"
    "fst ` set concealed \<subseteq> insert SD_DIGESTS_KEY (fst ` set ?cs)" by auto
  note pay = issued_payload_append [OF ck m(1)]
  have psk: "fst ` set ps \<subseteq> fst ` set concealed" and psd: "distinct (map fst ps)"
  proof -
    have "set (map fst ps) \<subseteq> set (map fst concealed)"
      unfolding reveals_members_keys [OF mb] by (rule filter_is_subset)
    then show "fst ` set ps \<subseteq> fst ` set concealed" by (simp only: set_map)
    show "distinct (map fst ps)" unfolding reveals_members_keys [OF mb] using ck(1) by (rule distinct_filter)
  qed
  have o': "out0 = Object (ps @ news)"
    using o(1) map_append_fresh [of "[]" ps] psd by simp
  have newk: "fst ` set news \<subseteq> fst ` set ?cs"
  proof
    fix k
    assume "k \<in> fst ` set news"
    then have "map_get (ps @ news) k \<noteq> None" by (simp add: map_get_def map_of_eq_None_iff)
    then have "map_get ?cs k \<noteq> None" using json_eqv_getD [OF out0(2) [unfolded o'], of k]
      by (cases "map_get ?cs k") auto
    then show "k \<in> fst ` set ?cs" by (simp add: map_get_def map_of_eq_None_iff)
  qed
  have csk: "fst ` set ?cs \<inter> set always_revealed_keys = {}" "holder_key \<noteq> None \<Longrightarrow> CNF_KEY \<notin> fst ` set ?cs"
    by (auto simp: concealable_claims_def own_claims_def shift_remove_def)
  have "reveals_members T h (concealed @ ((DIGEST_ALG_KEY, String DEFAULT_DIGEST_ALG) # ?rev @ ?cnf)) (ps @ ?rev @ ?cnf) (d1 @ ([] @ []))"
    using reveals_members_append [OF plain_members [OF plain(1,2)] plain_members [OF confirmation_entry_plain [OF shape h]]]
    by (intro reveals_members_append [OF mb] mb_skip) auto
  then have mbs: "reveals_members T h ?p (ps @ ?rev @ ?cnf) d1" by (simp add: pay(1))
  let ?out = "ps @ ?rev @ ?cnf @ news"
  have "map_get ?rev SD_DIGESTS_KEY = None"
    using structural_not_revealed by (auto simp: revealed_get structural_keys_def)
  then have sd: "sd_digests ?p = sd_digests concealed"
    by (simp add: pay(1) sd_digests_def map_get_append_list key_defs confirmation_entry_def split: option.split)
  have nr: "fst ` set news \<inter> fst ` set ?rev = {}"
    by (rule disjoint_mono [OF newk pay(4) csk(1)])
  have nc: "fst ` set news \<inter> fst ` set ?cnf = {}"
    using subsetD [OF newk, of CNF_KEY] csk(2) by (cases "holder_key = None") (auto simp: confirmation_entry_keys simp del: image_iff)
  have nd: "fst ` set news \<inter> fst ` set (ps @ ?rev @ ?cnf) = {}"
    using news(2) nr nc by (simp add: image_Un Int_Un_distrib)
  have "fst ` set concealed \<inter> fst ` set (?rev @ ?cnf) = {}" using pay(2) by (simp add: image_Un)
  from disjoint_mono [OF psk subset_refl this] have dist': "distinct (map fst (ps @ ?rev @ ?cnf))"
    using psd pay(2) by (simp add: image_Un)
  have dist: "distinct (map fst ?out)"
    using dist' news(1) nd by (simp add: image_Un Int_Un_distrib Int_Un_distrib2 Int_commute)
  have "reveals T (Suc h) (Object ?p) (Object (map_append [] (ps @ ?rev @ ?cnf) @ news)) (d1 @ d2)"
    by (rule rv_object [OF mbs dg [folded sd] news(1) nd])
  then have rv: "reveals T (Suc h) (Object ?p) (Object ?out) D"
    using map_append_fresh [of "[]" "ps @ ?rev @ ?cnf"] dist' o(2) by simp
  moreover have "json_eqv (Object (credential_claims holder_key m)) (Object ?out)"
    by (rule json_eqv_credential [OF _ dist out0(2) [unfolded o']]) (use shape in \<open>simp add: credential_shape_def\<close>)
  ultimately show ?thesis unfolding h using out0(3) by blast
qed

lemma keys_avoid_subset: "keys_avoid K v \<Longrightarrow> K' \<subseteq> K \<Longrightarrow> keys_avoid K' v"
  by (induction v) (fastforce simp: list_all_iff)+

lemma payload_digest_ok:
  assumes user: "direct_value X R decoys (Object (concealable_claims holder_key m)) strat r = (Object concealed, ds, r')"
    and shape: "credential_shape holder_key m"
  shows "digest_algorithm_ok (issued_payload concealed (revealed_claims holder_key m) holder_key)"
proof -
  let ?K = "{DIGEST_ALG_KEY}"
  obtain h where h: "MAX_PROCESSED_SD_JWT_DEPTH = Suc h" by (simp add: MAX_PROCESSED_SD_JWT_DEPTH_def)
  have m: "issuable (Object m)" "\<forall>(k, v) \<in> set m. json_depth v \<le> h"
    using shape unfolding credential_shape_def h json_depth_Object_le by blast+
  note plain = rev_claims_issuable [OF m, of holder_key]
  have avoid: "keys_avoid ?K v" if "issuable v" for v
    using that keys_avoid_subset [of structural_keys v ?K] by (simp add: issuable_def structural_keys_def)
  have "?K \<inter> reserved_keys = {}" by (simp add: reserved_keys_def key_defs)
  from direct_keys_avoid(1) [OF this avoid [OF plain(3)], of X R decoys strat r] user
  have "keys_avoid ?K (Object concealed)" by simp
  moreover have "keys_avoid ?K (Object (revealed_claims holder_key m))" "keys_avoid ?K (Object (confirmation_entry holder_key))"
    using avoid plain(1) confirmation_entry_plain(1) [OF shape h] by blast+
  moreover from concealed_object_keys [OF user] have ck: "distinct (map fst concealed)"
    "fst ` set concealed \<subseteq> insert SD_DIGESTS_KEY (fst ` set (concealable_claims holder_key m))" by auto
  note pay = issued_payload_append [OF ck m(1)]
  ultimately show ?thesis
    unfolding digest_algorithm_ok_def pay(1) using pay(3)
    by (auto simp: map_get_append_list map_get_none list_all_iff)
qed

subsection \<open>The completed credential\<close>

text \<open>What the library says of the signed token: its header, the key that verifies it, its payload.\<close>

definition token_verifies ::
    "'k externals \<Rightarrow> (string \<Rightarrow> jose_header \<Rightarrow> 'k result) \<Rightarrow> verification_policy \<Rightarrow> string \<Rightarrow> json_map \<Rightarrow> bool" where
  "token_verifies X resolve policy token payload \<longleftrightarrow>
     (\<exists>header declared key signed_header issuer.
        decode_header X token = Inr header \<and> policy_allows policy (jh_alg header) \<and>
        decode_header_and_get_sign_algorithm X token = Some declared \<and>
        algorithm_from_str X declared = Inr (jh_alg header) \<and>
        map_get payload ''iss'' = Some (String issuer) \<and> resolve issuer header = Ok key \<and>
        jwt_decode X token key (verifier_validation X (jh_alg header)) = Inr (signed_header, payload))"

lemma made_raw: "made X ds \<Longrightarrow> d \<in> set ds \<Longrightarrow> \<exists>t. raw_b64 d = base64_encode X t"
  by (metis made_def new_with_salt_sel(1) base64url_encode_def)

text \<open>The compact form of a completed credential loads the token, its payload and the disclosures.\<close>

lemma completed_parses:
  assumes prep: "prepared_from X alg_name options m concealed ds p" "opt_serialization_format options = Compact"
    and made: "made X ds" and X: "base64_alphabet X"
    and fin: "complete_encoded_signature X p (base64_encode X sig) = Ok presentation"
    and payload: "jwt_payload_decode X (prep_payload p) = Ok payload"
    and limits: "within_limits presentation (prep_disclosures p)"
  shows "parse_sd_jwt X (common_new Compact) presentation = (Ok (),
     (common_new Compact)\<lparr>sign_alg := decode_header_and_get_sign_algorithm X (prep_signing_input p @ ''.'' @ base64_encode X sig),
        input_disclosures := map raw_b64 ds,
        unverified_sd_jwt := Some (prep_signing_input p @ ''.'' @ base64_encode X sig),
        unverified_payload := Some payload\<rparr>)"
proof -
  let ?token = "prep_signing_input p @ ''.'' @ base64_encode X sig"
  from prep obtain header_text payload_text where p: "prep_disclosures p = map raw_b64 ds"
    "prep_signing_input p = base64_encode X header_text @ ''.'' @ base64_encode X payload_text"
    "prep_payload p = base64_encode X payload_text" "prep_serialization_format p = Compact"
    by (auto simp: prepared_from_def)
  have token: "?token = jwt_of_parts (base64_encode X header_text) (base64_encode X payload_text) (base64_encode X sig)"
    by (simp add: p(2) jwt_of_parts_def)
  have parts: "split_on (CHR ''.'') ?token = [base64_encode X header_text, base64_encode X payload_text, base64_encode X sig]"
    unfolding token by (intro split_jwt_of_parts base64_no_dot [OF X])
  have tilde: "CHR ''~'' \<notin> set ?token" by (auto simp: p(2) base64_no_tilde [OF X])
  have raws: "CHR ''~'' \<notin> set d" if "d \<in> set (map raw_b64 ds)" for d
    using that by (auto dest!: made_raw [OF made] simp: base64_no_tilde [OF X])
  have pres: "presentation = join ''~'' (?token # map raw_b64 ds @ [[]])"
    using fin join_snoc_empty [of "?token # map raw_b64 ds" "''~''"]
    by (simp add: complete_encoded_signature_def p(1,4) COMBINED_SERIALIZATION_FORMAT_SEPARATOR_def)
  have "load_compact_parts X (common_new Compact) ?token (map raw_b64 ds) [] = (Ok (),
     (common_new Compact)\<lparr>sign_alg := decode_header_and_get_sign_algorithm X ?token, unverified_kb_jwt := None,
        input_disclosures := map raw_b64 ds, unverified_sd_jwt := Some ?token, unverified_payload := Some payload\<rparr>)"
    unfolding load_compact_parts_Ok using parts payload p(3) by simp
  moreover have "parse_compact_sd_jwt X (common_new Compact) presentation =
      load_compact_parts X (common_new Compact) ?token (map raw_b64 ds) []"
    unfolding pres by (rule parse_compact_join [OF tilde _ raws]) (use limits p(1) in \<open>simp_all add: within_limits_def\<close>)
  ultimately show ?thesis
    unfolding parse_sd_jwt_Ok using limits p(1) by (simp add: common_new_def within_limits_def)
qed

lemma completed_accepted:
  assumes prep: "prepared_from X alg_name options m concealed ds p" "opt_serialization_format options = Compact"
    and user: "direct_value X R False (Object (concealable_claims (opt_holder_key options) m)) strat r = (Object concealed, ds, r')"
    and shape: "credential_shape (opt_holder_key options) m"
    and X: "base64_alphabet X" "base64_inverse X"
      "texts_parse X (direct_contents X R False (Object (concealable_claims (opt_holder_key options) m)) strat r)"
      "distinct (map hash ds)"
    and fin: "complete_encoded_signature X p (base64_encode X sig) = Ok presentation"
    and payload: "jwt_payload_decode X (prep_payload p)
        = Ok (issued_payload concealed (revealed_claims (opt_holder_key options) m) (opt_holder_key options))"
    and limits: "within_limits presentation (prep_disclosures p)"
    and token: "token_verifies X resolve policy (prep_signing_input p @ ''.'' @ base64_encode X sig)
        (issued_payload concealed (revealed_claims (opt_holder_key options) m) (opt_holder_key options))"
    and public: "public_confirmation (issued_payload concealed (revealed_claims (opt_holder_key options) m) (opt_holder_key options))"
  shows "\<exists>v. accepted X Compact resolve policy None None presentation v \<and>
     json_eqv (Object (credential_claims (opt_holder_key options) m)) (verified_claims v)"
proof -
  let ?pay = "issued_payload concealed (revealed_claims (opt_holder_key options) m) (opt_holder_key options)"
  have made: "made X ds" using direct_made(1) [of X R False _ strat r] user by (metis fst_conv snd_conv)
  note parse = completed_parses [OF prep made X(1) fin payload limits]
  have "ds = map (disclosure_of X)
      (direct_contents X R False (Object (concealable_claims (opt_holder_key options) m)) strat r)"
    using direct_contents_made(1) [of X R False "Object (concealable_claims (opt_holder_key options) m)" strat r] user by simp
  note pr = issued_presentable [OF X(2,3) this X(4) refl]
  let ?T = "dm_decoded (mappings_of X (map raw_b64 ds))"
  from payload_reveals [OF user shape pr(2)] obtain out D where
    out: "reveals ?T MAX_PROCESSED_SD_JWT_DEPTH (Object ?pay) out D" "mset D = mset (map hash ds)"
    "json_eqv (Object (credential_claims (opt_holder_key options) m)) out" by blast
  have "distinct D" using out(2) X(4) mset_eq_imp_distinct_iff by blast
  have "set D = hash ` set ds" using arg_cong [OF out(2), of set_mset] by simp
  moreover have "base64_hash X ` set (map raw_b64 ds) = hash ` set ds"
    using made_hash [OF made] by (simp add: image_image)
  ultimately have sub: "base64_hash X ` set (map raw_b64 ds) \<subseteq> set D" by simp
  let ?e1 = "(common_new Compact)\<lparr>sign_alg := decode_header_and_get_sign_algorithm X (prep_signing_input p @ ''.'' @ base64_encode X sig),
        input_disclosures := map raw_b64 ds,
        unverified_sd_jwt := Some (prep_signing_input p @ ''.'' @ base64_encode X sig),
        unverified_payload := Some ?pay\<rparr>"
  let ?e = "?e1\<lparr>hash_to_decoded := ?T, hash_to_disclosure := dm_encoded (mappings_of X (map raw_b64 ds)),
        ordered_digests := map (base64_hash X) (map raw_b64 ds)\<rparr>"
  have "loaded X Compact presentation ?e"
    unfolding loaded_def using parse pr(1) by (intro exI [of _ ?e1]) simp
  moreover have "issuer_signed X ?e resolve policy (sign_alg ?e) ?pay"
    using token public unfolding token_verifies_def issuer_signed_def by auto
  moreover have "claims_revealed X ?e ?pay D out"
    unfolding claims_revealed_def using payload_digest_ok [OF user shape] out(1) \<open>distinct D\<close> sub by simp
  ultimately have "accepted X Compact resolve policy None None presentation (verified_state ?e resolve policy ?pay D out)"
    unfolding accepted_def accepted_from_def bound_on_request_def by blast
  then show ?thesis using out(3) by (intro exI [of _ "verified_state ?e resolve policy ?pay D out"]) (simp add: verified_state_def)
qed

subsection \<open>From preparation to verification\<close>

text \<open>
  What one issuance conceals and signs: the contents of its disclosures, and its payload, both
  for the claims, the strategy and the random source given to it.
\<close>

definition issued_contents ::
    "'k externals \<Rightarrow> 'r random_source \<Rightarrow> issuance_options \<Rightarrow> json_map \<Rightarrow> strategy \<Rightarrow> 'r \<Rightarrow> disclosed_content list" where
  "issued_contents X R options m strat r =
     (case finalize_input strat of
        Ok strat' \<Rightarrow> direct_contents X R (opt_add_decoy_claims options)
          (Object (concealable_claims (opt_holder_key options) m)) strat' r
      | _ \<Rightarrow> [])"

definition signed_payload ::
    "'k externals \<Rightarrow> 'r random_source \<Rightarrow> issuance_options \<Rightarrow> json_map \<Rightarrow> strategy \<Rightarrow> 'r \<Rightarrow> json_map" where
  "signed_payload X R options m strat r =
     (case finalize_input strat of
        Ok strat' \<Rightarrow>
          (case direct_value X R (opt_add_decoy_claims options)
             (Object (concealable_claims (opt_holder_key options) m)) strat' r of
             (Object concealed, _, _) \<Rightarrow>
               issued_payload concealed (revealed_claims (opt_holder_key options) m) (opt_holder_key options)
           | _ \<Rightarrow> [])
      | _ \<Rightarrow> [])"

text \<open>
  The token library and the parser on one payload: a confirmation key left visible in it is a
  public one, its text reads back as the payload, and the token over the protected header and this text, with the signature, verifies under the key that
  \<open>resolve\<close> gives. That this is the token which the issuer makes is not said here.
\<close>

definition issuer_token_ok ::
    "'k externals \<Rightarrow> (string \<Rightarrow> jose_header \<Rightarrow> 'k result) \<Rightarrow> verification_policy \<Rightarrow> algorithm \<Rightarrow> json_map \<Rightarrow> string \<Rightarrow> bool" where
  "issuer_token_ok X resolve policy a payload sig \<longleftrightarrow>
     public_confirmation payload \<and>
     (case (header_to_vec X (protected_header X a), map_to_vec X payload) of
        (Inr header_text, Inr text) \<Rightarrow>
          jwt_payload_decode X (base64_encode X text) = Ok payload \<and>
          token_verifies X resolve policy
            (base64_encode X header_text @ ''.'' @ base64_encode X text @ ''.'' @ base64_encode X sig) payload
      | _ \<Rightarrow> False)"

lemma plan_execute_complete:
  assumes "complete_plan X plan out ds" and "plan_execute par X host plan b = Ok (assembly, b')"
  shows "assembly = \<lparr>ia_claims = out, ia_disclosures = map snd ds\<rparr> \<and> b' = b"
  using execute_adaptively_sat [OF assms(1), of b host QUALIFIED_ISSUANCE_THRESHOLDS] execute_serial_complete [OF assms(1)] assms(2)
  by (auto simp: plan_execute_def rbind_eq_Ok split: if_splits)

lemma prepared_direct:
  assumes "prepare_with_random_source par X host b alg_name user_claims strat options R r = Ok (p, b', r')"
  shows "\<exists>m strat' concealed ds. user_claims = Object m \<and> admissible_claims (opt_holder_key options) m \<and>
     finalize_input strat = Ok strat' \<and>
     direct_value X R (opt_add_decoy_claims options) (Object (concealable_claims (opt_holder_key options) m)) strat' r
       = (Object concealed, ds, r') \<and>
     prepared_from X alg_name options m concealed ds p \<and> b' = b"
proof -
  from assms obtain m strat' plan assembly concealed where
    u: "user_claims = Object m" "admissible_claims (opt_holder_key options) m" "finalize_input strat = Ok strat'"
    and plan: "plan_create R (Object (concealable_claims (opt_holder_key options) m)) strat' (opt_add_decoy_claims options) r
          = Ok (plan, r')"
    and run: "plan_execute par X host plan b = Ok (assembly, b')" "ia_claims assembly = Object concealed"
    and fromp: "prepared_from X alg_name options m concealed (ia_disclosures assembly) p"
    unfolding prepare_with_random_source_def prepare_with_plan_executor_Ok by blast
  from plan_create_complete [OF plan, of X] obtain out ds where
    "direct_value X R (opt_add_decoy_claims options) (Object (concealable_claims (opt_holder_key options) m)) strat' r
       = (out, map snd ds, r')" "complete_plan X plan out ds" by blast
  with plan_execute_complete [OF this(2) run(1)] run(2) u fromp show ?thesis by auto
qed

lemma prepared_payload:
  assumes "prepare_with_random_source par X host b alg_name (Object m) strat options R r = Ok (p, b', r')"
  obtains strat' concealed ds where
    "direct_value X R (opt_add_decoy_claims options) (Object (concealable_claims (opt_holder_key options) m)) strat' r
       = (Object concealed, ds, r')"
    "finalize_input strat = Ok strat'" "prepared_from X alg_name options m concealed ds p" "b' = b"
    "signed_payload X R options m strat r =
       issued_payload concealed (revealed_claims (opt_holder_key options) m) (opt_holder_key options)"
    "issued_contents X R options m strat r =
       direct_contents X R (opt_add_decoy_claims options) (Object (concealable_claims (opt_holder_key options) m)) strat' r"
  using prepared_direct [OF assms] by (auto simp: signed_payload_def issued_contents_def)

lemma complete_Ok:
  "complete X p sig key = Ok presentation \<longleftrightarrow>
     remote_signature_shape X (prep_algorithm p) sig = Some True \<and> install_crypto_provider X = Ok () \<and>
     jws_verify X (base64_encode X sig) (prep_signing_input p) key (prep_algorithm p) = Inr True \<and>
     complete_encoded_signature X p (base64_encode X sig) = Ok presentation"
  by (auto simp: complete_def rbind_eq_Ok verify_remote_signature_Ok base64url_encode_def)

lemma credential_verifies:
  assumes "prepare_with_random_source par X host b alg_name (Object m) strat options R r = Ok (p, b', r')"
    and opts: "opt_serialization_format options = Compact" "\<not> opt_add_decoy_claims options"
    and shape: "credential_shape (opt_holder_key options) m"
    and fin: "complete X p sig key = Ok presentation"
    and token: "issuer_token_ok X resolve policy (prep_algorithm p) (signed_payload X R options m strat r) sig"
    and X: "base64_alphabet X" "base64_inverse X"
    and read: "texts_parse X (issued_contents X R options m strat r)" "distinct (map (base64_hash X) (prep_disclosures p))"
    and limits: "within_limits presentation (prep_disclosures p)" and spawn: "\<And>i. env_spawn env i"
  shows "\<exists>v. verifier_new_with_policy X env presentation resolve None None Compact policy = Ok v \<and>
     json_eqv (Object (credential_claims (opt_holder_key options) m)) (verified_claims v)"
proof -
  have plain: "opt_add_decoy_claims options = False" using opts(2) by simp
  from prepared_payload [OF assms(1), unfolded plain] obtain strat' concealed ds where
    user: "direct_value X R False (Object (concealable_claims (opt_holder_key options) m)) strat' r = (Object concealed, ds, r')"
    and fromp: "prepared_from X alg_name options m concealed ds p"
    and pay: "signed_payload X R options m strat r =
       issued_payload concealed (revealed_claims (opt_holder_key options) m) (opt_holder_key options)"
    and contents: "issued_contents X R options m strat r =
       direct_contents X R False (Object (concealable_claims (opt_holder_key options) m)) strat' r"
    by blast
  let ?pay = "issued_payload concealed (revealed_claims (opt_holder_key options) m) (opt_holder_key options)"
  have made: "made X ds" using direct_made(1) [of X R False _ strat' r] user by (metis fst_conv snd_conv)
  have raws: "prep_disclosures p = map raw_b64 ds" using fromp by (auto simp: prepared_from_def)
  have hashes: "distinct (map hash ds)"
    using read(2) made_hash [OF made] by (simp add: raws cong: map_cong)
  have tok: "jwt_payload_decode X (prep_payload p) = Ok ?pay" "public_confirmation ?pay"
      "token_verifies X resolve policy (prep_signing_input p @ ''.'' @ base64_encode X sig) ?pay"
    using token fromp unfolding issuer_token_ok_def pay prepared_from_def by auto
  from fin have c: "install_crypto_provider X = Ok ()" "complete_encoded_signature X p (base64_encode X sig) = Ok presentation"
    by (simp_all add: complete_Ok)
  from completed_accepted [OF fromp opts(1) user shape X read(1) [unfolded contents] hashes c(2) tok(1) limits tok(3,2)]
  obtain v where
    "accepted X Compact resolve policy None None presentation v"
    "json_eqv (Object (credential_claims (opt_holder_key options) m)) (verified_claims v)" by blast
  with verifier_new_complete [OF spawn c(1)] show ?thesis by blast
qed

end
