(* ===== verification/Issuance_Trace.thy ===== *)
theory Issuance_Trace
  imports Issuance_Adaptive
begin

text \<open>
  The trace of src/src/issuer/issuance_plan.rs: an untimed benchmark run records, for every ready
  batch, which gates of the selection policy were reached, what was selected and how the jobs were
  cut into chunks. The state of the traced executor is the worker budget and the records so far.
\<close>

subsection \<open>Records and labels\<close>

datatype work_estimate_status = EstimateNotEvaluated | EstimateAvailable | EstimateOverflow

fun work_estimate_label :: "work_estimate_status \<Rightarrow> string" where
  "work_estimate_label EstimateNotEvaluated = ''not_evaluated''"
| "work_estimate_label EstimateAvailable = ''available''"
| "work_estimate_label EstimateOverflow = ''overflow''"

datatype budget_acquisition = AcquisitionNotEvaluated | Acquired | AcquisitionUnavailable

fun budget_acquisition_label :: "budget_acquisition \<Rightarrow> string" where
  "budget_acquisition_label AcquisitionNotEvaluated = ''not_evaluated''"
| "budget_acquisition_label Acquired = ''acquired''"
| "budget_acquisition_label AcquisitionUnavailable = ''unavailable''"

datatype selected_mode = SelectedSerial | SelectedNative

fun selected_mode_label :: "selected_mode \<Rightarrow> string" where
  "selected_mode_label SelectedSerial = ''serial''"
| "selected_mode_label SelectedNative = ''native_parallel''"

text \<open>\<open>BenchmarkSelectionReason\<close> repeats the execution reasons one for one.\<close>

fun selection_reason_label :: "issuance_reason \<Rightarrow> string" where
  "selection_reason_label BelowMinJobs = ''below_min_jobs''"
| "selection_reason_label WorkEstimateOverflow = ''work_estimate_overflow''"
| "selection_reason_label BelowMinEstimatedWorkBytes = ''below_min_estimated_work_bytes''"
| "selection_reason_label InsufficientAvailableParallelism = ''insufficient_available_parallelism''"
| "selection_reason_label WorkerBudgetUnavailable = ''worker_budget_unavailable''"
| "selection_reason_label BoundedNative = ''bounded_native''"

record static_chunk_trace =
  sc_ordinal :: nat
  sc_job_count :: nat
  sc_estimated_work_bytes :: nat

record ready_batch_trace =
  rb_ordinal :: nat
  rb_job_count :: nat
  rb_estimated_work_bytes :: "nat option"
  rb_work_estimate_status :: work_estimate_status
  rb_work_gate_evaluated :: bool
  rb_parallelism_gate_evaluated :: bool
  rb_budget_gate_evaluated :: bool
  rb_available_parallelism :: "nat option"
  rb_selected_worker_count :: "nat option"
  rb_leased_worker_count :: "nat option"
  rb_budget_acquisition :: budget_acquisition
  rb_selected_mode :: selected_mode
  rb_selection_reason :: issuance_reason
  rb_static_chunk_size :: "nat option"
  rb_static_chunks :: "static_chunk_trace list option"

record execution_trace_summary =
  ts_executor_batches :: nat
  ts_serial_batches :: nat
  ts_native_batches :: nat
  ts_budget_fallback_batches :: nat
  ts_max_worker_count :: nat
  ts_target_serial_fallback :: bool
  ts_ready_batches :: "ready_batch_trace list option"

definition trace_summary :: "ready_batch_trace list \<Rightarrow> execution_trace_summary" where
  "trace_summary ready_batches =
     (let native_batches = length (filter (\<lambda>batch. rb_selected_mode batch = SelectedNative) ready_batches)
      in \<lparr>ts_executor_batches = length ready_batches,
          ts_serial_batches = length ready_batches - native_batches,
          ts_native_batches = native_batches,
          ts_budget_fallback_batches =
            length (filter (\<lambda>batch. rb_selection_reason batch = WorkerBudgetUnavailable) ready_batches),
          ts_max_worker_count = fold max (List.map_filter rb_leased_worker_count ready_batches) 0,
          ts_target_serial_fallback = False,
          ts_ready_batches = Some ready_batches\<rparr>)"

text \<open>The summary of a target without the native executor.\<close>

definition trace_summary_fallback :: execution_trace_summary where
  "trace_summary_fallback =
     \<lparr>ts_executor_batches = 0, ts_serial_batches = 0, ts_native_batches = 0, ts_budget_fallback_batches = 0,
      ts_max_worker_count = 0, ts_target_serial_fallback = True, ts_ready_batches = None\<rparr>"

record benchmark_policy_facts =
  bf_mechanical_min_jobs :: nat
  bf_mechanical_min_estimated_work_bytes :: nat
  bf_qualified_min_jobs :: "nat option"
  bf_qualified_min_estimated_work_bytes :: "nat option"

definition benchmark_issuance_policy_facts :: benchmark_policy_facts where
  "benchmark_issuance_policy_facts =
     \<lparr>bf_mechanical_min_jobs = min_jobs BENCHMARK_ISSUANCE_THRESHOLDS,
      bf_mechanical_min_estimated_work_bytes = min_estimated_work_bytes BENCHMARK_ISSUANCE_THRESHOLDS,
      bf_qualified_min_jobs = map_option min_jobs QUALIFIED_ISSUANCE_THRESHOLDS,
      bf_qualified_min_estimated_work_bytes = map_option min_estimated_work_bytes QUALIFIED_ISSUANCE_THRESHOLDS\<rparr>"

subsection \<open>Recording a ready batch\<close>

text \<open>The chunks of a native batch; the estimate of a chunk that does not fit panics.\<close>

fun trace_chunks :: "'k externals \<Rightarrow> nat \<Rightarrow> issuance_job list list \<Rightarrow> static_chunk_trace list result" where
  "trace_chunks X ordinal [] = Ok []"
| "trace_chunks X ordinal (chunk # cs) =
     (case estimate_ready_job_work_bytes X chunk of
        None \<Rightarrow> Panic
      | Some bytes \<Rightarrow>
          rbind (trace_chunks X (Suc ordinal) cs) (\<lambda>ts.
          Ok (\<lparr>sc_ordinal = ordinal, sc_job_count = length chunk, sc_estimated_work_bytes = bytes\<rparr> # ts)))"

text \<open>
  \<open>estimated\<close> is what the estimator returned if it was asked, \<open>available\<close> the parallelism if it was
  asked for. \<open>chunks\<close> of size zero panics in Rust.
\<close>

definition batch_chunks ::
    "'k externals \<Rightarrow> issuance_job list \<Rightarrow> issuance_decision \<Rightarrow> (nat option \<times> static_chunk_trace list option) result" where
  "batch_chunks X jobs decision =
     (case id_mode decision of
        IssuanceSerial \<Rightarrow> Ok (None, None)
      | IssuanceNative worker_count \<Rightarrow>
          (let chunk_size = static_chunk_size (length jobs) worker_count
           in if chunk_size = 0 then Panic
              else rbind (trace_chunks X 0 (chunks chunk_size jobs)) (\<lambda>ts. Ok (Some chunk_size, Some ts))))"

definition record_benchmark_ready_batch ::
    "'k externals \<Rightarrow> ready_batch_trace list \<Rightarrow> issuance_job list \<Rightarrow> issuance_decision \<Rightarrow> nat option option
       \<Rightarrow> nat option \<Rightarrow> ready_batch_trace list result" where
  "record_benchmark_ready_batch X trace jobs decision estimated available_parallelism =
     rbind (batch_chunks X jobs decision) (\<lambda>(chunk_size, static_chunks).
     Ok (trace @ [
       \<lparr>rb_ordinal = length trace,
        rb_job_count = length jobs,
        rb_estimated_work_bytes = Option.bind estimated (\<lambda>e. e),
        rb_work_estimate_status =
          (case estimated of None \<Rightarrow> EstimateNotEvaluated | Some (Some e) \<Rightarrow> EstimateAvailable
           | Some None \<Rightarrow> EstimateOverflow),
        rb_work_gate_evaluated = (estimated \<noteq> None),
        rb_parallelism_gate_evaluated = (available_parallelism \<noteq> None),
        rb_budget_gate_evaluated = (id_reason decision \<in> {WorkerBudgetUnavailable, BoundedNative}),
        rb_available_parallelism = available_parallelism,
        rb_selected_worker_count =
          map_option (\<lambda>available. min (min available MAX_PARALLEL_ISSUANCE_WORKERS) (length jobs)) available_parallelism,
        rb_leased_worker_count =
          (case id_mode decision of IssuanceSerial \<Rightarrow> None | IssuanceNative worker_count \<Rightarrow> Some worker_count),
        rb_budget_acquisition =
          (case id_mode decision of
             IssuanceSerial \<Rightarrow>
               (if id_reason decision = WorkerBudgetUnavailable then AcquisitionUnavailable else AcquisitionNotEvaluated)
           | IssuanceNative worker_count \<Rightarrow> Acquired),
        rb_selected_mode =
          (case id_mode decision of IssuanceSerial \<Rightarrow> SelectedSerial | IssuanceNative worker_count \<Rightarrow> SelectedNative),
        rb_selection_reason = id_reason decision,
        rb_static_chunk_size = chunk_size,
        rb_static_chunks = static_chunks\<rparr>]))"

text \<open>
  What the two cells of \<open>select_execution_with_benchmark_trace\<close> hold after the selection: the
  estimator is asked once the job count suffices, the parallelism once the estimate does.
\<close>

definition observed_estimate :: "nat \<Rightarrow> nat option \<Rightarrow> issuance_thresholds \<Rightarrow> nat option option" where
  "observed_estimate job_count estimate thresholds =
     (if job_count < min_jobs thresholds then None else Some estimate)"

definition observed_parallelism ::
    "nat \<Rightarrow> nat option \<Rightarrow> issuance_thresholds \<Rightarrow> nat \<Rightarrow> nat option" where
  "observed_parallelism job_count estimate thresholds available_threads =
     (case observed_estimate job_count estimate thresholds of
        Some (Some e) \<Rightarrow> if e < min_estimated_work_bytes thresholds then None else Some available_threads
      | _ \<Rightarrow> None)"

definition select_execution_with_benchmark_trace ::
    "'k externals \<Rightarrow> issuance_job list \<Rightarrow> issuance_thresholds \<Rightarrow> nat \<Rightarrow> issuance_budget \<Rightarrow> ready_batch_trace list
       \<Rightarrow> ((issuance_selection \<times> issuance_budget) \<times> ready_batch_trace list) result" where
  "select_execution_with_benchmark_trace X jobs thresholds available_threads budget trace =
     (let estimate = estimate_ready_job_work_bytes X jobs;
          selection = select_execution_with_estimate (length jobs) estimate thresholds available_threads budget
      in rbind (record_benchmark_ready_batch X trace jobs (selection_decision (fst selection))
                  (observed_estimate (length jobs) estimate thresholds)
                  (observed_parallelism (length jobs) estimate thresholds available_threads)) (\<lambda>trace'.
         Ok (selection, trace')))"

definition traced_execute ::
    "'k externals \<Rightarrow> issuance_host \<Rightarrow> issuance_thresholds \<Rightarrow> issuance_budget \<times> ready_batch_trace list
       \<Rightarrow> issuance_job list \<Rightarrow> issuance_outcome list result \<times> (issuance_budget \<times> ready_batch_trace list)" where
  "traced_execute X host thresholds e jobs =
     (case select_execution_with_benchmark_trace X jobs thresholds (ih_threads host) (fst e) (snd e) of
        Ok (selection, trace') \<Rightarrow>
          (case run_selection X host selection jobs of (r, budget') \<Rightarrow> (r, (budget', trace')))
      | Err err \<Rightarrow> (Err err, e)
      | Panic \<Rightarrow> (Panic, e))"

definition execute_benchmark_candidate_with_trace ::
    "bool \<Rightarrow> 'k externals \<Rightarrow> issuance_host \<Rightarrow> issuance_plan \<Rightarrow> issuance_budget
       \<Rightarrow> ((issuance_assembly \<times> execution_trace_summary) \<times> issuance_budget) result" where
  "execute_benchmark_candidate_with_trace par X host plan budget =
     (if par
      then rbind (execute_with_executor (traced_execute X host BENCHMARK_ISSUANCE_THRESHOLDS) plan (budget, []))
             (\<lambda>(assembly, (budget', trace)). Ok ((assembly, trace_summary trace), budget'))
      else rbind (execute_serial X plan) (\<lambda>assembly. Ok ((assembly, trace_summary_fallback), budget)))"

subsection \<open>The estimate of a batch is the sum of its chunks\<close>

lemma add_opt_Some [simp]: "add_opt a b = Some c \<longleftrightarrow> (\<exists>m n. a = Some m \<and> b = Some n \<and> c = m + n \<and> m + n \<le> usize_max)"
  by (auto simp: add_opt_def Option.bind_eq_Some_conv)

lemma estimate_from_Some:
  "estimate_from X acc jobs = Some t \<longleftrightarrow>
     (\<exists>bs. map (\<lambda>job. estimate_operation X (ij_operation job)) jobs = map Some bs \<and> t = acc + sum_list bs \<and>
        (jobs = [] \<or> t \<le> usize_max))"
proof (induction jobs arbitrary: acc)
  case Nil
  then show ?case by auto
next
  case (Cons job jobs)
  let ?est = "\<lambda>job. estimate_operation X (ij_operation job)"
  have step: "estimate_from X acc (job # jobs) = Some t \<longleftrightarrow>
      (\<exists>b. ?est job = Some b \<and> acc + b \<le> usize_max \<and> estimate_from X (acc + b) jobs = Some t)"
    by (cases "?est job"; cases "add_opt (Some acc) (?est job)") (auto simp: add_opt_def checked_add_def split: if_splits)
  show ?case
  proof
    assume "estimate_from X acc (job # jobs) = Some t"
    then obtain b bs where b: "?est job = Some b" "acc + b \<le> usize_max"
      and bs: "map ?est jobs = map Some bs" "t = acc + b + sum_list bs" "jobs = [] \<or> t \<le> usize_max"
      unfolding step Cons.IH by blast
    then have "map ?est (job # jobs) = map Some (b # bs)" "t = acc + sum_list (b # bs)" "t \<le> usize_max"
      by auto
    then show "\<exists>bs. map ?est (job # jobs) = map Some bs \<and> t = acc + sum_list bs \<and> (job # jobs = [] \<or> t \<le> usize_max)"
      by blast
  next
    assume "\<exists>bs. map ?est (job # jobs) = map Some bs \<and> t = acc + sum_list bs \<and> (job # jobs = [] \<or> t \<le> usize_max)"
    then obtain bs where bs: "map ?est (job # jobs) = map Some bs" "t = acc + sum_list bs" "t \<le> usize_max" by blast
    then obtain b bs' where "bs = b # bs'" by (cases bs) auto
    with bs show "estimate_from X acc (job # jobs) = Some t"
      unfolding step Cons.IH by (intro exI [of _ b] conjI exI [of _ bs']) auto
  qed
qed

lemma estimate_append:
  assumes "estimate_ready_job_work_bytes X (js @ ks) = Some t"
  obtains m n where "estimate_ready_job_work_bytes X js = Some m" and "estimate_ready_job_work_bytes X ks = Some n"
    and "t = m + n"
proof -
  from assms obtain bs where bs: "map (\<lambda>job. estimate_operation X (ij_operation job)) (js @ ks) = map Some bs"
    and t: "t = sum_list bs" and le: "js @ ks = [] \<or> t \<le> usize_max"
    by (auto simp: estimate_ready_job_work_bytes_def estimate_from_Some)
  from bs obtain ms ns where "bs = ms @ ns"
    and "map (\<lambda>job. estimate_operation X (ij_operation job)) js = map Some ms"
    and "map (\<lambda>job. estimate_operation X (ij_operation job)) ks = map Some ns"
    by (auto simp: append_eq_map_conv)
  with t le show thesis
    by (intro that [of "sum_list ms" "sum_list ns"])
      (auto simp: estimate_ready_job_work_bytes_def estimate_from_Some)
qed

lemma trace_chunks_Ok:
  "estimate_ready_job_work_bytes X (concat cs) = Some t \<Longrightarrow>
     \<exists>ts. trace_chunks X n cs = Ok ts \<and> map sc_job_count ts = map length cs \<and>
        sum_list (map sc_estimated_work_bytes ts) = t \<and> map sc_ordinal ts = [n..<n + length cs]"
proof (induction cs arbitrary: n t)
  case Nil
  then show ?case by (simp add: estimate_ready_job_work_bytes_def)
next
  case (Cons c cs)
  from Cons.prems have "estimate_ready_job_work_bytes X (c @ concat cs) = Some t" by simp
  then obtain m k where m: "estimate_ready_job_work_bytes X c = Some m"
    and k: "estimate_ready_job_work_bytes X (concat cs) = Some k" and t: "t = m + k"
    by (rule estimate_append)
  from Cons.IH [OF k, of "Suc n"] obtain ts where "trace_chunks X (Suc n) cs = Ok ts"
    "map sc_job_count ts = map length cs" "sum_list (map sc_estimated_work_bytes ts) = k"
    "map sc_ordinal ts = [Suc n..<Suc n + length cs]" by blast
  with m t show ?case
    using upt_conv_Cons [of n "n + length (c # cs)"] by (simp del: upt_Suc)
qed

subsection \<open>Traced execution\<close>

text \<open>What a record says of its batch: the chunks of a native batch partition its jobs and its
  estimate among at most the leased workers, and the flags tell which gates were reached.\<close>

definition coherent_batch :: "ready_batch_trace \<Rightarrow> bool" where
  "coherent_batch batch \<longleftrightarrow>
     (case rb_leased_worker_count batch of
        None \<Rightarrow> rb_selected_mode batch = SelectedSerial \<and> rb_static_chunks batch = None \<and>
          rb_budget_acquisition batch \<noteq> Acquired \<and> rb_selection_reason batch \<noteq> BoundedNative
      | Some w \<Rightarrow> rb_selected_mode batch = SelectedNative \<and> rb_selection_reason batch = BoundedNative \<and>
          rb_budget_acquisition batch = Acquired \<and> 2 \<le> w \<and> w \<le> MAX_PARALLEL_ISSUANCE_WORKERS \<and>
          w \<le> rb_job_count batch \<and>
          (\<exists>ts. rb_static_chunks batch = Some ts \<and> length ts \<le> w \<and>
             sum_list (map sc_job_count ts) = rb_job_count batch \<and>
             rb_estimated_work_bytes batch = Some (sum_list (map sc_estimated_work_bytes ts)))) \<and>
     (rb_work_gate_evaluated batch \<longleftrightarrow> rb_work_estimate_status batch \<noteq> EstimateNotEvaluated) \<and>
     (rb_budget_gate_evaluated batch \<longrightarrow> rb_parallelism_gate_evaluated batch) \<and>
     (rb_parallelism_gate_evaluated batch \<longrightarrow> rb_work_estimate_status batch = EstimateAvailable)"

lemma batch_chunks_native:
  assumes "estimate_ready_job_work_bytes X jobs = Some est" and "2 \<le> w" and "w \<le> length jobs"
  shows "\<exists>n ts. batch_chunks X jobs \<lparr>id_mode = IssuanceNative w, id_reason = BoundedNative\<rparr> = Ok (Some n, Some ts) \<and>
     length ts \<le> w \<and> sum_list (map sc_job_count ts) = length jobs \<and> sum_list (map sc_estimated_work_bytes ts) = est"
proof -
  let ?n = "static_chunk_size (length jobs) w" and ?cs = "chunks (static_chunk_size (length jobs) w) jobs"
  have pos: "0 < ?n" by (rule static_chunk_size_pos) (use assms in auto)
  then have c: "concat ?cs = jobs" by (rule concat_chunks)
  from trace_chunks_Ok [of X ?cs est 0] assms(1) obtain ts where ts: "trace_chunks X 0 ?cs = Ok ts"
    "map sc_job_count ts = map length ?cs" "sum_list (map sc_estimated_work_bytes ts) = est"
    by (auto simp: c)
  have "length ts = length ?cs" using arg_cong [OF ts(2), of length] by simp
  moreover have "length ?cs \<le> w" by (rule chunk_count) (use assms in auto)
  moreover have "sum_list (map length ?cs) = length jobs"
    using arg_cong [OF c, of length] by (simp add: length_concat)
  ultimately show ?thesis
    using ts pos by (intro exI [of _ ?n] exI [of _ ts]) (simp add: batch_chunks_def Let_def)
qed

lemma select_native_facts:
  "select_execution_with_estimate n est t k b = (SelectNative d w, b') \<Longrightarrow>
     d = \<lparr>id_mode = IssuanceNative w, id_reason = BoundedNative\<rparr> \<and> 2 \<le> w \<and> w \<le> MAX_PARALLEL_ISSUANCE_WORKERS \<and> w \<le> n \<and>
     (\<exists>e. est = Some e \<and> \<not> n < min_jobs t \<and> \<not> e < min_estimated_work_bytes t)"
  by (auto simp: select_execution_with_estimate_def issuance_try_acquire_def issuance_worker_count_def Let_def
      decision_serial_def split: option.splits if_splits)

lemma select_serial_facts:
  "select_execution_with_estimate n est t k b = (SelectSerial d, b') \<Longrightarrow>
     id_mode d = IssuanceSerial \<and> id_reason d \<noteq> BoundedNative \<and>
     (id_reason d = WorkerBudgetUnavailable \<longrightarrow>
        (\<exists>e. est = Some e \<and> \<not> n < min_jobs t \<and> \<not> e < min_estimated_work_bytes t))"
  by (auto simp: select_execution_with_estimate_def Let_def decision_serial_def
      split: option.splits if_splits prod.splits)

lemma observed_gates:
  "observed_parallelism n est t k \<noteq> None \<longleftrightarrow>
     (\<exists>e. est = Some e \<and> \<not> n < min_jobs t \<and> \<not> e < min_estimated_work_bytes t)"
  by (auto simp: observed_parallelism_def observed_estimate_def split: option.splits)

lemma traced_record:
  assumes "select_execution_with_estimate (length jobs) (estimate_ready_job_work_bytes X jobs) t k b = (sel, b')"
  shows "\<exists>batch. record_benchmark_ready_batch X trace jobs (selection_decision sel)
       (observed_estimate (length jobs) (estimate_ready_job_work_bytes X jobs) t)
       (observed_parallelism (length jobs) (estimate_ready_job_work_bytes X jobs) t k) = Ok (trace @ [batch]) \<and>
     coherent_batch batch \<and> rb_ordinal batch = length trace"
proof (cases sel)
  case (SelectSerial d)
  from select_serial_facts [OF assms [unfolded SelectSerial]] show ?thesis
    using observed_gates [of "length jobs" "estimate_ready_job_work_bytes X jobs" t k]
    by (auto simp: SelectSerial record_benchmark_ready_batch_def batch_chunks_def coherent_batch_def
        observed_estimate_def observed_parallelism_def split: option.splits if_splits)
next
  case (SelectNative d w)
  from select_native_facts [OF assms [unfolded SelectNative]] obtain e where
    d: "d = \<lparr>id_mode = IssuanceNative w, id_reason = BoundedNative\<rparr>" and w: "2 \<le> w"
      "w \<le> MAX_PARALLEL_ISSUANCE_WORKERS" "w \<le> length jobs"
    and e: "estimate_ready_job_work_bytes X jobs = Some e" "\<not> length jobs < min_jobs t" "\<not> e < min_estimated_work_bytes t"
    by blast
  from batch_chunks_native [OF e(1) w(1,3)] obtain n ts where
    "batch_chunks X jobs d = Ok (Some n, Some ts)" "length ts \<le> w" "sum_list (map sc_job_count ts) = length jobs"
    "sum_list (map sc_estimated_work_bytes ts) = e"
    unfolding d by blast
  with d w e show ?thesis
    by (simp add: SelectNative record_benchmark_ready_batch_def coherent_batch_def observed_estimate_def
        observed_parallelism_def)
qed

lemma traced_execute_adaptive:
  "\<exists>batch. traced_execute X host t (b, trace) jobs =
     (fst (adaptive_execute X host t b jobs), (snd (adaptive_execute X host t b jobs), trace @ [batch])) \<and>
     coherent_batch batch \<and> rb_ordinal batch = length trace"
proof -
  obtain sel b' where sel: "select_execution_with_estimate (length jobs) (estimate_ready_job_work_bytes X jobs) t
      (ih_threads host) b = (sel, b')" by (rule prod.exhaust)
  from traced_record [OF sel, of trace] obtain batch where
    "record_benchmark_ready_batch X trace jobs (selection_decision sel)
       (observed_estimate (length jobs) (estimate_ready_job_work_bytes X jobs) t)
       (observed_parallelism (length jobs) (estimate_ready_job_work_bytes X jobs) t (ih_threads host)) = Ok (trace @ [batch])"
    "coherent_batch batch" "rb_ordinal batch = length trace" by blast
  then show ?thesis
    by (intro exI [of _ batch])
      (simp add: traced_execute_def select_execution_with_benchmark_trace_def Let_def sel adaptive_execute_def
        select_execution_def split_def)
qed

text \<open>The invariant of a traced run: the budget is whole and the records are coherent and numbered.\<close>

definition traced_inv :: "issuance_budget \<Rightarrow> issuance_budget \<times> ready_batch_trace list \<Rightarrow> bool" where
  "traced_inv b e \<longleftrightarrow> fst e = b \<and> list_all coherent_batch (snd e) \<and> map rb_ordinal (snd e) = [0..<length (snd e)]"

lemma traced_inv_budget: "traced_inv b (b', trace) \<Longrightarrow> b' = b"
  by (simp add: traced_inv_def)

interpretation traced_stable: stable_executor "traced_execute X host t" X "traced_inv b"
  for X :: "'k externals" and host t b
proof
  fix e :: "issuance_budget \<times> ready_batch_trace list" and jobs
  obtain b0 trace where e: "e = (b0, trace)" by (rule prod.exhaust)
  from traced_execute_adaptive [of X host t b0 trace jobs] obtain batch where
    run: "traced_execute X host t e jobs =
      (fst (adaptive_execute X host t b0 jobs), (snd (adaptive_execute X host t b0 jobs), trace @ [batch]))"
    and coh: "coherent_batch batch" "rb_ordinal batch = length trace" unfolding e by blast
  note ad = adaptive_execute_cases [where X = X and host = host and t = t and b = b0 and jobs = jobs]
  show "mset rs = mset (map (process_issuance_job X) jobs)" if "fst (traced_execute X host t e jobs) = Ok rs" for rs
    using that ad by (auto simp: run)
  show "fst (traced_execute X host t e jobs) \<noteq> Panic"
    using ad by (auto simp: run)
  show "traced_inv b (snd (traced_execute X host t e jobs))" if "traced_inv b e"
    using that ad coh run [unfolded e] by (simp add: e traced_inv_def)
qed

lemma traced_executor_failure:
  "executor_failure (traced_execute X host t) err \<Longrightarrow> \<not> (\<forall>i. ih_spawn host i) \<and>
     err \<in> {InvalidState PARALLEL_ISSUANCE_SPAWN_FAILURE, InvalidState PARALLEL_ISSUANCE_WORKER_FAILURE}"
proof -
  assume "executor_failure (traced_execute X host t) err"
  then obtain b trace jobs where "fst (traced_execute X host t (b, trace) jobs) = Err err"
    unfolding executor_failure_def by auto
  then have "executor_failure (adaptive_execute X host t) err"
    using traced_execute_adaptive [of X host t b trace jobs] unfolding executor_failure_def by (metis fst_conv)
  then show ?thesis by (rule adaptive_executor_failure)
qed

text \<open>What a summary tells: its counts add up, and no batch used more than the worker cap.\<close>

definition coherent_summary :: "execution_trace_summary \<Rightarrow> bool" where
  "coherent_summary s \<longleftrightarrow>
     ts_executor_batches s = ts_serial_batches s + ts_native_batches s \<and>
     ts_budget_fallback_batches s \<le> ts_serial_batches s \<and>
     ts_max_worker_count s \<le> MAX_PARALLEL_ISSUANCE_WORKERS \<and>
     (\<forall>batches. ts_ready_batches s = Some batches \<longrightarrow>
        length batches = ts_executor_batches s \<and> list_all coherent_batch batches \<and>
        map rb_ordinal batches = [0..<length batches])"

lemma coherent_fallback: "coherent_batch batch \<Longrightarrow> rb_selection_reason batch = WorkerBudgetUnavailable \<Longrightarrow>
    rb_selected_mode batch \<noteq> SelectedNative"
  by (auto simp: coherent_batch_def split: option.splits)

lemma coherent_lease: "coherent_batch batch \<Longrightarrow> rb_leased_worker_count batch = Some w \<Longrightarrow> w \<le> MAX_PARALLEL_ISSUANCE_WORKERS"
  by (simp add: coherent_batch_def)

lemma fallback_counts:
  "list_all coherent_batch bs \<Longrightarrow>
     length (filter (\<lambda>batch. rb_selection_reason batch = WorkerBudgetUnavailable) bs) +
     length (filter (\<lambda>batch. rb_selected_mode batch = SelectedNative) bs) \<le> length bs"
  by (induction bs) (auto dest: coherent_fallback)

lemma summary_coherent:
  assumes "traced_inv b (b', trace)"
  shows "coherent_summary (trace_summary trace)"
proof -
  from assms have coh: "list_all coherent_batch trace" by (simp add: traced_inv_def)
  have "\<forall>w \<in> set (List.map_filter rb_leased_worker_count trace). w \<le> MAX_PARALLEL_ISSUANCE_WORKERS"
    using coh coherent_lease by (force simp: List.map_filter_def list_all_iff)
  then have "fold max (List.map_filter rb_leased_worker_count trace) 0 \<le> MAX_PARALLEL_ISSUANCE_WORKERS"
    by (simp add: fold_max_le)
  moreover have "length (filter (\<lambda>batch. rb_selected_mode batch = SelectedNative) trace) \<le> length trace"
    by (rule length_filter_le)
  ultimately show ?thesis
    using fallback_counts [OF coh] assms
    by (simp add: coherent_summary_def trace_summary_def Let_def traced_inv_def)
qed

lemma traced_candidate_sat:
  assumes "complete_plan X plan out ds"
  shows "result_sat (\<lambda>((assembly, summary), b'). Ok assembly = execute_serial X plan \<and> b' = b \<and> coherent_summary summary)
     (\<lambda>err. \<not> (\<forall>i. ih_spawn host i) \<and>
        err \<in> {InvalidState PARALLEL_ISSUANCE_SPAWN_FAILURE, InvalidState PARALLEL_ISSUANCE_WORKER_FAILURE})
     (execute_benchmark_candidate_with_trace par X host plan b)"
proof (cases par)
  case True
  have "traced_inv b (b, [])" by (simp add: traced_inv_def)
  from traced_stable.execute_with_executor_sat [OF assms this, of host BENCHMARK_ISSUANCE_THRESHOLDS] show ?thesis
    using True traced_executor_failure [where X = X and host = host and t = BENCHMARK_ISSUANCE_THRESHOLDS]
    by (cases "execute_with_executor (traced_execute X host BENCHMARK_ISSUANCE_THRESHOLDS) plan (b, [])")
      (auto simp: execute_benchmark_candidate_with_trace_def dest: traced_inv_budget summary_coherent)
next
  case False
  then show ?thesis
    using execute_serial_complete [OF assms]
    by (simp add: execute_benchmark_candidate_with_trace_def coherent_summary_def trace_summary_fallback_def)
qed

end
