(* ===== verification/Issuance_Properties.thy ===== *)
theory Issuance_Properties
  imports Issuance_Trace Recovery Sample_Externals
begin

text \<open>
  The properties of issuance: planning and its executors against the one-pass concealment, the
  adaptive and the traced executor against the serial one, and issuance against verification.
\<close>

subsection \<open>A sample plan\<close>

text \<open>One hidden member \<open>n\<close>, whose disclosure has the text \<open>["s", "n", null]\<close>.\<close>

definition sample_name :: string where
  "sample_name = [quote, CHR ''n'', quote]"

definition sample_text :: string where
  "sample_text = ''['' @ [quote] @ ''s'' @ [quote] @ '', '' @ sample_name @ '', null]''"

definition sample_world_3 :: sample_world where
  "sample_world_3 =
     \<lparr>sw_texts = [(sample_name, String ''n''), (''null'', Null), (sample_text, Array [String ''s'', String ''n'', Null])],
      sw_tokens = []\<rparr>"

abbreviation "sample_X \<equiv> sample_externals sample_world_3"

definition sample_source :: "unit random_source" where
  "sample_source =
     \<lparr>disclosure_salt = (\<lambda>r. (''s'', r)), decoy_count = (\<lambda>low high r. (low, r)), decoy_salt = (\<lambda>r. (''s'', r))\<rparr>"

definition sample_claims :: json where
  "sample_claims = Object [(''n'', Null)]"

definition sample_disclosure :: disclosure where
  "sample_disclosure = new_with_salt sample_X (Some ''n'') Null ''s''"

definition sample_plan :: issuance_plan where
  "sample_plan =
     \<lparr>ip_root = PlannedValue 0 (PObject [ODisclosed (PlannedValue 1 (PScalar Null)) 0] []),
      ip_jobs = [\<lparr>pj_id = 0, pj_location = 1, pj_operation = ObjectDisclosure 0 ''n'' ''s''\<rparr>],
      ip_disclosure_job_ids = [0]\<rparr>"

lemma sample_planned: "plan_create sample_source sample_claims AllLevels False () = Ok (sample_plan, ())"
  by (simp add: plan_create_def sample_claims_def sample_source_def sample_plan_def allocate_location_id_def
      checked_add_def usize_max_def plan_object_disclosure_def allocate_job_id_def plan_object_decoys_def)

lemma sample_direct:
  "direct_value sample_X sample_source False sample_claims AllLevels () =
     (Object [(SD_DIGESTS_KEY, Array [String (hash sample_disclosure)])], [sample_disclosure], ())"
  by (simp add: sample_claims_def sample_source_def sample_disclosure_def direct_decoys_def finish_object_def
      map_insert_def Let_def)

subsection \<open>Planning and serial execution\<close>

text \<open>C9. A plan executed serially is the one-pass concealment of the claims: the same concealed
  claims, the same disclosures in the same order, and the random source left in the same state.\<close>

theorem planned_issuance_conceals:
  assumes "plan_create R claims strat decoys r = Ok (plan, r')"
  shows "case direct_value X R decoys claims strat r of (out, ds, r'') \<Rightarrow>
     r'' = r' \<and> execute_serial X plan = Ok \<lparr>ia_claims = out, ia_disclosures = ds\<rparr>"
proof -
  from plan_create_complete [OF assms, of X] obtain out ds where
    "direct_value X R decoys claims strat r = (out, map snd ds, r')" "complete_plan X plan out ds" by blast
  with execute_serial_complete show ?thesis by simp
qed

theorem planned_issuance_conceals_witness:
  "execute_serial sample_X sample_plan =
     Ok \<lparr>ia_claims = Object [(SD_DIGESTS_KEY, Array [String (hash sample_disclosure)])], ia_disclosures = [sample_disclosure]\<rparr>"
  using planned_issuance_conceals [OF sample_planned, of sample_X] by (simp add: sample_direct)

text \<open>C31. Planning runs to its end for every claim set whose locations and jobs fit the 64-bit
  identities: no value, strategy or draw of salts makes it fail.\<close>

theorem planning_succeeds:
  assumes "decoys_in_range R" and "6 * node_count v \<le> usize_max"
  shows "\<exists>plan r'. plan_create R v strat decoys r = Ok (plan, r') \<and> is_ok (execute_serial X plan)"
proof -
  from plan_create_progress [OF assms] obtain plan r' where p: "plan_create R v strat decoys r = Ok (plan, r')" by blast
  from plan_create_complete [OF p, of X] obtain out ds where "complete_plan X plan out ds" by blast
  from p execute_serial_complete [OF this] show ?thesis by (auto simp: is_ok_conv)
qed

theorem planning_succeeds_witness:
  "\<exists>plan r'. plan_create sample_source sample_claims (Custom [''n'']) True () = Ok (plan, r') \<and>
     is_ok (execute_serial sample_X plan)"
  by (rule planning_succeeds)
    (simp_all add: decoys_in_range_def sample_source_def DECOY_MIN_ELEMENTS_def DECOY_MAX_ELEMENTS_def
      sample_claims_def usize_max_def)

subsection \<open>Executors\<close>

text \<open>C14. Adaptive execution is serial execution: whatever thresholds, free permits and threads, a
  planned issuance gives the serial assembly and returns every permit; it can fail only when a
  thread cannot be started, with one of the two executor errors, and it never panics. Every batch,
  also one that fails, gives its permits back, so a failed issuance leaves the budget whole.\<close>

theorem adaptive_issuance_is_serial:
  assumes "plan_create R claims strat decoys r = Ok (plan, r')"
  shows "(case execute_adaptively X host thresholds plan b of
     Ok (assembly, b') \<Rightarrow> execute_serial X plan = Ok assembly \<and> b' = b
   | Err err \<Rightarrow> (\<exists>i. \<not> ih_spawn host i) \<and>
       err \<in> {InvalidState PARALLEL_ISSUANCE_SPAWN_FAILURE, InvalidState PARALLEL_ISSUANCE_WORKER_FAILURE}
   | Panic \<Rightarrow> False) \<and>
   (\<forall>t jobs. snd (adaptive_execute X host t b jobs) = b)"
proof -
  from plan_create_complete [OF assms, of X] obtain out ds where "complete_plan X plan out ds" by blast
  have permits: "snd (adaptive_execute X host t b jobs) = b" for t jobs
    using adaptive_execute_cases by blast
  from execute_adaptively_sat [OF \<open>complete_plan X plan out ds\<close>, of b host thresholds] show ?thesis
    using permits by (cases "execute_adaptively X host thresholds plan b") auto
qed

theorem adaptive_issuance_is_serial_witness:
  "execute_adaptively sample_X \<lparr>ih_spawn = (\<lambda>i. True), ih_threads = 4\<rparr> (Some BENCHMARK_ISSUANCE_THRESHOLDS)
     sample_plan (issuance_budget_new 4) \<noteq> Panic"
  using adaptive_issuance_is_serial [OF sample_planned, where X = sample_X and host = "\<lparr>ih_spawn = (\<lambda>i. True), ih_threads = 4\<rparr>"
    and thresholds = "Some BENCHMARK_ISSUANCE_THRESHOLDS" and b = "issuance_budget_new 4"]
  by (auto split: result.splits)

text \<open>Restoring the outcomes of an executor is exact: it succeeds exactly when the expected jobs
  are distinct and each has one outcome with its identity and no other outcome is there, whatever
  their order; then every job gets the product its outcome carries, of the kind it asked for.\<close>

theorem restoration_exact:
  "(restore_issuance_outcomes expected outcomes = Ok jobs) =
     (distinct (map ji_job_id expected) \<and> mset (map io_identity outcomes) = mset expected \<and>
      map rj_identity jobs = expected \<and>
      list_all (\<lambda>job. outcome_product outcomes (rj_identity job) = Some (rj_product job)) jobs)"
  by (simp add: restore_iff list_all_iff)

text \<open>C37. Observing the benchmark candidate changes nothing: with the trace the candidate gives the
  serial assembly and returns the permits, and the trace is coherent: the batches add up, are
  numbered in order, and the chunks of each native batch partition its jobs and its estimate among
  at most the leased workers.\<close>

theorem traced_issuance_faithful:
  assumes "plan_create R claims strat decoys r = Ok (plan, r')"
  shows "case execute_benchmark_candidate_with_trace par X host plan b of
     Ok ((assembly, summary), b') \<Rightarrow> execute_serial X plan = Ok assembly \<and> b' = b \<and> coherent_summary summary
   | Err err \<Rightarrow> (\<exists>i. \<not> ih_spawn host i) \<and>
       err \<in> {InvalidState PARALLEL_ISSUANCE_SPAWN_FAILURE, InvalidState PARALLEL_ISSUANCE_WORKER_FAILURE}
   | Panic \<Rightarrow> False"
proof -
  from plan_create_complete [OF assms, of X] obtain out ds where "complete_plan X plan out ds" by blast
  from traced_candidate_sat [OF this, of b host par] show ?thesis
    by (cases "execute_benchmark_candidate_with_trace par X host plan b") auto
qed

theorem traced_issuance_faithful_witness:
  "execute_benchmark_candidate_with_trace True sample_X \<lparr>ih_spawn = (\<lambda>i. True), ih_threads = 4\<rparr>
     sample_plan (issuance_budget_new 4) \<noteq> Panic"
  using traced_issuance_faithful [OF sample_planned, where X = sample_X and host = "\<lparr>ih_spawn = (\<lambda>i. True), ih_threads = 4\<rparr>"
    and par = True and b = "issuance_budget_new 4"]
  by (auto split: result.splits)

subsection \<open>Issuance against verification\<close>

text \<open>C8. What the issuer conceals the verifier recovers: when all the disclosures made are
  presented, in any order, decoding them and unpacking the concealed claims gives the issuer's
  claims back up to the order of object members, and every digest met is one of theirs. The claims
  use no structural name and no empty array and nest at most as deep as the verifier allows; the
  text of each disclosure made parses back to the name, the value and the salt it was made of, and
  the disclosures have different digests.\<close>

theorem issued_claims_recovered:
  assumes "plan_create R claims strat False r = Ok (plan, r')" and "execute_serial X plan = Ok assembly"
    and "issuable claims" and "json_depth claims \<le> MAX_PROCESSED_SD_JWT_DEPTH"
    and "base64_inverse X" and "texts_parse X (direct_contents X R False claims strat r)"
    and "distinct (map hash (ia_disclosures assembly))"
    and "mset encs = mset (map raw_b64 (ia_disclosures assembly))"
  shows "\<exists>mappings out. serial_preprocess X encs = Ok mappings \<and>
     unpack_disclosed_claims (dm_decoded mappings) {} (ia_claims assembly) 0 =
       Ok (out, hash ` set (ia_disclosures assembly)) \<and> json_eqv claims out"
proof -
  from plan_create_complete [OF assms(1), of X] obtain out ds where
    v: "direct_value X R False claims strat r = (out, map snd ds, r')" and "complete_plan X plan out ds" by blast
  with execute_serial_complete [of X plan out ds] assms(2) have "assembly = \<lparr>ia_claims = out, ia_disclosures = map snd ds\<rparr>"
    by simp
  then have a: "ia_claims assembly = out" "ia_disclosures assembly = map snd ds" by simp_all
  have "map snd ds = map (disclosure_of X) (direct_contents X R False claims strat r)"
    using direct_contents_made(1) [of X R False claims strat r] v by simp
  note p = issued_presentable [OF assms(5-6) this [folded a(2)] assms(7,8)]
  from direct_unpacks [OF v assms(3,4) p(2) assms(7) [unfolded a]] p(1) show ?thesis
    unfolding serial_preprocess_Ok a by blast
qed

lemma sample_print_3:
  "sample_print sample_world_3 v =
     (if v = String ''n'' then sample_name else if v = Null then ''null''
      else if v = Array [String ''s'', String ''n'', Null] then sample_text else [])"
  by (simp add: sample_print_def sample_world_3_def)

lemma sample_disclosure_data: "disclosure_data sample_X (Some ''n'') Null ''s'' = sample_text"
  by (simp add: disclosure_data_def escape_json_def ascii_value_text_def value_text_def sample_print_3 sample_text_def sample_name_def is_ascii_byte_def byte_def)

lemma letters_encode_inj: "letters_encode s = letters_encode t \<longleftrightarrow> s = t"
  by (metis letters_decode_encode sum.inject(2))

lemma sample_ascii: "ascii_value_text sample_X v = sample_print sample_world_3 v"
  by (simp add: ascii_value_text_def value_text_def sample_print_3 sample_text_def sample_name_def is_ascii_byte_def byte_def quote_def)

lemma sample_contents: "direct_contents sample_X sample_source False sample_claims AllLevels () = [(Some ''n'', Null, ''s'')]"
  by (simp add: sample_claims_def sample_source_def)

lemma sample_texts_parse: "texts_parse sample_X (direct_contents sample_X sample_source False sample_claims AllLevels ())"
  unfolding sample_contents
  by (simp add: texts_parse_def disclosure_content_def sample_disclosure_data)
    (simp add: sample_parse_def sample_world_3_def sample_text_def sample_name_def)

theorem issued_claims_recovered_witness:
  "\<exists>mappings out. serial_preprocess sample_X [raw_b64 sample_disclosure] = Ok mappings \<and>
     unpack_disclosed_claims (dm_decoded mappings) {} (Object [(SD_DIGESTS_KEY, Array [String (hash sample_disclosure)])]) 0 =
       Ok (out, {hash sample_disclosure}) \<and> json_eqv sample_claims out"
proof -
  let ?a = "\<lparr>ia_claims = Object [(SD_DIGESTS_KEY, Array [String (hash sample_disclosure)])], ia_disclosures = [sample_disclosure]\<rparr>"
  have a: "execute_serial sample_X sample_plan = Ok ?a"
    using plan_create_complete [OF sample_planned, of sample_X] sample_direct by (auto dest: execute_serial_complete)
  have i: "issuable sample_claims" "json_depth sample_claims \<le> MAX_PROCESSED_SD_JWT_DEPTH"
    by (simp_all add: sample_claims_def issuable_def structural_keys_def SD_DIGESTS_KEY_def SD_LIST_PREFIX_def
        DIGEST_ALG_KEY_def MAX_PROCESSED_SD_JWT_DEPTH_def)
  show ?thesis
    using issued_claims_recovered [OF sample_planned a i sample_base64(2), of "[raw_b64 sample_disclosure]"] sample_texts_parse
    by simp
qed

end
