(* ===== verification/Presentation_Properties.thy ===== *)
theory Presentation_Properties
  imports Sample_Externals Verifier
begin

text \<open>
  The properties of the presentation side: disclosure preprocessing, parsing, claim unpacking,
  and verification as a whole.
\<close>

subsection \<open>Evaluation of the sample presentation\<close>

definition sample_env :: verifier_env where
  "sample_env = \<lparr>env_parallel = True, env_spawn = (\<lambda>i. True), env_threads = 4, env_budget = budget_new 4\<rparr>"

definition sample_resolve :: "string \<Rightarrow> jose_header \<Rightarrow> unit result" where
  "sample_resolve issuer header = Ok ()"

lemma char_of_eq: "n < 256 \<Longrightarrow> (char_of n = c) = (byte c = n)"
  by (metis byte_char_of char_of_byte)

lemma eq_char_of: "n < 256 \<Longrightarrow> (c = char_of n) = (byte c = n)"
  by (metis byte_char_of char_of_byte)

lemmas sample_defs = char_of_eq eq_char_of sample_externals_def sample_parse_def sample_world_1_def sample_world_2_def
  sample_texts_def sample_payload_def bound_payload_def sample_token_def is_nibble_def byte_def
  letters_encode_def letter_pair_def nibble_def

definition sample_loaded :: sd_common where
  "sample_loaded = (common_new Compact)\<lparr>sign_alg := Some ''ES256'', input_disclosures := [''ee''],
     unverified_sd_jwt := Some ''ei.fa.t'', unverified_payload := Some sample_payload\<rparr>"

lemma sample_limits: "length (s :: string) \<le> 1000 \<Longrightarrow> \<not> MAX_SD_JWT_INPUT_BYTES < length s"
  by (simp add: MAX_SD_JWT_INPUT_BYTES_def)

lemma sample_parse_1:
  "parse_sd_jwt (sample_externals sample_world_1) (common_new Compact) ''ei.fa.t~ee~'' = (Ok (), sample_loaded)"
  by (simp add: parse_sd_jwt_def parse_compact_sd_jwt_def load_compact_parts_def sample_defs common_new_def
    MAX_SD_JWT_INPUT_BYTES_def MAX_SD_JWT_DISCLOSURES_def MAX_SD_JWT_DISCLOSURE_BYTES_def
    decode_header_and_get_sign_algorithm_def base64url_decode_def header_alg_def jwt_payload_decode_def
    unique_value_from_slice_def contains_key_def map_insert_def sample_loaded_def Let_def)

lemma sample_presentable: "presentable (sample_externals sample_world_1) [''ee'']"
  by (simp add: presentable_def decode_disclosure_def sample_defs base64url_decode_def)

lemma sample_hash: "base64_hash (sample_externals w) ''ee'' = ''gfgf''"
  by (simp add: base64_hash_def sample_defs)

lemma sample_decode: "decode_disclosure (sample_externals sample_world_1) ''ee'' = Ok (Array [String ''s'', String ''n'', Null])"
  by (simp add: decode_disclosure_def sample_defs base64url_decode_def)

definition sample_token_state :: sd_common where
  "sample_token_state = sample_loaded\<lparr>hash_to_decoded := [''gfgf'' \<mapsto> Array [String ''s'', String ''n'', Null]],
     hash_to_disclosure := [''gfgf'' \<mapsto> ''ee''], ordered_digests := [''gfgf'']\<rparr>"

lemma sample_is_loaded: "loaded (sample_externals sample_world_1) Compact ''ei.fa.t~ee~'' sample_token_state"
  unfolding loaded_def sample_parse_1
  by (intro exI [of _ sample_loaded])
    (auto simp: sample_loaded_def sample_presentable mappings_of_def sample_hash sample_decode sample_token_state_def)

lemma sample_signed:
  "issuer_signed (sample_externals sample_world_1) sample_token_state sample_resolve policy_default
     (sign_alg sample_token_state) sample_payload"
  unfolding issuer_signed_def
  by (intro exI [of _ "''ei.fa.t''"] exI [of _ "sample_header ES256"] exI [of _ "''ES256''"]
      exI [of _ sample_payload] exI [of _ "''i''"] exI [of _ "()"])
    (simp add: sample_token_state_def sample_loaded_def sample_externals_def sample_token_def sample_world_1_def
      sample_header_def policy_default_allows symmetric_algorithm_def sample_algorithm_def sample_payload_def
      sample_resolve_def public_confirmation_def confirmation_jwk_def CNF_KEY_def)

lemma sample_reveals:
  "reveals [''gfgf'' \<mapsto> Array [String ''s'', String ''n'', Null]] 128 (Object sample_payload)
     (Object [(''iss'', String ''i''), (''n'', Null)]) [''gfgf'']"
proof -
  let ?T = "[''gfgf'' \<mapsto> Array [String ''s'', String ''n'', Null]]"
  have m: "reveals_members ?T 127 sample_payload [(''iss'', String ''i'')] ([] @ [])"
    unfolding sample_payload_def
    by (intro mb_keep mb_skip mb_Nil rv_scalar) (auto simp: key_defs is_scalar_json_def)
  have d: "reveals_digests ?T 127 (sd_digests sample_payload) [(''n'', Null)] [''gfgf'']"
    using dg_shown [of ?T "''gfgf''" "String ''s''" "''n''" Null 127 Null "[]" "[]" "[]" "[]", OF _ _ rv_scalar dg_Nil]
    by (simp add: sd_digests_def sample_payload_def key_defs reserved_keys_def is_scalar_json_def)
  have "reveals ?T (Suc 127) (Object sample_payload)
      (Object (map_append [] [(''iss'', String ''i'')] @ [(''n'', Null)])) (([] @ []) @ [''gfgf''])"
    by (rule rv_object [OF m d]) simp_all
  then show ?thesis by (simp add: map_append_Cons map_insert_def)
qed

lemma sample_accepted:
  "accepted (sample_externals sample_world_1) Compact sample_resolve policy_default None None ''ei.fa.t~ee~''
     (verified_state sample_token_state sample_resolve policy_default sample_payload [''gfgf'']
        (Object [(''iss'', String ''i''), (''n'', Null)]))"
proof -
  have "claims_revealed (sample_externals sample_world_1) sample_token_state sample_payload [''gfgf'']
      (Object [(''iss'', String ''i''), (''n'', Null)])"
    using sample_reveals
    by (simp add: claims_revealed_def digest_algorithm_ok_def sample_payload_def key_defs DEFAULT_DIGEST_ALG_def
        MAX_PROCESSED_SD_JWT_DEPTH_def sample_token_state_def sample_loaded_def sample_hash)
  then show ?thesis
    unfolding accepted_def accepted_from_def bound_on_request_def
    using sample_is_loaded sample_signed by blast
qed

subsection \<open>Verification\<close>

text \<open>C1. \<open>SDJWTVerifier::new_with_policy\<close> accepts a presentation, on a host that can start threads,
  exactly when the specification accepts it: the presentation parses within the limits, every
  disclosure decodes and no two have one digest, the issuer key the caller resolves verifies the
  token under an allowed algorithm, the digests of the signed claims and of the disclosed values
  are met once each and reveal the returned claims within the nesting limit, every presented
  disclosure is among them, and, when an audience and nonce are expected, the key binding token is
  bound to the holder key and to this very presentation.\<close>

theorem verification_accepts_iff:
  assumes "\<And>i. env_spawn env i"
  shows "(verifier_new_with_policy X env presentation resolve aud nonce fmt policy = Ok v) =
     (install_crypto_provider X = Ok () \<and> accepted X fmt resolve policy aud nonce presentation v)"
  using verifier_new_sound [of X env] verifier_new_complete [OF assms] by blast

theorem verification_accepts_iff_witness:
  "verifier_new_with_policy (sample_externals sample_world_1) sample_env ''ei.fa.t~ee~'' sample_resolve
     None None Compact policy_default =
   Ok (verified_state sample_token_state sample_resolve policy_default sample_payload [''gfgf'']
        (Object [(''iss'', String ''i''), (''n'', Null)]))"
proof -
  have "install_crypto_provider (sample_externals sample_world_1) = Ok ()"
    by (simp add: install_crypto_provider_def native_ensure_installed_def sample_externals_def)
  moreover have "env_spawn sample_env i" for i by (simp add: sample_env_def)
  ultimately show ?thesis
    using sample_accepted by (subst verification_accepts_iff) simp_all
qed

text \<open>C13. The claims a verifier returns are well formed, no object at any depth naming a member twice,
  hold no digest list of an object at any depth, and nest at most 128 containers, whatever the issuer
  signed and the holder disclosed.\<close>

theorem verified_claims_clean:
  assumes "verifier_new_with_policy X env presentation resolve aud nonce fmt policy = Ok v"
  shows "wf_json (verified_claims v) \<and> keys_avoid {SD_DIGESTS_KEY} (verified_claims v) \<and>
    json_depth (verified_claims v) \<le> 128"
proof -
  from verifier_new_sound [OF assms] obtain T claims ds where
    "reveals T MAX_PROCESSED_SD_JWT_DEPTH (Object claims) (verified_claims v) ds"
    unfolding accepted_def accepted_from_def claims_revealed_def
    by (auto simp: verified_state_def)
  then show ?thesis
    using reveals_wf(1) reveals_no_sd(1) reveals_depth(1) by (fastforce simp: MAX_PROCESSED_SD_JWT_DEPTH_def)
qed

lemma sample_verified:
  "verifier_new_with_policy (sample_externals sample_world_1) sample_env ''ei.fa.t~ee~'' sample_resolve
     None None Compact policy_default =
   Ok (verified_state sample_token_state sample_resolve policy_default sample_payload [''gfgf'']
        (Object [(''iss'', String ''i''), (''n'', Null)]))"
  by (rule verifier_new_complete [OF _ _ sample_accepted])
    (simp_all add: sample_env_def install_crypto_provider_def native_ensure_installed_def sample_externals_def)

theorem verified_claims_clean_witness:
  "keys_avoid {SD_DIGESTS_KEY} (Object [(''iss'', String ''i''), (''n'', Null)])"
  using verified_claims_clean [OF sample_verified] by (simp add: verified_state_def)

lemma adaptive_mappings_cases:
  "create_verifier_hash_mappings par X spawn n b s = create_verifier_hash_mappings False X spawn n b s \<or>
   fst (create_verifier_hash_mappings par X spawn n b s)
     \<in> {Err (InvalidState PARALLEL_SPAWN_FAILURE), Err (InvalidState PARALLEL_WORKER_FAILURE)}"
  using preprocess_with_budget_outcomes [of X spawn "input_disclosures s" b n]
    preprocess_with_budget_snd [of X spawn "input_disclosures s" b n]
  by (cases par; cases "preprocess_with_budget X spawn (input_disclosures s) b n")
    (auto simp: create_verifier_hash_mappings_def preprocess_disclosures_def publish_mappings_def
      preprocess_disclosures_serial_def)

text \<open>C12. The host cannot change what verification decides: with native workers, any number of free
  threads and any budget, the verifier returns what it returns without them, or one of the two
  executor failures when a thread cannot be started or dies.\<close>

theorem verification_independent_of_host:
  "verifier_new_with_policy X env presentation resolve aud nonce fmt policy
     \<in> {verifier_new_with_policy X (env\<lparr>env_parallel := False\<rparr>) presentation resolve aud nonce fmt policy,
        Err (InvalidState PARALLEL_SPAWN_FAILURE), Err (InvalidState PARALLEL_WORKER_FAILURE)}"
proof (cases "parse_sd_jwt X (common_new fmt) presentation")
  case (Pair r e1)
  have "create_verifier_hash_mappings (env_parallel env) X (env_spawn env) (env_threads env) (env_budget env) e1
      = create_verifier_hash_mappings False X (env_spawn env) (env_threads env) (env_budget env) e1 \<or>
    fst (create_verifier_hash_mappings (env_parallel env) X (env_spawn env) (env_threads env) (env_budget env) e1)
      \<in> {Err (InvalidState PARALLEL_SPAWN_FAILURE), Err (InvalidState PARALLEL_WORKER_FAILURE)}"
    by (rule adaptive_mappings_cases)
  then show ?thesis
    unfolding verifier_new_decompose step_engine_def Pair
    by (cases "install_crypto_provider X"; cases r) (auto simp: split_def)
qed

text \<open>C33. Verification needs an issuer: once the header algorithm is allowed and consistent, a payload
  without an \<open>iss\<close> member makes the verifier panic instead of returning an error, before the
  signature has been checked. That is the only panic besides one in the caller's key callback.\<close>

theorem missing_issuer_panics:
  "(verify_sd_jwt X v alg_text = Panic) =
     (\<exists>sd_jwt header declared payload.
        unverified_sd_jwt (engine v) = Some sd_jwt \<and> decode_header X sd_jwt = Inr header \<and>
        policy_allows (verifier_policy v) (jh_alg header) \<and> alg_text = Some declared \<and>
        algorithm_from_str X declared = Inr (jh_alg header) \<and> unverified_payload (engine v) = Some payload \<and>
        (map_get payload ''iss'' = None \<or>
         (\<exists>issuer. map_get payload ''iss'' = Some (String issuer) \<and>
            cb_get_issuer_key v issuer header = Panic)))"
  by (rule verify_sd_jwt_Panic)

subsection \<open>Key binding\<close>


lemma split_on_terminated:
  "(\<And>p. p \<in> set ps \<Longrightarrow> c \<notin> set p) \<Longrightarrow> split_on c (concat (map (\<lambda>p. p @ [c]) ps)) = ps @ [[]]"
  by (induction ps) (simp_all add: split_on_append)

lemma key_bound_unique:
  assumes "key_bound X v aud nonce" and "key_bound X v' aud nonce"
    and "holder_public_key_payload v = holder_public_key_payload v'"
    and "unverified_kb_jwt (engine v) = unverified_kb_jwt (engine v')"
  obtains t t' where "unverified_sd_jwt (engine v) = Some t" and "unverified_sd_jwt (engine v') = Some t'"
    and "base64_hash X (concat (map (\<lambda>part. part @ ''~'') (t # input_disclosures (engine v)))) =
         base64_hash X (concat (map (\<lambda>part. part @ ''~'') (t' # input_disclosures (engine v'))))"
  using assms unfolding key_bound_def by (auto simp: CNF_KEY_def)

text \<open>C4. A key binding token cannot be moved to another presentation: if it is accepted with two
  presentations whose parts contain no separator, for the same holder key, audience and nonce, the
  issuer-signed token and the disclosed claims are the same, or the texts hashed for these two
  presentations, the token and the disclosures each followed by a tilde, are themselves two
  different texts with one digest.\<close>

theorem key_binding_not_transferable:
  assumes "verify_key_binding_jwt X v aud nonce = Ok ()" and "verify_key_binding_jwt X v' aud nonce = Ok ()"
    and "holder_public_key_payload v = holder_public_key_payload v'"
    and "unverified_kb_jwt (engine v) = unverified_kb_jwt (engine v')"
    and "unverified_sd_jwt (engine v) = Some t" and "unverified_sd_jwt (engine v') = Some t'"
    and "\<And>p. p \<in> set (t # t' # input_disclosures (engine v) @ input_disclosures (engine v')) \<Longrightarrow> CHR ''~'' \<notin> set p"
  shows "(t = t' \<and> input_disclosures (engine v) = input_disclosures (engine v')) \<or>
     (concat (map (\<lambda>part. part @ ''~'') (t # input_disclosures (engine v))) \<noteq>
        concat (map (\<lambda>part. part @ ''~'') (t' # input_disclosures (engine v'))) \<and>
      base64_hash X (concat (map (\<lambda>part. part @ ''~'') (t # input_disclosures (engine v)))) =
        base64_hash X (concat (map (\<lambda>part. part @ ''~'') (t' # input_disclosures (engine v')))))"
proof -
  let ?text = "\<lambda>t ds. concat (map (\<lambda>part. part @ ''~'') (t # ds))"
  have eq: "base64_hash X (?text t (input_disclosures (engine v))) = base64_hash X (?text t' (input_disclosures (engine v')))"
    using assms(5,6) key_bound_unique [OF assms(1,2) [unfolded verify_key_binding_jwt_Ok] assms(3,4)] by auto
  have split: "split_on (CHR ''~'') (?text t (input_disclosures (engine v))) = (t # input_disclosures (engine v)) @ [[]]"
    "split_on (CHR ''~'') (?text t' (input_disclosures (engine v'))) = (t' # input_disclosures (engine v')) @ [[]]"
    by (rule split_on_terminated, use assms(7) in force)+
  show ?thesis
  proof (cases "?text t (input_disclosures (engine v)) = ?text t' (input_disclosures (engine v'))")
    case True
    then show ?thesis using split by simp
  next
    case False
    with eq show ?thesis by (intro disjI2 conjI)
  qed
qed

definition sample_bound_verifier :: "unit sd_jwt_verifier" where
  "sample_bound_verifier =
     verified_state (sample_token_state\<lparr>unverified_kb_jwt := Some ''kb''\<rparr>) sample_resolve policy_default
       bound_payload [''gfgf''] (Object [(''iss'', String ''i''), (''n'', Null)])"

lemma sample_bound:
  "verify_key_binding_jwt (sample_externals sample_world_2) sample_bound_verifier ''a'' ''n'' = Ok ()"
  by (simp add: verify_key_binding_jwt_def sample_bound_verifier_def verified_state_def sample_token_state_def
      sample_loaded_def sample_externals_def sample_token_def sample_world_2_def bound_payload_def
      sample_payload_def CNF_KEY_def JWK_KEY_def policy_default_allows symmetric_algorithm_def
      validate_key_binding_jwk_policy_def sample_jwk_def check_key_binding_claims_def KB_JWT_TYP_HEADER_def
      contains_key_def key_binding_digest_hash_def COMBINED_SERIALIZATION_FORMAT_SEPARATOR_def
      KB_DIGEST_KEY_def base64_hash_def)

theorem key_binding_not_transferable_witness:
  "(''ei.fa.t'' = ''ei.fa.t'' \<and>
      input_disclosures (engine sample_bound_verifier) = input_disclosures (engine sample_bound_verifier)) \<or>
   (concat (map (\<lambda>part. part @ ''~'') (''ei.fa.t'' # [''ee''])) \<noteq>
      concat (map (\<lambda>part. part @ ''~'') (''ei.fa.t'' # [''ee''])) \<and>
    base64_hash (sample_externals sample_world_2) (concat (map (\<lambda>part. part @ ''~'') (''ei.fa.t'' # [''ee'']))) =
      base64_hash (sample_externals sample_world_2) (concat (map (\<lambda>part. part @ ''~'') (''ei.fa.t'' # [''ee'']))))"
proof -
  have "input_disclosures (engine sample_bound_verifier) = [''ee'']"
    "unverified_sd_jwt (engine sample_bound_verifier) = Some ''ei.fa.t''"
    by (simp_all add: sample_bound_verifier_def verified_state_def sample_token_state_def sample_loaded_def)
  with key_binding_not_transferable [OF sample_bound sample_bound refl refl, of "''ei.fa.t''" "''ei.fa.t''"]
  show ?thesis by fastforce
qed

subsection \<open>Unpacking\<close>

text \<open>C3. Unpacking computes the specified disclosure of the claims: it returns a value and the digests
  met so far exactly when the relation \<open>reveals\<close> gives that value within the containers still
  allowed, and every digest met on the way is new and met once.\<close>

theorem unpacking_reveals:
  assumes "d \<le> MAX_PROCESSED_SD_JWT_DEPTH"
  shows "(unpack_disclosed_claims T seen v d = Ok (out, seen')) =
     (\<exists>ds. reveals T (MAX_PROCESSED_SD_JWT_DEPTH - d) v out ds \<and>
        distinct ds \<and> set ds \<inter> seen = {} \<and> seen' = seen \<union> set ds)"
  using unpack_iff [OF assms, of T seen v out seen'] by (simp add: remaining_def spent_def)

theorem unpacking_reveals_witness:
  "unpack_disclosed_claims [''gfgf'' \<mapsto> Array [String ''s'', String ''n'', Null]] {} (Object sample_payload) 0
     = Ok (Object [(''iss'', String ''i''), (''n'', Null)], {''gfgf''})"
proof -
  have "\<exists>ds. reveals [''gfgf'' \<mapsto> Array [String ''s'', String ''n'', Null]] (MAX_PROCESSED_SD_JWT_DEPTH - 0)
      (Object sample_payload) (Object [(''iss'', String ''i''), (''n'', Null)]) ds \<and>
      distinct ds \<and> set ds \<inter> {} = {} \<and> {''gfgf''} = {} \<union> set ds"
    using sample_reveals by (intro exI [of _ "[''gfgf'']"]) (simp add: MAX_PROCESSED_SD_JWT_DEPTH_def)
  then show ?thesis
    by (subst unpacking_reveals) simp_all
qed

text \<open>C32. Unpacking never panics: no disclosure of the tables, whatever its shape, makes it index
  a missing element. A value unpacked at depth \<open>d\<close> is at most as deep as the containers still
  allowed there, however many of its levels come out of disclosures; and at the nesting limit no
  further array or object is entered, whether it comes from the signed claims or from a
  disclosure: unpacking it fails with the depth error.\<close>

theorem unpacking_bounded:
  "unpack_disclosed_claims T seen v d \<noteq> Panic \<and>
   (\<forall>out seen'. unpack_disclosed_claims T seen v d = Ok (out, seen') \<longrightarrow>
      json_depth out \<le> MAX_PROCESSED_SD_JWT_DEPTH - d) \<and>
   (MAX_PROCESSED_SD_JWT_DEPTH \<le> d \<longrightarrow>
      unpack_disclosed_claims T seen v d =
        (if is_scalar_json v then Ok (v, seen) else Err (InvalidDisclosure PROCESSED_SD_JWT_DEPTH_FAILURE)))"
  using unpack_not_Panic(1) [of T seen v d] unpack_depth [of T seen v d] unpack_at_limit [of d T seen v]
  by blast

theorem unpacking_bounded_witness:
  "unpack_disclosed_claims Map.empty {} (Array [Null]) 128 = Err (InvalidDisclosure PROCESSED_SD_JWT_DEPTH_FAILURE) \<and>
   unpack_disclosed_claims [''h'' \<mapsto> Array [String ''s'', Array [Null]]] {}
     (Array [Object [(SD_LIST_PREFIX, String ''h'')]]) 0 = Ok (Array [Array [Null]], {''h''}) \<and>
   json_depth (Array [Array [Null]]) \<le> 128"
proof -
  have ok: "unpack_disclosed_claims [''h'' \<mapsto> Array [String ''s'', Array [Null]]] {}
      (Array [Object [(SD_LIST_PREFIX, String ''h'')]]) 0 = Ok (Array [Array [Null]], {''h''})"
    by (simp add: enter_processed_container_def checked_add_def usize_max_def MAX_PROCESSED_SD_JWT_DEPTH_def
        SD_LIST_PREFIX_def record_digest_def array_disclosure_def)
  show ?thesis
    using unpacking_bounded [of Map.empty "{}" "Array [Null]" 128] ok
      unpacking_bounded [of "[''h'' \<mapsto> Array [String ''s'', Array [Null]]]" "{}"
        "Array [Object [(SD_LIST_PREFIX, String ''h'')]]" 0]
    by (simp only: MAX_PROCESSED_SD_JWT_DEPTH_def is_scalar_json_def) simp
qed

subsection \<open>Disclosure preprocessing\<close>

text \<open>C11. Preprocessing in parallel is preprocessing in order: whatever the budget and the free
  threads, the result is that of the serial loop or an executor failure, it is that of the serial
  loop whenever threads can be started, the worker permits are all returned, and the code panics
  in no case.\<close>

theorem parallel_preprocessing_is_serial:
  "(case preprocess_disclosures par X spawn b n encs of (r, b') \<Rightarrow>
      b' = b \<and> r \<noteq> Panic \<and>
      r \<in> {serial_preprocess X encs, Err (InvalidState PARALLEL_SPAWN_FAILURE), Err (InvalidState PARALLEL_WORKER_FAILURE)} \<and>
      ((\<forall>i. spawn i) \<longrightarrow> r = serial_preprocess X encs))"
proof (cases par)
  case True
  have "fst (preprocess_with_budget X spawn encs b n) = serial_preprocess X encs" if "\<forall>i. spawn i"
    using preprocess_with_budget_fst [of X spawn encs b n] preprocess_parallel_total [where spawn = spawn] that by auto
  with True show ?thesis
    using preprocess_with_budget_snd [of X spawn encs b n] preprocess_with_budget_outcomes [of X spawn encs b n]
      serial_preprocess_not_Panic [of X encs]
    by (cases "preprocess_with_budget X spawn encs b n") (auto simp: preprocess_disclosures_def)
qed (simp add: preprocess_disclosures_def serial_preprocess_not_Panic)

theorem parallel_preprocessing_is_serial_witness:
  "fst (preprocess_disclosures True (sample_externals sample_world_1) (\<lambda>i. True) (budget_new 4) 4 [''ee''])
     = serial_preprocess (sample_externals sample_world_1) [''ee'']"
  using parallel_preprocessing_is_serial [where par = True and X = "sample_externals sample_world_1" and spawn = "\<lambda>i. True" and b = "budget_new 4"
      and n = 4 and encs = "[''ee'']"]
  by (simp add: split_def)

text \<open>The outcomes an executor returns are put back in presentation order before anything is
  read from them: from any permutation of the outcomes of the jobs, assembly produces what the
  serial loop does, down to which disclosure's error is reported.\<close>

theorem assembly_order_irrelevant:
  assumes "mset outcomes = mset (map (process_disclosure X) (plan_disclosures encs))"
  shows "assemble_disclosures (plan_disclosures encs) outcomes = serial_preprocess X encs"
  using assms by (rule assemble_processed)

theorem assembly_order_irrelevant_witness:
  "assemble_disclosures (plan_disclosures [''ee'', ''ef''])
      (rev (map (process_disclosure (sample_externals sample_world_1)) (plan_disclosures [''ee'', ''ef''])))
     = serial_preprocess (sample_externals sample_world_1) [''ee'', ''ef'']"
  by (rule assembly_order_irrelevant) simp

text \<open>Sorted outcomes pass the executor contract exactly when the jobs are numbered in order and
  the outcomes carry the numbers and texts of the jobs, one for one: nothing is dropped,
  duplicated, invented or swapped. The check panics on no input.\<close>

theorem executor_contract_exact:
  "(validate_outcome_contract jobs outcomes = Ok ()) =
     (map job_ordinal jobs = [0..<length jobs] \<and>
      map (\<lambda>r. (out_ordinal r, out_encoded r)) outcomes = map (\<lambda>j. (job_ordinal j, job_encoded j)) jobs) \<and>
   validate_outcome_contract jobs outcomes \<noteq> Panic"
  by (simp add: validate_outcome_contract_iff validate_outcome_contract_not_Panic
      outcome_identity_def [abs_def] Preprocessing.job_identity_def [abs_def])

text \<open>After the tables are built, a digest leads to a decoded value exactly when some presented
  disclosure has that digest and decodes to that value, and the ordered digests are those of the
  disclosures in order. When building fails the tables are empty: nothing of an earlier
  presentation or of a partial build stays behind.\<close>

theorem digest_tables_exact:
  "(case create_verifier_hash_mappings par X spawn n b s of (r, s', b') \<Rightarrow>
      (r = Ok () \<longrightarrow>
         (\<forall>h v. hash_to_decoded s' h = Some v \<longleftrightarrow>
            (\<exists>e \<in> set (input_disclosures s). base64_hash X e = h \<and> decode_disclosure X e = Ok v)) \<and>
         ordered_digests s' = map (base64_hash X) (input_disclosures s) \<and> distinct (ordered_digests s')) \<and>
      (r \<noteq> Ok () \<longrightarrow>
         hash_to_decoded s' = Map.empty \<and> hash_to_disclosure s' = Map.empty \<and> ordered_digests s' = []))"
proof -
  obtain r s' b' where cr: "create_verifier_hash_mappings par X spawn n b s = (r, s', b')"
    by (cases "create_verifier_hash_mappings par X spawn n b s") auto
  have fail: "s' = clear_mappings s" if "r \<noteq> Ok ()"
    using cr that publish_failure [of _ s]
    by (auto simp: create_verifier_hash_mappings_def split: prod.splits) (metis fst_conv snd_conv)
  have pub: "published X s' \<and> input_disclosures s' = input_disclosures s" if "r = Ok ()"
    using verifier_mappings_cases [OF cr] that by (auto simp: published_def mappings_of_def)
  show ?thesis
  proof (cases "r = Ok ()")
    case True
    have "published X s'" and ins: "input_disclosures s' = input_disclosures s"
      using pub [OF True] by blast+
    then have "ordered_digests s' = map (base64_hash X) (input_disclosures s)"
      "distinct (map (base64_hash X) (input_disclosures s))"
      by (simp_all add: published_def presentable_def)
    moreover have "hash_to_decoded s' h = Some v \<longleftrightarrow>
        (\<exists>e \<in> set (input_disclosures s). base64_hash X e = h \<and> decode_disclosure X e = Ok v)" for h v
      using published_decoded [OF \<open>published X s'\<close>] ins by simp
    ultimately show ?thesis using True by (simp add: cr)
  next
    case False
    with fail show ?thesis by (simp add: cr clear_mappings_def)
  qed
qed

theorem digest_tables_exact_witness:
  "hash_to_decoded (fst (snd (create_verifier_hash_mappings False (sample_externals sample_world_1) (\<lambda>i. True) 1
      (budget_new 4) sample_loaded))) ''gfgf'' = Some (Array [String ''s'', String ''n'', Null])"
proof -
  let ?X = "sample_externals sample_world_1"
  have ins: "input_disclosures sample_loaded = [''ee'']" by (simp add: sample_loaded_def)
  have "fst (create_verifier_hash_mappings False ?X (\<lambda>i. True) 1 (budget_new 4) sample_loaded) = Ok ()"
    using verifier_mappings_complete [where spawn = "\<lambda>i. True" and X = ?X and s = sample_loaded and par = False
      and n = 1 and b = "budget_new 4"]
    by (simp add: ins sample_presentable)
  then show ?thesis
    using digest_tables_exact [where par = False and X = ?X and spawn = "\<lambda>i. True" and n = 1 and b = "budget_new 4"
      and s = sample_loaded]
    by (simp add: split_def ins sample_hash sample_decode)
qed

subsection \<open>Parsing\<close>

text \<open>Parsing enforces its limits on every serialization: a presentation is accepted exactly when
  the text is at most 2 MiB, its format parses, and it carries at most 8192 disclosures of at most
  64 KiB each. Malformed input is an error, never a panic.\<close>

theorem parsing_limits:
  "(parse_sd_jwt X s input = (Ok (), s')) =
     (length input \<le> 2097152 \<and> parse_format (format s) X s input = (Ok (), s') \<and>
      length (input_disclosures s') \<le> 8192 \<and> (\<forall>d \<in> set (input_disclosures s'). length d \<le> 65536)) \<and>
   fst (parse_sd_jwt X s input) \<noteq> Panic"
  using parse_sd_jwt_Ok [of X s input s'] parse_sd_jwt_not_Panic [of X s input]
  by (simp add: MAX_SD_JWT_INPUT_BYTES_def MAX_SD_JWT_DISCLOSURES_def MAX_SD_JWT_DISCLOSURE_BYTES_def)

theorem parsing_limits_witness:
  "length (input_disclosures sample_loaded) \<le> 8192"
  using parsing_limits [of "sample_externals sample_world_1" "common_new Compact" "''ei.fa.t~ee~''" sample_loaded]
    sample_parse_1 by simp

text \<open>Parsing the compact form loses nothing: the input is the token, the disclosures and the key
  binding token (or nothing) that were loaded, joined by tildes.\<close>

theorem compact_round_trip:
  assumes "parse_compact_sd_jwt X s input = (Ok (), s')"
  shows "\<exists>jwt. unverified_sd_jwt s' = Some jwt \<and>
     input = join ''~'' (jwt # input_disclosures s' @
       [case unverified_kb_jwt s' of None \<Rightarrow> [] | Some kb \<Rightarrow> kb])"
proof -
  obtain jwt rest where parts: "split_on (CHR ''~'') input = jwt # rest"
    by (cases "split_on (CHR ''~'') input") auto
  with assms have ne: "rest \<noteq> []"
    and load: "load_compact_parts X s jwt (butlast rest) (last rest) = (Ok (), s')"
    by (auto simp: parse_compact_sd_jwt_def Let_def split: if_splits)
  from load have s': "unverified_sd_jwt s' = Some jwt" "input_disclosures s' = butlast rest"
    "(case unverified_kb_jwt s' of None \<Rightarrow> [] | Some kb \<Rightarrow> kb) = last rest"
    by (auto simp: load_compact_parts_Ok)
  have "input = join ''~'' (jwt # rest)"
    using join_split_on [of "CHR ''~''" input] parts by simp
  with ne s' show ?thesis by simp
qed

lemma sample_parse_compact:
  "parse_compact_sd_jwt (sample_externals sample_world_1) (common_new Compact) ''ei.fa.t~ee~'' = (Ok (), sample_loaded)"
  using sample_parse_1 by (simp add: parse_sd_jwt_Ok common_new_def)

theorem compact_round_trip_witness:
  "''ei.fa.t~ee~'' = join ''~'' (''ei.fa.t'' # [''ee''] @ [[]])"
  using compact_round_trip [OF sample_parse_compact] by (simp add: sample_loaded_def common_new_def)

text \<open>C35. The compact and the flattened JSON serialization of one credential load the same state: for a
  token, disclosures and key binding token without separators inside them, both parses succeed on
  the same payloads and leave the same engine behind.\<close>

theorem serializations_agree:
  assumes "CHR ''~'' \<notin> set p \<and> CHR ''~'' \<notin> set pl \<and> CHR ''~'' \<notin> set sg"
    and "CHR ''.'' \<notin> set p \<and> CHR ''.'' \<notin> set pl"
    and "CHR ''~'' \<notin> set kb" and "\<And>d. d \<in> set ds \<Longrightarrow> CHR ''~'' \<notin> set d"
    and "length ds \<le> MAX_SD_JWT_DISCLOSURES"
    and "flattened_from_str X flattened = Inr \<lparr>fj_protected = p, fj_payload = pl, fj_signature = sg,
           fj_header = \<lparr>hdr_disclosures = ds, hdr_kb_jwt = (if kb = [] then None else Some kb)\<rparr>\<rparr>"
  shows "(parse_compact_sd_jwt X s (join ''~'' (jwt_of_parts p pl sg # ds @ [kb])) = (Ok (), s')) =
     (parse_flattened_json_sd_jwt X s flattened = (Ok (), s'))"
proof -
  have "split_on (CHR ''.'') (jwt_of_parts p pl sg) = p # pl # split_on (CHR ''.'') sg"
    using assms(2) by (simp add: jwt_of_parts_def split_on_append)
  moreover have "parse_compact_sd_jwt X s (join ''~'' (jwt_of_parts p pl sg # ds @ [kb])) =
      load_compact_parts X s (jwt_of_parts p pl sg) ds kb"
    by (rule parse_compact_join) (use assms in \<open>auto simp: jwt_of_parts_def\<close>)
  ultimately show ?thesis
    by (auto simp: parse_flattened_json_sd_jwt_def assms(6) load_compact_parts_Ok load_json_parts_Ok)
qed

definition flattened_sample :: "unit externals" where
  "flattened_sample = (sample_externals sample_world_1)\<lparr>flattened_from_str := \<lambda>s. Inr
     \<lparr>fj_protected = ''ei'', fj_payload = ''fa'', fj_signature = ''t'',
      fj_header = \<lparr>hdr_disclosures = [''ee''], hdr_kb_jwt = None\<rparr>\<rparr>\<rparr>"

theorem serializations_agree_witness:
  "(parse_compact_sd_jwt flattened_sample (common_new Compact) ''ei.fa.t~ee~'' = (Ok (), sample_loaded)) =
     (parse_flattened_json_sd_jwt flattened_sample (common_new Compact) [] = (Ok (), sample_loaded))"
  using serializations_agree [where X = flattened_sample and p = "''ei''" and pl = "''fa''" and sg = "''t''"
      and kb = "[]" and ds = "[''ee'']" and flattened = "[]" and s = "common_new Compact" and s' = sample_loaded]
  by (simp add: flattened_sample_def jwt_of_parts_def MAX_SD_JWT_DISCLOSURES_def)

subsection \<open>Reserved names\<close>

text \<open>The issuer and the holder accept user claims exactly when no object at any depth, inside
  arrays included, has a member named \<open>_sd\<close> or \<open>...\<close>, which would be read back as digests.\<close>

theorem reserved_names_rejected:
  "(check_for_sd_claim v = Ok ()) = keys_avoid {''_sd'', ''...''} v \<and> check_for_sd_claim v \<noteq> Panic"
  using check_for_sd_claim_iff(1) [of v] check_for_sd_claim_not_Panic(1) [of v]
  by (simp add: reserved_keys_def SD_DIGESTS_KEY_def SD_LIST_PREFIX_def)

end
