(* ===== verification/Issuer_Properties.thy ===== *)
theory Issuer_Properties
  imports Credential Issuance_Properties Presentation_Properties
begin

text \<open>
  The properties of the issuer: what preparation signs, and that a completed credential verifies
  and gives the claims back.
\<close>

subsection \<open>A sample credential\<close>

definition issuer_claims :: json_map where
  "issuer_claims = [(''iss'', String ''i''), (''n'', Null)]"

definition issuer_options :: issuance_options where
  "issuer_options = \<lparr>opt_holder_key = None, opt_add_decoy_claims = False, opt_serialization_format = Compact\<rparr>"

definition issuer_concealed :: json_map where
  "issuer_concealed = [(SD_DIGESTS_KEY, Array [String (hash sample_disclosure)])]"

definition issuer_payload :: json_map where
  "issuer_payload = issuer_concealed @ [(DIGEST_ALG_KEY, String DEFAULT_DIGEST_ALG), (''iss'', String ''i'')]"

definition issuer_token :: string where
  "issuer_token = letters_encode ''ES256'' @ ''.'' @ letters_encode ''P'' @ ''.'' @ letters_encode ''x''"

definition sample_world_4 :: sample_world where
  "sample_world_4 =
     \<lparr>sw_texts = sw_texts sample_world_3 @ [(''ES256'', Object [(''alg'', String ''ES256'')]), (''P'', Object issuer_payload)],
      sw_tokens = [(issuer_token, sample_header ES256, issuer_payload)]\<rparr>"

abbreviation "issuer_X \<equiv> sample_externals sample_world_4"

definition sample_host :: issuance_host where
  "sample_host = \<lparr>ih_spawn = (\<lambda>i. True), ih_threads = 4\<rparr>"

definition issuer_prepared :: prepared_sd_jwt where
  "issuer_prepared =
     \<lparr>prep_algorithm = ES256, prep_disclosures = [raw_b64 sample_disclosure], prep_payload = letters_encode ''P'',
      prep_protected = letters_encode ''ES256'', prep_serialization_format = Compact,
      prep_signing_input = letters_encode ''ES256'' @ ''.'' @ letters_encode ''P''\<rparr>"

lemma sample_sel [simp]:
  "sha256 (sample_externals w) = (\<lambda>s. s)" "json_trailing (sample_externals w) = (\<lambda>s. None)"
  "json_events (sample_externals w) = (\<lambda>s. case sample_parse w s of Inl e \<Rightarrow> EvFail e | Inr v \<Rightarrow> events_of v)"
  "json_custom_error (sample_externals w) = (\<lambda>s e. e)" "json_is_utf8 (sample_externals w) = (\<lambda>s. True)"
  "map_to_vec (sample_externals w) = (\<lambda>m. Inr (sample_print w (Object m)))"
  "header_to_vec (sample_externals w) = (\<lambda>h. Inr (alg_debug (jh_alg h)))"
  "algorithm_from_str (sample_externals w) = sample_algorithm" "header_new (sample_externals w) = sample_header"
  "decode_header (sample_externals w) = (\<lambda>s. case sample_token w s of Inl e \<Rightarrow> Inl e | Inr t \<Rightarrow> Inr (fst t))"
  "jwt_decode (sample_externals w) = (\<lambda>s key val. sample_token w s)"
  "jws_verify (sample_externals w) = (\<lambda>sig input key a. Inr True)"
  "p256_signature_ok (sample_externals w) = (\<lambda>s. length s = 1)"
  "install_default (sample_externals w) = Installed" "build_target (sample_externals w) = NativeTarget"
  by (simp_all add: sample_externals_def fun_eq_iff)

lemma sample_print_4:
  "sample_print sample_world_4 v =
     (if v = String ''n'' then sample_name else if v = Null then ''null''
      else if v = Array [String ''s'', String ''n'', Null] then sample_text
      else if v = Object [(''alg'', String ''ES256'')] then ''ES256''
      else if v = Object issuer_payload then ''P'' else [])"
  by (simp add: sample_print_def sample_world_4_def sample_world_3_def)

lemma sample_parse_4:
  "sample_parse sample_world_4 s =
     (if s = sample_name then Inr (String ''n'') else if s = ''null'' then Inr Null
      else if s = sample_text then Inr (Array [String ''s'', String ''n'', Null])
      else if s = ''ES256'' then Inr (Object [(''alg'', String ''ES256'')])
      else if s = ''P'' then Inr (Object issuer_payload) else Inl ''syntax'')"
  by (simp add: sample_parse_def sample_world_4_def sample_world_3_def)

lemma issuer_ascii: "ascii_value_text issuer_X v = sample_print sample_world_4 v"
  by (simp add: ascii_value_text_def value_text_def sample_print_4 sample_text_def sample_name_def is_ascii_byte_def byte_def quote_def)

lemma issuer_disclosure: "new_with_salt issuer_X (Some ''n'') Null ''s'' = sample_disclosure"
  by (simp add: sample_disclosure_def new_with_salt_def disclosure_data_def escape_json_def issuer_ascii sample_ascii
      sample_print_4 sample_print_3 base64url_encode_def base64_hash_def)

lemma sample_raw: "raw_b64 sample_disclosure = letters_encode sample_text"
  by (simp add: sample_disclosure_def new_with_salt_sel base64url_encode_def sample_disclosure_data)

lemma issuer_map_to_vec: "map_to_vec issuer_X issuer_payload = Inr ''P''"
  by (simp add: sample_print_4) (simp add: issuer_payload_def issuer_concealed_def key_defs)

lemma issuer_direct:
  "direct_value issuer_X sample_source False (Object (concealable_claims None issuer_claims)) AllLevels ()
     = (Object issuer_concealed, [sample_disclosure], ())"
  by (simp add: issuer_claims_def concealable_claims_def own_claims_def always_revealed_keys_def sample_source_def
      issuer_disclosure direct_decoys_def finish_object_def map_insert_def issuer_concealed_def Let_def)

lemma issuer_revealed: "revealed_claims None issuer_claims = [(''iss'', String ''i'')]"
  by (simp add: revealed_claims_def own_claims_def issuer_claims_def always_revealed_keys_def shift_remove_def)

lemma issuer_payload: "issued_payload issuer_concealed (revealed_claims None issuer_claims) None = issuer_payload"
  by (simp add: issued_payload_def issuer_revealed issuer_payload_def issuer_concealed_def map_append_Cons map_insert_def
      key_defs)

lemma issuer_prepares:
  "prepare_with_random_source True issuer_X sample_host (issuance_budget_new 4) ''ES256'' (Object issuer_claims) AllLevels
     issuer_options sample_source () = Ok (issuer_prepared, issuance_budget_new 4, ())"
proof -
  have "decoys_in_range sample_source" "6 * node_count (Object (concealable_claims None issuer_claims)) \<le> usize_max"
    by (simp_all add: decoys_in_range_def sample_source_def DECOY_MIN_ELEMENTS_def DECOY_MAX_ELEMENTS_def
        issuer_claims_def concealable_claims_def own_claims_def always_revealed_keys_def usize_max_def)
  from plan_create_progress [OF this, of AllLevels False "()"] obtain plan where
    plan: "plan_create sample_source (Object (concealable_claims None issuer_claims)) AllLevels False () = Ok (plan, ())" by auto
  from plan_create_complete [OF plan, of issuer_X] obtain ds where
    ds: "complete_plan issuer_X plan (Object issuer_concealed) ds" "map snd ds = [sample_disclosure]"
    unfolding issuer_direct by auto
  have run: "plan_execute True issuer_X sample_host plan (issuance_budget_new 4) =
      Ok (\<lparr>ia_claims = Object issuer_concealed, ia_disclosures = [sample_disclosure]\<rparr>, issuance_budget_new 4)"
    using execute_serial_complete [OF ds(1)]
    by (simp add: ds(2) plan_execute_def execute_adaptively_def QUALIFIED_ISSUANCE_THRESHOLDS_def)
  have "admissible_claims None issuer_claims"
    by (simp add: admissible_claims_def issuer_claims_def public_confirmation_def confirmation_jwk_def reserved_keys_def key_defs)
  moreover have "prepared_from issuer_X ''ES256'' issuer_options issuer_claims issuer_concealed [sample_disclosure] issuer_prepared"
    unfolding prepared_from_def
    by (intro exI [of _ ES256] exI [of _ "''ES256''"] exI [of _ "''P''"])
      (simp add: sample_algorithm_def issuer_options_def issuer_payload issuer_map_to_vec [simplified] issuer_prepared_def
        protected_header_def sample_header_def)
  ultimately show ?thesis
    unfolding prepare_with_random_source_def prepare_with_plan_executor_Ok using plan run
    by (auto simp: issuer_options_def)
qed

definition issuer_presentation :: string where
  "issuer_presentation = issuer_token @ ''~'' @ raw_b64 sample_disclosure @ ''~''"

lemma issuer_completes: "complete issuer_X issuer_prepared ''x'' () = Ok issuer_presentation"
  by (simp add: complete_Ok issuer_prepared_def install_crypto_provider_def native_ensure_installed_def
      complete_encoded_signature_def COMBINED_SERIALIZATION_FORMAT_SEPARATOR_def issuer_presentation_def issuer_token_def)

lemma letters_length: "length (letters_encode s) = 2 * length s"
  by (induction s) (simp_all add: letters_encode_def letter_pair_def)

lemma sample_unique: "unique_value_from_slice issuer_X ''P'' = Inr (Object issuer_payload)"
  by (simp add: unique_value_from_slice_def sample_parse_4 sample_text_def sample_name_def)
    (simp add: issuer_payload_def issuer_concealed_def key_defs contains_key_def map_insert_def)

lemma issuer_token_sample: "sample_token sample_world_4 issuer_token = Inr (sample_header ES256, issuer_payload)"
  by (simp add: sample_token_def sample_world_4_def)

lemma issuer_token_alg: "decode_header_and_get_sign_algorithm issuer_X issuer_token = Some ''ES256''"
proof -
  have X: "base64_alphabet issuer_X" by (rule sample_base64)
  have "split_on (CHR ''.'') issuer_token = [letters_encode ''ES256'', letters_encode ''P'', letters_encode ''x'']"
    using split_jwt_of_parts [OF base64_no_dot [OF X] base64_no_dot [OF X] base64_no_dot [OF X], of "''ES256''" "''P''" "''x''"]
    by (simp add: jwt_of_parts_def issuer_token_def)
  then show ?thesis
    by (simp add: decode_header_and_get_sign_algorithm_def base64url_decode_def letters_decode_encode sample_parse_4
        sample_text_def sample_name_def header_alg_def)
qed

lemma issuer_parts:
  "prep_payload issuer_prepared = letters_encode ''P''" "prep_signing_input issuer_prepared @ ''.'' @ base64_encode issuer_X ''x'' = issuer_token"
  by (simp_all add: issuer_prepared_def issuer_token_def)

lemma issuer_signs: "signed_payload issuer_X sample_source issuer_options issuer_claims AllLevels () = issuer_payload"
proof -
  have options: "opt_holder_key issuer_options = None" "opt_add_decoy_claims issuer_options = False"
    by (simp_all add: issuer_options_def)
  show ?thesis
    unfolding signed_payload_def options finalize_input.simps result.case issuer_direct prod.case json.case
    by (rule issuer_payload)
qed

lemma issuer_token_ok_sample:
  "issuer_token_ok issuer_X sample_resolve policy_default (prep_algorithm issuer_prepared)
     (signed_payload issuer_X sample_source issuer_options issuer_claims AllLevels ()) ''x''"
proof -
  have "jwt_payload_decode issuer_X (letters_encode ''P'') = Ok issuer_payload"
    unfolding jwt_payload_decode_eq_Ok using sample_unique by (simp add: letters_decode_encode)
  moreover have "public_confirmation issuer_payload"
    by (simp add: public_confirmation_def confirmation_jwk_def issuer_payload_def issuer_concealed_def key_defs)
  moreover have "token_verifies issuer_X sample_resolve policy_default issuer_token issuer_payload"
    unfolding token_verifies_def
    by (intro exI [of _ "sample_header ES256"] exI [of _ "''ES256''"] exI [of _ "()"] exI [of _ "''i''"])
      (simp add: issuer_token_sample issuer_token_alg sample_header_def sample_algorithm_def policy_default_allows
        symmetric_algorithm_def sample_resolve_def issuer_payload_def issuer_concealed_def key_defs)
  moreover have "header_to_vec issuer_X (protected_header issuer_X ES256) = Inr ''ES256''"
    by (simp add: protected_header_def sample_header_def)
  moreover have "prep_algorithm issuer_prepared = ES256" by (simp add: issuer_prepared_def)
  ultimately show ?thesis
    unfolding issuer_token_ok_def issuer_signs issuer_map_to_vec
    by (simp add: issuer_token_def del: sample_sel)
qed

lemma issuer_contents:
  "issued_contents issuer_X sample_source issuer_options issuer_claims AllLevels () = [(Some ''n'', Null, ''s'')]"
  by (simp add: issued_contents_def issuer_options_def issuer_claims_def concealable_claims_def own_claims_def
      always_revealed_keys_def sample_source_def)

lemma issuer_disclosure_reads:
  "texts_parse issuer_X (issued_contents issuer_X sample_source issuer_options issuer_claims AllLevels ())"
proof -
  have "disclosure_data issuer_X (Some ''n'') Null ''s'' = sample_text"
    by (simp add: disclosure_data_def escape_json_def issuer_ascii sample_print_4 sample_text_def sample_name_def)
  then show ?thesis
    unfolding issuer_contents
    by (simp add: texts_parse_def disclosure_content_def sample_parse_4) (simp add: sample_text_def sample_name_def)
qed

lemma issuer_limits: "within_limits issuer_presentation (prep_disclosures issuer_prepared)"
  by (simp add: within_limits_def issuer_presentation_def issuer_token_def issuer_prepared_def sample_raw letters_length
      sample_text_def sample_name_def MAX_SD_JWT_INPUT_BYTES_def MAX_SD_JWT_DISCLOSURES_def MAX_SD_JWT_DISCLOSURE_BYTES_def)

lemma issuer_shape: "credential_shape None issuer_claims"
  by (simp add: credential_shape_def credential_claims_def issuer_claims_def issuable_def structural_keys_def key_defs
      MAX_PROCESSED_SD_JWT_DEPTH_def)

subsection \<open>Issuer\<close>



text \<open>C2. An issued credential verifies and gives the issuer's claims back. The compact credential that
  preparation and completion with the remote signature make, presented with all its disclosures, is
  accepted by the verifier, and the verified claims are the issuer's claims with the holder key as
  confirmation, up to the order of object members. The claims use no structural name and no empty
  array and nest within the verifier's limit; no decoys are added; the text of each disclosure made parses
  back to what it was made of, and the signed payload's to the payload, whose visible confirmation
  is public; the disclosures have
  different digests, and a token over that payload verifies under the resolved key. That the
  issuer signs exactly this payload and publishes exactly these disclosures is proved.\<close>

theorem issued_credential_verifies:
  assumes "prepare_with_random_source par X host b alg_name (Object m) strat options R r = Ok (p, b', r')"
    and "opt_serialization_format options = Compact" and "\<not> opt_add_decoy_claims options"
    and "credential_shape (opt_holder_key options) m"
    and "complete X p sig key = Ok presentation" 
    and "issuer_token_ok X resolve policy (prep_algorithm p) (signed_payload X R options m strat r) sig"
    and "base64_alphabet X" and "base64_inverse X"
    and "texts_parse X (issued_contents X R options m strat r)" and "distinct (map (base64_hash X) (prep_disclosures p))"
    and "within_limits presentation (prep_disclosures p)" and "\<And>i. env_spawn env i"
  shows "\<exists>v. verifier_new_with_policy X env presentation resolve None None Compact policy = Ok v \<and>
     json_eqv (Object (credential_claims (opt_holder_key options) m)) (verified_claims v)"
  by (rule credential_verifies [OF assms(1-11)]) (rule assms(12))

theorem issued_credential_verifies_witness:
  "\<exists>v. verifier_new_with_policy issuer_X sample_env issuer_presentation sample_resolve None None Compact policy_default = Ok v \<and>
     json_eqv (Object issuer_claims) (verified_claims v)"
proof -
  have opts: "opt_serialization_format issuer_options = Compact" "\<not> opt_add_decoy_claims issuer_options"
    "credential_shape (opt_holder_key issuer_options) issuer_claims"
    using issuer_shape by (simp_all add: issuer_options_def)
  have distinct: "distinct (map (base64_hash issuer_X) (prep_disclosures issuer_prepared))"
    by (simp add: issuer_prepared_def)
  have "env_spawn sample_env i" for i by (simp add: sample_env_def)
  from issued_credential_verifies [OF issuer_prepares opts issuer_completes issuer_token_ok_sample
      sample_base64 issuer_disclosure_reads distinct issuer_limits this] show ?thesis
    by (simp add: issuer_options_def credential_claims_def)
qed

end
