(* ===== verification/Holder.thy ===== *)
theory Holder
  imports Engine
begin

text \<open>
  \<open>SDJWTHolder\<close> of src/src/holder.rs: building a holder from an issued credential, selecting the
  disclosures of the requested claims, rendering a presentation, and preparing and completing one
  with a key binding JWT. A method on \<open>&mut self\<close> returns its result and the holder it leaves.
\<close>

subsection \<open>State\<close>

record sd_jwt_holder =
  hd_engine :: sd_common
  hd_disclosures :: "string list"
  hd_kb_header :: "string \<rightharpoonup> json"
  hd_kb_payload :: "string \<rightharpoonup> json"
  hd_kb_jwt :: string
  hd_payload :: json_map
  hd_sd_jwt :: string

record 'k prepared_presentation =
  pp_algorithm :: algorithm
  pp_disclosures :: "string list"
  pp_format :: serialization_format
  pp_sd_jwt :: string
  pp_signing_input :: string
  pp_verification_key :: 'k

subsection \<open>Building a holder\<close>

definition holder_start :: "serialization_format \<Rightarrow> sd_jwt_holder" where
  "holder_start fmt =
     \<lparr>hd_engine = common_new fmt, hd_disclosures = [], hd_kb_header = Map.empty, hd_kb_payload = Map.empty,
      hd_kb_jwt = [], hd_payload = [], hd_sd_jwt = []\<rparr>"

definition holder_check_issuer ::
    "'k externals \<Rightarrow> sd_common \<Rightarrow> (string \<Rightarrow> jose_header \<Rightarrow> 'k result) \<Rightarrow> verification_policy \<Rightarrow> unit result" where
  "holder_check_issuer X e resolve policy =
     rbind (ok_or (unverified_sd_jwt e) (InvalidState ''Cannot reference jwt'')) (\<lambda>sd_jwt.
     rbind (map_err DeserializationError (decode_header X sd_jwt)) (\<lambda>header.
     if \<not> policy_allows policy (jh_alg header)
     then Err (InvalidInput (''Issuer-signed JWT algorithm '' @ alg_debug (jh_alg header)
                 @ '' is not allowed by verification policy''))
     else rbind (ok_or (unverified_payload e) (InvalidState ''Cannot reference payload'')) (\<lambda>payload.
     rbind (ok_or (Option.bind (map_get payload ''iss'') as_str)
              (InvalidInput ''Issuer-signed JWT is missing `iss`'')) (\<lambda>unverified_issuer.
     rbind (resolve unverified_issuer header) (\<lambda>key.
     verify_signature X e key policy)))))"

text \<open>\<open>build\<close>: the payload and the token are taken out of the engine before the tables are made.\<close>

definition holder_build ::
    "'k externals \<Rightarrow> string \<Rightarrow> serialization_format \<Rightarrow> (string \<Rightarrow> jose_header \<Rightarrow> 'k result) option
       \<Rightarrow> verification_policy \<Rightarrow> sd_jwt_holder result" where
  "holder_build X sd_jwt_with_disclosures fmt cb_get_issuer_key policy =
     rbind (install_crypto_provider X) (\<lambda>_.
     (let h0 = holder_start fmt
      in case parse_sd_jwt X (hd_engine h0) sd_jwt_with_disclosures of (r1, e1) \<Rightarrow>
         rbind r1 (\<lambda>_.
         if unverified_kb_jwt e1 \<noteq> None
         then Err (InvalidInput ''Holder received an SD-JWT+KB; a Key Binding JWT must not be present'')
         else rbind (case cb_get_issuer_key of
                       None \<Rightarrow> Ok ()
                     | Some resolve \<Rightarrow> holder_check_issuer X e1 resolve policy) (\<lambda>_.
              rbind (ok_or (unverified_payload e1) (InvalidState ''Cannot take payload'')) (\<lambda>payload.
              rbind (ok_or (unverified_sd_jwt e1) (InvalidState ''Cannot take jwt'')) (\<lambda>sd_jwt.
              case create_hash_mappings X (e1\<lparr>unverified_payload := None, unverified_sd_jwt := None\<rparr>) of (r2, e2) \<Rightarrow>
              rbind r2 (\<lambda>_.
              Ok (h0\<lparr>hd_engine := e2, hd_payload := payload, hd_sd_jwt := sd_jwt\<rparr>))))))))"

definition holder_new_with_policy ::
    "'k externals \<Rightarrow> string \<Rightarrow> serialization_format \<Rightarrow> (string \<Rightarrow> jose_header \<Rightarrow> 'k result)
       \<Rightarrow> verification_policy \<Rightarrow> sd_jwt_holder result" where
  "holder_new_with_policy X credential fmt cb_get_issuer_key policy =
     holder_build X credential fmt (Some cb_get_issuer_key) policy"

definition holder_new ::
    "'k externals \<Rightarrow> string \<Rightarrow> serialization_format \<Rightarrow> (string \<Rightarrow> jose_header \<Rightarrow> 'k) \<Rightarrow> sd_jwt_holder result" where
  "holder_new X credential fmt cb_get_issuer_key =
     holder_new_with_policy X credential fmt (\<lambda>issuer header. Ok (cb_get_issuer_key issuer header)) policy_default"

definition holder_new_unverified ::
    "'k externals \<Rightarrow> string \<Rightarrow> serialization_format \<Rightarrow> sd_jwt_holder result" where
  "holder_new_unverified X credential fmt = holder_build X credential fmt None policy_default"

subsection \<open>Selecting disclosures\<close>

text \<open>
  The hidden members of an object: for each listed digest with a decoded disclosure, its name, value
  and digest; a later digest with the same name wins, as \<open>HashMap\<close>'s \<open>collect\<close> has it.
\<close>

definition hidden_member :: "sd_common \<Rightarrow> json \<Rightarrow> (string \<times> json \<times> string) option" where
  "hidden_member e digest_value =
     (case as_str digest_value of
        None \<Rightarrow> None
      | Some digest \<Rightarrow>
          (case hash_to_decoded e digest of
             None \<Rightarrow> None
           | Some decoded \<Rightarrow>
               (case as_str (value_index decoded 1) of
                  None \<Rightarrow> None
                | Some key \<Rightarrow> Some (key, value_index decoded 2, digest))))"

definition listed_digests :: "json_map \<Rightarrow> json list" where
  "listed_digests claims =
     (case Option.bind (map_get claims SD_DIGESTS_KEY) as_array of None \<Rightarrow> [] | Some digests \<Rightarrow> digests)"

definition sd_map :: "sd_common \<Rightarrow> json_map \<Rightarrow> string \<rightharpoonup> json \<times> string" where
  "sd_map e claims = map_of (rev (List.map_filter (hidden_member e) (listed_digests claims)))"

definition index_disclosure :: "sd_common \<Rightarrow> string \<Rightarrow> string result" where
  "index_disclosure e digest = (case hash_to_disclosure e digest of None \<Rightarrow> Panic | Some d \<Rightarrow> Ok d)"

definition index_decoded :: "sd_common \<Rightarrow> string \<Rightarrow> json result" where
  "index_decoded e digest = (case hash_to_decoded e digest of None \<Rightarrow> Panic | Some v \<Rightarrow> Ok v)"

text \<open>The array, or the object, that the claim \<open>key\<close> holds: visible, or else in its disclosure.\<close>

definition claim_array :: "sd_common \<Rightarrow> json_map \<Rightarrow> string \<Rightarrow> json list option" where
  "claim_array e claims key =
     (case Option.bind (map_get claims key) as_array of
        Some vs \<Rightarrow> Some vs
      | None \<Rightarrow> Option.bind (sd_map e claims key) (\<lambda>(sd, _). as_array sd))"

definition claim_object :: "sd_common \<Rightarrow> json_map \<Rightarrow> string \<Rightarrow> json_map result" where
  "claim_object e claims key =
     (case Option.bind (map_get claims key) as_object of
        Some m \<Rightarrow> Ok m
      | None \<Rightarrow>
          (case sd_map e claims key of
             None \<Rightarrow> Panic
           | Some (sd, _) \<Rightarrow> ok_or (as_object sd) (ConversionError ''json object'')))"

definition own_disclosure :: "sd_common \<Rightarrow> json_map \<Rightarrow> string \<Rightarrow> string list result" where
  "own_disclosure e claims key =
     (if contains_key claims key then Ok []
      else case sd_map e claims key of
             Some (_, digest) \<Rightarrow> rbind (index_disclosure e digest) (\<lambda>d. Ok [d])
           | None \<Rightarrow> Err (InvalidState ''Requested claim doesn't exist''))"

definition placeholder_digest :: "json_map \<Rightarrow> string option" where
  "placeholder_digest m = Option.bind (map_get m SD_LIST_PREFIX) as_str"

text \<open>Each function recurses on the request: one member, one member's children, one array element.\<close>

fun select_disclosures :: "sd_common \<Rightarrow> json_map \<Rightarrow> json_map \<Rightarrow> string list result"
  and select_children :: "sd_common \<Rightarrow> json_map \<Rightarrow> string \<Rightarrow> json \<Rightarrow> string list result"
  and select_disclosures_from_disclosed_list :: "sd_common \<Rightarrow> json list \<Rightarrow> json list \<Rightarrow> string list result"
  and select_element :: "sd_common \<Rightarrow> json \<Rightarrow> json \<Rightarrow> string list result"
where
  "select_disclosures e claims [] = Ok []"
| "select_disclosures e claims ((key, request) # requests) =
     (if request = Null \<or> request = Bool False then select_disclosures e claims requests
      else rbind (select_children e claims key request) (\<lambda>children.
           rbind (own_disclosure e claims key) (\<lambda>own.
           rbind (select_disclosures e claims requests) (\<lambda>others.
           Ok (children @ own @ others)))))"
| "select_children e claims key (Array requests) =
     (case claim_array e claims key of
        Some vs \<Rightarrow> select_disclosures_from_disclosed_list e vs requests
      | None \<Rightarrow> Ok [])"
| "select_children e claims key (Object requests) =
     (if requests = [] then Ok []
      else rbind (claim_object e claims key) (\<lambda>m. select_disclosures e m requests))"
| "select_children e claims key request = Ok []"
| "select_disclosures_from_disclosed_list e (v # vs) (request # requests) =
     rbind (select_element e v request) (\<lambda>ds.
     rbind (select_disclosures_from_disclosed_list e vs requests) (\<lambda>others. Ok (ds @ others)))"
| "select_disclosures_from_disclosed_list e vs requests = Ok []"
| "select_element e (Object m) request =
     (case placeholder_digest m of
        Some digest \<Rightarrow>
          (if request = Bool True then rbind (index_disclosure e digest) (\<lambda>d. Ok [d])
           else rbind (index_decoded e digest) (\<lambda>decoded.
                rbind (ok_or (as_array decoded) (ConversionError ''json array'')) (\<lambda>disclosure.
                case request of
                  Array requests \<Rightarrow>
                    (case value_index (Array disclosure) 1 of
                       Array vs \<Rightarrow> rbind (index_disclosure e digest) (\<lambda>d.
                         rbind (select_disclosures_from_disclosed_list e vs requests) (\<lambda>ds. Ok (d # ds)))
                     | _ \<Rightarrow> Ok [])
                | Object requests \<Rightarrow>
                    (case value_index (Array disclosure) 1 of
                       Object claims \<Rightarrow> rbind (index_disclosure e digest) (\<lambda>d.
                         rbind (select_disclosures e claims requests) (\<lambda>ds. Ok (d # ds)))
                     | _ \<Rightarrow> Ok [])
                | _ \<Rightarrow> Ok [])))
      | None \<Rightarrow>
          (case request of
             Object requests \<Rightarrow> select_disclosures e m requests
           | _ \<Rightarrow> Ok []))"
| "select_element e (Array vs) (Array requests) = select_disclosures_from_disclosed_list e vs requests"
| "select_element e v request = Ok []"

subsection \<open>Presentations\<close>

definition rendered ::
    "'k externals \<Rightarrow> serialization_format \<Rightarrow> string \<Rightarrow> string list \<Rightarrow> string \<Rightarrow> string option \<Rightarrow> string result" where
  "rendered X fmt sd_jwt disclosures kb_jwt kb_member =
     (case fmt of
        Compact \<Rightarrow> Ok (join COMBINED_SERIALIZATION_FORMAT_SEPARATOR (sd_jwt # disclosures @ [kb_jwt]))
      | FlattenedJson \<Rightarrow>
          rbind (split_jwt sd_jwt) (\<lambda>(protected, payload, signature).
          map_err DeserializationError (flattened_to_string X
            \<lparr>fj_protected = protected, fj_payload = payload, fj_signature = signature,
             fj_header = \<lparr>hdr_disclosures = disclosures, hdr_kb_jwt = kb_member\<rparr>\<rparr>))
      | GeneralJson \<Rightarrow>
          rbind (split_jwt sd_jwt) (\<lambda>(protected, payload, signature).
          map_err DeserializationError (general_to_string X
            \<lparr>gj_payload = payload,
             gj_signatures = [\<lparr>gs_protected = protected, gs_signature = signature,
               gs_header = \<lparr>hdr_disclosures = disclosures, hdr_kb_jwt = kb_member\<rparr>\<rparr>]\<rparr>)))"

definition render_presentation :: "'k externals \<Rightarrow> sd_jwt_holder \<Rightarrow> string result" where
  "render_presentation X h =
     rendered X (format (hd_engine h)) (hd_sd_jwt h) (hd_disclosures h) (hd_kb_jwt h)
       (if hd_kb_jwt h = [] then None else Some (hd_kb_jwt h))"

definition reset_key_binding :: "sd_jwt_holder \<Rightarrow> sd_jwt_holder" where
  "reset_key_binding h = h\<lparr>hd_kb_header := Map.empty, hd_kb_payload := Map.empty, hd_kb_jwt := []\<rparr>"

definition create_presentation ::
    "'k externals \<Rightarrow> sd_jwt_holder \<Rightarrow> json_map \<Rightarrow> string result \<times> sd_jwt_holder" where
  "create_presentation X h claims_to_disclose =
     (let h1 = reset_key_binding h
      in case select_disclosures (hd_engine h1) (hd_payload h1) claims_to_disclose of
           Ok ds \<Rightarrow> (render_presentation X (h1\<lparr>hd_disclosures := ds\<rparr>), h1\<lparr>hd_disclosures := ds\<rparr>)
         | Err err \<Rightarrow> (Err err, h1)
         | Panic \<Rightarrow> (Panic, h1))"

definition key_binding_digest :: "'k externals \<Rightarrow> sd_jwt_holder \<Rightarrow> string" where
  "key_binding_digest X h =
     base64_hash X (join COMBINED_SERIALIZATION_FORMAT_SEPARATOR (hd_sd_jwt h # hd_disclosures h)
       @ COMBINED_SERIALIZATION_FORMAT_SEPARATOR)"

definition set_key_binding_digest_key :: "'k externals \<Rightarrow> sd_jwt_holder \<Rightarrow> sd_jwt_holder" where
  "set_key_binding_digest_key X h =
     h\<lparr>hd_kb_payload := (hd_kb_payload h)(KB_DIGEST_KEY \<mapsto> String (key_binding_digest X h))\<rparr>"

definition kb_header_of :: "'k externals \<Rightarrow> algorithm \<Rightarrow> jose_header" where
  "kb_header_of X a = (header_new X a)\<lparr>jh_typ := Some KB_JWT_TYP_HEADER\<rparr>"

text \<open>
  The part after the disclosures are selected; the clock is the seconds since the epoch or the
  error of a clock before it.
\<close>

definition fill_key_binding_payload ::
    "'k externals \<Rightarrow> string + nat \<Rightarrow> string \<Rightarrow> string \<Rightarrow> sd_jwt_holder \<Rightarrow> unit result \<times> sd_jwt_holder" where
  "fill_key_binding_payload X clock nonce aud h =
     (let h1 = h\<lparr>hd_kb_payload := (hd_kb_payload h)(''nonce'' \<mapsto> String nonce, ''aud'' \<mapsto> String aud)\<rparr>
      in case clock of
           Inl err \<Rightarrow> (Err (ConversionError (''timestamp: '' @ err)), h1)
         | Inr secs \<Rightarrow>
             (Ok (), set_key_binding_digest_key X
                (h1\<lparr>hd_kb_payload := (hd_kb_payload h1)(''iat'' \<mapsto> Number (NU64 secs))\<rparr>)))"

definition holder_binding_key :: "'k externals \<Rightarrow> json_map \<Rightarrow> algorithm \<Rightarrow> 'k result" where
  "holder_binding_key X payload a =
     rbind (validate_public_confirmation_claim payload) (\<lambda>_.
     rbind (ok_or (Option.bind (Option.bind (map_get payload CNF_KEY) as_object) (\<lambda>confirmation. map_get confirmation JWK_KEY))
              (InvalidInput ''key binding requires an issuer-signed public cnf.jwk'')) (\<lambda>raw_holder_jwk.
     rbind (map_err (\<lambda>_. InvalidInput ''cnf.jwk is not a valid public JWK'') (jwk_from_value X raw_holder_jwk)) (\<lambda>holder_jwk.
     rbind (validate_key_binding_jwk_policy holder_jwk a) (\<lambda>_.
     map_err (\<lambda>_. InvalidInput ''cnf.jwk is not a usable public JWK'') (key_from_jwk X holder_jwk)))))"

definition prepare_key_binding_presentation ::
    "'k externals \<Rightarrow> string + nat \<Rightarrow> sd_jwt_holder \<Rightarrow> json_map \<Rightarrow> string \<Rightarrow> string \<Rightarrow> string option
       \<Rightarrow> 'k prepared_presentation result \<times> sd_jwt_holder" where
  "prepare_key_binding_presentation X clock h claims_to_disclose nonce aud alg_option =
     (let h1 = reset_key_binding h
      in case select_disclosures (hd_engine h1) (hd_payload h1) claims_to_disclose of
           Err err \<Rightarrow> (Err err, h1)
         | Panic \<Rightarrow> (Panic, h1)
         | Ok ds \<Rightarrow>
             (let h2 = h1\<lparr>hd_disclosures := ds\<rparr>;
                  algorithm_name = (case alg_option of None \<Rightarrow> ''ES256'' | Some a \<Rightarrow> a)
              in case algorithm_from_str X algorithm_name of
                   Inl err \<Rightarrow> (Err (DeserializationError err), h2)
                 | Inr a \<Rightarrow>
                     (case fill_key_binding_payload X clock nonce aud h2 of (r, h3) \<Rightarrow>
                        (rbind r (\<lambda>_.
                         rbind (holder_binding_key X (hd_payload h3) a) (\<lambda>key.
                         rbind (map_err DeserializationError (header_to_vec X (kb_header_of X a))) (\<lambda>header_text.
                         rbind (map_err DeserializationError (hashmap_to_vec X (hd_kb_payload h3))) (\<lambda>payload_text.
                         Ok \<lparr>pp_algorithm = a, pp_disclosures = hd_disclosures h3, pp_format = format (hd_engine h3),
                             pp_sd_jwt = hd_sd_jwt h3,
                             pp_signing_input = base64url_encode X header_text @ ''.'' @ base64url_encode X payload_text,
                             pp_verification_key = key\<rparr>)))), h3))))"

definition complete_key_binding :: "'k externals \<Rightarrow> 'k prepared_presentation \<Rightarrow> string \<Rightarrow> string result" where
  "complete_key_binding X p signature =
     rbind (verify_remote_signature X (pp_algorithm p) (pp_signing_input p) signature (pp_verification_key p)) (\<lambda>_.
     let key_binding_jwt = pp_signing_input p @ ''.'' @ base64url_encode X signature
     in rendered X (pp_format p) (pp_sd_jwt p) (pp_disclosures p) key_binding_jwt (Some key_binding_jwt))"

subsection \<open>What a built holder knows\<close>

text \<open>A holder is built exactly from a credential that parses, has no key binding token, decodes, and
  whose issuer signature verifies when a resolver is given.\<close>

definition holder_issuer_ok ::
    "'k externals \<Rightarrow> sd_common \<Rightarrow> (string \<Rightarrow> jose_header \<Rightarrow> 'k result) \<Rightarrow> verification_policy \<Rightarrow> bool" where
  "holder_issuer_ok X e resolve policy \<longleftrightarrow>
     (\<exists>sd_jwt header payload issuer key.
        unverified_sd_jwt e = Some sd_jwt \<and> decode_header X sd_jwt = Inr header \<and> policy_allows policy (jh_alg header) \<and>
        unverified_payload e = Some payload \<and> map_get payload ''iss'' = Some (String issuer) \<and>
        resolve issuer header = Ok key \<and> verify_signature X e key policy = Ok ())"

lemma holder_check_issuer_Ok: "holder_check_issuer X e resolve policy = Ok () \<longleftrightarrow> holder_issuer_ok X e resolve policy"
proof
  assume "holder_check_issuer X e resolve policy = Ok ()"
  then show "holder_issuer_ok X e resolve policy"
    by (auto simp: holder_check_issuer_def holder_issuer_ok_def rbind_eq_Ok bind_eq_Some_conv split: if_splits)
next
  assume "holder_issuer_ok X e resolve policy"
  then show "holder_check_issuer X e resolve policy = Ok ()"
    by (auto simp: holder_check_issuer_def holder_issuer_ok_def)
qed

definition holder_loaded ::
    "'k externals \<Rightarrow> string \<Rightarrow> serialization_format \<Rightarrow> (string \<Rightarrow> jose_header \<Rightarrow> 'k result) option
       \<Rightarrow> verification_policy \<Rightarrow> sd_jwt_holder \<Rightarrow> bool" where
  "holder_loaded X credential fmt resolver policy h \<longleftrightarrow>
     (\<exists>e payload sd_jwt.
        parse_sd_jwt X (common_new fmt) credential = (Ok (), e) \<and> unverified_kb_jwt e = None \<and>
        (\<forall>resolve. resolver = Some resolve \<longrightarrow> holder_issuer_ok X e resolve policy) \<and>
        unverified_payload e = Some payload \<and> unverified_sd_jwt e = Some sd_jwt \<and>
        presentable X (input_disclosures e) \<and>
        h = (holder_start fmt)\<lparr>hd_payload := payload, hd_sd_jwt := sd_jwt,
              hd_engine := e\<lparr>unverified_payload := None, unverified_sd_jwt := None,
                hash_to_decoded := dm_decoded (mappings_of X (input_disclosures e)),
                hash_to_disclosure := dm_encoded (mappings_of X (input_disclosures e)),
                ordered_digests := map (base64_hash X) (input_disclosures e)\<rparr>\<rparr>)"

lemma create_hash_mappings_Ok:
  "create_hash_mappings X s = (Ok (), s') \<longleftrightarrow>
     presentable X (input_disclosures s) \<and>
     s' = s\<lparr>hash_to_decoded := dm_decoded (mappings_of X (input_disclosures s)),
            hash_to_disclosure := dm_encoded (mappings_of X (input_disclosures s)),
            ordered_digests := map (base64_hash X) (input_disclosures s)\<rparr>"
proof -
  show ?thesis
  proof (cases "presentable X (input_disclosures s)")
    case True
    then have "serial_preprocess X (input_disclosures s) = Ok (mappings_of X (input_disclosures s))"
      by (simp add: serial_preprocess_Ok)
    with True show ?thesis
      by (auto simp: create_hash_mappings_def preprocess_disclosures_serial_def publish_mappings_def clear_mappings_def
          mappings_of_def)
  next
    case False
    then have "serial_preprocess X (input_disclosures s) \<noteq> Ok m" for m by (simp add: serial_preprocess_Ok)
    with False show ?thesis
      by (auto simp: create_hash_mappings_def preprocess_disclosures_serial_def publish_mappings_def split: result.splits)
  qed
qed

lemma holder_build_Ok:
  "holder_build X credential fmt resolver policy = Ok h \<longleftrightarrow>
     install_crypto_provider X = Ok () \<and> holder_loaded X credential fmt resolver policy h"
proof -
  have start: "hd_engine (holder_start fmt) = common_new fmt" by (simp add: holder_start_def)
  have res: "(case resolver of None \<Rightarrow> Ok () | Some resolve \<Rightarrow> holder_check_issuer X e resolve policy) = Ok () \<longleftrightarrow>
      (\<forall>resolve. resolver = Some resolve \<longrightarrow> holder_issuer_ok X e resolve policy)" for e
    by (cases resolver) (simp_all add: holder_check_issuer_Ok)
  have maps: "(case create_hash_mappings X s of (r2, e2) \<Rightarrow> rbind r2 (\<lambda>_. Ok (f e2))) = Ok h \<longleftrightarrow>
      (\<exists>e2. create_hash_mappings X s = (Ok (), e2) \<and> h = f e2)" for s f
    by (auto simp: rbind_eq_Ok split: prod.splits)
  show ?thesis
    unfolding holder_build_def start Let_def holder_loaded_def
    by (auto simp: rbind_eq_Ok res maps create_hash_mappings_Ok split: prod.splits if_splits)
qed

end
