(* ===== verification/Selection.thy ===== *)
theory Selection
  imports Holder
begin

text \<open>
  Which disclosures a holder selects: each is one of the credential's, and is referenced by the
  signed claims or by the value of another selected disclosure, so that a verifier meets it.
\<close>

subsection \<open>References\<close>

inductive subvalue :: "json \<Rightarrow> json \<Rightarrow> bool" where
  sub_refl: "subvalue v v"
| sub_member: "(k, v) \<in> set m \<Longrightarrow> subvalue w v \<Longrightarrow> subvalue w (Object m)"
| sub_elem: "v \<in> set vs \<Longrightarrow> subvalue w v \<Longrightarrow> subvalue w (Array vs)"

inductive_simps subvalue_simps:
  "subvalue w Null" "subvalue w (Bool b)" "subvalue w (Number n)" "subvalue w (String s)" "subvalue w (Array vs)"
  "subvalue w (Object m)"

text \<open>A digest that some object of the value lists under \<open>_sd\<close> or holds as an array placeholder.\<close>

definition refers :: "json \<Rightarrow> string \<Rightarrow> bool" where
  "refers v d \<longleftrightarrow>
     (\<exists>m. subvalue (Object m) v \<and> (String d \<in> set (listed_digests m) \<or> placeholder_digest m = Some d))"

lemma refers_member: "(k, v) \<in> set m \<Longrightarrow> refers v d \<Longrightarrow> refers (Object m) d"
  by (auto simp: refers_def intro: sub_member)

lemma refers_elem: "v \<in> set vs \<Longrightarrow> refers v d \<Longrightarrow> refers (Array vs) d"
  by (auto simp: refers_def intro: sub_elem)

lemma refers_index: "refers (value_index v i) d \<Longrightarrow> refers v d"
proof -
  assume r: "refers (value_index v i) d"
  show ?thesis
  proof (cases v)
    case (Array vs)
    with r have "i < length vs"
      by (auto simp: value_index_def refers_def elim: subvalue.cases split: if_splits)
    with r Array show ?thesis by (auto simp: value_index_def intro: refers_elem [OF nth_mem])
  qed (use r in \<open>auto simp: value_index_def refers_def elim: subvalue.cases\<close>)
qed

lemma refers_listed: "String d \<in> set (listed_digests m) \<Longrightarrow> refers (Object m) d"
  by (auto simp: refers_def intro: sub_refl)

lemma refers_placeholder: "placeholder_digest m = Some d \<Longrightarrow> refers (Object m) d"
  by (auto simp: refers_def intro: sub_refl)

text \<open>No object has a visible and a hidden member of one name.\<close>

definition apart :: "sd_common \<Rightarrow> json \<Rightarrow> bool" where
  "apart e v \<longleftrightarrow> (\<forall>m k. subvalue (Object m) v \<longrightarrow> contains_key m k \<longrightarrow> sd_map e m k = None)"

definition names_apart :: "sd_common \<Rightarrow> json_map \<Rightarrow> bool" where
  "names_apart e payload \<longleftrightarrow> apart e (Object payload) \<and> (\<forall>d v. hash_to_decoded e d = Some v \<longrightarrow> apart e v)"

lemma apart_member: "apart e (Object m) \<Longrightarrow> (k, v) \<in> set m \<Longrightarrow> apart e v"
  by (auto simp: apart_def intro: sub_member)

lemma apart_elem: "apart e (Array vs) \<Longrightarrow> v \<in> set vs \<Longrightarrow> apart e v"
  by (auto simp: apart_def intro: sub_elem)

lemma apart_index: "apart e v \<Longrightarrow> apart e (value_index v i)"
  by (cases v) (auto simp: value_index_def apart_elem, auto simp: apart_def elim: subvalue.cases)

lemma sub_tail: "subvalue (Object m) (Array vs) \<Longrightarrow> subvalue (Object m) (Array (v # vs))"
  by (cases rule: subvalue.cases) (auto intro: sub_elem)

lemma apart_tail: "apart e (Array (v # vs)) \<Longrightarrow> apart e (Array vs)"
  by (auto simp: apart_def dest: sub_tail)

lemma refers_tail: "refers (Array vs) d \<Longrightarrow> refers (Array (v # vs)) d"
  by (auto simp: refers_def dest: sub_tail)

lemma apart_get: "apart e (Object m) \<Longrightarrow> map_get m k = Some v \<Longrightarrow> apart e v"
  by (auto simp: map_get_def intro: apart_member dest: map_of_SomeD)

lemma apart_own: "apart e (Object m) \<Longrightarrow> sd_map e m k = Some p \<Longrightarrow> \<not> contains_key m k"
  by (auto simp: apart_def intro: sub_refl)

subsection \<open>Closed selections\<close>

text \<open>Every digest of \<open>D\<close> has a disclosure, and \<open>P\<close> or the value of another one of \<open>D\<close> refers to it.\<close>

definition closed_under :: "sd_common \<Rightarrow> (string \<Rightarrow> bool) \<Rightarrow> string list \<Rightarrow> bool" where
  "closed_under e P D \<longleftrightarrow>
     (\<forall>d \<in> set D. hash_to_disclosure e d \<noteq> None \<and>
        (P d \<or> (\<exists>d' \<in> set D. \<exists>v. hash_to_decoded e d' = Some v \<and> refers v d)))"

definition selection :: "sd_common \<Rightarrow> (string \<Rightarrow> bool) \<Rightarrow> string list \<Rightarrow> bool" where
  "selection e P ds \<longleftrightarrow> (\<exists>D. map (hash_to_disclosure e) D = map Some ds \<and> closed_under e P D)"

lemma selection_Nil [simp]: "selection e P []"
  by (auto simp: selection_def closed_under_def)

lemma selection_weaken: "selection e P ds \<Longrightarrow> (\<And>d. P d \<Longrightarrow> Q d) \<Longrightarrow> selection e Q ds"
  by (fastforce simp: selection_def closed_under_def)

lemma selection_append: "selection e P ds \<Longrightarrow> selection e P ds' \<Longrightarrow> selection e P (ds @ ds')"
proof -
  assume "selection e P ds" "selection e P ds'"
  then obtain D D' where "map (hash_to_disclosure e) D = map Some ds" "closed_under e P D"
    "map (hash_to_disclosure e) D' = map Some ds'" "closed_under e P D'" by (auto simp: selection_def)
  then show ?thesis
    unfolding selection_def by (intro exI [of _ "D @ D'"]) (auto simp: closed_under_def)
qed

text \<open>Selecting a disclosure together with what its value refers to.\<close>

lemma selection_under:
  assumes "selection e (\<lambda>d. P d \<or> refers v d) ds" and "hash_to_disclosure e dg = Some own"
    and "hash_to_decoded e dg = Some decoded" and "\<And>d. refers v d \<Longrightarrow> refers decoded d" and "P dg"
  shows "selection e P (ds @ [own])" and "selection e P (own # ds)"
proof -
  from assms(1) obtain D where D: "map (hash_to_disclosure e) D = map Some ds" "closed_under e (\<lambda>d. P d \<or> refers v d) D"
    by (auto simp: selection_def)
  have "closed_under e P (D @ [dg])" "closed_under e P (dg # D)"
    using D(2) assms(2-5) by (auto simp: closed_under_def)
  with D(1) assms(2) show "selection e P (ds @ [own])" "selection e P (own # ds)"
    unfolding selection_def by (metis (no_types) list.map(1,2) map_append, metis (no_types) list.map(2))
qed

lemma sd_map_Some:
  assumes "sd_map e claims key = Some (sd, digest)"
  shows "String digest \<in> set (listed_digests claims)"
    and "\<exists>decoded. hash_to_decoded e digest = Some decoded \<and> sd = value_index decoded 2"
proof -
  from assms have "(key, sd, digest) \<in> set (List.map_filter (hidden_member e) (listed_digests claims))"
    unfolding sd_map_def by (metis map_of_SomeD set_rev)
  then obtain v where v: "v \<in> set (listed_digests claims)" "hidden_member e v = Some (key, sd, digest)"
    by (auto simp: List.map_filter_def)
  then show "String digest \<in> set (listed_digests claims)"
    "\<exists>decoded. hash_to_decoded e digest = Some decoded \<and> sd = value_index decoded 2"
    by (auto simp: hidden_member_def split: option.splits)
qed

definition names_apart_in :: "sd_common \<Rightarrow> bool" where
  "names_apart_in e \<longleftrightarrow> (\<forall>d v. hash_to_decoded e d = Some v \<longrightarrow> apart e v)"

lemma hidden_apart: "sd_map e claims key = Some (sd, dg) \<Longrightarrow> names_apart_in e \<Longrightarrow> apart e sd"
  using sd_map_Some(2) [of e claims key sd dg] by (auto simp: names_apart_in_def intro: apart_index)

abbreviation below :: "sd_common \<Rightarrow> json_map \<Rightarrow> string \<Rightarrow> string \<Rightarrow> bool" where
  "below e claims key d \<equiv> refers (Object claims) d \<or> (\<exists>sd dg. sd_map e claims key = Some (sd, dg) \<and> refers sd d)"

lemma visible_below: "map_get claims key = Some v \<Longrightarrow> refers v d \<Longrightarrow> below e claims key d"
  by (auto simp: map_get_def intro: refers_member dest: map_of_SomeD)

lemma selection_sound:
  "select_disclosures e claims requests = Ok ds \<Longrightarrow> names_apart_in e \<Longrightarrow> apart e (Object claims) \<Longrightarrow>
     selection e (refers (Object claims)) ds"
  "select_children e claims key request = Ok ds \<Longrightarrow> names_apart_in e \<Longrightarrow> apart e (Object claims) \<Longrightarrow>
     selection e (below e claims key) ds"
  "select_disclosures_from_disclosed_list e vs rs = Ok ds \<Longrightarrow> names_apart_in e \<Longrightarrow> apart e (Array vs) \<Longrightarrow>
     selection e (refers (Array vs)) ds"
  "select_element e v r = Ok ds \<Longrightarrow> names_apart_in e \<Longrightarrow> apart e v \<Longrightarrow> selection e (refers v) ds"
proof (induction e claims requests and e claims key request and e vs rs and e v r arbitrary: ds and ds and ds and ds
    rule: select_disclosures_select_children_select_disclosures_from_disclosed_list_select_element.induct)
  case (2 e claims key request requests)
  show ?case
  proof (cases "request = Null \<or> request = Bool False")
    case True
    with 2 show ?thesis by auto
  next
    case False
    with "2.prems"(1) obtain children own others where
      c: "select_children e claims key request = Ok children" and o: "own_disclosure e claims key = Ok own"
      and r: "select_disclosures e claims requests = Ok others" and ds: "ds = (children @ own) @ others"
      by (auto simp: rbind_eq_Ok)
    have C: "selection e (\<lambda>d. refers (Object claims) d \<or> (\<exists>sd dg. sd_map e claims key = Some (sd, dg) \<and> refers sd d)) children"
      by (rule "2.IH"(2) [OF False c "2.prems"(2,3)])
    have R: "selection e (refers (Object claims)) others"
      using "2.IH"(3) [OF False c o r "2.prems"(2,3)] .
    have "selection e (refers (Object claims)) (children @ own)"
    proof (cases "sd_map e claims key")
      case None
      with o have "own = []" by (auto simp: own_disclosure_def split: if_splits)
      with C None show ?thesis by (auto elim: selection_weaken)
    next
      case (Some p)
      obtain sd dg where p: "p = (sd, dg)" by (cases p)
      from o apart_own [OF "2.prems"(3) Some] obtain d where d: "own = [d]" "hash_to_disclosure e dg = Some d"
        by (auto simp: own_disclosure_def Some p index_disclosure_def rbind_eq_Ok split: option.splits)
      from sd_map_Some [OF Some [unfolded p]] obtain decoded where
        dec: "hash_to_decoded e dg = Some decoded" "sd = value_index decoded 2" and l: "String dg \<in> set (listed_digests claims)" by blast
      have "selection e (\<lambda>d. refers (Object claims) d \<or> refers sd d) children"
        using C by (simp add: Some p)
      from selection_under(1) [OF this d(2) dec(1) _ refers_listed [OF l]] show ?thesis
        using dec(2) refers_index by (simp add: d(1))
    qed
    from selection_append [OF this R] show ?thesis by (simp add: ds)
  qed
next
  case (3 e claims key requests)
  show ?case
  proof (cases "claim_array e claims key")
    case None
    with "3.prems" show ?thesis by simp
  next
    case (Some vs)
    with "3.prems"(1) have sel: "select_disclosures_from_disclosed_list e vs requests = Ok ds" by simp
    from Some consider "map_get claims key = Some (Array vs)" | dg where "sd_map e claims key = Some (Array vs, dg)"
      by (auto simp: claim_array_def bind_eq_Some_conv split: option.splits)
    then show ?thesis
    proof cases
      case 1
      from selection_weaken [OF "3.IH" [OF Some sel "3.prems"(2) apart_get [OF "3.prems"(3) 1]] visible_below [OF 1]]
      show ?thesis .
    next
      case 2
      from "3.IH" [OF Some sel "3.prems"(2) hidden_apart [OF 2 "3.prems"(2)]] show ?thesis
        by (rule selection_weaken) (use 2 in auto)
    qed
  qed
next
  case (4 e claims key requests)
  show ?case
  proof (cases "requests = []")
    case True
    with "4.prems" show ?thesis by simp
  next
    case False
    with "4.prems"(1) obtain m where m: "claim_object e claims key = Ok m" and sel: "select_disclosures e m requests = Ok ds"
      by (auto simp: rbind_eq_Ok)
    from m consider "map_get claims key = Some (Object m)" | dg where "sd_map e claims key = Some (Object m, dg)"
      by (auto simp: claim_object_def bind_eq_Some_conv split: option.splits)
    then show ?thesis
    proof cases
      case 1
      from selection_weaken [OF "4.IH" [OF False m sel "4.prems"(2) apart_get [OF "4.prems"(3) 1]] visible_below [OF 1]]
      show ?thesis .
    next
      case 2
      from "4.IH" [OF False m sel "4.prems"(2) hidden_apart [OF 2 "4.prems"(2)]] show ?thesis
        by (rule selection_weaken) (use 2 in auto)
    qed
  qed
next
  case (6 e v vs request requests)
  then obtain ds1 ds2 where d: "select_element e v request = Ok ds1"
    "select_disclosures_from_disclosed_list e vs requests = Ok ds2" "ds = ds1 @ ds2"
    by (auto simp: rbind_eq_Ok)
  have a: "apart e v" "apart e (Array vs)"
    using "6.prems"(3) by (auto intro: apart_elem apart_tail)
  have "selection e (refers (Array (v # vs))) ds1"
    by (rule selection_weaken [OF "6.IH"(1) [OF d(1) "6.prems"(2) a(1)]]) (auto intro: refers_elem)
  moreover have "selection e (refers (Array (v # vs))) ds2"
    by (rule selection_weaken [OF "6.IH"(2) [OF d(1) d(2) "6.prems"(2) a(2)] refers_tail])
  ultimately show ?case unfolding d(3) by (rule selection_append)
next
  case (8 e m request)
  show ?case
  proof (cases "placeholder_digest m")
    case None
    then show ?thesis
      using "8.prems" "8.IH"(1) [OF None] by (cases request) auto
  next
    case (Some digest)
    note P = refers_placeholder [OF Some]
    show ?thesis
    proof (cases "request = Bool True")
      case True
      with "8.prems"(1) Some obtain d where "index_disclosure e digest = Ok d" "ds = [d]" by (auto simp: rbind_eq_Ok)
      with P show ?thesis
        by (auto simp: selection_def closed_under_def index_disclosure_def split: option.splits intro!: exI [of _ "[digest]"])
    next
      case False
      with "8.prems"(1) Some obtain decoded disclosure where
        dec: "index_decoded e digest = Ok decoded" and arr: "ok_or (as_array decoded) (ConversionError ''json array'') = Ok disclosure"
        by (auto simp: rbind_eq_Ok)
      then have T: "hash_to_decoded e digest = Some decoded" "decoded = Array disclosure"
        by (auto simp: index_decoded_def split: option.splits)
      have ap: "apart e (value_index (Array disclosure) 1)"
        using "8.prems"(2) T by (auto simp: names_apart_in_def intro: apart_index)
      have under: "selection e (refers (Object m)) (d # sub)"
        if "selection e (refers (value_index (Array disclosure) 1)) sub" "index_disclosure e digest = Ok d" for d sub
      proof (rule selection_under(2))
        show "selection e (\<lambda>d. refers (Object m) d \<or> refers (value_index (Array disclosure) 1) d) sub"
          using that(1) by (rule selection_weaken) simp
        show "hash_to_disclosure e digest = Some d" using that(2) by (auto simp: index_disclosure_def split: option.splits)
        show "hash_to_decoded e digest = Some (Array disclosure)" using T by simp
        show "refers (Array disclosure) d'" if "refers (value_index (Array disclosure) 1) d'" for d'
          using that by (rule refers_index)
      qed (rule P)
      show ?thesis
      proof (cases request)
        case (Array requests)
        show ?thesis
        proof (cases "value_index (Array disclosure) 1")
          case arr': (Array vs)
          with "8.prems"(1) Some False dec arr Array obtain d sub where
            i: "index_disclosure e digest = Ok d" and sub: "select_disclosures_from_disclosed_list e vs requests = Ok sub" and ds: "ds = d # sub"
            by (auto simp: rbind_eq_Ok)
          from "8.IH"(2) [OF Some False dec arr Array arr' i sub "8.prems"(2)] ap arr' under i ds show ?thesis by simp
        qed (use "8.prems"(1) Some False dec arr Array in auto)
      next
        case (Object requests)
        show ?thesis
        proof (cases "value_index (Array disclosure) 1")
          case obj: (Object claims)
          with "8.prems"(1) Some False dec arr Object obtain d sub where
            i: "index_disclosure e digest = Ok d" and sub: "select_disclosures e claims requests = Ok sub" and ds: "ds = d # sub"
            by (auto simp: rbind_eq_Ok)
          from "8.IH"(3) [OF Some False dec arr Object obj i sub "8.prems"(2)] ap obj under i ds show ?thesis by simp
        qed (use "8.prems"(1) Some False dec arr Object in auto)
      qed (use "8.prems"(1) Some False dec arr in auto)
    qed
  qed
qed (auto)

end
