(* ===== verification/Holder_Properties.thy ===== *)
theory Holder_Properties
  imports Selection Presentation_Properties
begin

text \<open>
  The properties of the holder: which credentials it accepts, what its presentations contain and
  that a verifier reads them back, and the key binding token it has signed.
\<close>

subsection \<open>What a presentation is made of\<close>

lemma mappings_encoded:
  "dm_encoded (mappings_of X es) h = Some d \<Longrightarrow> d \<in> set es \<and> base64_hash X d = h"
  by (auto simp: mappings_of_def dest!: map_of_SomeD)

lemma holder_loaded_published: "holder_loaded X credential fmt resolver policy h \<Longrightarrow> published X (hd_engine h)"
  by (auto simp: holder_loaded_def published_def)

lemma create_presentation_Ok:
  "create_presentation X h requests = (Ok pres, h') \<longleftrightarrow>
     (\<exists>ds. select_disclosures (hd_engine h) (hd_payload h) requests = Ok ds \<and>
        h' = (reset_key_binding h)\<lparr>hd_disclosures := ds\<rparr> \<and> render_presentation X h' = Ok pres)"
  by (cases "select_disclosures (hd_engine h) (hd_payload h) requests")
    (auto simp: create_presentation_def reset_key_binding_def Let_def)

lemma selected_published:
  assumes pub: "published X e" and sel: "select_disclosures e claims requests = Ok ds"
    and ap: "names_apart e claims"
  shows "set ds \<subseteq> set (input_disclosures e)"
    and "\<forall>d \<in> set ds. refers (Object claims) (base64_hash X d) \<or>
      (\<exists>d' \<in> set ds. \<exists>v. decode_disclosure X d' = Ok v \<and> refers v (base64_hash X d))"
proof -
  from ap have "names_apart_in e" "apart e (Object claims)" by (simp_all add: names_apart_def names_apart_in_def)
  from selection_sound(1) [OF sel this] obtain D where D: "map (hash_to_disclosure e) D = map Some ds"
    and closed: "closed_under e (refers (Object claims)) D" by (auto simp: selection_def)
  have enc: "d \<in> set (input_disclosures e) \<and> base64_hash X d = dg" if "hash_to_disclosure e dg = Some d" for dg d
    using that pub mappings_encoded by (simp add: published_def)
  have two: "\<exists>dg \<in> set D. hash_to_disclosure e dg = Some d" if "d \<in> set ds" for d
    using arg_cong [OF D, of set] that by (auto simp: image_iff) (metis imageI image_iff)
  show "set ds \<subseteq> set (input_disclosures e)" using two enc by blast
  show "\<forall>d \<in> set ds. refers (Object claims) (base64_hash X d) \<or>
      (\<exists>d' \<in> set ds. \<exists>v. decode_disclosure X d' = Ok v \<and> refers v (base64_hash X d))"
  proof
    fix d
    assume "d \<in> set ds"
    from two [OF this] obtain dg where dg: "dg \<in> set D" "hash_to_disclosure e dg = Some d" by blast
    have h: "base64_hash X d = dg" using enc [OF dg(2)] by simp
    from closed dg(1) consider "refers (Object claims) dg" | dg' v where "dg' \<in> set D" "hash_to_decoded e dg' = Some v" "refers v dg"
      by (auto simp: closed_under_def)
    then show "refers (Object claims) (base64_hash X d) \<or>
      (\<exists>d' \<in> set ds. \<exists>v. decode_disclosure X d' = Ok v \<and> refers v (base64_hash X d))"
    proof cases
      case 2
      from closed 2(1) obtain d' where d': "hash_to_disclosure e dg' = Some d'" by (auto simp: closed_under_def)
      then have "Some d' \<in> set (map Some ds)" using 2(1) by (metis D image_eqI set_map)
      then have "d' \<in> set ds" by auto
      moreover from published_decoded [OF pub] 2(2) obtain d'' where
        "d'' \<in> set (input_disclosures e)" "base64_hash X d'' = dg'" "decode_disclosure X d'' = Ok v" by blast
      moreover have "d'' = d'"
        using pub enc [OF d'] calculation(2,3)
        by (metis distinct_map inj_on_eq_iff presentable_def published_def)
      ultimately show ?thesis using 2(3) h by blast
    qed (simp add: h)
  qed
qed

text \<open>A compact presentation over the same token, with other disclosures and key binding token.\<close>

lemma compact_loaded:
  assumes "parse_sd_jwt X (common_new Compact) credential = (Ok (), e)"
  shows "\<exists>token kb. CHR ''~'' \<notin> set token \<and> (\<forall>d \<in> set (input_disclosures e). CHR ''~'' \<notin> set d) \<and>
     load_compact_parts X (common_new Compact) token (input_disclosures e) kb = (Ok (), e)"
proof -
  let ?parts = "split_on (CHR ''~'') credential"
  from assms have two: "\<not> length ?parts < 2"
    and load: "load_compact_parts X (common_new Compact) (hd ?parts) (butlast (tl ?parts)) (last (tl ?parts)) = (Ok (), e)"
    by (auto simp: parse_sd_jwt_Ok common_new_def parse_compact_sd_jwt_def Let_def split: if_splits)
  have ins: "input_disclosures e = butlast (tl ?parts)"
    using load by (auto simp: load_compact_parts_Ok)
  have "CHR ''~'' \<notin> set (hd ?parts)" by (rule split_on_parts_free) (rule hd_in_set, simp)
  moreover have "CHR ''~'' \<notin> set d" if "d \<in> set (butlast (tl ?parts))" for d
    using that by (meson in_set_butlastD list.set_sel(2) split_on_nonempty split_on_parts_free)
  ultimately show ?thesis using load ins by auto
qed

lemma load_compact_token:
  "load_compact_parts X s t ds kb = (Ok (), s') \<Longrightarrow> unverified_sd_jwt s' = Some t"
  by (auto simp: load_compact_parts_Ok)

lemma load_compact_again:
  "load_compact_parts X s t ds kb = (Ok (), s') \<Longrightarrow> load_compact_parts X s t ds' kb' =
     (Ok (), s'\<lparr>unverified_kb_jwt := (if kb' = [] then None else Some kb'), input_disclosures := ds'\<rparr>)"
  by (auto simp: load_compact_parts_def Let_def split: list.splits result.splits)

lemma compact_represented:
  assumes "parse_sd_jwt X (common_new Compact) credential = (Ok (), e)" and "set ds \<subseteq> set (input_disclosures e)"
    and "CHR ''~'' \<notin> set kb" and "unverified_sd_jwt e = Some token"
    and "within_limits (join ''~'' (token # ds @ [kb])) ds"
  shows "parse_sd_jwt X (common_new Compact) (join ''~'' (token # ds @ [kb])) =
     (Ok (), e\<lparr>unverified_kb_jwt := (if kb = [] then None else Some kb), input_disclosures := ds\<rparr>)"
proof -
  from compact_loaded [OF assms(1)] obtain token' kb0 where free: "CHR ''~'' \<notin> set token'"
    "\<forall>d \<in> set (input_disclosures e). CHR ''~'' \<notin> set d"
    and load: "load_compact_parts X (common_new Compact) token' (input_disclosures e) kb0 = (Ok (), e)" by blast
  have t: "token' = token" using load_compact_token [OF load] assms(4) by simp
  from load_compact_again [OF load, of ds kb]
  have "load_compact_parts X (common_new Compact) token ds kb =
      (Ok (), e\<lparr>unverified_kb_jwt := (if kb = [] then None else Some kb), input_disclosures := ds\<rparr>)"
    by (simp only: t)
  moreover have "parse_compact_sd_jwt X (common_new Compact) (join ''~'' (token # ds @ [kb])) =
      load_compact_parts X (common_new Compact) token ds kb"
    by (rule parse_compact_join) (use free t assms in \<open>auto simp: within_limits_def\<close>)
  ultimately show ?thesis
    unfolding parse_sd_jwt_Ok using assms(5) by (simp add: common_new_def within_limits_def)
qed

text \<open>What a holder of a compact credential keeps of it.\<close>

lemma holder_compact_source:
  assumes "holder_build X credential Compact resolver policy = Ok h"
  shows "published X (hd_engine h) \<and>
     (\<exists>e. parse_sd_jwt X (common_new Compact) credential = (Ok (), e) \<and>
        unverified_payload e = Some (hd_payload h) \<and> unverified_sd_jwt e = Some (hd_sd_jwt h) \<and>
        input_disclosures (hd_engine h) = input_disclosures e \<and> format (hd_engine h) = Compact)"
proof -
  from assms have loaded: "holder_loaded X credential Compact resolver policy h" by (simp add: holder_build_Ok)
  then obtain e where e: "parse_sd_jwt X (common_new Compact) credential = (Ok (), e)"
    "unverified_payload e = Some (hd_payload h)" "unverified_sd_jwt e = Some (hd_sd_jwt h)"
    "input_disclosures (hd_engine h) = input_disclosures e" "format (hd_engine h) = format e"
    by (auto simp: holder_loaded_def)
  have "format e = Compact" using parse_format_Ok [of "format (common_new Compact)" X "common_new Compact" credential e] e(1)
    by (auto simp: parse_sd_jwt_Ok common_new_def)
  with e holder_loaded_published [OF loaded] show ?thesis by auto
qed

lemma prepare_key_binding_Ok:
  assumes "prepare_key_binding_presentation X clock h requests nonce aud alg_option = (Ok p, h')"
  shows "\<exists>ds secs header_text payload_text.
     select_disclosures (hd_engine h) (hd_payload h) requests = Ok ds \<and> clock = Inr secs \<and>
     hd_disclosures h' = ds \<and> hd_engine h' = hd_engine h \<and> hd_payload h' = hd_payload h \<and> hd_sd_jwt h' = hd_sd_jwt h \<and>
     hd_kb_payload h' = [''nonce'' \<mapsto> String nonce, ''aud'' \<mapsto> String aud, ''iat'' \<mapsto> Number (NU64 secs),
       KB_DIGEST_KEY \<mapsto> String (base64_hash X (join ''~'' (hd_sd_jwt h # ds) @ ''~''))] \<and>
     pp_disclosures p = ds \<and> pp_format p = format (hd_engine h) \<and> pp_sd_jwt p = hd_sd_jwt h \<and>
     holder_binding_key X (hd_payload h) (pp_algorithm p) = Ok (pp_verification_key p) \<and>
     header_to_vec X (kb_header_of X (pp_algorithm p)) = Inr header_text \<and>
     hashmap_to_vec X (hd_kb_payload h') = Inr payload_text \<and>
     pp_signing_input p = base64_encode X header_text @ ''.'' @ base64_encode X payload_text"
proof -
  obtain ds where ds: "select_disclosures (hd_engine h) (hd_payload h) requests = Ok ds"
    using assms by (cases "select_disclosures (hd_engine h) (hd_payload h) requests")
      (auto simp: prepare_key_binding_presentation_def reset_key_binding_def)
  obtain a where a: "algorithm_from_str X (case alg_option of None \<Rightarrow> ''ES256'' | Some a \<Rightarrow> a) = Inr a"
    using assms ds by (auto simp: prepare_key_binding_presentation_def reset_key_binding_def Let_def split: sum.splits)
  obtain secs where secs: "clock = Inr secs"
    using assms ds a by (cases clock)
      (auto simp: prepare_key_binding_presentation_def reset_key_binding_def fill_key_binding_payload_def Let_def)
  show ?thesis
    using assms
    by (auto simp: prepare_key_binding_presentation_def reset_key_binding_def fill_key_binding_payload_def Let_def ds a secs
        rbind_eq_Ok set_key_binding_digest_key_def key_binding_digest_def COMBINED_SERIALIZATION_FORMAT_SEPARATOR_def
        base64url_encode_def)
qed

subsection \<open>A sample holder\<close>

definition sample_holder :: sd_jwt_holder where
  "sample_holder = (holder_start Compact)\<lparr>hd_payload := sample_payload, hd_sd_jwt := ''ei.fa.t'',
     hd_engine := sample_token_state\<lparr>unverified_payload := None, unverified_sd_jwt := None\<rparr>\<rparr>"

lemma sample_holder_loaded: "holder_loaded (sample_externals sample_world_1) ''ei.fa.t~ee~'' Compact None policy_default sample_holder"
  unfolding holder_loaded_def sample_parse_1
  by (intro exI [of _ sample_loaded] exI [of _ sample_payload] exI [of _ "''ei.fa.t''"])
    (auto simp: sample_holder_def sample_loaded_def sample_presentable mappings_of_def sample_hash sample_decode
      sample_token_state_def common_new_def)

lemma sample_provider: "install_crypto_provider (sample_externals w) = Ok ()"
  by (simp add: install_crypto_provider_def native_ensure_installed_def sample_externals_def)

lemma sample_holder_built:
  "holder_build (sample_externals sample_world_1) ''ei.fa.t~ee~'' Compact None policy_default = Ok sample_holder"
  by (simp add: holder_build_Ok sample_holder_loaded sample_provider)

lemma sample_selects: "select_disclosures (hd_engine sample_holder) sample_payload [(''n'', Bool True)] = Ok [''ee'']"
  by (simp add: own_disclosure_def sd_map_def listed_digests_def hidden_member_def value_index_def index_disclosure_def
      sample_holder_def sample_token_state_def sample_loaded_def sample_payload_def key_defs contains_key_def
      List.map_filter_simps)

definition sample_presented :: sd_jwt_holder where
  "sample_presented = (reset_key_binding sample_holder)\<lparr>hd_disclosures := [''ee'']\<rparr>"

lemma sample_presents:
  "create_presentation (sample_externals sample_world_1) sample_holder [(''n'', Bool True)] = (Ok ''ei.fa.t~ee~'', sample_presented)"
proof -
  have "hd_payload sample_holder = sample_payload" by (simp add: sample_holder_def)
  moreover have "render_presentation X sample_presented = Ok ''ei.fa.t~ee~''" for X :: "unit externals"
    by (simp add: render_presentation_def rendered_def sample_presented_def sample_holder_def sample_token_state_def
        sample_loaded_def common_new_def reset_key_binding_def holder_start_def COMBINED_SERIALIZATION_FORMAT_SEPARATOR_def)
  ultimately show ?thesis
    unfolding create_presentation_Ok using sample_selects by (simp add: sample_presented_def)
qed

lemma sample_names_apart: "names_apart (hd_engine sample_holder) (hd_payload sample_holder)"
proof -
  have none: "map_of m (k :: string) \<noteq> None \<Longrightarrow> m = sample_payload \<Longrightarrow> sd_map (hd_engine sample_holder) m k = None" for m k
    by (auto simp: sd_map_def listed_digests_def hidden_member_def value_index_def
      sample_holder_def sample_token_state_def sample_loaded_def sample_payload_def key_defs List.map_filter_simps split: if_splits)
  have obj: "subvalue (Object m) (Object sample_payload) \<Longrightarrow> m = sample_payload" for m
    by (auto simp: sample_payload_def subvalue_simps)
  have "\<not> subvalue (Object m) (Array [String ''s'', String ''n'', Null])" for m
    by (auto simp: subvalue_simps)
  moreover have "apart (hd_engine sample_holder) (Object sample_payload)"
    unfolding apart_def contains_key_def using none obj by blast
  ultimately show ?thesis
    by (auto simp: names_apart_def sample_holder_def sample_token_state_def sample_loaded_def apart_def split: if_splits)
qed

subsection \<open>Holder\<close>

text \<open>C23. A holder is built exactly from a usable credential: it parses within the limits, carries no key
  binding token, all its disclosures decode with different digests, and, when a key resolver is
  given, the resolved key verifies the issuer's signature under an allowed algorithm. The holder
  then keeps the token, its payload and the digest tables. Unlike the verifier, the two
  constructors with a resolver that cannot fail and with none never panic, whatever the payload.\<close>

theorem holder_accepts_iff:
  "(holder_build X credential fmt resolver policy = Ok h) =
     (install_crypto_provider X = Ok () \<and> holder_loaded X credential fmt resolver policy h) \<and>
   holder_new X credential fmt get_key \<noteq> Panic \<and> holder_new_unverified X credential fmt \<noteq> Panic"
proof -
  have "holder_check_issuer X e resolve policy = Panic \<Longrightarrow> \<exists>issuer header. resolve issuer header = Panic" for e resolve policy
    by (auto simp: holder_check_issuer_def rbind_eq_Panic verify_signature_def split: if_splits)
  moreover have "fst (create_hash_mappings X s) \<noteq> Panic" for s
    by (auto simp: create_hash_mappings_def preprocess_disclosures_serial_def publish_mappings_def
        serial_preprocess_not_Panic split: result.splits)
  moreover have "(case p of (r2, e2) \<Rightarrow> rbind r2 (\<lambda>_. Ok (f e2))) = Panic \<longleftrightarrow> fst p = Panic"
    for p :: "unit result \<times> sd_common" and f :: "sd_common \<Rightarrow> sd_jwt_holder"
    by (cases p) (simp add: rbind_eq_Panic)
  ultimately have "holder_build X credential fmt resolver policy = Panic \<Longrightarrow>
      \<exists>resolve issuer header. resolver = Some resolve \<and> resolve issuer header = Panic" for resolver policy
    using parse_sd_jwt_not_Panic [of X "hd_engine (holder_start fmt)" credential] install_crypto_provider_not_Panic [of X]
    by (auto simp: holder_build_def rbind_eq_Panic Let_def split: prod.split_asm if_splits option.split_asm)
  then show ?thesis using holder_build_Ok [of X credential fmt resolver policy h]
    by (force simp: holder_new_def holder_new_with_policy_def holder_new_unverified_def)
qed

text \<open>C6. A holder discloses only what is its own and what a verifier will look for: every selected
  disclosure is one of the credential's, and its digest is referenced by the signed claims or by
  the value of another selected disclosure, so a nested disclosure never goes without the one that
  holds it. Making a presentation leaves the credential, its tables and its claims as they were.
  No object of the credential may have a visible and a hidden member of the same name.\<close>

theorem selection_is_referenced:
  assumes "holder_build X credential fmt resolver policy = Ok h"
    and "names_apart (hd_engine h) (hd_payload h)"
    and "create_presentation X h requests = (Ok presentation, h')"
  shows "hd_engine h' = hd_engine h \<and> hd_payload h' = hd_payload h \<and> hd_sd_jwt h' = hd_sd_jwt h \<and>
     set (hd_disclosures h') \<subseteq> set (input_disclosures (hd_engine h)) \<and>
     list_all (\<lambda>d. refers (Object (hd_payload h)) (base64_hash X d) \<or>
        list_ex (\<lambda>d'. \<exists>v. decode_disclosure X d' = Ok v \<and> refers v (base64_hash X d)) (hd_disclosures h')) (hd_disclosures h')"
proof -
  from assms(1) have pub: "published X (hd_engine h)"
    by (auto simp: holder_build_Ok dest: holder_loaded_published)
  from assms(3) obtain ds where ds: "select_disclosures (hd_engine h) (hd_payload h) requests = Ok ds"
    "h' = (reset_key_binding h)\<lparr>hd_disclosures := ds\<rparr>" unfolding create_presentation_Ok by blast
  from selected_published [OF pub ds(1) assms(2)] show ?thesis
    by (simp add: ds(2) reset_key_binding_def list_all_iff list_ex_iff)
qed

theorem selection_is_referenced_witness:
  "list_all (\<lambda>d. refers (Object sample_payload) (base64_hash (sample_externals sample_world_1) d) \<or>
      list_ex (\<lambda>d'. \<exists>v. decode_disclosure (sample_externals sample_world_1) d' = Ok v \<and>
        refers v (base64_hash (sample_externals sample_world_1) d)) [''ee'']) [''ee'']"
  using selection_is_referenced [OF sample_holder_built sample_names_apart sample_presents]
  by (simp add: sample_presented_def sample_holder_def reset_key_binding_def)

text \<open>C15. A compact presentation reads back: the verifier's parser gets from it the credential's own token
  and claims, exactly the selected disclosures in order, and no key binding token.\<close>

theorem presentation_reads_back:
  assumes "holder_build X credential Compact resolver policy = Ok h"
    and "names_apart (hd_engine h) (hd_payload h)"
    and "create_presentation X h requests = (Ok presentation, h')"
    and "within_limits presentation (hd_disclosures h')"
  shows "\<exists>e. parse_sd_jwt X (common_new Compact) presentation = (Ok (), e) \<and>
     unverified_sd_jwt e = Some (hd_sd_jwt h) \<and> unverified_payload e = Some (hd_payload h) \<and>
     input_disclosures e = hd_disclosures h' \<and> unverified_kb_jwt e = None"
proof -
  from holder_compact_source [OF assms(1)] obtain e where pub: "published X (hd_engine h)"
    and e: "parse_sd_jwt X (common_new Compact) credential = (Ok (), e)"
    "unverified_payload e = Some (hd_payload h)" "unverified_sd_jwt e = Some (hd_sd_jwt h)"
    "input_disclosures (hd_engine h) = input_disclosures e" "format (hd_engine h) = Compact" by blast
  from assms(3) obtain ds where ds: "select_disclosures (hd_engine h) (hd_payload h) requests = Ok ds"
    "h' = (reset_key_binding h)\<lparr>hd_disclosures := ds\<rparr>" "render_presentation X h' = Ok presentation"
    unfolding create_presentation_Ok by blast
  from selected_published(1) [OF pub ds(1) assms(2)]
  have sub: "set ds \<subseteq> set (input_disclosures e)" by (simp add: e(4))
  have pres: "presentation = join ''~'' (hd_sd_jwt h # ds @ [[]])"
    using ds(2,3) e(5) by (simp add: render_presentation_def rendered_def reset_key_binding_def
        COMBINED_SERIALIZATION_FORMAT_SEPARATOR_def)
  have hd: "hd_disclosures h' = ds" by (simp add: ds(2))
  from compact_represented [OF e(1) sub _ e(3), of "[]"] assms(4) pres hd show ?thesis
    by (auto simp: e)
qed

theorem presentation_reads_back_witness:
  "\<exists>e. parse_sd_jwt (sample_externals sample_world_1) (common_new Compact) ''ei.fa.t~ee~'' = (Ok (), e) \<and>
     unverified_sd_jwt e = Some ''ei.fa.t'' \<and> unverified_payload e = Some sample_payload \<and>
     input_disclosures e = [''ee''] \<and> unverified_kb_jwt e = None"
proof -
  have "within_limits ''ei.fa.t~ee~'' (hd_disclosures sample_presented)"
    by (simp add: within_limits_def sample_presented_def MAX_SD_JWT_INPUT_BYTES_def MAX_SD_JWT_DISCLOSURES_def
        MAX_SD_JWT_DISCLOSURE_BYTES_def)
  from presentation_reads_back [OF sample_holder_built sample_names_apart sample_presents this] show ?thesis
    by (simp add: sample_presented_def sample_holder_def reset_key_binding_def)
qed

text \<open>C34. A request for the members of a claim that does not exist panics. Asking for a claim of the
  same name as a whole is the error the code intends; asking for a member of it indexes the map of
  hidden claims and panics, and so does the presentation, with and without a key binding.\<close>

theorem missing_object_request_panics:
  assumes "map_get (hd_payload h) key = None" and "sd_map (hd_engine h) (hd_payload h) key = None" and "members \<noteq> []"
  shows "fst (create_presentation X h ((key, Object members) # requests)) = Panic \<and>
     fst (prepare_key_binding_presentation X clock h ((key, Object members) # requests) nonce aud alg_name) = Panic \<and>
     fst (create_presentation X h ((key, Bool True) # requests)) = Err (InvalidState ''Requested claim doesn't exist'')"
  using assms
  by (simp add: create_presentation_def prepare_key_binding_presentation_def reset_key_binding_def claim_object_def
      own_disclosure_def contains_key_get)

theorem missing_object_request_panics_witness:
  "fst (create_presentation (sample_externals sample_world_1) sample_holder [(''x'', Object [(''y'', Bool True)])]) = Panic"
proof -
  have "map_get (hd_payload sample_holder) ''x'' = None" by (simp add: sample_holder_def sample_payload_def)
  moreover have "sd_map (hd_engine sample_holder) (hd_payload sample_holder) ''x'' = None"
    by (simp add: sd_map_def listed_digests_def hidden_member_def value_index_def
      sample_holder_def sample_token_state_def sample_loaded_def sample_payload_def key_defs List.map_filter_simps)
  ultimately show ?thesis
    using missing_object_request_panics [of sample_holder "''x''" "[(''y'', Bool True)]" "sample_externals sample_world_1" "[]"]
    by simp
qed

end
