(* ===== verification/Binding_Properties.thy ===== *)
theory Binding_Properties
  imports Holder_Properties
begin

text \<open>
  The key binding token from the holder that has it signed to the verifier that checks it.
\<close>

subsection \<open>From the prepared presentation to the verifier\<close>

text \<open>
  What the token library documents of the claims it checks when it decodes: every required claim
  is there; an expiry, or a time before which the token is not valid, is compared with the clock
  only when the token has one; and an audience in the token must be one of those expected, so a
  token that names an audience is refused when none is expected.
\<close>

definition validation_holds :: "validation \<Rightarrow> (string \<rightharpoonup> json) \<Rightarrow> bool" where
  "validation_holds val payload \<longleftrightarrow>
     list_all (\<lambda>name. payload name \<noteq> None) (val_required val) \<and>
     (val_exp val \<longrightarrow> payload ''exp'' = None) \<and>
     (val_nbf val \<longrightarrow> payload ''nbf'' = None) \<and>
     (val_aud val \<longrightarrow>
        (case payload ''aud'' of
           None \<Rightarrow> True
         | Some (String a) \<Rightarrow> (case val_audience val of Some expected \<Rightarrow> a \<in> set expected | None \<Rightarrow> False)
         | Some _ \<Rightarrow> False))"

text \<open>
  What the library does with a token it has signed: it reads the header back, and it reads the
  claims back as the map they were serialized from under every validation that allows the
  algorithm and holds of these claims. Nothing is said of a validation that does not hold.
\<close>

definition token_read_back ::
    "'k externals \<Rightarrow> 'k prepared_presentation \<Rightarrow> string \<Rightarrow> (string \<rightharpoonup> json) \<Rightarrow> bool" where
  "token_read_back X p token kb_payload \<longleftrightarrow>
     decode_header X token = Inr (kb_header_of X (pp_algorithm p)) \<and>
     (\<exists>claims. map_get claims = kb_payload \<and>
        (\<forall>val. pp_algorithm p \<in> set (val_algorithms val) \<longrightarrow> validation_holds val kb_payload \<longrightarrow>
           jwt_decode X token (pp_verification_key p) val = Inr (kb_header_of X (pp_algorithm p), claims)))"

text \<open>The claims a holder puts into a key binding token satisfy what the verifier of that audience asks.\<close>

lemma binding_claims_hold:
  "validation_holds (key_binding_validation X a aud)
     [''nonce'' \<mapsto> String nonce, ''aud'' \<mapsto> String aud, ''iat'' \<mapsto> Number (NU64 secs), KB_DIGEST_KEY \<mapsto> String digest]"
  by (simp add: validation_holds_def key_binding_validation_def KB_DIGEST_KEY_def)

lemma complete_key_binding_Compact:
  "pp_format p = Compact \<Longrightarrow> complete_key_binding X p signature = Ok presentation \<Longrightarrow>
     presentation = join ''~'' (pp_sd_jwt p # pp_disclosures p @
       [pp_signing_input p @ ''.'' @ base64_encode X signature])"
  by (auto simp: complete_key_binding_def rendered_def rbind_eq_Ok base64url_encode_def
      COMBINED_SERIALIZATION_FORMAT_SEPARATOR_def)

lemma holder_binding_key_Ok:
  "holder_binding_key X payload a = Ok key \<longleftrightarrow>
     validate_public_confirmation_claim payload = Ok () \<and>
     (\<exists>cnf raw jwk. Option.bind (map_get payload CNF_KEY) as_object = Some cnf \<and> map_get cnf JWK_KEY = Some raw \<and>
        jwk_from_value X raw = Inr jwk \<and> validate_key_binding_jwk_policy jwk a = Ok () \<and> key_from_jwk X jwk = Inr key)"
  by (auto simp: holder_binding_key_def rbind_eq_Ok bind_eq_Some_conv)

lemma prepared_key_binds:
  assumes "holder_binding_key X payload (pp_algorithm p) = Ok (pp_verification_key p)"
    and "token_read_back X p token [''nonce'' \<mapsto> String nonce, ''aud'' \<mapsto> String aud, ''iat'' \<mapsto> Number (NU64 secs),
       KB_DIGEST_KEY \<mapsto> String (base64_hash X (join ''~'' (sd_jwt # ds) @ ''~''))]"
    and "unverified_kb_jwt e = Some token" and "unverified_sd_jwt e = Some sd_jwt" and "input_disclosures e = ds"
    and "policy_allows policy (pp_algorithm p)" and "jh_alg (header_new X (pp_algorithm p)) = pp_algorithm p"
    and "pp_algorithm p \<in> set (val_algorithms (validation_new X (pp_algorithm p)))"
  shows "key_bound X (verified_state e resolve policy payload seen out) aud nonce"
proof -
  from assms(2) obtain claims where claims: "decode_header X token = Inr (kb_header_of X (pp_algorithm p))"
      "jwt_decode X token (pp_verification_key p) (key_binding_validation X (pp_algorithm p) aud)
          = Inr (kb_header_of X (pp_algorithm p), claims)"
    and get: "map_get claims = [''nonce'' \<mapsto> String nonce, ''aud'' \<mapsto> String aud, ''iat'' \<mapsto> Number (NU64 secs),
       KB_DIGEST_KEY \<mapsto> String (base64_hash X (join ''~'' (sd_jwt # ds) @ ''~''))]"
    using assms(8) binding_claims_hold [of X "pp_algorithm p" aud nonce secs]
    unfolding token_read_back_def by (auto simp: key_binding_validation_def)
  have alg: "jh_alg (kb_header_of X (pp_algorithm p)) = pp_algorithm p"
    and kb_typ: "jh_typ (kb_header_of X (pp_algorithm p)) = Some KB_JWT_TYP_HEADER"
    using assms(7) by (simp_all add: kb_header_of_def)
  have members: "map_get claims ''nonce'' = Some (String nonce)" "contains_key claims ''iat''"
    "map_get claims KB_DIGEST_KEY = Some (String (base64_hash X (concat (map (\<lambda>part. part @ ''~'') (sd_jwt # ds)))))"
    by (simp_all add: get contains_key_get KB_DIGEST_KEY_def join_terminated)
  from assms(1) show ?thesis
    unfolding holder_binding_key_Ok key_bound_def
    using claims members kb_typ assms(3-6) by (auto simp: verified_state_def alg)
qed

subsection \<open>A sample key binding\<close>

definition binding_claims :: json_map where
  "binding_claims = [(''nonce'', String ''n''), (''aud'', String ''a''), (''iat'', Number (NU64 7)),
     (KB_DIGEST_KEY, String (letters_encode ''ei.fa.t~ee~''))]"

definition binding_X :: "unit externals" where
  "binding_X = (sample_externals sample_world_2)\<lparr>hashmap_to_vec := (\<lambda>m. Inr ''M''),
     decode_header := (\<lambda>s. Inr (kb_header_of (sample_externals sample_world_2) ES256)),
     jwt_decode := (\<lambda>s key val.
       if list_ex (\<lambda>a. a = ES256) (val_algorithms val) \<and> validation_holds val (map_get binding_claims)
       then Inr (kb_header_of (sample_externals sample_world_2) ES256, binding_claims)
       else Inl ''InvalidAudience'')\<rparr>"

lemma binding_base64 [simp]:
  "base64_encode binding_X = letters_encode" "base64_decode binding_X = letters_decode"
  "install_crypto_provider binding_X = Ok ()" "base64_hash binding_X s = letters_encode s"
  by (simp_all add: binding_X_def base64_hash_def install_crypto_provider_def native_ensure_installed_def
      sample_externals_def)

definition bound_loaded :: sd_common where
  "bound_loaded = sample_loaded\<lparr>unverified_payload := Some bound_payload\<rparr>"

definition bound_state :: sd_common where
  "bound_state = bound_loaded\<lparr>unverified_payload := None, unverified_sd_jwt := None,
     hash_to_decoded := [''gfgf'' \<mapsto> Array [String ''s'', String ''n'', Null]],
     hash_to_disclosure := [''gfgf'' \<mapsto> ''ee''], ordered_digests := [''gfgf'']\<rparr>"

definition bound_holder :: sd_jwt_holder where
  "bound_holder = (holder_start Compact)\<lparr>hd_payload := bound_payload, hd_sd_jwt := ''ei.fa.t'', hd_engine := bound_state\<rparr>"

lemma bound_parse: "parse_sd_jwt binding_X (common_new Compact) ''ei.fa.t~ee~'' = (Ok (), bound_loaded)"
  unfolding binding_X_def
  by (simp add: parse_sd_jwt_def parse_compact_sd_jwt_def load_compact_parts_def sample_defs common_new_def
    MAX_SD_JWT_INPUT_BYTES_def MAX_SD_JWT_DISCLOSURES_def MAX_SD_JWT_DISCLOSURE_BYTES_def
    decode_header_and_get_sign_algorithm_def base64url_decode_def header_alg_def jwt_payload_decode_def
    unique_value_from_slice_def contains_key_def map_insert_def sample_loaded_def bound_loaded_def Let_def)

lemma bound_hash: "letters_encode ''ee'' = ''gfgf''"
  by (simp add: sample_defs)

lemma bound_decode: "decode_disclosure binding_X ''ee'' = Ok (Array [String ''s'', String ''n'', Null])"
  unfolding binding_X_def by (simp add: decode_disclosure_def sample_defs base64url_decode_def)

lemma bound_presentable: "presentable binding_X [''ee'']"
  by (simp add: presentable_def bound_decode)

lemma bound_holder_built:
  "holder_build binding_X ''ei.fa.t~ee~'' Compact None policy_default = Ok bound_holder"
  unfolding holder_build_Ok holder_loaded_def bound_parse
  by (intro conjI exI [of _ bound_loaded] exI [of _ bound_payload] exI [of _ "''ei.fa.t''"])
    (auto simp: bound_holder_def bound_loaded_def sample_loaded_def bound_presentable mappings_of_def bound_hash bound_decode
      bound_state_def common_new_def)

lemma bound_names_apart: "names_apart (hd_engine bound_holder) (hd_payload bound_holder)"
proof -
  have none: "map_of m k \<noteq> None \<Longrightarrow> subvalue (Object m) (Object bound_payload) \<Longrightarrow> sd_map bound_state m k = None" for m k
    by (auto simp: sd_map_def listed_digests_def hidden_member_def value_index_def bound_state_def bound_loaded_def
      sample_loaded_def bound_payload_def sample_payload_def subvalue_simps key_defs List.map_filter_simps split: if_splits)
  have "\<not> subvalue (Object m) (Array [String ''s'', String ''n'', Null])" for m
    by (auto simp: subvalue_simps)
  moreover have "apart bound_state (Object bound_payload)"
    unfolding apart_def contains_key_def using none by blast
  ultimately show ?thesis
    by (auto simp: names_apart_def bound_holder_def bound_state_def bound_loaded_def sample_loaded_def apart_def
        split: if_splits)
qed

subsection \<open>Key binding\<close>

lemma prepared_kb_free: "base64_alphabet X \<Longrightarrow> CHR ''~'' \<notin> set ((base64_encode X a @ ''.'' @ base64_encode X b) @ ''.'' @ base64_encode X c)"
  by (simp add: base64_no_tilde)

text \<open>C5. The key binding the holder makes is the one the verifier checks. A compact presentation that
  is prepared for a nonce and an audience and completed with the holder's signature parses to the
  credential's token, the selected disclosures and the signed key binding token, and a verifier of
  these claims that expects this audience and nonce finds the key binding valid. The token library
  reads back what it has signed under a validation that its claims satisfy, headers and validations
  keep the algorithm they are made for, and the verifier allows the algorithm. That the holder's
  claims satisfy the validation the verifier builds for this audience is part of what is proved.\<close>

theorem key_binding_round_trip:
  assumes "holder_build X credential Compact resolver policy = Ok h"
    and "names_apart (hd_engine h) (hd_payload h)"
    and "prepare_key_binding_presentation X clock h requests nonce aud alg_option = (Ok p, h')"
    and "complete_key_binding X p signature = Ok presentation"
    and "within_limits presentation (pp_disclosures p)"
    and "base64_alphabet X" and "jh_alg (header_new X (pp_algorithm p)) = pp_algorithm p"
    and "pp_algorithm p \<in> set (val_algorithms (validation_new X (pp_algorithm p)))"
    and "token_read_back X p (pp_signing_input p @ ''.'' @ base64_encode X signature) (hd_kb_payload h')"
    and "policy_allows policy' (pp_algorithm p)"
  shows "\<exists>e. parse_sd_jwt X (common_new Compact) presentation = (Ok (), e) \<and>
     unverified_sd_jwt e = Some (hd_sd_jwt h) \<and> input_disclosures e = pp_disclosures p \<and>
     unverified_kb_jwt e = Some (pp_signing_input p @ ''.'' @ base64_encode X signature) \<and>
     check_binding X (verified_state e resolve policy' (hd_payload h) seen out) (Some aud) (Some nonce) = Ok ()"
proof -
  from holder_compact_source [OF assms(1)] obtain e where pub: "published X (hd_engine h)"
    and e: "parse_sd_jwt X (common_new Compact) credential = (Ok (), e)" "unverified_sd_jwt e = Some (hd_sd_jwt h)"
    "input_disclosures (hd_engine h) = input_disclosures e" "format (hd_engine h) = Compact" by blast
  from prepare_key_binding_Ok [OF assms(3)] obtain secs header_text payload_text where
    sel: "select_disclosures (hd_engine h) (hd_payload h) requests = Ok (pp_disclosures p)"
    and kb: "hd_kb_payload h' = [''nonce'' \<mapsto> String nonce, ''aud'' \<mapsto> String aud, ''iat'' \<mapsto> Number (NU64 secs),
       KB_DIGEST_KEY \<mapsto> String (base64_hash X (join ''~'' (hd_sd_jwt h # pp_disclosures p) @ ''~''))]"
    and p: "pp_format p = Compact" "pp_sd_jwt p = hd_sd_jwt h"
      "holder_binding_key X (hd_payload h) (pp_algorithm p) = Ok (pp_verification_key p)"
      "pp_signing_input p = base64_encode X header_text @ ''.'' @ base64_encode X payload_text"
    using e(4) by auto
  let ?token = "pp_signing_input p @ ''.'' @ base64_encode X signature"
  let ?e = "e\<lparr>unverified_kb_jwt := Some ?token, input_disclosures := pp_disclosures p\<rparr>"
  have pres: "presentation = join ''~'' (hd_sd_jwt h # pp_disclosures p @ [?token])"
    using complete_key_binding_Compact [OF p(1) assms(4)] p(2) by simp
  have "CHR ''~'' \<notin> set ?token" using prepared_kb_free [OF assms(6)] p(4) by simp
  with selected_published(1) [OF pub sel assms(2)] assms(5) e(3)
  have "parse_sd_jwt X (common_new Compact) presentation = (Ok (), ?e)"
    unfolding pres using compact_represented [OF e(1) _ _ e(2), of "pp_disclosures p" ?token] by simp
  moreover have "key_bound X (verified_state ?e resolve policy' (hd_payload h) seen out) aud nonce"
    by (rule prepared_key_binds [OF p(3) assms(9) [unfolded kb] _ _ _ assms(10,7,8)]) (simp_all add: e(2))
  ultimately show ?thesis
    by (intro exI [of _ ?e]) (simp add: e(2) check_binding_Ok bound_on_request_def)
qed

definition bound_prepared :: "unit prepared_presentation" where
  "bound_prepared = \<lparr>pp_algorithm = ES256, pp_disclosures = [''ee''], pp_format = Compact, pp_sd_jwt = ''ei.fa.t'',
     pp_signing_input = letters_encode ''ES256'' @ ''.'' @ letters_encode ''M'', pp_verification_key = ()\<rparr>"

definition bound_after :: sd_jwt_holder where
  "bound_after = (reset_key_binding bound_holder)\<lparr>hd_disclosures := [''ee''],
     hd_kb_payload := [''nonce'' \<mapsto> String ''n'', ''aud'' \<mapsto> String ''a'', ''iat'' \<mapsto> Number (NU64 7),
       KB_DIGEST_KEY \<mapsto> String (letters_encode ''ei.fa.t~ee~'')]\<rparr>"

definition bound_presentation :: string where
  "bound_presentation = ''ei.fa.t~ee~'' @ letters_encode ''ES256'' @ ''.'' @ letters_encode ''M'' @ ''.'' @ letters_encode ''x''"

lemma bound_selects: "select_disclosures bound_state bound_payload [(''n'', Bool True)] = Ok [''ee'']"
  by (simp add: own_disclosure_def sd_map_def listed_digests_def hidden_member_def value_index_def index_disclosure_def
      bound_state_def bound_loaded_def sample_loaded_def bound_payload_def sample_payload_def key_defs contains_key_def
      List.map_filter_simps)

lemma bound_prepares:
  "prepare_key_binding_presentation binding_X (Inr 7) bound_holder [(''n'', Bool True)] ''n'' ''a'' None
     = (Ok bound_prepared, bound_after)"
proof -
  have "hd_engine bound_holder = bound_state" "hd_payload bound_holder = bound_payload" "hd_sd_jwt bound_holder = ''ei.fa.t''"
    by (simp_all add: bound_holder_def)
  moreover have "holder_binding_key binding_X bound_payload ES256 = Ok ()"
    by (simp add: holder_binding_key_Ok validate_public_confirmation_claim_def confirmation_jwk_def binding_X_def
        sample_externals_def bound_payload_def sample_payload_def key_defs validate_key_binding_jwk_policy_def sample_jwk_def
        PRIVATE_JWK_MEMBERS_def contains_key_def)
  moreover have "algorithm_from_str binding_X ''ES256'' = Inr ES256" "hashmap_to_vec binding_X m = Inr ''M''"
    "header_to_vec binding_X (kb_header_of binding_X ES256) = Inr ''ES256''" for m
    by (simp_all add: binding_X_def sample_externals_def sample_algorithm_def kb_header_of_def sample_header_def)
  moreover have "format bound_state = Compact"
    by (simp add: bound_state_def bound_loaded_def sample_loaded_def common_new_def)
  ultimately show ?thesis
    by (simp add: prepare_key_binding_presentation_def bound_selects [simplified] reset_key_binding_def fill_key_binding_payload_def
        set_key_binding_digest_key_def key_binding_digest_def bound_prepared_def bound_after_def base64url_encode_def
        COMBINED_SERIALIZATION_FORMAT_SEPARATOR_def)
qed

lemma bound_completes: "complete_key_binding binding_X bound_prepared ''x'' = Ok bound_presentation"
proof -
  have "verify_remote_signature binding_X ES256 input ''x'' () = Ok ()" for input
    by (simp add: verify_remote_signature_def validate_remote_signature_def remote_signature_shape.simps binding_X_def
        sample_externals_def install_crypto_provider_def native_ensure_installed_def)
  then show ?thesis
    by (simp add: complete_key_binding_def bound_prepared_def rendered_def bound_presentation_def base64url_encode_def
        COMBINED_SERIALIZATION_FORMAT_SEPARATOR_def)
qed

theorem key_binding_round_trip_witness:
  "\<exists>e. parse_sd_jwt binding_X (common_new Compact) bound_presentation = (Ok (), e) \<and>
     unverified_kb_jwt e = Some (letters_encode ''ES256'' @ ''.'' @ letters_encode ''M'' @ ''.'' @ letters_encode ''x'') \<and>
     check_binding binding_X (verified_state e sample_resolve policy_default bound_payload [''gfgf''] Null)
       (Some ''a'') (Some ''n'') = Ok ()"
proof -
  have limits: "within_limits bound_presentation (pp_disclosures bound_prepared)"
    by (simp add: within_limits_def bound_presentation_def bound_prepared_def letters_encode_def letter_pair_def
        MAX_SD_JWT_INPUT_BYTES_def MAX_SD_JWT_DISCLOSURES_def MAX_SD_JWT_DISCLOSURE_BYTES_def)
  have alphabet: "base64_alphabet binding_X"
    by (simp add: base64_alphabet_def letters_encode_alphabet)
  have alg: "jh_alg (header_new binding_X (pp_algorithm bound_prepared)) = pp_algorithm bound_prepared"
    by (simp add: bound_prepared_def binding_X_def sample_externals_def sample_header_def)
  have read: "token_read_back binding_X bound_prepared (pp_signing_input bound_prepared @ ''.'' @ base64_encode binding_X ''x'')
      (hd_kb_payload bound_after)"
  proof -
    have "map_get binding_claims = hd_kb_payload bound_after"
      by (simp add: binding_claims_def bound_after_def fun_eq_iff KB_DIGEST_KEY_def)
    then show ?thesis
      unfolding token_read_back_def
      by (intro conjI exI [of _ binding_claims])
        (auto simp: bound_prepared_def binding_X_def kb_header_of_def sample_externals_def list_ex_iff)
  qed
  have validated: "pp_algorithm bound_prepared \<in> set (val_algorithms (validation_new binding_X (pp_algorithm bound_prepared)))"
    by (simp add: bound_prepared_def binding_X_def sample_externals_def sample_validation_def)
  have "policy_allows policy_default (pp_algorithm bound_prepared)"
    by (simp add: bound_prepared_def policy_default_allows symmetric_algorithm_def)
  from key_binding_round_trip [OF bound_holder_built bound_names_apart bound_prepares bound_completes limits alphabet alg
      validated read this, of sample_resolve "[''gfgf'']" Null]
  show ?thesis by (auto simp: bound_prepared_def bound_holder_def)
qed

end
