(* ===== verification/Batch.thy ===== *)
theory Batch
  imports Preprocessing Engine "HOL-Library.Product_Lexorder"
begin

text \<open>
  src/src/batch.rs: preprocessing the disclosures of several credentials at once. A plan gives every
  disclosure a job with an identity of plan, credential and ordinal; an executor, possibly of the
  caller, returns outcomes in any order; assembly restores the order, rejects outcomes that do not
  belong to the plan, and publishes the mappings of all credentials or of none. The counter of plan
  identities is the state.
\<close>

subsection \<open>Identities, jobs, outcomes\<close>

definition MAX_DISCLOSURE_BATCH_CREDENTIALS :: nat where "MAX_DISCLOSURE_BATCH_CREDENTIALS = 1024"

definition BATCH_CREDENTIAL_LIMIT_ERROR :: string where
  "BATCH_CREDENTIAL_LIMIT_ERROR = ''Disclosure verification batch exceeds the credential limit''"

definition BATCH_DISCLOSURE_LIMIT_ERROR :: string where
  "BATCH_DISCLOSURE_LIMIT_ERROR = ''Disclosure verification batch exceeds the disclosure limit''"

definition BATCH_DISCLOSURE_SIZE_ERROR :: string where
  "BATCH_DISCLOSURE_SIZE_ERROR = ''Disclosure exceeds the encoded size limit''"

definition BATCH_INPUT_SIZE_ERROR :: string where
  "BATCH_INPUT_SIZE_ERROR = ''Disclosure verification batch exceeds the input size limit''"

definition BATCH_CAPACITY_ERROR :: string where
  "BATCH_CAPACITY_ERROR = ''Disclosure verification batch capacity is unavailable''"

definition batch_contract_error :: "string \<Rightarrow> error" where
  "batch_contract_error message =
     InvalidState (''Cross-credential disclosure executor contract violation: '' @ message)"

record verification_job_id =
  vid_credential :: nat
  vid_ordinal :: nat

record verification_job =
  vj_plan_id :: nat
  vj_id :: verification_job_id
  vj_encoded :: string

record verification_outcome =
  vo_plan_id :: nat
  vo_id :: verification_job_id
  vo_encoded :: string
  vo_result :: "processed_disclosure result option"

record credential_mappings =
  cm_credential :: nat
  cm_decoded :: "string \<rightharpoonup> json"
  cm_encoded :: "string \<rightharpoonup> string"
  cm_ordered :: "string list"

record batch_plan =
  bp_plan_id :: nat
  bp_credential_count :: nat
  bp_disclosure_counts :: "nat list"
  bp_jobs :: "verification_job list"

text \<open>\<open>process\<close> of a job: the single-credential worker under the job's own identity.\<close>

definition local_job :: "verification_job \<Rightarrow> disclosure_job" where
  "local_job job = \<lparr>job_ordinal = vid_ordinal (vj_id job), job_encoded = vj_encoded job\<rparr>"

definition process_job :: "'k externals \<Rightarrow> verification_job \<Rightarrow> verification_outcome" where
  "process_job X job =
     \<lparr>vo_plan_id = vj_plan_id job, vo_id = vj_id job, vo_encoded = vj_encoded job,
      vo_result = out_result (process_disclosure X (local_job job))\<rparr>"

subsection \<open>The serial executor\<close>

text \<open>It forgets the digests it has seen whenever the credential changes, and stops at the first fault.\<close>

fun serial_batch_loop ::
    "'k externals \<Rightarrow> nat option \<Rightarrow> string set \<Rightarrow> verification_job list \<Rightarrow> verification_outcome list result" where
  "serial_batch_loop X credential observed_digests [] = Ok []"
| "serial_batch_loop X credential observed_digests (job # jobs) =
     (let current = Some (vid_credential (vj_id job));
          observed = (if credential \<noteq> current then {} else observed_digests);
          outcome = process_job X job
      in case vo_result outcome of
           Some (Ok processed) \<Rightarrow>
             (if proc_digest processed \<in> observed
              then Err (DuplicateDigestError DUPLICATE_DISCLOSURE_DIGEST)
              else rbind (serial_batch_loop X current (insert (proc_digest processed) observed) jobs) (\<lambda>outcomes.
                   Ok (outcome # outcomes)))
         | Some (Err err) \<Rightarrow> Err err
         | Some Panic \<Rightarrow> Panic
         | None \<Rightarrow> Err (batch_contract_error ''job returned no result''))"

definition serial_batch_execute ::
    "'k externals \<Rightarrow> verification_job list \<Rightarrow> verification_outcome list result" where
  "serial_batch_execute X jobs = serial_batch_loop X None {} jobs"

subsection \<open>Planning\<close>

fun disclosure_sizes :: "nat \<Rightarrow> string list \<Rightarrow> nat result" where
  "disclosure_sizes total_bytes [] = Ok total_bytes"
| "disclosure_sizes total_bytes (disclosure # ds) =
     (if MAX_SD_JWT_DISCLOSURE_BYTES < length disclosure then Err (InvalidInput BATCH_DISCLOSURE_SIZE_ERROR)
      else rbind (ok_or (checked_add total_bytes (length disclosure)) (InvalidInput BATCH_INPUT_SIZE_ERROR)) (\<lambda>total_bytes'.
           if MAX_SD_JWT_INPUT_BYTES < total_bytes' then Err (InvalidInput BATCH_INPUT_SIZE_ERROR)
           else disclosure_sizes total_bytes' ds))"

fun batch_sizes :: "nat \<Rightarrow> nat \<Rightarrow> string list list \<Rightarrow> nat result" where
  "batch_sizes total_jobs total_bytes [] = Ok total_jobs"
| "batch_sizes total_jobs total_bytes (disclosures # credentials) =
     rbind (ok_or (checked_add total_jobs (length disclosures)) (InvalidInput BATCH_DISCLOSURE_LIMIT_ERROR)) (\<lambda>total_jobs'.
     if MAX_SD_JWT_DISCLOSURES < total_jobs' then Err (InvalidInput BATCH_DISCLOSURE_LIMIT_ERROR)
     else rbind (disclosure_sizes total_bytes disclosures) (\<lambda>total_bytes'.
          batch_sizes total_jobs' total_bytes' credentials))"

fun batch_jobs :: "nat \<Rightarrow> nat \<Rightarrow> string list list \<Rightarrow> verification_job list" where
  "batch_jobs plan_id credential_ordinal [] = []"
| "batch_jobs plan_id credential_ordinal (disclosures # credentials) =
     map (\<lambda>(ordinal, encoded). \<lparr>vj_plan_id = plan_id,
        vj_id = \<lparr>vid_credential = credential_ordinal, vid_ordinal = ordinal\<rparr>, vj_encoded = encoded\<rparr>)
       (enumerate 0 disclosures)
     @ batch_jobs plan_id (Suc credential_ordinal) credentials"

text \<open>
  \<open>fetch_update\<close> of the plan counter returns the old value, or fails at the largest one; a
  reservation of memory may be refused by the allocator.
\<close>

record batch_allocator =
  reserve_counts :: "nat \<Rightarrow> bool"
  reserve_jobs :: "nat \<Rightarrow> bool"

definition next_plan_id :: "nat \<Rightarrow> nat result \<times> nat" where
  "next_plan_id current =
     (case checked_add current 1 of
        Some next_id \<Rightarrow> (Ok current, next_id)
      | None \<Rightarrow> (Err (InvalidState ''Disclosure verification batch plan space exhausted''), current))"

definition batch_plan_new :: "batch_allocator \<Rightarrow> string list list \<Rightarrow> nat \<Rightarrow> batch_plan result \<times> nat" where
  "batch_plan_new A credentials next_id =
     (if MAX_DISCLOSURE_BATCH_CREDENTIALS < length credentials
      then (Err (InvalidInput BATCH_CREDENTIAL_LIMIT_ERROR), next_id)
      else case batch_sizes 0 0 credentials of
        Err err \<Rightarrow> (Err err, next_id)
      | Panic \<Rightarrow> (Panic, next_id)
      | Ok total_jobs \<Rightarrow>
          (case next_plan_id next_id of
             (r, next_id') \<Rightarrow>
               (rbind r (\<lambda>plan_id.
                if \<not> reserve_counts A (length credentials) then Err (InvalidInput BATCH_CAPACITY_ERROR)
                else if \<not> reserve_jobs A total_jobs then Err (InvalidInput BATCH_CAPACITY_ERROR)
                else Ok \<lparr>bp_plan_id = plan_id, bp_credential_count = length credentials,
                         bp_disclosure_counts = map length credentials,
                         bp_jobs = batch_jobs plan_id 0 credentials\<rparr>), next_id')))"

subsection \<open>Assembly\<close>

definition outcome_key :: "verification_outcome \<Rightarrow> nat \<times> nat" where
  "outcome_key outcome = (vid_credential (vo_id outcome), vid_ordinal (vo_id outcome))"

definition at_job :: "verification_job_id \<Rightarrow> string" where
  "at_job i = '' at credential ordinal '' @ dec (vid_credential i) @ '' job ordinal '' @ dec (vid_ordinal i)"

fun check_pairs :: "(verification_job \<times> verification_outcome) list \<Rightarrow> unit result" where
  "check_pairs [] = Ok ()"
| "check_pairs ((expected, outcome) # ps) =
     (if vo_id outcome \<noteq> vj_id expected
      then Err (batch_contract_error (''missing or duplicate outcome'' @ at_job (vj_id expected)))
      else if vo_encoded outcome \<noteq> vj_encoded expected
      then Err (batch_contract_error (''encoded identity changed'' @ at_job (vj_id expected)))
      else check_pairs ps)"

definition validate_outcomes :: "batch_plan \<Rightarrow> verification_outcome list \<Rightarrow> unit result" where
  "validate_outcomes plan outcomes =
     (case find (\<lambda>outcome. vo_plan_id outcome \<noteq> bp_plan_id plan) outcomes of
        Some foreign \<Rightarrow> Err (batch_contract_error (''foreign plan identity'' @ at_job (vo_id foreign)))
      | None \<Rightarrow>
          rbind (check_pairs (zip (bp_jobs plan) outcomes)) (\<lambda>_.
          if length outcomes \<noteq> length (bp_jobs plan)
          then Err (if length outcomes < length (bp_jobs plan)
                    then batch_contract_error (''no outcome'' @ at_job (vj_id (bp_jobs plan ! length outcomes)))
                    else batch_contract_error ''unexpected extra outcome'')
          else Ok ()))"

definition local_outcome :: "verification_outcome \<Rightarrow> disclosure_outcome" where
  "local_outcome outcome =
     \<lparr>out_ordinal = vid_ordinal (vo_id outcome), out_encoded = vo_encoded outcome, out_result = vo_result outcome\<rparr>"

text \<open>
  The loop over the credentials: each takes its slice of the jobs and as many of the remaining
  outcomes. An index or a slice outside the plan's vectors would panic.
\<close>

fun assemble_credentials ::
    "batch_plan \<Rightarrow> nat list \<Rightarrow> nat \<Rightarrow> verification_outcome list \<Rightarrow> credential_mappings list result" where
  "assemble_credentials plan [] job_offset outcomes = Ok []"
| "assemble_credentials plan (credential_ordinal # ordinals) job_offset outcomes =
     (if length (bp_disclosure_counts plan) \<le> credential_ordinal then Panic
      else let n = bp_disclosure_counts plan ! credential_ordinal
           in if length (bp_jobs plan) < job_offset + n then Panic
              else let local_jobs = map local_job (take n (drop job_offset (bp_jobs plan)))
                   in rbind (assemble_disclosures local_jobs (map local_outcome (take n outcomes))) (\<lambda>m.
                      rbind (assemble_credentials plan ordinals (job_offset + n) (drop n outcomes)) (\<lambda>ms.
                      Ok (\<lparr>cm_credential = credential_ordinal, cm_decoded = dm_decoded m, cm_encoded = dm_encoded m,
                           cm_ordered = dm_ordered m\<rparr> # ms))))"

definition batch_assemble :: "batch_plan \<Rightarrow> verification_outcome list \<Rightarrow> credential_mappings list result" where
  "batch_assemble plan outcomes =
     (let sorted_outcomes = sort_key outcome_key outcomes
      in rbind (validate_outcomes plan sorted_outcomes) (\<lambda>_.
         assemble_credentials plan [0..<bp_credential_count plan] 0 sorted_outcomes))"

subsection \<open>The entry points\<close>

definition preprocess_batch_with_executor ::
    "batch_allocator \<Rightarrow> (verification_job list \<Rightarrow> verification_outcome list result) \<Rightarrow> string list list \<Rightarrow> nat
       \<Rightarrow> credential_mappings list result \<times> nat" where
  "preprocess_batch_with_executor A execute credentials next_id =
     (case batch_plan_new A credentials next_id of
        (r, next_id') \<Rightarrow>
          (rbind r (\<lambda>plan.
           rbind (execute (bp_jobs plan)) (\<lambda>outcomes.
           batch_assemble plan outcomes)), next_id'))"

definition preprocess_batch ::
    "'k externals \<Rightarrow> batch_allocator \<Rightarrow> string list list \<Rightarrow> nat \<Rightarrow> credential_mappings list result \<times> nat" where
  "preprocess_batch X A credentials next_id =
     preprocess_batch_with_executor A (serial_batch_execute X) credentials next_id"

subsection \<open>The plan\<close>

definition batch_plan_of :: "nat \<Rightarrow> string list list \<Rightarrow> batch_plan" where
  "batch_plan_of plan_id credentials =
     \<lparr>bp_plan_id = plan_id, bp_credential_count = length credentials,
      bp_disclosure_counts = map length credentials, bp_jobs = batch_jobs plan_id 0 credentials\<rparr>"

definition batch_within_limits :: "string list list \<Rightarrow> bool" where
  "batch_within_limits credentials \<longleftrightarrow>
     length credentials \<le> MAX_DISCLOSURE_BATCH_CREDENTIALS \<and>
     length (concat credentials) \<le> MAX_SD_JWT_DISCLOSURES \<and>
     (\<forall>d \<in> set (concat credentials). length d \<le> MAX_SD_JWT_DISCLOSURE_BYTES) \<and>
     length (concat (concat credentials)) \<le> MAX_SD_JWT_INPUT_BYTES"

lemma limits_small: "MAX_SD_JWT_DISCLOSURES \<le> usize_max" "MAX_SD_JWT_INPUT_BYTES \<le> usize_max"
  by (simp_all add: MAX_SD_JWT_DISCLOSURES_def MAX_SD_JWT_INPUT_BYTES_def usize_max_def)

lemma disclosure_sizes_Ok:
  "t \<le> MAX_SD_JWT_INPUT_BYTES \<Longrightarrow> disclosure_sizes t ds = Ok t' \<longleftrightarrow>
     t' = t + length (concat ds) \<and> t' \<le> MAX_SD_JWT_INPUT_BYTES \<and>
     (\<forall>d \<in> set ds. length d \<le> MAX_SD_JWT_DISCLOSURE_BYTES)"
proof (induction ds arbitrary: t)
  case (Cons d ds)
  then show ?case
    using limits_small by (auto simp: rbind_eq_Ok not_less)
qed auto

lemma batch_sizes_Ok:
  "j \<le> MAX_SD_JWT_DISCLOSURES \<Longrightarrow> t \<le> MAX_SD_JWT_INPUT_BYTES \<Longrightarrow>
     batch_sizes j t credentials = Ok j' \<longleftrightarrow>
       j' = j + length (concat credentials) \<and> j' \<le> MAX_SD_JWT_DISCLOSURES \<and>
       (\<forall>d \<in> set (concat credentials). length d \<le> MAX_SD_JWT_DISCLOSURE_BYTES) \<and>
       t + length (concat (concat credentials)) \<le> MAX_SD_JWT_INPUT_BYTES"
proof (induction credentials arbitrary: j t)
  case (Cons ds credentials)
  have lhs: "batch_sizes j t (ds # credentials) = Ok j' \<longleftrightarrow> j + length ds \<le> MAX_SD_JWT_DISCLOSURES \<and>
      (\<exists>t'. disclosure_sizes t ds = Ok t' \<and> batch_sizes (j + length ds) t' credentials = Ok j')"
    using limits_small by (auto simp: rbind_eq_Ok not_less)
  show ?case
  proof (cases "j + length ds \<le> MAX_SD_JWT_DISCLOSURES \<and> t + length (concat ds) \<le> MAX_SD_JWT_INPUT_BYTES")
    case True
    then show ?thesis
      unfolding lhs disclosure_sizes_Ok [OF Cons.prems(2)]
      using Cons.IH [of "j + length ds" "t + length (concat ds)"] by (simp add: ball_Un add.assoc) blast
  next
    case False
    then show ?thesis unfolding lhs disclosure_sizes_Ok [OF Cons.prems(2)] by auto
  qed
qed auto

lemma sizes_not_Panic: "disclosure_sizes t ds \<noteq> Panic" "batch_sizes j t' credentials \<noteq> Panic"
proof -
  show sizes: "disclosure_sizes t ds \<noteq> Panic" for t ds
    by (induction ds arbitrary: t) (auto simp: rbind_eq_Panic)
  show "batch_sizes j t' credentials \<noteq> Panic"
    by (induction credentials arbitrary: j t') (auto simp: rbind_eq_Panic sizes)
qed

lemma batch_plan_new_Ok:
  "batch_plan_new A credentials n = (Ok plan, n') \<longleftrightarrow>
     batch_within_limits credentials \<and> n < usize_max \<and> n' = n + 1 \<and> reserve_counts A (length credentials) \<and>
     reserve_jobs A (length (concat credentials)) \<and> plan = batch_plan_of n credentials"
proof -
  have sizes: "batch_sizes 0 0 credentials = Ok j \<longleftrightarrow>
       j = length (concat credentials) \<and> j \<le> MAX_SD_JWT_DISCLOSURES \<and>
       (\<forall>d \<in> set (concat credentials). length d \<le> MAX_SD_JWT_DISCLOSURE_BYTES) \<and>
       length (concat (concat credentials)) \<le> MAX_SD_JWT_INPUT_BYTES" for j
    using batch_sizes_Ok [of 0 0 credentials j] by simp
  have id: "next_plan_id n = (r, m) \<longleftrightarrow>
      (if n < usize_max then r = Ok n \<and> m = n + 1
       else r = Err (InvalidState ''Disclosure verification batch plan space exhausted'') \<and> m = n)" for r m
    by (auto simp: next_plan_id_def split: option.split)
  show ?thesis
  proof (cases "batch_sizes 0 0 credentials")
    case (Ok j)
    with sizes [of j] show ?thesis
      by (auto simp: batch_plan_new_def batch_within_limits_def not_less id batch_plan_of_def rbind_eq_Ok
          split: prod.split if_splits)
  next
    case (Err e)
    with sizes [of "length (concat credentials)"] show ?thesis
      by (auto simp: batch_plan_new_def batch_within_limits_def)
  qed (simp add: sizes_not_Panic)
qed

subsection \<open>Assembling faithful outcomes\<close>

definition credential_mappings_of :: "nat \<Rightarrow> disclosure_mappings \<Rightarrow> credential_mappings" where
  "credential_mappings_of c m =
     \<lparr>cm_credential = c, cm_decoded = dm_decoded m, cm_encoded = dm_encoded m, cm_ordered = dm_ordered m\<rparr>"

text \<open>The reference: every credential on its own, in order.\<close>

fun individually :: "'k externals \<Rightarrow> nat \<Rightarrow> string list list \<Rightarrow> credential_mappings list result" where
  "individually X c [] = Ok []"
| "individually X c (disclosures # credentials) =
     rbind (serial_preprocess X disclosures) (\<lambda>m.
     rbind (individually X (Suc c) credentials) (\<lambda>ms. Ok (credential_mappings_of c m # ms)))"

definition credential_jobs :: "nat \<Rightarrow> nat \<Rightarrow> nat \<Rightarrow> string list \<Rightarrow> verification_job list" where
  "credential_jobs pid c n ds =
     map (\<lambda>(i, e). \<lparr>vj_plan_id = pid, vj_id = \<lparr>vid_credential = c, vid_ordinal = i\<rparr>, vj_encoded = e\<rparr>) (enumerate n ds)"

lemma batch_jobs_Cons: "batch_jobs pid c (ds # dss) = credential_jobs pid c 0 ds @ batch_jobs pid (Suc c) dss"
  by (simp add: credential_jobs_def)

lemma credential_jobs_local:
  "map local_job (credential_jobs pid c n ds) = plan_from n ds"
  "map local_outcome (map (process_job X) (credential_jobs pid c n ds)) = map (process_disclosure X) (plan_from n ds)"
  "length (credential_jobs pid c n ds) = length ds"
  by (auto simp: credential_jobs_def plan_from_def local_job_def local_outcome_def process_job_def process_disclosure_def)

text \<open>The loop at the credentials \<open>ds # dss\<close>, whose jobs start where \<open>pre\<close> ends.\<close>

definition remaining_jobs :: "batch_plan \<Rightarrow> nat \<Rightarrow> verification_job list \<Rightarrow> nat \<Rightarrow> string list list \<Rightarrow> bool" where
  "remaining_jobs plan pid pre c dss \<longleftrightarrow>
     bp_jobs plan = pre @ batch_jobs pid c dss \<and>
     (\<exists>cpre. bp_disclosure_counts plan = cpre @ map length dss \<and> length cpre = c)"

lemma remaining_start: "remaining_jobs (batch_plan_of pid dss) pid [] 0 dss"
  by (simp add: remaining_jobs_def batch_plan_of_def)

lemma remaining_next: "remaining_jobs plan pid pre c (ds # dss) \<Longrightarrow> remaining_jobs plan pid (pre @ credential_jobs pid c 0 ds) (Suc c) dss"
  unfolding remaining_jobs_def batch_jobs_Cons
  by (elim conjE exE, intro conjI, simp) (metis append.assoc append_Cons append_Nil length_append_singleton list.map(2))

lemma assemble_credentials_step:
  assumes "remaining_jobs plan pid pre c (ds # dss)"
  shows "assemble_credentials plan [c..<c + length (ds # dss)] (length pre) os =
     rbind (assemble_disclosures (plan_disclosures ds) (map local_outcome (take (length ds) os))) (\<lambda>m.
     rbind (assemble_credentials plan [Suc c..<Suc c + length dss] (length (pre @ credential_jobs pid c 0 ds))
              (drop (length ds) os)) (\<lambda>ms.
     Ok (credential_mappings_of c m # ms)))"
proof -
  have range: "[c..<c + length (ds # dss)] = c # [Suc c..<Suc c + length dss]"
    by (simp add: upt_conv_Cons del: upt_Suc)
  have n: "bp_disclosure_counts plan ! c = length ds" "c < length (bp_disclosure_counts plan)"
    using assms by (auto simp: remaining_jobs_def nth_append)
  have slice: "take (length ds) (drop (length pre) (bp_jobs plan)) = credential_jobs pid c 0 ds"
    "\<not> length (bp_jobs plan) < length pre + length ds"
    using assms by (simp_all add: remaining_jobs_def batch_jobs_Cons credential_jobs_local del: batch_jobs.simps)
  show ?thesis
    unfolding range assemble_credentials.simps Let_def n(1) slice(1) credential_jobs_local plan_disclosures_def
    using n(2) slice(2) by (simp add: credential_mappings_of_def credential_jobs_local del: upt_Suc)
qed

lemma assemble_credentials_processed:
  "remaining_jobs plan pid pre c dss \<Longrightarrow>
     assemble_credentials plan [c..<c + length dss] (length pre) (map (process_job X) (batch_jobs pid c dss)) =
       individually X c dss"
proof (induction dss arbitrary: c pre)
  case Nil
  then show ?case by simp
next
  case (Cons ds dss)
  let ?js = "credential_jobs pid c 0 ds"
  have outs: "take (length ds) (map (process_job X) (batch_jobs pid c (ds # dss))) = map (process_job X) ?js"
    "drop (length ds) (map (process_job X) (batch_jobs pid c (ds # dss))) = map (process_job X) (batch_jobs pid (Suc c) dss)"
    by (simp_all add: batch_jobs_Cons credential_jobs_local del: batch_jobs.simps)
  have "assemble_disclosures (plan_disclosures ds) (map local_outcome (map (process_job X) ?js)) = serial_preprocess X ds"
    unfolding credential_jobs_local plan_disclosures_def [symmetric] by (rule assemble_processed) simp
  then show ?case
    unfolding assemble_credentials_step [OF Cons.prems] outs Cons.IH [OF remaining_next [OF Cons.prems]] by simp
qed

definition job_key :: "verification_job \<Rightarrow> nat \<times> nat" where
  "job_key job = (vid_credential (vj_id job), vid_ordinal (vj_id job))"

lemma credential_jobs_keys: "map job_key (credential_jobs pid c n ds) = map (Pair c) [n..<n + length ds]"
  by (induction ds arbitrary: n) (auto simp: credential_jobs_def job_key_def upt_conv_Cons simp del: upt_Suc)

lemma batch_jobs_sorted:
  "sorted (map job_key (batch_jobs pid c dss)) \<and> distinct (map job_key (batch_jobs pid c dss)) \<and>
     (\<forall>k \<in> set (map job_key (batch_jobs pid c dss)). c \<le> fst k)"
proof (induction dss arbitrary: c)
  case Nil
  then show ?case by simp
next
  case (Cons ds dss)
  have "sorted (map (Pair c) [0..<length ds])" "distinct (map (Pair c) [0..<length ds])"
    by (auto simp: distinct_map inj_on_def sorted_map sorted_wrt_iff_nth_less less_eq_prod_def)
  moreover have above: "\<forall>k \<in> set (map job_key (batch_jobs pid (Suc c) dss)). c < fst k"
    using Cons.IH [of "Suc c"] by auto
  moreover from above have "\<forall>x \<in> set (map (Pair c) [0..<length ds]).
      \<forall>y \<in> set (map job_key (batch_jobs pid (Suc c) dss)). x \<le> y"
    by (auto simp: less_eq_prod_def)
  moreover have "fst k = c" if "k \<in> set (map (Pair c) [0..<length ds])" for k using that by auto
  with above have "set (map (Pair c) [0..<length ds]) \<inter> set (map job_key (batch_jobs pid (Suc c) dss)) = {}"
    by (metis disjoint_iff less_irrefl)
  ultimately show ?case
    unfolding batch_jobs_Cons map_append credential_jobs_keys sorted_append distinct_append
    using Cons.IH [of "Suc c"] by auto
qed

lemma process_job_sel [simp]:
  "vo_plan_id (process_job X j) = vj_plan_id j" "vo_id (process_job X j) = vj_id j"
  "vo_encoded (process_job X j) = vj_encoded j" "outcome_key (process_job X j) = job_key j"
  "vo_result (process_job X j) = Some (rbind (decode_disclosure X (vj_encoded j)) (\<lambda>v.
     Ok \<lparr>proc_digest = base64_hash X (vj_encoded j), proc_decoded = v\<rparr>))"
  by (simp_all add: process_job_def outcome_key_def job_key_def local_job_def)

lemma sort_processed:
  assumes "mset os = mset (map (process_job X) (batch_jobs pid 0 dss))"
  shows "sort_key outcome_key os = map (process_job X) (batch_jobs pid 0 dss)"
proof (rule sort_key_inj_key_eq)
  have keys: "map outcome_key (map (process_job X) (batch_jobs pid 0 dss)) = map job_key (batch_jobs pid 0 dss)" by simp
  show "mset os = mset (map (process_job X) (batch_jobs pid 0 dss))" by fact
  have "inj_on outcome_key (set (map (process_job X) (batch_jobs pid 0 dss)))"
    using batch_jobs_sorted [of pid 0 dss] unfolding keys [symmetric] distinct_map by blast
  then show "inj_on outcome_key (set os)" using mset_eq_setD [OF assms] by simp
  show "sorted (map outcome_key (map (process_job X) (batch_jobs pid 0 dss)))"
    unfolding keys using batch_jobs_sorted by blast
qed

lemma batch_assemble_processed:
  assumes "mset os = mset (map (process_job X) (batch_jobs pid 0 dss))"
  shows "batch_assemble (batch_plan_of pid dss) os = individually X 0 dss"
proof -
  have pairs: "check_pairs (zip js (map (process_job X) js)) = Ok ()" for js by (induction js) simp_all
  have ids: "\<forall>j \<in> set (batch_jobs pid c dss). vj_plan_id j = pid" for c
    by (induction dss arbitrary: c) auto
  have "find (\<lambda>r. vo_plan_id r \<noteq> pid) (map (process_job X) (batch_jobs pid 0 dss)) = None"
    using ids [of 0] by (auto simp: find_None_iff)
  then have "validate_outcomes (batch_plan_of pid dss) (map (process_job X) (batch_jobs pid 0 dss)) = Ok ()"
    by (simp add: validate_outcomes_def batch_plan_of_def pairs)
  moreover have "assemble_credentials (batch_plan_of pid dss) [0..<length dss] 0 (map (process_job X) (batch_jobs pid 0 dss))
      = individually X 0 dss"
    using assemble_credentials_processed [OF remaining_start, where X = X] by simp
  ultimately show ?thesis
    by (simp add: batch_assemble_def sort_processed [OF assms]) (simp add: batch_plan_of_def)
qed

lemma individually_not_Panic: "individually X c dss \<noteq> Panic"
  by (induction dss arbitrary: c) (auto simp: rbind_eq_Panic serial_preprocess_not_Panic)

subsection \<open>The executor contract\<close>

text \<open>What the entry point needs of an executor: when it returns, the outcomes are the plan's jobs, processed.\<close>

locale batch_executor =
  fixes X :: "'k externals"
    and execute :: "verification_job list \<Rightarrow> verification_outcome list result"
  assumes executes: "execute jobs = Ok outcomes \<Longrightarrow> mset outcomes = mset (map (process_job X) jobs)"
begin

lemma batch_result:
  "preprocess_batch_with_executor A execute credentials n = (r, n') \<Longrightarrow>
     (r = Ok ms \<longrightarrow> individually X 0 credentials = Ok ms) \<and> n \<le> n' \<and>
     (r = Panic \<longrightarrow> (\<exists>jobs. execute jobs = Panic))"
proof -
  assume run: "preprocess_batch_with_executor A execute credentials n = (r, n')"
  obtain rp where plan: "batch_plan_new A credentials n = (rp, n')"
    and r: "r = rbind rp (\<lambda>plan. rbind (execute (bp_jobs plan)) (batch_assemble plan))"
    using run by (auto simp: preprocess_batch_with_executor_def split: prod.splits)
  have step: "n \<le> n' \<and> rp \<noteq> Panic"
    using plan by (auto simp: batch_plan_new_def next_plan_id_def rbind_eq_Panic sizes_not_Panic
        split: if_splits result.splits option.splits prod.splits)
  have "batch_assemble plan outcomes = individually X 0 credentials"
    if "rp = Ok plan" "execute (bp_jobs plan) = Ok outcomes" for plan outcomes
  proof -
    have eq: "plan = batch_plan_of n credentials" using plan that(1) by (simp add: batch_plan_new_Ok)
    have "mset outcomes = mset (map (process_job X) (batch_jobs n 0 credentials))"
      using executes [OF that(2)] by (simp add: eq batch_plan_of_def)
    then show ?thesis unfolding eq by (rule batch_assemble_processed)
  qed
  with step r show ?thesis
    by (auto simp: rbind_eq_Ok rbind_eq_Panic individually_not_Panic)
qed

end

lemma serial_batch_loop_Ok:
  "serial_batch_loop X credential seen jobs = Ok outcomes \<Longrightarrow> outcomes = map (process_job X) jobs"
  by (induction jobs arbitrary: credential seen outcomes)
    (auto simp: Let_def rbind_eq_Ok split: option.splits result.splits if_splits)

interpretation serial_batch: batch_executor X "serial_batch_execute X" for X
  by unfold_locales (auto simp: serial_batch_execute_def dest: serial_batch_loop_Ok)

subsection \<open>The serial executor finds the first fault\<close>

lemma serial_step_mappings:
  "serial_step X e (mappings_of X pre) =
     rbind (decode_disclosure X e) (\<lambda>v.
     if base64_hash X e \<in> base64_hash X ` set pre then Err (DuplicateDigestError DUPLICATE_DISCLOSURE_DIGEST)
     else Ok (mappings_of X (pre @ [e])))"
  by (cases "decode_disclosure X e") (simp_all add: serial_step_def add_processed_mappings_of)

lemma serial_batch_credential:
  "serial_batch_loop X (Some c) (base64_hash X ` set pre) (credential_jobs pid c n ds @ rest) =
     rbind (serial_loop (process_disclosure X) n (mappings_of X pre) ds) (\<lambda>_.
     rbind (serial_batch_loop X (Some c) (base64_hash X ` set (pre @ ds)) rest) (\<lambda>outcomes.
     Ok (map (process_job X) (credential_jobs pid c n ds) @ outcomes)))"
proof (induction ds arbitrary: n pre)
  case Nil
  then show ?case by (simp add: credential_jobs_def)
next
  case (Cons d ds)
  let ?job = "\<lparr>vj_plan_id = pid, vj_id = \<lparr>vid_credential = c, vid_ordinal = n\<rparr>, vj_encoded = d\<rparr>"
  have jobs: "credential_jobs pid c n (d # ds) = ?job # credential_jobs pid c (Suc n) ds"
    by (simp add: credential_jobs_def)
  show ?case
  proof (cases "decode_disclosure X d")
    case (Ok v)
    then show ?thesis
      using Cons.IH [of "pre @ [d]" "Suc n"]
      by (simp add: jobs serial_loop_Cons serial_step_mappings Let_def rbind_assoc del: serial_loop.simps)
  qed (simp_all add: jobs serial_loop_Cons serial_step_mappings Let_def decode_disclosure_not_Panic del: serial_loop.simps)
qed

lemma serial_batch_individually:
  "(\<forall>c' \<ge> c. credential \<noteq> Some c') \<Longrightarrow>
     serial_batch_loop X credential seen (batch_jobs pid c dss) =
       rbind (individually X c dss) (\<lambda>_. Ok (map (process_job X) (batch_jobs pid c dss)))"
proof (induction dss arbitrary: c credential seen)
  case Nil
  then show ?case by simp
next
  case (Cons ds dss)
  have rest: "serial_batch_loop X cr sn (batch_jobs pid (Suc c) dss) =
      rbind (individually X (Suc c) dss) (\<lambda>_. Ok (map (process_job X) (batch_jobs pid (Suc c) dss)))"
    if "cr = Some c \<or> cr = credential" for cr sn
    by (rule Cons.IH) (use that Cons.prems in \<open>auto dest: Suc_leD\<close>)
  have start: "serial_batch_loop X credential seen (credential_jobs pid c 0 ds @ batch_jobs pid (Suc c) dss) =
      serial_batch_loop X (Some c) (base64_hash X ` set []) (credential_jobs pid c 0 ds @ batch_jobs pid (Suc c) dss)"
  proof (cases ds)
    case Nil
    then show ?thesis by (simp add: credential_jobs_def rest)
  next
    case (Cons d ds')
    then show ?thesis using Cons.prems by (simp add: credential_jobs_def Let_def)
  qed
  show ?case
    unfolding batch_jobs_Cons start serial_batch_credential
    by (simp add: rest serial_preprocess_def serial_preprocess_with_worker_def mappings_of_Nil rbind_assoc
        del: serial_loop.simps)
qed

lemma preprocess_batch_individually:
  "fst (preprocess_batch X A credentials n) =
     rbind (fst (batch_plan_new A credentials n)) (\<lambda>_. individually X 0 credentials)"
proof (cases "fst (batch_plan_new A credentials n)")
  case (Ok plan)
  then obtain n' where plan: "batch_plan_new A credentials n = (Ok plan, n')" by (metis prod.collapse)
  then have "plan = batch_plan_of n credentials" by (simp add: batch_plan_new_Ok)
  moreover have "serial_batch_execute X (batch_jobs n 0 credentials) =
      rbind (individually X 0 credentials) (\<lambda>_. Ok (map (process_job X) (batch_jobs n 0 credentials)))"
    unfolding serial_batch_execute_def by (rule serial_batch_individually) simp
  ultimately show ?thesis
    using plan batch_assemble_processed [of "map (process_job X) (batch_jobs n 0 credentials)" X n credentials]
    by (cases "individually X 0 credentials")
      (simp_all add: preprocess_batch_def preprocess_batch_with_executor_def batch_plan_of_def)
qed (auto simp: preprocess_batch_def preprocess_batch_with_executor_def split: prod.split)

end
