(* ===== verification/Batch_Properties.thy ===== *)
theory Batch_Properties
  imports Batch Presentation_Properties
begin

text \<open>
  The properties of batch preprocessing: it is preprocessing every credential on its own, and it
  accepts exactly the outcomes of its own jobs.
\<close>

subsection \<open>What assembly has read\<close>

definition outcome_digest :: "verification_outcome \<Rightarrow> string option" where
  "outcome_digest outcome = (case vo_result outcome of Some (Ok processed) \<Rightarrow> Some (proc_digest processed) | _ \<Rightarrow> None)"

lemma assemble_loop_digests:
  "assemble_loop m (map local_outcome os) = Ok m' \<Longrightarrow>
     map Some (dm_ordered m') = map Some (dm_ordered m) @ map outcome_digest os"
proof (induction os arbitrary: m)
  case Nil
  then show ?case by simp
next
  case (Cons r os)
  then show ?case
  proof (cases "vo_result r")
    case (Some res)
    from Cons.prems Some obtain p m1 where p: "res = Ok p" and m1: "add_processed (vo_encoded r) p m = Ok m1"
      and rest: "assemble_loop m1 (map local_outcome os) = Ok m'"
      by (auto simp: local_outcome_def [abs_def] rbind_eq_Ok)
    from m1 have "dm_ordered m1 = dm_ordered m @ [proc_digest p]" by (auto simp: add_processed_def split: if_splits)
    with Cons.IH [OF rest] Some p show ?thesis by (simp add: outcome_digest_def)
  qed (simp add: local_outcome_def)
qed

lemma assemble_disclosures_digests:
  assumes "assemble_disclosures (plan_disclosures ds) (map local_outcome os) = Ok m"
    and "map (vid_ordinal \<circ> vo_id) os = [0..<length ds]"
  shows "map Some (dm_ordered m) = map outcome_digest os"
proof -
  have "map out_ordinal (map local_outcome os) = [0..<length ds]"
    using assms(2) by (simp add: local_outcome_def comp_def)
  then have "sorted (map out_ordinal (map local_outcome os))" by simp
  then have "sort_key out_ordinal (map local_outcome os) = map local_outcome os" by (rule sort_key_id_if_sorted)
  with assms(1) show ?thesis
    using assemble_loop_digests [of empty_mappings os m]
    by (simp add: assemble_disclosures_def rbind_eq_Ok Let_def empty_mappings_def del: map_map)
qed

text \<open>The loop reads every outcome it gets, each for the credential its identity names.\<close>

lemma assemble_credentials_digests:
  "remaining_jobs plan pid pre c dss \<Longrightarrow> map vo_id os = map vj_id (batch_jobs pid c dss) \<Longrightarrow>
     assemble_credentials plan [c..<c + length dss] (length pre) os = Ok ms \<Longrightarrow>
     map cm_credential ms = [c..<c + length dss] \<and> map (length \<circ> cm_ordered) ms = map length dss \<and>
     map Some (concat (map cm_ordered ms)) = map outcome_digest os"
proof (induction dss arbitrary: c pre os ms)
  case Nil
  then show ?case by simp
next
  case (Cons ds dss)
  let ?js = "credential_jobs pid c 0 ds"
  let ?here = "take (length ds) os" and ?later = "drop (length ds) os"
  from Cons.prems(3) obtain m ms' where m: "assemble_disclosures (plan_disclosures ds) (map local_outcome ?here) = Ok m"
    and ms': "assemble_credentials plan [Suc c..<Suc c + length dss] (length (pre @ ?js)) ?later = Ok ms'"
    and ms: "ms = credential_mappings_of c m # ms'"
    unfolding assemble_credentials_step [OF Cons.prems(1)] rbind_eq_Ok by auto
  have ids: "map vo_id ?here = map vj_id ?js" "map vo_id ?later = map vj_id (batch_jobs pid (Suc c) dss)"
    using Cons.prems(2) unfolding batch_jobs_Cons map_append take_map [symmetric] drop_map [symmetric]
    by (simp_all add: credential_jobs_local del: batch_jobs.simps)
  have "map (vid_ordinal \<circ> vo_id) ?here = map vid_ordinal (map vj_id ?js)"
    by (simp flip: ids(1))
  also have "\<dots> = [0..<length ds]"
    by (simp add: credential_jobs_def comp_def split_def enumerate_eq_zip flip: map_map [of _ fst, unfolded comp_def])
  finally have dg: "map Some (dm_ordered m) = map outcome_digest ?here"
    by (rule assemble_disclosures_digests [OF m])
  have n: "length (dm_ordered m) = length ds"
    using arg_cong [OF ids(1), of length] arg_cong [OF dg, of length]
    by (simp only: length_map credential_jobs_local)
  have range: "[c..<c + length (ds # dss)] = c # [Suc c..<Suc c + length dss]"
    by (simp add: upt_conv_Cons del: upt_Suc)
  have split: "map outcome_digest os = map outcome_digest ?here @ map outcome_digest ?later"
    by (simp flip: map_append)
  from Cons.IH [OF remaining_next [OF Cons.prems(1)] ids(2) ms'] show ?case
    unfolding ms range split by (simp add: credential_mappings_of_def n dg)
qed

lemma check_pairs_Ok:
  "length os = length js \<Longrightarrow> check_pairs (zip js os) = Ok () \<longleftrightarrow>
     map (\<lambda>r. (vo_id r, vo_encoded r)) os = map (\<lambda>j. (vj_id j, vj_encoded j)) js"
proof (induction js arbitrary: os)
  case (Cons j js)
  then show ?case by (cases os) auto
qed simp

text \<open>Plan, credential, ordinal and text of a job and of an outcome.\<close>

definition verification_identity :: "verification_outcome \<Rightarrow> nat \<times> verification_job_id \<times> string" where
  "verification_identity r = (vo_plan_id r, vo_id r, vo_encoded r)"

definition planned_identity :: "verification_job \<Rightarrow> nat \<times> verification_job_id \<times> string" where
  "planned_identity j = (vj_plan_id j, vj_id j, vj_encoded j)"

lemma map_pair_eq:
  "map (\<lambda>x. (f x, g x)) xs = map (\<lambda>y. (f' y, g' y)) ys \<longleftrightarrow> map f xs = map f' ys \<and> map g xs = map g' ys"
proof (induction xs arbitrary: ys)
  case (Cons x xs)
  then show ?case by (cases ys) auto
qed auto

lemma validate_outcomes_Ok:
  assumes "\<forall>j \<in> set (bp_jobs plan). vj_plan_id j = bp_plan_id plan"
  shows "validate_outcomes plan os = Ok () \<longleftrightarrow> map verification_identity os = map planned_identity (bp_jobs plan)"
proof (cases "length os = length (bp_jobs plan)")
  case True
  have "find (\<lambda>r. vo_plan_id r \<noteq> bp_plan_id plan) os = None \<longleftrightarrow> map vo_plan_id os = map vj_plan_id (bp_jobs plan)"
  proof -
    have "map vj_plan_id (bp_jobs plan) = replicate (length os) (bp_plan_id plan)"
      using assms map_cong [of "bp_jobs plan" "bp_jobs plan" vj_plan_id "\<lambda>j. bp_plan_id plan"]
      by (simp add: True map_replicate_const)
    moreover have "map vo_plan_id os = replicate (length os) c \<longleftrightarrow> (\<forall>r \<in> set os. vo_plan_id r = c)" for c
      by (induction os) auto
    ultimately show ?thesis by (auto simp: find_None_iff)
  qed
  moreover have "map verification_identity os = map planned_identity (bp_jobs plan) \<longleftrightarrow>
      map vo_plan_id os = map vj_plan_id (bp_jobs plan) \<and>
      map (\<lambda>r. (vo_id r, vo_encoded r)) os = map (\<lambda>j. (vj_id j, vj_encoded j)) (bp_jobs plan)"
    unfolding verification_identity_def planned_identity_def by (rule map_pair_eq)
  ultimately show ?thesis
    using check_pairs_Ok [OF True] True
    by (auto simp: validate_outcomes_def rbind_eq_Ok split: option.split)
next
  case False
  then have "map verification_identity os \<noteq> map planned_identity (bp_jobs plan)"
    using map_eq_imp_length_eq by blast
  with False show ?thesis by (auto simp: validate_outcomes_def rbind_eq_Ok split: option.split)
qed

lemma batch_jobs_plan: "\<forall>j \<in> set (batch_jobs pid c dss). vj_plan_id j = pid"
  by (induction dss arbitrary: c) auto

subsection \<open>A sample batch\<close>

definition sample_allocator :: batch_allocator where
  "sample_allocator = \<lparr>reserve_counts = (\<lambda>n. True), reserve_jobs = (\<lambda>n. True)\<rparr>"

lemma sample_batch_new:
  "batch_plan_new sample_allocator [[''ee''], []] 1 = (Ok (batch_plan_of 1 [[''ee''], []]), 2)"
  by (simp add: batch_plan_new_Ok sample_allocator_def batch_within_limits_def usize_max_def
      MAX_DISCLOSURE_BATCH_CREDENTIALS_def MAX_SD_JWT_DISCLOSURES_def MAX_SD_JWT_DISCLOSURE_BYTES_def MAX_SD_JWT_INPUT_BYTES_def)

lemma sample_individually:
  "individually (sample_externals sample_world_1) 0 [[''ee''], []] =
     Ok [credential_mappings_of 0 (mappings_of (sample_externals sample_world_1) [''ee'']),
         credential_mappings_of 1 (mappings_of (sample_externals sample_world_1) [])]"
proof -
  have "serial_preprocess (sample_externals sample_world_1) ds = Ok (mappings_of (sample_externals sample_world_1) ds)"
    if "ds = [''ee''] \<or> ds = []" for ds
    using that sample_presentable by (auto simp: serial_preprocess_Ok presentable_def)
  then show ?thesis by simp
qed

subsection \<open>Batches\<close>

text \<open>C16. Preprocessing a batch is preprocessing each credential on its own. For a plan that can be
  made, the serial entry point gives the mappings of every credential in order, or the error of the
  first credential that fails and nothing else; and so does assembly from any executor that returns
  the processed jobs in whatever order.\<close>

theorem batch_is_individual:
  assumes "batch_plan_new A credentials next_id = (Ok plan, next_id')"
    and "mset outcomes = mset (map (process_job X) (bp_jobs plan))"
  shows "batch_assemble plan outcomes = individually X 0 credentials \<and>
     preprocess_batch X A credentials next_id = (individually X 0 credentials, next_id')"
proof -
  from assms(1) have plan: "plan = batch_plan_of next_id credentials" by (simp add: batch_plan_new_Ok)
  have "batch_assemble plan outcomes = individually X 0 credentials"
    using batch_assemble_processed [of outcomes X next_id credentials] assms(2) plan by (simp add: batch_plan_of_def)
  moreover have "snd (preprocess_batch X A credentials next_id) = next_id'"
    using assms(1) by (simp add: preprocess_batch_def preprocess_batch_with_executor_def)
  ultimately show ?thesis
    using preprocess_batch_individually [of X A credentials next_id] assms(1) by (simp add: prod_eq_iff)
qed

theorem batch_is_individual_witness:
  "fst (preprocess_batch (sample_externals sample_world_1) sample_allocator [[''ee''], []] 1) =
     Ok [credential_mappings_of 0 (mappings_of (sample_externals sample_world_1) [''ee'']),
         credential_mappings_of 1 (mappings_of (sample_externals sample_world_1) [])]"
  using batch_is_individual [OF sample_batch_new refl, of "sample_externals sample_world_1"] sample_individually by simp

text \<open>C21. Assembly accepts only the outcomes of its own plan. Whatever an executor returns, when
  assembly succeeds the outcomes are one for each planned job, with its plan, credential, ordinal
  and text; the plan has an identity no later plan gets; and the digests published for the
  credentials, in order, are those of their own outcomes: none is missing, foreign, or moved to
  another credential.\<close>

theorem batch_accepts_own_outcomes:
  assumes "batch_plan_new A credentials next_id = (Ok plan, next_id')" and "batch_assemble plan outcomes = Ok ms"
  shows "mset (map verification_identity outcomes) = mset (map planned_identity (bp_jobs plan)) \<and>
     list_all (\<lambda>r. vo_plan_id r = next_id) outcomes \<and> next_id < next_id' \<and>
     map cm_credential ms = [0..<length credentials] \<and>
     map (length \<circ> cm_ordered) ms = map length credentials \<and>
     map Some (concat (map cm_ordered ms)) = map outcome_digest (sort_key outcome_key outcomes)"
proof -
  let ?sorted = "sort_key outcome_key outcomes"
  from assms(1) have plan: "plan = batch_plan_of next_id credentials" and id: "next_id' = Suc next_id"
    by (simp_all add: batch_plan_new_Ok)
  have jobs: "bp_jobs plan = batch_jobs next_id 0 credentials" "bp_credential_count plan = length credentials"
    "bp_plan_id plan = next_id" by (simp_all add: plan batch_plan_of_def)
  from assms(2) have valid: "validate_outcomes plan ?sorted = Ok ()"
    and run: "assemble_credentials plan [0..<length credentials] 0 ?sorted = Ok ms"
    by (simp_all add: batch_assemble_def rbind_eq_Ok Let_def jobs)
  have same: "map verification_identity ?sorted = map planned_identity (bp_jobs plan)"
    using valid validate_outcomes_Ok [of plan ?sorted] batch_jobs_plan [of next_id 0 credentials] by (simp add: jobs)
  have perm: "mset (map verification_identity outcomes) = mset (map verification_identity ?sorted)" by simp
  have "map vo_id ?sorted = map vj_id (bp_jobs plan)"
    using arg_cong [OF same, of "map (fst \<circ> snd)"] by (simp add: comp_def verification_identity_def planned_identity_def)
  then have digests: "map cm_credential ms = [0..<length credentials] \<and>
     map (length \<circ> cm_ordered) ms = map length credentials \<and>
     map Some (concat (map cm_ordered ms)) = map outcome_digest ?sorted"
    using assemble_credentials_digests [OF remaining_start [of next_id credentials], where os = ?sorted and ms = ms] run
    by (simp add: plan) (simp add: batch_plan_of_def)
  have "vo_plan_id r = next_id" if "r \<in> set outcomes" for r
  proof -
    have "verification_identity r \<in> set (map planned_identity (bp_jobs plan))"
      using that by (simp flip: same)
    then show ?thesis
      using batch_jobs_plan [of next_id 0 credentials] by (auto simp: verification_identity_def planned_identity_def jobs)
  qed
  then show ?thesis using digests perm same id by (simp add: list_all_iff)
qed

theorem batch_accepts_own_outcomes_witness:
  "map outcome_digest (sort_key outcome_key (map (process_job (sample_externals sample_world_1)) (batch_jobs 1 0 [[''ee''], []])))
     = [Some ''gfgf'']"
proof -
  have "batch_assemble (batch_plan_of 1 [[''ee''], []]) (map (process_job (sample_externals sample_world_1)) (batch_jobs 1 0 [[''ee''], []]))
      = individually (sample_externals sample_world_1) 0 [[''ee''], []]"
    by (rule batch_assemble_processed) simp
  from batch_accepts_own_outcomes [OF sample_batch_new this [unfolded sample_individually]] show ?thesis
    by (simp add: credential_mappings_of_def mappings_of_def sample_hash del: batch_jobs.simps)
qed

end
