(* ===== verification/Benchmark_Matrix.thy ===== *)
theory Benchmark_Matrix
  imports Issuance_Trace Strategy
begin

text \<open>
  The benchmark matrix of src/src/issuer/issuance_benchmark.rs: the fixture cases, the stages and
  the requested routes with their labels and codes, the identifiers made from them, the ordered
  routes and paired cells, and the qualification manifest. That the identifiers do not repeat is
  proved at the end.
\<close>

subsection \<open>Reading slices and JSON values\<close>

text \<open>\<open>slice::get\<close> and \<open>Value::get\<close>, \<open>as_u64\<close>, \<open>as_bool\<close>, \<open>is_null\<close>.\<close>

definition slice_get :: "'a list \<Rightarrow> nat \<Rightarrow> 'a option" where
  "slice_get xs i = (if i < length xs then Some (xs ! i) else None)"

fun value_get :: "json \<Rightarrow> string \<Rightarrow> json option" where
  "value_get (Object m) k = map_get m k"
| "value_get v k = None"

fun as_u64 :: "json \<Rightarrow> nat option" where
  "as_u64 (Number (NU64 n)) = Some n"
| "as_u64 v = None"

fun as_bool :: "json \<Rightarrow> bool option" where
  "as_bool (Bool b) = Some b"
| "as_bool v = None"

definition is_null :: "json \<Rightarrow> bool" where
  "is_null v \<longleftrightarrow> (case v of Null \<Rightarrow> True | _ \<Rightarrow> False)"

subsection \<open>Cases, stages, routes\<close>

definition ISSUANCE_DISCLOSURE_COUNTS :: "nat list" where
  "ISSUANCE_DISCLOSURE_COUNTS = [1, 8, 32, 128, 512]"

definition ISSUANCE_BENCHMARK_GROUP_ID :: string where
  "ISSUANCE_BENCHMARK_GROUP_ID = ''sd_jwt_issuance''"

definition ISSUANCE_ROUTE_SCHEMA :: string where
  "ISSUANCE_ROUTE_SCHEMA = ''sd_jwt_issuance_route_v2''"

definition ISSUANCE_QUALIFICATION_MANIFEST_SCHEMA :: string where
  "ISSUANCE_QUALIFICATION_MANIFEST_SCHEMA = ''sd_jwt_issuance_qualification_manifest_v1''"

definition BENCHMARK_WORK_ESTIMATOR_VERSION :: string where
  "BENCHMARK_WORK_ESTIMATOR_VERSION = ''issuance_work_bytes_v1''"

definition BENCHMARK_STATIC_PARTITION_RULE_VERSION :: string where
  "BENCHMARK_STATIC_PARTITION_RULE_VERSION = ''contiguous_ceil_chunks_v1''"

definition ISSUANCE_FIXTURE_CASE_COUNT :: nat where "ISSUANCE_FIXTURE_CASE_COUNT = 33"

definition ISSUANCE_BENCHMARK_ID_COUNT :: nat where
  "ISSUANCE_BENCHMARK_ID_COUNT = ISSUANCE_FIXTURE_CASE_COUNT * 2 * 2"

definition ISSUANCE_PAIRED_CELL_COUNT :: nat where
  "ISSUANCE_PAIRED_CELL_COUNT = ISSUANCE_FIXTURE_CASE_COUNT * 2"

text \<open>The worker cap of a build, with the native executor or without it.\<close>

definition BENCHMARK_ISSUANCE_WORKER_CAP :: "bool \<Rightarrow> nat" where
  "BENCHMARK_ISSUANCE_WORKER_CAP par = (if par then MAX_PARALLEL_ISSUANCE_WORKERS else 1)"

datatype payload_class = Small | Medium | Large | Mixed

fun payload_label :: "payload_class \<Rightarrow> string" where
  "payload_label Small = ''small''"
| "payload_label Medium = ''medium_nested''"
| "payload_label Large = ''large_64_kib''"
| "payload_label Mixed = ''mixed_nested''"

fun payload_code :: "payload_class \<Rightarrow> string" where
  "payload_code Small = ''s''"
| "payload_code Medium = ''mn''"
| "payload_code Large = ''l64''"
| "payload_code Mixed = ''mx''"

datatype benchmark_stage = ExecutorAssembly | FullIssuance

fun stage_label :: "benchmark_stage \<Rightarrow> string" where
  "stage_label ExecutorAssembly = ''executor_assembly''"
| "stage_label FullIssuance = ''full_issuance''"

fun stage_code :: "benchmark_stage \<Rightarrow> string" where
  "stage_code ExecutorAssembly = ''ea''"
| "stage_code FullIssuance = ''fi''"

datatype benchmark_route = SerialOracle | AdaptiveCandidate

fun route_label :: "benchmark_route \<Rightarrow> string" where
  "route_label SerialOracle = ''serial_oracle''"
| "route_label AdaptiveCandidate = ''adaptive_candidate''"

fun route_code :: "benchmark_route \<Rightarrow> string" where
  "route_code SerialOracle = ''so''"
| "route_code AdaptiveCandidate = ''ac''"

datatype effective_route = EffectiveSerialOracle | EffectiveBoundedNative | MixedNativeAndSerial
  | ReadyBatchSerialFallback | BudgetSerialFallback | TargetSerialFallback

fun effective_label :: "effective_route \<Rightarrow> string" where
  "effective_label EffectiveSerialOracle = ''serial_oracle''"
| "effective_label EffectiveBoundedNative = ''bounded_native''"
| "effective_label MixedNativeAndSerial = ''mixed_native_and_serial''"
| "effective_label ReadyBatchSerialFallback = ''ready_batch_serial_fallback''"
| "effective_label BudgetSerialFallback = ''budget_serial_fallback''"
| "effective_label TargetSerialFallback = ''target_serial_fallback''"

datatype fixture_kind = StandardFixture payload_class bool | AllLevelsNestedObjects | AllLevelsArrayDag | TopLevelImbalanced

record benchmark_case =
  bc_disclosure_count :: nat
  bc_kind :: fixture_kind

text \<open>\<open>{:04}\<close>: the decimal numeral, filled with zeros to a width.\<close>

definition zero_padded :: "nat \<Rightarrow> nat \<Rightarrow> string" where
  "zero_padded width n = replicate (width - length (dec n)) (CHR ''0'') @ dec n"

definition fixture_id :: "benchmark_case \<Rightarrow> string" where
  "fixture_id c =
     (case bc_kind c of
        StandardFixture payload_class add_decoy_claims \<Rightarrow>
          ''payload_'' @ payload_label payload_class @ ''__decoys_'' @ (if add_decoy_claims then ''on'' else ''off'')
            @ ''__n_'' @ zero_padded 4 (bc_disclosure_count c)
      | AllLevelsNestedObjects \<Rightarrow> ''al_nested_obj_n0007''
      | AllLevelsArrayDag \<Rightarrow> ''al_array_dag_n0008''
      | TopLevelImbalanced \<Rightarrow> ''tl_imbalanced_n0008'')"

definition benchmark_id :: "benchmark_case \<Rightarrow> benchmark_stage \<Rightarrow> benchmark_route \<Rightarrow> string" where
  "benchmark_id c stage route =
     ''v2__s_'' @ stage_code stage @ ''__r_'' @ route_code route @
     (case bc_kind c of
        StandardFixture payload_class add_decoy_claims \<Rightarrow>
          ''__p_'' @ payload_code payload_class @ ''__d_'' @ dec (if add_decoy_claims then 1 else 0)
            @ ''__n_'' @ zero_padded 4 (bc_disclosure_count c)
      | _ \<Rightarrow> ''__f_'' @ fixture_id c)"

definition case_add_decoy_claims :: "benchmark_case \<Rightarrow> bool" where
  "case_add_decoy_claims c = (case bc_kind c of StandardFixture _ decoys \<Rightarrow> decoys | _ \<Rightarrow> False)"

definition case_disclosure_strategy :: "benchmark_case \<Rightarrow> strategy" where
  "case_disclosure_strategy c =
     (case bc_kind c of AllLevelsNestedObjects \<Rightarrow> AllLevels | AllLevelsArrayDag \<Rightarrow> AllLevels | _ \<Rightarrow> TopLevel)"

definition standard_cases :: "payload_class list \<Rightarrow> bool \<Rightarrow> benchmark_case list" where
  "standard_cases classes decoys =
     concat (map (\<lambda>cls. map (\<lambda>n. \<lparr>bc_disclosure_count = n, bc_kind = StandardFixture cls decoys\<rparr>)
       ISSUANCE_DISCLOSURE_COUNTS) classes)"

definition issuance_benchmark_cases :: "benchmark_case list" where
  "issuance_benchmark_cases =
     standard_cases [Small, Medium, Large, Mixed] False @ standard_cases [Small, Mixed] True @
     [\<lparr>bc_disclosure_count = 7, bc_kind = AllLevelsNestedObjects\<rparr>,
      \<lparr>bc_disclosure_count = 8, bc_kind = AllLevelsArrayDag\<rparr>,
      \<lparr>bc_disclosure_count = 8, bc_kind = TopLevelImbalanced\<rparr>]"

definition full_criterion_id :: "benchmark_case \<Rightarrow> benchmark_stage \<Rightarrow> benchmark_route \<Rightarrow> string" where
  "full_criterion_id c stage route = ISSUANCE_BENCHMARK_GROUP_ID @ ''/'' @ benchmark_id c stage route"

subsection \<open>The ordered matrix and the manifest\<close>

record qualification_route =
  qr_benchmark_id :: string
  qr_fixture_id :: string
  qr_stage :: benchmark_stage
  qr_requested :: benchmark_route

definition case_routes :: "benchmark_case \<Rightarrow> qualification_route list" where
  "case_routes c =
     concat (map (\<lambda>requested. map (\<lambda>stage.
       \<lparr>qr_benchmark_id = full_criterion_id c stage requested, qr_fixture_id = fixture_id c, qr_stage = stage,
        qr_requested = requested\<rparr>) [ExecutorAssembly, FullIssuance]) [SerialOracle, AdaptiveCandidate])"

definition qualification_routes :: "benchmark_case list \<Rightarrow> qualification_route list" where
  "qualification_routes cs = concat (map case_routes cs)"

definition qualification_criterion_ids :: "benchmark_case list \<Rightarrow> string list" where
  "qualification_criterion_ids cs = map qr_benchmark_id (qualification_routes cs)"

definition paired_cell :: "benchmark_case \<Rightarrow> benchmark_stage \<Rightarrow> json" where
  "paired_cell c stage =
     Object [(''fixture_id'', String (fixture_id c)), (''stage'', String (stage_label stage)),
       (''serial_id'', String (full_criterion_id c stage SerialOracle)),
       (''adaptive_id'', String (full_criterion_id c stage AdaptiveCandidate))]"

definition qualification_paired_cells :: "benchmark_case list \<Rightarrow> json list" where
  "qualification_paired_cells cs =
     concat (map (\<lambda>c. map (paired_cell c) [ExecutorAssembly, FullIssuance]) cs)"

definition json_usize :: "nat \<Rightarrow> json" where "json_usize n = Number (NU64 n)"

definition qualified_thresholds :: "benchmark_policy_facts \<Rightarrow> json result" where
  "qualified_thresholds policy =
     (case (bf_qualified_min_jobs policy, bf_qualified_min_estimated_work_bytes policy) of
        (Some jobs, Some bytes) \<Rightarrow>
          Ok (Object [(''min_jobs'', json_usize jobs), (''min_estimated_work_bytes'', json_usize bytes)])
      | (None, None) \<Rightarrow> Ok Null
      | _ \<Rightarrow> Panic)"

definition issuance_qualification_manifest_value :: "bool \<Rightarrow> json result" where
  "issuance_qualification_manifest_value par =
     (let cs = issuance_benchmark_cases; policy = benchmark_issuance_policy_facts
      in rbind (qualified_thresholds policy) (\<lambda>qualified.
         Ok (Object [
           (''schema'', String ISSUANCE_QUALIFICATION_MANIFEST_SCHEMA),
           (''benchmark_group_id'', String ISSUANCE_BENCHMARK_GROUP_ID),
           (''fixture_case_count'', json_usize ISSUANCE_FIXTURE_CASE_COUNT),
           (''benchmark_id_count'', json_usize ISSUANCE_BENCHMARK_ID_COUNT),
           (''paired_cell_count'', json_usize ISSUANCE_PAIRED_CELL_COUNT),
           (''cases'', Array (map (\<lambda>c. Object [(''fixture_id'', String (fixture_id c)),
              (''disclosure_count'', json_usize (bc_disclosure_count c))]) cs)),
           (''criterion_ids'', Array (map String (qualification_criterion_ids cs))),
           (''paired_cells'', Array (qualification_paired_cells cs)),
           (''route_schema'', String ISSUANCE_ROUTE_SCHEMA),
           (''work_estimator_version'', String BENCHMARK_WORK_ESTIMATOR_VERSION),
           (''static_partition_rule_version'', String BENCHMARK_STATIC_PARTITION_RULE_VERSION),
           (''worker_cap'', json_usize (BENCHMARK_ISSUANCE_WORKER_CAP par)),
           (''mechanical_benchmark_thresholds'', Object [
              (''min_jobs'', json_usize (bf_mechanical_min_jobs policy)),
              (''min_estimated_work_bytes'', json_usize (bf_mechanical_min_estimated_work_bytes policy))]),
           (''qualified_issuance_thresholds'', qualified)])))"

subsection \<open>The identifiers do not repeat\<close>

definition id_suffix :: "benchmark_case \<Rightarrow> string" where
  "id_suffix c =
     (case bc_kind c of
        StandardFixture payload_class add_decoy_claims \<Rightarrow>
          ''__p_'' @ payload_code payload_class @ ''__d_'' @ dec (if add_decoy_claims then 1 else 0)
            @ ''__n_'' @ zero_padded 4 (bc_disclosure_count c)
      | _ \<Rightarrow> ''__f_'' @ fixture_id c)"

lemma benchmark_id_eq:
  "benchmark_id c stage route = ''v2__s_'' @ stage_code stage @ ''__r_'' @ route_code route @ id_suffix c"
  by (simp add: benchmark_id_def id_suffix_def)

lemma full_criterion_id_eq:
  "full_criterion_id c stage route = full_criterion_id c' stage' route' \<longleftrightarrow>
     stage = stage' \<and> route = route' \<and> id_suffix c = id_suffix c'"
  by (cases stage; cases stage'; cases route; cases route') (simp_all add: full_criterion_id_def benchmark_id_eq)

lemma padded_counts [simp]:
  "zero_padded 4 (Suc 0) = ''0001''" "zero_padded 4 8 = ''0008''" "zero_padded 4 32 = ''0032''"
  "zero_padded 4 128 = ''0128''" "zero_padded 4 512 = ''0512''"
  by code_simp+

lemma dec_flags [simp]: "dec 0 = ''0''" "dec (Suc 0) = ''1''"
  by code_simp+

lemma id_suffixes_distinct: "distinct (map id_suffix issuance_benchmark_cases)"
  by (simp add: issuance_benchmark_cases_def standard_cases_def id_suffix_def ISSUANCE_DISCLOSURE_COUNTS_def
      fixture_id_def)

lemma criterion_ids_eq:
  "qualification_criterion_ids cs = concat (map (\<lambda>c.
     [full_criterion_id c ExecutorAssembly SerialOracle, full_criterion_id c FullIssuance SerialOracle,
      full_criterion_id c ExecutorAssembly AdaptiveCandidate, full_criterion_id c FullIssuance AdaptiveCandidate]) cs)"
  by (induction cs) (simp_all add: qualification_criterion_ids_def qualification_routes_def case_routes_def)

lemma in_criterion_ids:
  "i \<in> set (qualification_criterion_ids cs) \<longleftrightarrow> (\<exists>c\<in>set cs. \<exists>stage route. i = full_criterion_id c stage route)"
proof -
  have "i \<in> set [full_criterion_id c ExecutorAssembly SerialOracle, full_criterion_id c FullIssuance SerialOracle,
      full_criterion_id c ExecutorAssembly AdaptiveCandidate, full_criterion_id c FullIssuance AdaptiveCandidate]
      \<longleftrightarrow> (\<exists>stage route. i = full_criterion_id c stage route)" for c
    by (auto, metis (full_types) benchmark_route.exhaust benchmark_stage.exhaust)
  then show ?thesis
    by (simp add: criterion_ids_eq)
qed

lemma criterion_ids_distinct: "distinct (map id_suffix cs) \<Longrightarrow> distinct (qualification_criterion_ids cs)"
proof (induction cs)
  case (Cons c cs)
  have "set (qualification_criterion_ids [c]) \<inter> set (qualification_criterion_ids cs) = {}"
    using Cons.prems by (auto simp: in_criterion_ids full_criterion_id_eq)
  moreover have "distinct (qualification_criterion_ids [c])"
    by (simp add: criterion_ids_eq full_criterion_id_eq)
  moreover have "qualification_criterion_ids (c # cs) = qualification_criterion_ids [c] @ qualification_criterion_ids cs"
    by (simp add: criterion_ids_eq)
  ultimately show ?case
    using Cons by simp
qed (simp add: criterion_ids_eq)

lemma length_criterion_ids: "length (qualification_criterion_ids cs) = 4 * length cs"
  by (simp add: criterion_ids_eq length_concat comp_def sum_list_triv)

lemma length_paired_cells: "length (qualification_paired_cells cs) = 2 * length cs"
  by (simp add: qualification_paired_cells_def length_concat comp_def sum_list_triv)

lemma length_cases: "length issuance_benchmark_cases = ISSUANCE_FIXTURE_CASE_COUNT"
  by (simp add: issuance_benchmark_cases_def standard_cases_def ISSUANCE_DISCLOSURE_COUNTS_def
      ISSUANCE_FIXTURE_CASE_COUNT_def)

lemma paired_cell_nth:
  "i < length cs \<Longrightarrow> j < 2 \<Longrightarrow>
     qualification_paired_cells cs ! (2 * i + j) = paired_cell (cs ! i) ([ExecutorAssembly, FullIssuance] ! j)"
proof (induction cs arbitrary: i)
  case (Cons c cs)
  have step: "qualification_paired_cells (c # cs)
      = paired_cell c ExecutorAssembly # paired_cell c FullIssuance # qualification_paired_cells cs"
    by (simp add: qualification_paired_cells_def)
  show ?case
  proof (cases i)
    case 0
    then show ?thesis
      using Cons.prems by (auto simp: step less_2_cases_iff)
  next
    case (Suc k)
    then have "qualification_paired_cells (c # cs) ! (2 * i + j) = qualification_paired_cells cs ! (2 * k + j)"
      by (simp add: step)
    then show ?thesis
      using Suc Cons by simp
  qed
qed simp

end
