(* ===== verification/Host_Io.thy ===== *)
theory Host_Io
  imports Rust_Strings "HOL-Library.Word"
begin

text \<open>
  What the benchmark side of the crate uses of \<open>std::io\<close>, \<open>std::fs\<close>, \<open>std::env\<close> and
  \<open>std::path\<close>, for a Unix build. An operating-system string is a list of bytes, which may fail
  to be UTF-8; a path is such a string, and two paths are equal when their components are.

  The operating system is a record of functions, the argument \<open>K\<close> of every definition that
  calls it. The answer to a call depends on all the calls before it, so the system may change
  between two calls in any way, with or without the program's own writes. A computation maps the
  calls made so far to its outcome and to the calls made then, the latest first.
\<close>

subsection \<open>Errors of \<open>std::io\<close>\<close>

datatype io_kind = InvalidDataKind | InvalidInputKind | NotFoundKind | OtherKind

datatype io_error = IoError io_kind string

fun kind_of :: "io_error \<Rightarrow> io_kind" where
  "kind_of (IoError k m) = k"

subsection \<open>Operating-system strings and paths\<close>

type_synonym os_string = string
type_synonym path = string

text \<open>\<open>OsString::into_string\<close>: the bytes have to be the UTF-8 encoding of scalar values.\<close>

definition valid_utf8 :: "os_string \<Rightarrow> bool" where
  "valid_utf8 s \<longleftrightarrow> list_all is_scalar (chars s) \<and> concat (map utf8_encode (chars s)) = s"

definition into_string :: "os_string \<Rightarrow> string option" where
  "into_string s = (if valid_utf8 s then Some s else None)"

definition is_absolute :: "path \<Rightarrow> bool" where
  "is_absolute p \<longleftrightarrow> (case p of [] \<Rightarrow> False | c # _ \<Rightarrow> c = CHR ''/'')"

text \<open>
  \<open>Path::components\<close>: the parts between separators, without the empty ones and without \<open>.\<close>,
  which counts only at the start of a relative path; whether the path is absolute is the root.
\<close>

definition path_components :: "path \<Rightarrow> bool \<times> string list" where
  "path_components p =
     (let parts = split_on (CHR ''/'') p; keep = filter (\<lambda>q. q \<noteq> [] \<and> q \<noteq> ''.'')
      in (is_absolute p,
          if \<not> is_absolute p \<and> hd parts = ''.'' then ''.'' # keep (tl parts) else keep parts))"

definition path_eq :: "path \<Rightarrow> path \<Rightarrow> bool" where
  "path_eq p q \<longleftrightarrow> path_components p = path_components q"

definition path_join :: "path \<Rightarrow> path \<Rightarrow> path" where
  "path_join p q =
     (if is_absolute q then q
      else if p = [] \<or> last p = CHR ''/'' then p @ q
      else p @ ''/'' @ q)"

text \<open>
  \<open>Path::parent\<close> on the reversed text: trailing separators and \<open>.\<close> parts go, then the last
  component, then trailing separators again; a root has no parent.
\<close>

fun trim_reversed :: "string \<Rightarrow> string" where
  "trim_reversed (c # d # r) =
     (if c = CHR ''/'' then trim_reversed (d # r)
      else if c = CHR ''.'' \<and> d = CHR ''/'' then trim_reversed (d # r)
      else c # d # r)"
| "trim_reversed r = r"

definition path_parent :: "path \<Rightarrow> path option" where
  "path_parent p =
     (let r = trim_reversed (rev p)
      in if r = [] \<or> r = ''/'' then None
         else Some (rev (trim_reversed (dropWhile (\<lambda>c. c \<noteq> CHR ''/'') r))))"

subsection \<open>The operating system\<close>

text \<open>What \<open>fs::Metadata\<close> reports of a file on Unix, in the widths of the platform calls.\<close>

record metadata =
  md_is_symlink :: bool
  md_is_dir :: bool
  md_is_file :: bool
  md_len :: nat
  md_nlink :: nat
  md_dev :: nat
  md_ino :: nat
  md_mode :: nat
  md_mtime :: "64 word"
  md_mtime_nsec :: int
  md_ctime :: "64 word"
  md_ctime_nsec :: int

type_synonym handle = nat

datatype os_call =
    SymlinkMetadata path
  | FirstDirEntry path
  | OpenNoFollow path
  | HandleMetadata handle
  | ReadHandle handle nat
  | ReadToEnd handle nat
  | Canonicalize path
  | StdoutWrite string
  | StdoutFlush
  | StdinReadToEnd nat
  | CreateNew path
  | WriteAll handle string
  | FlushHandle handle
  | SyncHandle handle
  | OpenDirectory path

type_synonym history = "os_call list"

text \<open>
  The process (its arguments with the program name first, its environment, its working directory and
  executable) and the system's answers. \<open>os_first_entry\<close> is \<open>read_dir\<close> with the first step of its
  iterator.
\<close>

record os =
  os_args :: "os_string list"
  os_vars :: "(os_string \<times> os_string) list"
  os_current_dir :: "io_error + path"
  os_current_exe :: "io_error + path"
  os_symlink_metadata :: "history \<Rightarrow> path \<Rightarrow> io_error + metadata"
  os_first_entry :: "history \<Rightarrow> path \<Rightarrow> io_error + (io_error + path) option"
  os_open_no_follow :: "history \<Rightarrow> path \<Rightarrow> io_error + handle"
  os_handle_metadata :: "history \<Rightarrow> handle \<Rightarrow> io_error + metadata"
  os_read :: "history \<Rightarrow> handle \<Rightarrow> nat \<Rightarrow> io_error + string"
  os_read_to_end :: "history \<Rightarrow> handle \<Rightarrow> io_error + string"
  os_canonicalize :: "history \<Rightarrow> path \<Rightarrow> io_error + path"
  os_stdout_write :: "history \<Rightarrow> string \<Rightarrow> io_error + unit"
  os_stdout_flush :: "history \<Rightarrow> io_error + unit"
  os_stdin_read_to_end :: "history \<Rightarrow> io_error + string"
  os_create_new :: "history \<Rightarrow> path \<Rightarrow> io_error + handle"
  os_write_all :: "history \<Rightarrow> handle \<Rightarrow> string \<Rightarrow> io_error + unit"
  os_flush :: "history \<Rightarrow> handle \<Rightarrow> io_error + unit"
  os_sync_all :: "history \<Rightarrow> handle \<Rightarrow> io_error + unit"
  os_open_directory :: "history \<Rightarrow> path \<Rightarrow> io_error + handle"

definition var_os :: "os \<Rightarrow> string \<Rightarrow> os_string option" where
  "var_os K name = map_of (os_vars K) name"

subsection \<open>Computations\<close>

type_synonym 'a io = "history \<Rightarrow> (io_error + 'a) \<times> history"

definition io_of :: "io_error + 'a \<Rightarrow> 'a io" where
  "io_of r = (\<lambda>h. (r, h))"

definition io_ok :: "'a \<Rightarrow> 'a io" where
  "io_ok x = io_of (Inr x)"

definition io_err :: "io_error \<Rightarrow> 'a io" where
  "io_err e = io_of (Inl e)"

definition io_bind :: "'a io \<Rightarrow> ('a \<Rightarrow> 'b io) \<Rightarrow> 'b io" where
  "io_bind m f = (\<lambda>h. case m h of (Inl e, h') \<Rightarrow> (Inl e, h') | (Inr x, h') \<Rightarrow> f x h')"

definition io_call :: "os_call \<Rightarrow> (history \<Rightarrow> io_error + 'a) \<Rightarrow> 'a io" where
  "io_call c answer = (\<lambda>h. (answer h, c # h))"

text \<open>\<open>.map_err(|_| e)\<close>, and \<open>if c { return Err(e) }\<close>.\<close>

definition io_map_err :: "io_error \<Rightarrow> 'a io \<Rightarrow> 'a io" where
  "io_map_err e m = (\<lambda>h. case m h of (Inl _, h') \<Rightarrow> (Inl e, h') | (Inr x, h') \<Rightarrow> (Inr x, h'))"

definition io_require :: "bool \<Rightarrow> io_error \<Rightarrow> unit io" where
  "io_require c e = io_of (if c then Inr () else Inl e)"

fun sum_bind :: "'e + 'a \<Rightarrow> ('a \<Rightarrow> 'e + 'b) \<Rightarrow> 'e + 'b" where
  "sum_bind (Inl e) f = Inl e"
| "sum_bind (Inr x) f = f x"

subsection \<open>Lemmas\<close>

lemma io_bind_cong [fundef_cong]:
  "m h = m' h' \<Longrightarrow> (\<And>x k. m' h' = (Inr x, k) \<Longrightarrow> f x k = g x k) \<Longrightarrow> h = h' \<Longrightarrow> io_bind m f h = io_bind m' g h'"
  by (auto simp: io_bind_def split: prod.split sum.split)

lemma sum_bind_eq_Inr: "sum_bind m f = Inr y \<longleftrightarrow> (\<exists>x. m = Inr x \<and> f x = Inr y)"
  by (cases m) auto

named_theorems io_iff \<open>when a computation returns a value, and with which calls\<close>

lemma io_of_iff [io_iff]: "io_of r h = (Inr x, h') \<longleftrightarrow> r = Inr x \<and> h' = h"
  by (auto simp: io_of_def)

lemma io_ok_iff [io_iff]: "io_ok y h = (Inr x, h') \<longleftrightarrow> y = x \<and> h' = h"
  by (auto simp: io_ok_def io_of_def)

lemma io_err_iff [io_iff]: "io_err e h = (Inr x, h') \<longleftrightarrow> False"
  by (simp add: io_err_def io_of_def)

lemma io_require_iff [io_iff]: "io_require c e h = (Inr x, h') \<longleftrightarrow> c \<and> h' = h"
  by (auto simp: io_require_def io_of_def)

lemma io_call_iff [io_iff]: "io_call c answer h = (Inr x, h') \<longleftrightarrow> answer h = Inr x \<and> h' = c # h"
  by (auto simp: io_call_def)

lemma io_map_err_iff [io_iff]: "io_map_err e m h = (Inr x, h') \<longleftrightarrow> m h = (Inr x, h')"
  by (auto simp: io_map_err_def split: prod.splits sum.splits)

lemma io_bind_iff [io_iff]:
  "io_bind m f h = (Inr y, h') \<longleftrightarrow> (\<exists>x k. m h = (Inr x, k) \<and> f x k = (Inr y, h'))"
  by (auto simp: io_bind_def split: prod.splits sum.splits)

text \<open>
  \<open>makes P m\<close>: whatever the system answers and whatever the outcome, the calls \<open>m\<close> makes all
  satisfy \<open>P\<close>.
\<close>

definition makes :: "(os_call \<Rightarrow> bool) \<Rightarrow> 'a io \<Rightarrow> bool" where
  "makes P m \<longleftrightarrow> (\<forall>h. \<exists>cs. snd (m h) = cs @ h \<and> list_all P cs)"

lemma makesD: "makes P m \<Longrightarrow> m h = (r, h') \<Longrightarrow> \<exists>cs. h' = cs @ h \<and> list_all P cs"
  unfolding makes_def by (metis snd_conv)

named_theorems makes_intro \<open>which calls a computation makes\<close>

lemma makes_of [makes_intro]: "makes P (io_of r)"
  by (auto simp: makes_def io_of_def)

lemma makes_ok [makes_intro]: "makes P (io_ok x)"
  by (simp add: io_ok_def makes_of)

lemma makes_err [makes_intro]: "makes P (io_err e)"
  by (simp add: io_err_def makes_of)

lemma makes_require [makes_intro]: "makes P (io_require c e)"
  by (simp add: io_require_def makes_of)

lemma makes_call [makes_intro]: "P c \<Longrightarrow> makes P (io_call c answer)"
  by (simp add: makes_def io_call_def)

lemma makes_map_err [makes_intro]: "makes P m \<Longrightarrow> makes P (io_map_err e m)"
  by (auto simp: makes_def io_map_err_def split: prod.splits sum.splits) (metis snd_conv)+

lemma makes_bind [makes_intro]: "makes P m \<Longrightarrow> (\<And>x. makes P (f x)) \<Longrightarrow> makes P (io_bind m f)"
proof -
  assume m: "makes P m" and f: "\<And>x. makes P (f x)"
  have "\<exists>cs. snd (io_bind m f h) = cs @ h \<and> list_all P cs" for h
  proof -
    obtain r k where r: "m h = (r, k)"
      by fastforce
    then obtain cs where k: "k = cs @ h" "list_all P cs"
      using makesD [OF m] by blast
    show ?thesis
    proof (cases r)
      case (Inl e)
      then show ?thesis
        using r k by (auto simp: io_bind_def)
    next
      case (Inr x)
      obtain ds where "snd (f x k) = ds @ k" "list_all P ds"
        using f [of x] by (auto simp: makes_def)
      then show ?thesis
        using Inr r k by (intro exI [of _ "ds @ cs"]) (simp add: io_bind_def)
    qed
  qed
  then show ?thesis
    by (simp add: makes_def)
qed

lemma makes_mono: "makes P m \<Longrightarrow> (\<And>c. P c \<Longrightarrow> Q c) \<Longrightarrow> makes Q m"
  unfolding makes_def by (metis (no_types, lifting) list_all_iff)

end
