(* ===== verification/Route_Invocation.thy ===== *)
theory Route_Invocation
  imports Benchmark_Matrix Host_Io
begin

text \<open>
  The selection of one benchmark of src/src/issuer/issuance_benchmark.rs by the environment and
  the process arguments: \<open>validate_issuance_route_invocation\<close> and the frozen list of Criterion
  arguments, with what they accept.
\<close>

definition ISSUANCE_ROUTE_NDJSON_ENV :: string where
  "ISSUANCE_ROUTE_NDJSON_ENV = ''SD_JWT_ISSUANCE_ROUTE_NDJSON''"

definition ISSUANCE_ROUTE_BENCHMARK_ID_ENV :: string where
  "ISSUANCE_ROUTE_BENCHMARK_ID_ENV = ''SD_JWT_ISSUANCE_ROUTE_BENCHMARK_ID''"

record validated_invocation =
  vi_destination :: path
  vi_selected_route_index :: nat

text \<open>\<open>Iterator::position\<close>.\<close>

fun position :: "('a \<Rightarrow> bool) \<Rightarrow> 'a list \<Rightarrow> nat option" where
  "position P [] = None"
| "position P (x # xs) = (if P x then Some 0 else map_option Suc (position P xs))"

definition invalid_input :: "string \<Rightarrow> io_error" where
  "invalid_input m = IoError InvalidInputKind m"

text \<open>\<open>collect::<io::Result<Vec<_>>>\<close> over \<open>into_string\<close>: the first string that fails decides.\<close>

fun into_strings :: "io_error \<Rightarrow> os_string list \<Rightarrow> io_error + string list" where
  "into_strings e [] = Inr []"
| "into_strings e (a # as) =
     (case into_string a of
        None \<Rightarrow> Inl e
      | Some s \<Rightarrow> sum_bind (into_strings e as) (\<lambda>ss. Inr (s # ss)))"

definition expected_arguments :: "string \<Rightarrow> string list" where
  "expected_arguments selected_benchmark_id =
     [''--bench'', ''--exact'', selected_benchmark_id, ''--sample-size'', ''50'', ''--nresamples'', ''100000'',
      ''--warm-up-time'', ''15'', ''--measurement-time'', ''10'', ''--confidence-level'', ''0.95'',
      ''--save-baseline'', ''base'', ''--noplot'']"

definition validate_qualification_criterion_arguments :: "os_string list \<Rightarrow> string \<Rightarrow> io_error + unit" where
  "validate_qualification_criterion_arguments criterion_arguments selected_benchmark_id =
     sum_bind (into_strings (invalid_input ''Criterion qualification arguments must be UTF-8'')
       criterion_arguments) (\<lambda>arguments.
     if arguments \<noteq> expected_arguments selected_benchmark_id
     then Inl (invalid_input ''Criterion arguments do not match the frozen qualification invocation'')
     else Inr ())"

definition validate_issuance_route_invocation ::
    "os_string option \<Rightarrow> os_string option \<Rightarrow> os_string list \<Rightarrow> io_error + validated_invocation option" where
  "validate_issuance_route_invocation destination selected criterion_arguments =
     (case (destination, selected) of
        (None, None) \<Rightarrow> Inr None
      | (Some destination, Some selected) \<Rightarrow>
          (case into_string selected of
             None \<Rightarrow> Inl (invalid_input ''issuance route selector must be UTF-8'')
           | Some selected_benchmark_id \<Rightarrow>
               (case position (\<lambda>route. qr_benchmark_id route = selected_benchmark_id)
                       (qualification_routes issuance_benchmark_cases) of
                  None \<Rightarrow> Inl (invalid_input
                    ''issuance route selector must be one exact canonical full benchmark ID'')
                | Some index \<Rightarrow>
                    sum_bind (validate_qualification_criterion_arguments criterion_arguments
                      selected_benchmark_id) (\<lambda>_.
                    if \<not> is_absolute destination
                    then Inl (invalid_input ''issuance route evidence destination must be absolute'')
                    else Inr (Some \<lparr>vi_destination = destination, vi_selected_route_index = index\<rparr>))))
      | _ \<Rightarrow> Inl (invalid_input ''issuance route selector and destination must be supplied together''))"

subsection \<open>Lemmas\<close>

lemma position_eq_Some:
  "position P xs = Some i \<longleftrightarrow> i < length xs \<and> P (xs ! i) \<and> (\<forall>j<i. \<not> P (xs ! j))"
proof (induction xs arbitrary: i)
  case (Cons x xs)
  show ?case
  proof (cases i)
    case 0
    then show ?thesis by auto
  next
    case (Suc k)
    have "(\<forall>j<Suc k. \<not> P ((x # xs) ! j)) \<longleftrightarrow> \<not> P x \<and> (\<forall>j<k. \<not> P (xs ! j))"
      by (auto simp: less_Suc_eq_0_disj)
    then show ?thesis
      using Suc Cons.IH by auto
  qed
qed simp

lemma into_string_eq_Some: "into_string s = Some t \<longleftrightarrow> valid_utf8 s \<and> t = s"
  by (auto simp: into_string_def)

lemma into_strings_eq_Inr: "into_strings e as = Inr ss \<longleftrightarrow> list_all valid_utf8 as \<and> ss = as"
  by (induction as arbitrary: ss)
     (auto simp: sum_bind_eq_Inr into_string_eq_Some into_string_def split: option.splits)

lemma criterion_arguments_eq_Inr:
  "validate_qualification_criterion_arguments arguments benchmark = Inr u \<longleftrightarrow>
     list_all valid_utf8 arguments \<and> arguments = expected_arguments benchmark"
  by (auto simp: validate_qualification_criterion_arguments_def sum_bind_eq_Inr into_strings_eq_Inr)

lemma validate_invocation_eq_Some:
  "validate_issuance_route_invocation destination selected arguments = Inr (Some v) \<longleftrightarrow>
     (\<exists>d benchmark. destination = Some d \<and> selected = Some benchmark \<and> valid_utf8 benchmark \<and>
        position (\<lambda>route. qr_benchmark_id route = benchmark) (qualification_routes issuance_benchmark_cases)
          = Some (vi_selected_route_index v) \<and>
        list_all valid_utf8 arguments \<and> arguments = expected_arguments benchmark \<and>
        is_absolute d \<and> vi_destination v = d)"
proof -
  have v: "v = \<lparr>vi_destination = d, vi_selected_route_index = i\<rparr> \<longleftrightarrow>
      vi_destination v = d \<and> vi_selected_route_index v = i" for d i
    by (cases v) auto
  show ?thesis
    unfolding validate_issuance_route_invocation_def
    by (auto simp: sum_bind_eq_Inr criterion_arguments_eq_Inr into_string_def v
        split: option.splits if_splits)
qed

end
