(* ===== verification/Launch_Records.thy ===== *)
theory Launch_Records
  imports Route_Invocation
begin

text \<open>
  The pure part of the launch barrier, src/src/issuer/issuance_benchmark/launch_barrier.rs, in its
  Unix build: the frozen schedule, the token, ready, release and receipt records, and the validation
  of identifiers, fingerprints and timestamps. The derived JSON codecs of the records and SHA-256
  are a record of functions, the argument \<open>C\<close>.
\<close>

subsection \<open>Constants and the schedule\<close>

definition cfg_windows :: bool where
  "cfg_windows = False"

definition MARTY_PERF_START_BARRIER_ENV :: string where
  "MARTY_PERF_START_BARRIER_ENV = ''MARTY_PERF_START_BARRIER''"
definition CRITERION_HOME_ENV :: string where "CRITERION_HOME_ENV = ''CRITERION_HOME''"
definition NO_COLOR_ENV :: string where "NO_COLOR_ENV = ''NO_COLOR''"
definition RUST_BACKTRACE_ENV :: string where "RUST_BACKTRACE_ENV = ''RUST_BACKTRACE''"
definition TEMP_ENV :: string where "TEMP_ENV = ''TEMP''"
definition TMP_ENV :: string where "TMP_ENV = ''TMP''"
definition SYSTEM_ROOT_ENV :: string where "SYSTEM_ROOT_ENV = ''SystemRoot''"
definition WINDIR_ENV :: string where "WINDIR_ENV = ''WINDIR''"

definition TOKEN_SCHEMA :: string where
  "TOKEN_SCHEMA = ''marty.performance/sd-jwt-issuance-launch-token/v1''"
definition READY_SCHEMA :: string where
  "READY_SCHEMA = ''marty.performance/sd-jwt-issuance-launch-ready/v1''"
definition RELEASE_SCHEMA :: string where
  "RELEASE_SCHEMA = ''marty.performance/sd-jwt-issuance-launch-release/v1''"
definition RECEIPT_SCHEMA :: string where
  "RECEIPT_SCHEMA = ''marty.performance/sd-jwt-issuance-launch-receipt/v1''"

definition MAX_LAUNCH_FRAME_BYTES :: nat where "MAX_LAUNCH_FRAME_BYTES = 64 * 1024"
definition MAX_BARRIER_ARTIFACT_BYTES :: nat where "MAX_BARRIER_ARTIFACT_BYTES = 16 * 1024 * 1024"
definition MAX_FIXED_BINARY_BYTES :: nat where "MAX_FIXED_BINARY_BYTES = 2147483648"
definition MAX_GLOBAL_ROUNDS :: nat where "MAX_GLOBAL_ROUNDS = 20"
definition MAX_CELLS :: nat where "MAX_CELLS = 66"
definition MAX_EXPANSION_POSITIONS :: nat where "MAX_EXPANSION_POSITIONS = 8"

datatype superblock_order = AbbaFirst | BaabFirst

definition SUPERBLOCK_ORDERS :: "superblock_order list" where
  "SUPERBLOCK_ORDERS =
     [AbbaFirst, BaabFirst, BaabFirst, AbbaFirst, BaabFirst, AbbaFirst, AbbaFirst, BaabFirst, AbbaFirst, BaabFirst,
      BaabFirst, AbbaFirst, AbbaFirst, BaabFirst, BaabFirst, AbbaFirst, BaabFirst, AbbaFirst, BaabFirst, AbbaFirst]"

definition ABBA_EXPANSION :: "benchmark_route list" where
  "ABBA_EXPANSION =
     [SerialOracle, AdaptiveCandidate, AdaptiveCandidate, SerialOracle,
      AdaptiveCandidate, SerialOracle, SerialOracle, AdaptiveCandidate]"

definition BAAB_EXPANSION :: "benchmark_route list" where
  "BAAB_EXPANSION =
     [AdaptiveCandidate, SerialOracle, SerialOracle, AdaptiveCandidate,
      SerialOracle, AdaptiveCandidate, AdaptiveCandidate, SerialOracle]"

text \<open>\<open>?\<close> on options.\<close>

definition scheduled_benchmark_id :: "nat \<Rightarrow> nat \<Rightarrow> nat \<Rightarrow> string option" where
  "scheduled_benchmark_id global_round_ordinal cell_ordinal expansion_position =
     Option.bind (slice_get SUPERBLOCK_ORDERS global_round_ordinal) (\<lambda>order.
     Option.bind (case order of
         AbbaFirst \<Rightarrow> slice_get ABBA_EXPANSION expansion_position
       | BaabFirst \<Rightarrow> slice_get BAAB_EXPANSION expansion_position) (\<lambda>requested.
     let id_field = (case requested of SerialOracle \<Rightarrow> ''serial_id'' | AdaptiveCandidate \<Rightarrow> ''adaptive_id'')
     in Option.bind (slice_get (qualification_paired_cells issuance_benchmark_cases) cell_ordinal) (\<lambda>cell.
        Option.bind (value_get cell id_field) as_str)))"

subsection \<open>The records of the protocol\<close>

record artifact_fingerprint =
  af_sha256 :: string
  af_byte_length :: nat

record launch_token =
  lt_schema :: string
  lt_campaign_id :: string
  lt_global_round_ordinal :: nat
  lt_cell_ordinal :: nat
  lt_expansion_position :: nat
  lt_timing_process_id :: string
  lt_nonce_uppercase_hex_256 :: string
  lt_process_identity_pseudonym :: string

record launch_ready_frame =
  ry_schema :: string
  ry_campaign_id :: string
  ry_global_round_ordinal :: nat
  ry_cell_ordinal :: nat
  ry_expansion_position :: nat
  ry_timing_process_id :: string
  ry_process_identity_pseudonym :: string
  ry_launch_token_fingerprint :: artifact_fingerprint
  ry_fixed_binary_fingerprint :: artifact_fingerprint

record launch_release_frame =
  rl_schema :: string
  rl_campaign_id :: string
  rl_global_round_ordinal :: nat
  rl_cell_ordinal :: nat
  rl_expansion_position :: nat
  rl_timing_process_id :: string
  rl_process_identity_pseudonym :: string
  rl_launch_token_fingerprint :: artifact_fingerprint
  rl_ready_frame_fingerprint :: artifact_fingerprint
  rl_process_start_record_fingerprint :: artifact_fingerprint
  rl_prepared_at_utc_rfc3339_nanoseconds :: string
  rl_prepared_at_monotonic_nanoseconds :: nat

record launch_receipt =
  rc_schema :: string
  rc_campaign_id :: string
  rc_global_round_ordinal :: nat
  rc_cell_ordinal :: nat
  rc_expansion_position :: nat
  rc_timing_process_id :: string
  rc_process_identity_pseudonym :: string
  rc_launch_token_fingerprint :: artifact_fingerprint
  rc_ready_frame_fingerprint :: artifact_fingerprint
  rc_release_frame_fingerprint :: artifact_fingerprint
  rc_process_start_record_fingerprint :: artifact_fingerprint
  rc_fixed_binary_fingerprint :: artifact_fingerprint

record prepared_barrier =
  pb_token :: launch_token
  pb_token_fingerprint :: artifact_fingerprint
  pb_fixed_binary_fingerprint :: artifact_fingerprint
  pb_ready_bytes :: string
  pb_ready_fingerprint :: artifact_fingerprint
  pb_campaign_root :: path
  pb_criterion_home :: path
  pb_route_path :: path
  pb_temp_path :: path
  pb_receipt_path :: path

record launch_codec =
  lc_sha256 :: "string \<Rightarrow> string"
  token_from_slice :: "string \<Rightarrow> string + launch_token"
  token_to_vec_pretty :: "launch_token \<Rightarrow> string + string"
  ready_to_vec :: "launch_ready_frame \<Rightarrow> string + string"
  release_from_slice :: "string \<Rightarrow> string + launch_release_frame"
  release_to_vec :: "launch_release_frame \<Rightarrow> string + string"
  receipt_to_vec_pretty :: "launch_receipt \<Rightarrow> string + string"

definition protocol_error :: "string \<Rightarrow> io_error" where
  "protocol_error message = IoError InvalidDataKind message"

text \<open>\<open>.map_err(|_| protocol_error(message))\<close> on a result of another crate.\<close>

definition or_protocol_error :: "string + 'a \<Rightarrow> string \<Rightarrow> io_error + 'a" where
  "or_protocol_error r message = (case r of Inl _ \<Rightarrow> Inl (protocol_error message) | Inr x \<Rightarrow> Inr x)"

subsection \<open>Identifiers, fingerprints, timestamps\<close>

text \<open>\<open>{:02}\<close> is \<open>zero_padded 2\<close>.\<close>

definition timing_process_id :: "launch_token \<Rightarrow> string" where
  "timing_process_id t =
     ''r'' @ zero_padded 2 (lt_global_round_ordinal t) @ ''-c'' @ zero_padded 2 (lt_cell_ordinal t)
       @ ''-e'' @ dec (lt_expansion_position t)"

definition coordinate_stem :: "launch_token \<Rightarrow> string" where
  "coordinate_stem t =
     ''r'' @ zero_padded 2 (lt_global_round_ordinal t) @ ''_c'' @ zero_padded 2 (lt_cell_ordinal t)
       @ ''_e'' @ dec (lt_expansion_position t)"

definition fixed_binary_name :: string where
  "fixed_binary_name = (if cfg_windows then ''fixed-benchmark.exe'' else ''fixed-benchmark'')"

definition is_ascii_digit :: "char \<Rightarrow> bool" where
  "is_ascii_digit c \<longleftrightarrow> 48 \<le> byte c \<and> byte c \<le> 57"

definition lower_a_to_f :: "char \<Rightarrow> bool" where
  "lower_a_to_f c \<longleftrightarrow> 97 \<le> byte c \<and> byte c \<le> 102"

definition upper_a_to_f :: "char \<Rightarrow> bool" where
  "upper_a_to_f c \<longleftrightarrow> 65 \<le> byte c \<and> byte c \<le> 70"

definition valid_uuid_v4 :: "string \<Rightarrow> bool" where
  "valid_uuid_v4 bytes \<longleftrightarrow>
     length bytes = 36 \<and>
     bytes ! 8 = CHR ''-'' \<and> bytes ! 13 = CHR ''-'' \<and> bytes ! 18 = CHR ''-'' \<and> bytes ! 23 = CHR ''-'' \<and>
     bytes ! 14 = CHR ''4'' \<and> bytes ! 19 \<in> {CHR ''8'', CHR ''9'', CHR ''a'', CHR ''b''} \<and>
     list_all (\<lambda>(index, c). index \<in> {8, 13, 18, 23} \<or> is_ascii_digit c \<or> lower_a_to_f c) (enumerate 0 bytes)"

definition valid_uppercase_hex_256 :: "string \<Rightarrow> bool" where
  "valid_uppercase_hex_256 s \<longleftrightarrow> length s = 64 \<and> list_all (\<lambda>c. is_ascii_digit c \<or> upper_a_to_f c) s"

definition valid_artifact_fingerprint :: "artifact_fingerprint \<Rightarrow> nat \<Rightarrow> nat \<Rightarrow> bool" where
  "valid_artifact_fingerprint f minimum_bytes maximum_bytes \<longleftrightarrow>
     length (af_sha256 f) = 64 \<and> list_all (\<lambda>c. is_ascii_digit c \<or> upper_a_to_f c) (af_sha256 f) \<and>
     minimum_bytes \<le> af_byte_length f \<and> af_byte_length f \<le> maximum_bytes"

definition u32_checked :: "nat \<Rightarrow> nat option" where
  "u32_checked n = (if n < 2 ^ 32 then Some n else None)"

fun ascii_decimal_from :: "nat \<Rightarrow> string \<Rightarrow> nat option" where
  "ascii_decimal_from v [] = Some v"
| "ascii_decimal_from v (c # cs) =
     Option.bind (u32_checked (v * 10)) (\<lambda>tens.
     Option.bind (if byte c < 48 then None else Some (byte c - 48)) (\<lambda>d.
     Option.bind (u32_checked (tens + d)) (\<lambda>v'. ascii_decimal_from v' cs)))"

definition ascii_decimal :: "string \<Rightarrow> nat option" where
  "ascii_decimal bytes = ascii_decimal_from 0 bytes"

definition is_leap_year :: "nat \<Rightarrow> bool" where
  "is_leap_year year \<longleftrightarrow> 4 dvd year \<and> (\<not> 100 dvd year \<or> 400 dvd year)"

definition month_days :: "nat \<Rightarrow> nat \<Rightarrow> nat option" where
  "month_days year month =
     (if month \<in> {1, 3, 5, 7, 8, 10, 12} then Some 31
      else if month \<in> {4, 6, 9, 11} then Some 30
      else if month = 2 then Some (if is_leap_year year then 29 else 28)
      else None)"

text \<open>\<open>&bytes[from..to]\<close> on a slice that is long enough.\<close>

definition slice :: "'a list \<Rightarrow> nat \<Rightarrow> nat \<Rightarrow> 'a list" where
  "slice xs start stop = take (stop - start) (drop start xs)"

definition timestamp_separators :: "nat list" where
  "timestamp_separators = [4, 7, 10, 13, 16, 19, 29]"

definition valid_utc_rfc3339_nanoseconds :: "string \<Rightarrow> bool" where
  "valid_utc_rfc3339_nanoseconds bytes =
     (if length bytes \<noteq> 30 \<or> bytes ! 4 \<noteq> CHR ''-'' \<or> bytes ! 7 \<noteq> CHR ''-'' \<or> bytes ! 10 \<noteq> CHR ''T'' \<or>
         bytes ! 13 \<noteq> CHR '':'' \<or> bytes ! 16 \<noteq> CHR '':'' \<or> bytes ! 19 \<noteq> CHR ''.'' \<or> bytes ! 29 \<noteq> CHR ''Z'' \<or>
         list_ex (\<lambda>(index, c). index \<notin> set timestamp_separators \<and> \<not> is_ascii_digit c) (enumerate 0 bytes)
      then False
      else case ascii_decimal (slice bytes 0 4) of None \<Rightarrow> False | Some year \<Rightarrow>
        (case ascii_decimal (slice bytes 5 7) of None \<Rightarrow> False | Some month \<Rightarrow>
        (case ascii_decimal (slice bytes 8 10) of None \<Rightarrow> False | Some day \<Rightarrow>
        (case ascii_decimal (slice bytes 11 13) of None \<Rightarrow> False | Some hour \<Rightarrow>
        (case ascii_decimal (slice bytes 14 16) of None \<Rightarrow> False | Some minute \<Rightarrow>
        (case ascii_decimal (slice bytes 17 19) of None \<Rightarrow> False | Some second \<Rightarrow>
        (case month_days year month of None \<Rightarrow> False | Some days \<Rightarrow>
           1 \<le> year \<and> 1 \<le> day \<and> day \<le> days \<and> hour \<le> 23 \<and> minute \<le> 59 \<and> second \<le> 59)))))))"

definition HEX :: string where
  "HEX = ''0123456789ABCDEF''"

definition uppercase_hex :: "string \<Rightarrow> string" where
  "uppercase_hex bytes = concat (map (\<lambda>b. [HEX ! (byte b div 16), HEX ! (byte b mod 16)]) bytes)"

definition fingerprint_bytes :: "launch_codec \<Rightarrow> string \<Rightarrow> io_error + artifact_fingerprint" where
  "fingerprint_bytes C bytes =
     (if length bytes \<le> usize_max
      then Inr \<lparr>af_sha256 = uppercase_hex (lc_sha256 C bytes), af_byte_length = length bytes\<rparr>
      else Inl (protocol_error ''artifact fingerprint length overflow''))"

end
