(* ===== verification/Launch_Barrier.thy ===== *)
theory Launch_Barrier
  imports Launch_Records
begin

text \<open>
  The child side of the launch barrier, src/src/issuer/issuance_benchmark/launch_barrier.rs, in
  its Unix build: the environment and directory checks, the files read through a bound handle, and
  the protocol that prints the ready frame, waits for the release frame and then creates the
  receipt. At the end, which calls each operation makes.
\<close>

subsection \<open>Canonical JSON\<close>

definition canonical_pretty_json :: "('a \<Rightarrow> string + string) \<Rightarrow> 'a \<Rightarrow> string \<Rightarrow> io_error + string" where
  "canonical_pretty_json to_vec_pretty v message =
     sum_bind (or_protocol_error (to_vec_pretty v) message) (\<lambda>bytes. Inr (bytes @ [char_of (10 :: nat)]))"

definition canonical_compact_json :: "('a \<Rightarrow> string + string) \<Rightarrow> 'a \<Rightarrow> string \<Rightarrow> io_error + string" where
  "canonical_compact_json to_vec v message =
     sum_bind (or_protocol_error (to_vec v) message) (\<lambda>bytes. Inr (bytes @ [char_of (10 :: nat)]))"

definition parse_canonical_pretty_json ::
    "(string \<Rightarrow> string + 'a) \<Rightarrow> ('a \<Rightarrow> string + string) \<Rightarrow> string \<Rightarrow> string \<Rightarrow> io_error + 'a" where
  "parse_canonical_pretty_json from_slice to_vec_pretty bytes message =
     sum_bind (or_protocol_error (from_slice bytes) message) (\<lambda>v.
     sum_bind (canonical_pretty_json to_vec_pretty v message) (\<lambda>canonical.
     if canonical \<noteq> bytes then Inl (protocol_error message) else Inr v))"

definition parse_canonical_compact_json ::
    "(string \<Rightarrow> string + 'a) \<Rightarrow> ('a \<Rightarrow> string + string) \<Rightarrow> string \<Rightarrow> string \<Rightarrow> io_error + 'a" where
  "parse_canonical_compact_json from_slice to_vec bytes message =
     sum_bind (or_protocol_error (from_slice bytes) message) (\<lambda>v.
     sum_bind (canonical_compact_json to_vec v message) (\<lambda>canonical.
     if canonical \<noteq> bytes then Inl (protocol_error message) else Inr v))"

subsection \<open>The environment\<close>

definition expected_environment :: "string list" where
  "expected_environment = sort ([CRITERION_HOME_ENV, MARTY_PERF_START_BARRIER_ENV, NO_COLOR_ENV, RUST_BACKTRACE_ENV,
     ISSUANCE_ROUTE_BENCHMARK_ID_ENV, ISSUANCE_ROUTE_NDJSON_ENV, TEMP_ENV, TMP_ENV]
     @ (if cfg_windows then [SYSTEM_ROOT_ENV, WINDIR_ENV] else []))"

definition validate_environment_allowlist :: "os \<Rightarrow> io_error + unit" where
  "validate_environment_allowlist K =
     sum_bind (into_strings (protocol_error ''launch environment name is not UTF-8'') (map fst (os_vars K))) (\<lambda>observed.
     if sort observed \<noteq> expected_environment
     then Inl (protocol_error ''launch environment is not the frozen allowlist'')
     else Inr ())"

definition validate_literal_environment :: "os \<Rightarrow> io_error + unit" where
  "validate_literal_environment K =
     (if var_os K NO_COLOR_ENV \<noteq> Some ''1'' \<or> var_os K RUST_BACKTRACE_ENV \<noteq> Some ''0''
      then Inl (protocol_error ''launch literal environment is invalid'')
      else Inr ())"

definition path_from_utf8_os_string :: "os_string \<Rightarrow> string \<Rightarrow> io_error + path" where
  "path_from_utf8_os_string s message =
     (case into_string s of None \<Rightarrow> Inl (protocol_error message) | Some p \<Rightarrow> Inr p)"

definition required_utf8_path_env :: "os \<Rightarrow> string \<Rightarrow> io_error + path" where
  "required_utf8_path_env K name =
     (case var_os K name of
        None \<Rightarrow> Inl (protocol_error ''launch environment is incomplete'')
      | Some s \<Rightarrow> path_from_utf8_os_string s ''launch environment path is not UTF-8'')"

definition validate_platform_environment :: "os \<Rightarrow> io_error + unit" where
  "validate_platform_environment K =
     (if cfg_windows then
        sum_bind (required_utf8_path_env K SYSTEM_ROOT_ENV) (\<lambda>system_root.
        sum_bind (required_utf8_path_env K WINDIR_ENV) (\<lambda>windir.
        if \<not> is_absolute system_root \<or> \<not> path_eq system_root windir
        then Inl (protocol_error ''Windows runtime environment is invalid'') else Inr ()))
      else if var_os K SYSTEM_ROOT_ENV \<noteq> None \<or> var_os K WINDIR_ENV \<noteq> None
      then Inl (protocol_error ''platform environment is invalid'')
      else Inr ())"

subsection \<open>Paths and directories\<close>

definition require_exact_absolute_path :: "path \<Rightarrow> path \<Rightarrow> string \<Rightarrow> io_error + unit" where
  "require_exact_absolute_path actual expected message =
     (if \<not> is_absolute actual \<or> \<not> path_eq actual expected then Inl (protocol_error message) else Inr ())"

definition canonicalize :: "os \<Rightarrow> path \<Rightarrow> path io" where
  "canonicalize K p = io_call (Canonicalize p) (\<lambda>h. os_canonicalize K h p)"

definition require_same_canonical_path :: "os \<Rightarrow> path \<Rightarrow> path \<Rightarrow> string \<Rightarrow> unit io" where
  "require_same_canonical_path K actual expected message =
     io_bind (io_map_err (protocol_error message) (canonicalize K actual)) (\<lambda>actual.
     io_bind (io_map_err (protocol_error message) (canonicalize K expected)) (\<lambda>expected.
     if \<not> path_eq actual expected then io_err (protocol_error message) else io_ok ()))"

definition symlink_metadata :: "os \<Rightarrow> path \<Rightarrow> metadata io" where
  "symlink_metadata K p = io_call (SymlinkMetadata p) (\<lambda>h. os_symlink_metadata K h p)"

definition metadata_is_reparse_point :: "metadata \<Rightarrow> bool" where
  "metadata_is_reparse_point m = False"

definition require_directory :: "os \<Rightarrow> path \<Rightarrow> string \<Rightarrow> unit io" where
  "require_directory K p message =
     io_bind (io_map_err (protocol_error message) (symlink_metadata K p)) (\<lambda>m.
     if md_is_symlink m \<or> metadata_is_reparse_point m \<or> \<not> md_is_dir m
     then io_err (protocol_error message) else io_ok ())"

definition require_campaign_directory :: "os \<Rightarrow> path \<Rightarrow> string \<Rightarrow> string \<Rightarrow> path io" where
  "require_campaign_directory K campaign_root role message =
     (let p = path_join campaign_root role
      in io_bind (require_directory K p message) (\<lambda>_. io_ok p))"

definition require_empty_directory :: "os \<Rightarrow> path \<Rightarrow> string \<Rightarrow> unit io" where
  "require_empty_directory K p message =
     io_bind (io_map_err (protocol_error message) (io_call (FirstDirEntry p) (\<lambda>h. os_first_entry K h p))) (\<lambda>entry.
     case entry of None \<Rightarrow> io_ok () | Some _ \<Rightarrow> io_err (protocol_error message))"

definition require_path_absent :: "os \<Rightarrow> path \<Rightarrow> string \<Rightarrow> unit io" where
  "require_path_absent K p message =
     (\<lambda>h. case symlink_metadata K p h of
        (Inl e, h') \<Rightarrow> (if kind_of e = NotFoundKind then Inr () else Inl (protocol_error message), h')
      | (Inr _, h') \<Rightarrow> (Inl (protocol_error message), h'))"

subsection \<open>Files read through a bound handle\<close>

text \<open>
  \<open>regular_file_snapshot\<close> and \<open>path_metadata_matches_handle\<close> on Unix build the same record from
  the metadata of a handle and of a path.
\<close>

record file_snapshot =
  fs_device :: nat
  fs_inode :: nat
  fs_byte_length :: nat
  fs_link_count :: nat
  fs_attributes :: nat
  fs_created :: nat
  fs_modified :: "64 word"
  fs_modified_subsecond :: int
  fs_changed :: "64 word"
  fs_changed_subsecond :: int

definition snapshot_of :: "metadata \<Rightarrow> file_snapshot" where
  "snapshot_of m =
     \<lparr>fs_device = md_dev m, fs_inode = md_ino m, fs_byte_length = md_len m, fs_link_count = md_nlink m,
      fs_attributes = md_mode m, fs_created = 0, fs_modified = md_mtime m, fs_modified_subsecond = md_mtime_nsec m,
      fs_changed = md_ctime m, fs_changed_subsecond = md_ctime_nsec m\<rparr>"

definition path_metadata_has_one_link :: "metadata \<Rightarrow> bool" where
  "path_metadata_has_one_link m \<longleftrightarrow> md_nlink m = 1"

definition path_metadata_matches_handle :: "metadata \<Rightarrow> file_snapshot \<Rightarrow> bool" where
  "path_metadata_matches_handle m s \<longleftrightarrow> snapshot_of m = s"

definition checked_path_file_metadata :: "os \<Rightarrow> path \<Rightarrow> nat \<Rightarrow> string \<Rightarrow> metadata io" where
  "checked_path_file_metadata K p maximum_bytes message =
     io_bind (io_map_err (protocol_error message) (symlink_metadata K p)) (\<lambda>m.
     if md_is_symlink m \<or> metadata_is_reparse_point m \<or> \<not> md_is_file m \<or> maximum_bytes < md_len m \<or>
        \<not> path_metadata_has_one_link m
     then io_err (protocol_error message) else io_ok m)"

definition open_regular_file_no_follow :: "os \<Rightarrow> path \<Rightarrow> handle io" where
  "open_regular_file_no_follow K p = io_call (OpenNoFollow p) (\<lambda>h. os_open_no_follow K h p)"

definition regular_file_snapshot :: "os \<Rightarrow> handle \<Rightarrow> nat \<Rightarrow> string \<Rightarrow> file_snapshot io" where
  "regular_file_snapshot K file maximum_bytes message =
     io_bind (io_map_err (protocol_error message)
       (io_call (HandleMetadata file) (\<lambda>h. os_handle_metadata K h file))) (\<lambda>m.
     if \<not> md_is_file m \<or> md_nlink m \<noteq> 1 \<or> maximum_bytes < md_len m
     then io_err (protocol_error message) else io_ok (snapshot_of m))"

record bound_regular_file =
  br_file :: handle
  br_path :: path
  br_initial :: file_snapshot
  br_maximum_bytes :: nat
  br_message :: string

definition verify_unchanged_and_bound :: "os \<Rightarrow> bound_regular_file \<Rightarrow> unit io" where
  "verify_unchanged_and_bound K b =
     (let e = protocol_error (br_message b) in
      io_bind (regular_file_snapshot K (br_file b) (br_maximum_bytes b) (br_message b)) (\<lambda>current.
      if current \<noteq> br_initial b then io_err e else
      io_bind (checked_path_file_metadata K (br_path b) (br_maximum_bytes b) (br_message b)) (\<lambda>path_metadata.
      io_bind (io_map_err e (open_regular_file_no_follow K (br_path b))) (\<lambda>path_file.
      io_bind (regular_file_snapshot K path_file (br_maximum_bytes b) (br_message b)) (\<lambda>path_snapshot.
      if path_snapshot \<noteq> br_initial b \<or> \<not> path_metadata_matches_handle path_metadata path_snapshot
      then io_err e else io_ok ())))))"

definition bound_regular_file_open :: "os \<Rightarrow> path \<Rightarrow> nat \<Rightarrow> string \<Rightarrow> bound_regular_file io" where
  "bound_regular_file_open K p maximum_bytes message =
     io_bind (checked_path_file_metadata K p maximum_bytes message) (\<lambda>path_metadata.
     io_bind (io_map_err (protocol_error message) (open_regular_file_no_follow K p)) (\<lambda>file.
     io_bind (regular_file_snapshot K file maximum_bytes message) (\<lambda>initial.
     if \<not> path_metadata_matches_handle path_metadata initial then io_err (protocol_error message) else
     let bound = \<lparr>br_file = file, br_path = p, br_initial = initial, br_maximum_bytes = maximum_bytes,
                  br_message = message\<rparr>
     in io_bind (verify_unchanged_and_bound K bound) (\<lambda>_. io_ok bound))))"

text \<open>
  \<open>file.take(limit).read_to_end\<close> gives at most \<open>limit\<close> bytes. The sums and conversions on \<open>u64\<close>
  and \<open>usize\<close> are those of a 64-bit build.
\<close>

definition read_bounded_regular_file :: "os \<Rightarrow> path \<Rightarrow> nat \<Rightarrow> string \<Rightarrow> string io" where
  "read_bounded_regular_file K p maximum_bytes message =
     (let e = protocol_error message in
      io_bind (bound_regular_file_open K p maximum_bytes message) (\<lambda>file.
      case checked_add maximum_bytes 1 of
        None \<Rightarrow> io_err e
      | Some limit \<Rightarrow>
          io_bind (io_map_err e (io_call (ReadToEnd (br_file file) limit)
            (\<lambda>h. map_sum id (take limit) (os_read_to_end K h (br_file file))))) (\<lambda>bytes.
          if maximum_bytes < length bytes \<or> length bytes \<noteq> fs_byte_length (br_initial file)
          then io_err e
          else io_bind (verify_unchanged_and_bound K file) (\<lambda>_. io_ok bytes))))"

text \<open>
  The hashing loop over a \<open>Take\<close> reader: a read asks for at most the buffer and the rest of the
  limit, an empty read ends it, and the hasher has seen the bytes \<open>seen\<close>. Every other read uses
  up part of the limit.
\<close>

function hash_chunks :: "os \<Rightarrow> handle \<Rightarrow> io_error \<Rightarrow> nat \<Rightarrow> nat \<Rightarrow> string \<Rightarrow> (nat \<times> string) io" where
  "hash_chunks K file e limit byte_length seen =
     (if limit = 0 then io_ok (byte_length, seen)
      else let n = min (64 * 1024) limit in
        io_bind (io_map_err e (io_call (ReadHandle file n) (\<lambda>h. map_sum id (take n) (os_read K h file n)))) (\<lambda>chunk.
        if chunk = [] then io_ok (byte_length, seen)
        else case checked_add byte_length (length chunk) of
               None \<Rightarrow> io_err e
             | Some byte_length' \<Rightarrow> hash_chunks K file e (limit - length chunk) byte_length' (seen @ chunk)))"
  by pat_completeness auto
termination
  by (relation "measure (\<lambda>(K, file, e, limit, _). limit)") auto

declare hash_chunks.simps [simp del]

definition fingerprint_regular_file_bounded ::
    "os \<Rightarrow> launch_codec \<Rightarrow> path \<Rightarrow> nat \<Rightarrow> string \<Rightarrow> artifact_fingerprint io" where
  "fingerprint_regular_file_bounded K C p maximum_bytes message =
     (let e = protocol_error message in
      io_bind (bound_regular_file_open K p maximum_bytes message) (\<lambda>file.
      if fs_byte_length (br_initial file) = 0 then io_err e else
      (case checked_add maximum_bytes 1 of
        None \<Rightarrow> io_err e
      | Some limit \<Rightarrow>
          io_bind (hash_chunks K (br_file file) e limit 0 []) (\<lambda>(byte_length, hashed).
          if maximum_bytes < byte_length \<or> byte_length \<noteq> fs_byte_length (br_initial file)
          then io_err e
          else io_bind (verify_unchanged_and_bound K file) (\<lambda>_.
            io_ok \<lparr>af_sha256 = uppercase_hex (lc_sha256 C hashed), af_byte_length = byte_length\<rparr>)))))"

definition fingerprint_regular_file :: "os \<Rightarrow> launch_codec \<Rightarrow> path \<Rightarrow> string \<Rightarrow> artifact_fingerprint io" where
  "fingerprint_regular_file K C p message = fingerprint_regular_file_bounded K C p MAX_FIXED_BINARY_BYTES message"

definition sync_parent_directory :: "os \<Rightarrow> path \<Rightarrow> unit io" where
  "sync_parent_directory K parent =
     (let e = protocol_error ''launch receipt parent sync failed'' in
      io_bind (io_map_err e (io_call (OpenDirectory parent) (\<lambda>h. os_open_directory K h parent))) (\<lambda>directory.
      io_map_err e (io_call (SyncHandle directory) (\<lambda>h. os_sync_all K h directory))))"

definition create_new_durable_file :: "os \<Rightarrow> path \<Rightarrow> string \<Rightarrow> unit io" where
  "create_new_durable_file K p bytes =
     io_bind (io_of (case path_parent p of
         None \<Rightarrow> Inl (protocol_error ''launch receipt parent path is invalid'') | Some q \<Rightarrow> Inr q)) (\<lambda>parent.
     io_bind (require_directory K parent ''launch receipt directory is unavailable'') (\<lambda>_.
     io_bind (io_map_err (protocol_error ''launch receipt create-new failed'')
       (io_call (CreateNew p) (\<lambda>h. os_create_new K h p))) (\<lambda>file.
     io_bind (io_map_err (protocol_error ''launch receipt write failed'')
       (io_call (WriteAll file bytes) (\<lambda>h. os_write_all K h file bytes))) (\<lambda>_.
     io_bind (io_map_err (protocol_error ''launch receipt flush failed'')
       (io_call (FlushHandle file) (\<lambda>h. os_flush K h file))) (\<lambda>_.
     io_bind (io_map_err (protocol_error ''launch receipt durable sync failed'')
       (io_call (SyncHandle file) (\<lambda>h. os_sync_all K h file))) (\<lambda>_.
     sync_parent_directory K parent))))))"

subsection \<open>Validation of the records\<close>

definition validate_token :: "launch_token \<Rightarrow> io_error + unit" where
  "validate_token t =
     (if lt_schema t \<noteq> TOKEN_SCHEMA \<or> \<not> valid_uuid_v4 (lt_campaign_id t) \<or>
         MAX_GLOBAL_ROUNDS \<le> lt_global_round_ordinal t \<or> MAX_CELLS \<le> lt_cell_ordinal t \<or>
         MAX_EXPANSION_POSITIONS \<le> lt_expansion_position t \<or>
         lt_timing_process_id t \<noteq> timing_process_id t \<or>
         \<not> valid_uppercase_hex_256 (lt_nonce_uppercase_hex_256 t) \<or>
         \<not> valid_uppercase_hex_256 (lt_process_identity_pseudonym t) \<or>
         lt_nonce_uppercase_hex_256 t = lt_process_identity_pseudonym t
      then Inl (protocol_error ''launch token identity is invalid'')
      else Inr ())"

definition validate_release :: "prepared_barrier \<Rightarrow> launch_release_frame \<Rightarrow> io_error + unit" where
  "validate_release p r =
     (let t = pb_token p in
      if rl_schema r \<noteq> RELEASE_SCHEMA \<or> rl_campaign_id r \<noteq> lt_campaign_id t \<or>
         rl_global_round_ordinal r \<noteq> lt_global_round_ordinal t \<or> rl_cell_ordinal r \<noteq> lt_cell_ordinal t \<or>
         rl_expansion_position r \<noteq> lt_expansion_position t \<or>
         rl_timing_process_id r \<noteq> lt_timing_process_id t \<or>
         rl_process_identity_pseudonym r \<noteq> lt_process_identity_pseudonym t \<or>
         rl_launch_token_fingerprint r \<noteq> pb_token_fingerprint p \<or>
         rl_ready_frame_fingerprint r \<noteq> pb_ready_fingerprint p \<or>
         \<not> valid_artifact_fingerprint (rl_process_start_record_fingerprint r) 1 MAX_LAUNCH_FRAME_BYTES \<or>
         \<not> valid_utc_rfc3339_nanoseconds (rl_prepared_at_utc_rfc3339_nanoseconds r)
      then Inl (protocol_error ''launch release frame does not match the ready child'')
      else Inr ())"

definition validate_selected_invocation :: "os \<Rightarrow> path \<Rightarrow> launch_token \<Rightarrow> io_error + unit" where
  "validate_selected_invocation K route_path t =
     sum_bind (validate_issuance_route_invocation (Some route_path) (var_os K ISSUANCE_ROUTE_BENCHMARK_ID_ENV)
       (drop 1 (os_args K))) (\<lambda>validated.
     case validated of
       None \<Rightarrow> Inl (protocol_error ''selected issuance invocation is incomplete'')
     | Some v \<Rightarrow>
       (if \<not> path_eq (vi_destination v) route_path
        then Inl (protocol_error ''selected issuance invocation is invalid'')
        else case slice_get (qualification_routes issuance_benchmark_cases) (vi_selected_route_index v) of
            None \<Rightarrow> Inl (protocol_error ''selected issuance invocation is invalid'')
          | Some route \<Rightarrow>
            (case scheduled_benchmark_id (lt_global_round_ordinal t) (lt_cell_ordinal t) (lt_expansion_position t) of
               None \<Rightarrow> Inl (protocol_error ''launch token coordinate is invalid'')
             | Some scheduled \<Rightarrow>
                 (if qr_benchmark_id route \<noteq> scheduled
                  then Inl (protocol_error ''selected issuance invocation does not match the launch schedule'')
                  else Inr ()))))"

definition validate_mutable_paths_after_release :: "os \<Rightarrow> prepared_barrier \<Rightarrow> unit io" where
  "validate_mutable_paths_after_release K p =
     io_bind (require_directory K (pb_campaign_root p) ''launch working directory is invalid'') (\<lambda>_.
     io_bind (require_campaign_directory K (pb_campaign_root p) ''criterion''
       ''Criterion parent directory is unavailable'') (\<lambda>_.
     io_bind (require_directory K (pb_criterion_home p) ''Criterion home is unavailable'') (\<lambda>_.
     io_bind (require_empty_directory K (pb_criterion_home p) ''Criterion home is not empty'') (\<lambda>_.
     io_bind (require_campaign_directory K (pb_campaign_root p) ''routes''
       ''issuance route directory is unavailable'') (\<lambda>_.
     io_bind (require_path_absent K (pb_route_path p) ''issuance route destination already exists'') (\<lambda>_.
     io_bind (require_campaign_directory K (pb_campaign_root p) ''tmp''
       ''temporary parent directory is unavailable'') (\<lambda>_.
     io_bind (require_directory K (pb_temp_path p) ''temporary directory is unavailable'') (\<lambda>_.
     io_bind (require_campaign_directory K (pb_campaign_root p) ''barrier-receipts''
       ''launch receipt directory is unavailable'') (\<lambda>_.
     require_path_absent K (pb_receipt_path p) ''launch receipt already exists'')))))))))"

subsection \<open>The protocol\<close>

text \<open>The ready frame of a token, and the receipt of a release.\<close>

definition ready_frame :: "launch_token \<Rightarrow> artifact_fingerprint \<Rightarrow> artifact_fingerprint \<Rightarrow> launch_ready_frame" where
  "ready_frame t token_fingerprint fixed_binary_fingerprint =
     \<lparr>ry_schema = READY_SCHEMA, ry_campaign_id = lt_campaign_id t,
      ry_global_round_ordinal = lt_global_round_ordinal t, ry_cell_ordinal = lt_cell_ordinal t,
      ry_expansion_position = lt_expansion_position t, ry_timing_process_id = lt_timing_process_id t,
      ry_process_identity_pseudonym = lt_process_identity_pseudonym t,
      ry_launch_token_fingerprint = token_fingerprint, ry_fixed_binary_fingerprint = fixed_binary_fingerprint\<rparr>"

definition launch_receipt_of :: "prepared_barrier \<Rightarrow> launch_release_frame \<Rightarrow> artifact_fingerprint \<Rightarrow> launch_receipt" where
  "launch_receipt_of p r release_fingerprint =
     (let t = pb_token p in
      \<lparr>rc_schema = RECEIPT_SCHEMA, rc_campaign_id = lt_campaign_id t,
       rc_global_round_ordinal = lt_global_round_ordinal t, rc_cell_ordinal = lt_cell_ordinal t,
       rc_expansion_position = lt_expansion_position t, rc_timing_process_id = lt_timing_process_id t,
       rc_process_identity_pseudonym = lt_process_identity_pseudonym t,
       rc_launch_token_fingerprint = pb_token_fingerprint p, rc_ready_frame_fingerprint = pb_ready_fingerprint p,
       rc_release_frame_fingerprint = release_fingerprint,
       rc_process_start_record_fingerprint = rl_process_start_record_fingerprint r,
       rc_fixed_binary_fingerprint = pb_fixed_binary_fingerprint p\<rparr>)"

text \<open>
  The body of \<open>prepare_from_environment\<close> is one sequence of checks; the model cuts it in three:
  the working directory and the token, the environment's paths, then the invocation, the executable
  and the ready frame.
\<close>

definition prepare_token :: "os \<Rightarrow> launch_codec \<Rightarrow> os_string \<Rightarrow> (path \<times> string \<times> launch_token) io" where
  "prepare_token K C token_path =
     io_bind (io_of (validate_environment_allowlist K)) (\<lambda>_.
     io_bind (io_map_err (protocol_error ''launch working directory is unavailable'')
       (io_of (os_current_dir K))) (\<lambda>campaign_root.
     io_bind (io_require (is_absolute campaign_root) (protocol_error ''launch working directory is invalid'')) (\<lambda>_.
     io_bind (require_directory K campaign_root ''launch working directory is invalid'') (\<lambda>_.
     io_bind (io_of (path_from_utf8_os_string token_path ''launch token path is not UTF-8'')) (\<lambda>token_path.
     io_bind (read_bounded_regular_file K token_path MAX_BARRIER_ARTIFACT_BYTES
       ''launch token is unavailable'') (\<lambda>token_bytes.
     io_bind (io_of (parse_canonical_pretty_json (token_from_slice C) (token_to_vec_pretty C) token_bytes
       ''launch token is invalid'')) (\<lambda>t.
     io_bind (io_of (validate_token t)) (\<lambda>_.
     io_bind (require_campaign_directory K campaign_root ''barriers''
       ''launch token directory is unavailable'') (\<lambda>barriers_directory.
     io_bind (io_of (require_exact_absolute_path token_path
       (path_join barriers_directory (coordinate_stem t @ ''.token'')) ''launch token path is invalid'')) (\<lambda>_.
     io_ok (campaign_root, token_bytes, t)))))))))))"

definition prepare_paths :: "os \<Rightarrow> path \<Rightarrow> launch_token \<Rightarrow> (path \<times> path \<times> path \<times> path) io" where
  "prepare_paths K campaign_root t =
     (let stem = coordinate_stem t in
      io_bind (io_of (required_utf8_path_env K CRITERION_HOME_ENV)) (\<lambda>criterion_home.
      io_bind (io_of (required_utf8_path_env K ISSUANCE_ROUTE_NDJSON_ENV)) (\<lambda>route_path.
      io_bind (io_of (required_utf8_path_env K TEMP_ENV)) (\<lambda>temp_path.
      io_bind (io_of (required_utf8_path_env K TMP_ENV)) (\<lambda>tmp_path.
      io_bind (require_campaign_directory K campaign_root ''criterion''
        ''Criterion parent directory is unavailable'') (\<lambda>criterion_directory.
      io_bind (require_campaign_directory K campaign_root ''routes''
        ''issuance route directory is unavailable'') (\<lambda>routes_directory.
      io_bind (require_campaign_directory K campaign_root ''tmp''
        ''temporary parent directory is unavailable'') (\<lambda>temp_directory.
      io_bind (io_of (require_exact_absolute_path criterion_home (path_join criterion_directory stem)
        ''Criterion home path is invalid'')) (\<lambda>_.
      io_bind (io_of (require_exact_absolute_path route_path (path_join routes_directory (stem @ ''.ndjson''))
        ''issuance route path is invalid'')) (\<lambda>_.
      let expected_temp_path = path_join temp_directory stem in
      io_bind (io_of (require_exact_absolute_path temp_path expected_temp_path ''temporary path is invalid'')) (\<lambda>_.
      io_bind (io_of (require_exact_absolute_path tmp_path expected_temp_path ''temporary path is invalid'')) (\<lambda>_.
      io_bind (require_directory K criterion_home ''Criterion home is unavailable'') (\<lambda>_.
      io_bind (require_empty_directory K criterion_home ''Criterion home is not empty'') (\<lambda>_.
      io_bind (require_directory K temp_path ''temporary directory is unavailable'') (\<lambda>_.
      io_bind (require_path_absent K route_path ''issuance route destination already exists'') (\<lambda>_.
      io_bind (require_campaign_directory K campaign_root ''barrier-receipts''
        ''launch receipt directory is unavailable'') (\<lambda>receipt_directory.
      let receipt_path = path_join receipt_directory (stem @ ''.json'') in
      io_bind (require_path_absent K receipt_path ''launch receipt already exists'') (\<lambda>_.
      io_ok (criterion_home, route_path, temp_path, receipt_path)))))))))))))))))))"

definition prepare_ready_frame ::
    "os \<Rightarrow> launch_codec \<Rightarrow> path \<Rightarrow> string \<Rightarrow> launch_token \<Rightarrow> path \<Rightarrow>
     (artifact_fingerprint \<times> artifact_fingerprint \<times> string \<times> artifact_fingerprint) io" where
  "prepare_ready_frame K C campaign_root token_bytes t route_path =
     io_bind (io_of (validate_selected_invocation K route_path t)) (\<lambda>_.
     io_bind (io_of (validate_literal_environment K)) (\<lambda>_.
     io_bind (io_of (validate_platform_environment K)) (\<lambda>_.
     io_bind (io_map_err (protocol_error ''fixed benchmark executable is unavailable'')
       (io_of (os_current_exe K))) (\<lambda>current_executable.
     io_bind (require_campaign_directory K campaign_root ''bin''
       ''fixed benchmark executable directory is unavailable'') (\<lambda>binary_directory.
     let expected_executable = path_join binary_directory fixed_binary_name in
     io_bind (require_same_canonical_path K current_executable expected_executable
       ''fixed benchmark executable path is invalid'') (\<lambda>_.
     io_bind (fingerprint_regular_file K C expected_executable
       ''fixed benchmark executable fingerprint failed'') (\<lambda>fixed_binary_fingerprint.
     io_bind (io_of (fingerprint_bytes C token_bytes)) (\<lambda>token_fingerprint.
     io_bind (io_of (canonical_compact_json (ready_to_vec C) (ready_frame t token_fingerprint fixed_binary_fingerprint)
       ''launch ready frame encoding failed'')) (\<lambda>ready_bytes.
     io_bind (io_require (length ready_bytes \<le> MAX_LAUNCH_FRAME_BYTES)
       (protocol_error ''launch ready frame exceeds the size limit'')) (\<lambda>_.
     io_bind (io_of (fingerprint_bytes C ready_bytes)) (\<lambda>ready_fingerprint.
     io_ok (token_fingerprint, fixed_binary_fingerprint, ready_bytes, ready_fingerprint))))))))))))"

definition prepare_from_environment :: "os \<Rightarrow> launch_codec \<Rightarrow> prepared_barrier option io" where
  "prepare_from_environment K C =
     (case var_os K MARTY_PERF_START_BARRIER_ENV of
        None \<Rightarrow> io_ok None
      | Some token_path \<Rightarrow>
          io_bind (prepare_token K C token_path) (\<lambda>(campaign_root, token_bytes, t).
          io_bind (prepare_paths K campaign_root t) (\<lambda>(criterion_home, route_path, temp_path, receipt_path).
          io_bind (prepare_ready_frame K C campaign_root token_bytes t route_path)
            (\<lambda>(token_fingerprint, fixed_binary_fingerprint, ready_bytes, ready_fingerprint).
          io_ok (Some \<lparr>pb_token = t, pb_token_fingerprint = token_fingerprint,
            pb_fixed_binary_fingerprint = fixed_binary_fingerprint, pb_ready_bytes = ready_bytes,
            pb_ready_fingerprint = ready_fingerprint, pb_campaign_root = campaign_root,
            pb_criterion_home = criterion_home, pb_route_path = route_path, pb_temp_path = temp_path,
            pb_receipt_path = receipt_path\<rparr>)))))"

definition complete_after_release :: "os \<Rightarrow> launch_codec \<Rightarrow> prepared_barrier \<Rightarrow> string \<Rightarrow> unit io" where
  "complete_after_release K C p release_bytes =
     (if MAX_LAUNCH_FRAME_BYTES < length release_bytes
      then io_err (protocol_error ''launch release frame exceeds the size limit'') else
      io_bind (io_of (parse_canonical_compact_json (release_from_slice C) (release_to_vec C) release_bytes
        ''launch release frame is invalid'')) (\<lambda>release.
      io_bind (io_of (validate_release p release)) (\<lambda>_.
      io_bind (validate_mutable_paths_after_release K p) (\<lambda>_.
      io_bind (io_of (fingerprint_bytes C release_bytes)) (\<lambda>release_fingerprint.
      io_bind (io_of (canonical_pretty_json (receipt_to_vec_pretty C) (launch_receipt_of p release release_fingerprint)
        ''launch receipt encoding failed'')) (\<lambda>receipt_bytes.
      io_bind (io_require (length receipt_bytes \<le> MAX_BARRIER_ARTIFACT_BYTES)
        (protocol_error ''launch receipt exceeds the size limit'')) (\<lambda>_.
      create_new_durable_file K (pb_receipt_path p) receipt_bytes)))))))"

definition run_issuance_launch_barrier_from_env :: "os \<Rightarrow> launch_codec \<Rightarrow> unit io" where
  "run_issuance_launch_barrier_from_env K C =
     io_bind (prepare_from_environment K C) (\<lambda>prepared.
     case prepared of
       None \<Rightarrow> io_ok ()
     | Some p \<Rightarrow>
         io_bind (io_map_err (protocol_error ''launch ready frame write failed'')
           (io_call (StdoutWrite (pb_ready_bytes p)) (\<lambda>h. os_stdout_write K h (pb_ready_bytes p)))) (\<lambda>_.
         io_bind (io_map_err (protocol_error ''launch ready frame flush failed'')
           (io_call StdoutFlush (os_stdout_flush K))) (\<lambda>_.
         io_bind (io_map_err (protocol_error ''launch release frame read failed'')
           (io_call (StdinReadToEnd (MAX_LAUNCH_FRAME_BYTES + 1))
             (\<lambda>h. map_sum id (take (MAX_LAUNCH_FRAME_BYTES + 1)) (os_stdin_read_to_end K h)))) (\<lambda>release_bytes.
         complete_after_release K C p release_bytes))))"

end
