(* ===== verification/Launch_Schedule_Properties.thy ===== *)
theory Launch_Schedule_Properties
  imports Launch_Records
begin

text \<open>
  What the frozen schedule and the timestamps of the launch barrier promise: every coordinate of the
  campaign names one benchmark of the qualification matrix, evenly, and the accepted timestamps are
  the renderings of the instants of the calendar.
\<close>

subsection \<open>The schedule\<close>

definition round_order :: "nat \<Rightarrow> benchmark_route list" where
  "round_order r = (case SUPERBLOCK_ORDERS ! r of AbbaFirst \<Rightarrow> ABBA_EXPANSION | BaabFirst \<Rightarrow> BAAB_EXPANSION)"

definition cell_case :: "nat \<Rightarrow> benchmark_case" where
  "cell_case c = issuance_benchmark_cases ! (c div 2)"

definition cell_stage :: "nat \<Rightarrow> benchmark_stage" where
  "cell_stage c = [ExecutorAssembly, FullIssuance] ! (c mod 2)"

lemma length_schedule:
  "length SUPERBLOCK_ORDERS = MAX_GLOBAL_ROUNDS" "length (round_order r) = MAX_EXPANSION_POSITIONS"
  "length (qualification_paired_cells issuance_benchmark_cases) = MAX_CELLS"
  by (simp_all add: SUPERBLOCK_ORDERS_def MAX_GLOBAL_ROUNDS_def round_order_def ABBA_EXPANSION_def
      BAAB_EXPANSION_def MAX_EXPANSION_POSITIONS_def length_paired_cells length_cases
      ISSUANCE_FIXTURE_CASE_COUNT_def MAX_CELLS_def split: superblock_order.split)

lemma cell_at:
  assumes "c < MAX_CELLS"
  shows "qualification_paired_cells issuance_benchmark_cases ! c = paired_cell (cell_case c) (cell_stage c)"
proof -
  have "c div 2 < length issuance_benchmark_cases"
    using assms by (simp add: length_cases ISSUANCE_FIXTURE_CASE_COUNT_def MAX_CELLS_def)
  from paired_cell_nth [OF this, of "c mod 2"] show ?thesis
    by (simp add: cell_case_def cell_stage_def)
qed

lemma slice_get_eq_Some: "slice_get xs i = Some x \<longleftrightarrow> i < length xs \<and> x = xs ! i"
  by (auto simp: slice_get_def)

lemma paired_cell_ids:
  "value_get (paired_cell c stage) ''serial_id'' = Some (String (full_criterion_id c stage SerialOracle))"
  "value_get (paired_cell c stage) ''adaptive_id'' = Some (String (full_criterion_id c stage AdaptiveCandidate))"
  by (simp_all add: paired_cell_def)

lemma scheduled_eq_Some:
  "scheduled_benchmark_id r c e = Some i \<longleftrightarrow>
     r < MAX_GLOBAL_ROUNDS \<and> c < MAX_CELLS \<and> e < MAX_EXPANSION_POSITIONS \<and>
     i = full_criterion_id (cell_case c) (cell_stage c) (round_order r ! e)"
proof -
  have order: "(case d of AbbaFirst \<Rightarrow> slice_get ABBA_EXPANSION e | BaabFirst \<Rightarrow> slice_get BAAB_EXPANSION e) =
      slice_get (case d of AbbaFirst \<Rightarrow> ABBA_EXPANSION | BaabFirst \<Rightarrow> BAAB_EXPANSION) e" for d
    by (cases d) simp_all
  have field: "value_get (paired_cell b stage)
        (case route of SerialOracle \<Rightarrow> ''serial_id'' | AdaptiveCandidate \<Rightarrow> ''adaptive_id'')
      = Some (String (full_criterion_id b stage route))" for b stage route
    by (cases route) (simp_all add: paired_cell_ids)
  show ?thesis
    unfolding scheduled_benchmark_id_def Let_def order
    by (auto simp: bind_eq_Some_conv slice_get_eq_Some length_schedule cell_at field round_order_def [symmetric])
qed

lemma cell_in_cases: "c < MAX_CELLS \<Longrightarrow> cell_case c \<in> set issuance_benchmark_cases"
  unfolding cell_case_def
  by (rule nth_mem) (simp add: length_cases ISSUANCE_FIXTURE_CASE_COUNT_def MAX_CELLS_def)

lemma rounds_upt: "[0..<MAX_GLOBAL_ROUNDS] = [0,1,2,3,4,5,6,7,8,9,10,11,12,13,14,15,16,17,18,19]"
  "[0..<MAX_EXPANSION_POSITIONS] = [0,1,2,3,4,5,6,7]"
  by (simp_all add: MAX_GLOBAL_ROUNDS_def MAX_EXPANSION_POSITIONS_def upt_rec)

text \<open>Each round runs each route four times, and each adjacent pair of positions runs both.\<close>

lemma round_balanced:
  "count_list (round_order r) route = 4"
  "k < 4 \<Longrightarrow> round_order r ! (2 * k) \<noteq> round_order r ! (2 * k + 1)"
proof -
  show "count_list (round_order r) route = 4"
    by (cases route; cases "SUPERBLOCK_ORDERS ! r")
       (simp_all add: round_order_def ABBA_EXPANSION_def BAAB_EXPANSION_def)
  assume "k < 4"
  then have "k \<in> {0, 1, 2, 3}" by auto
  then show "round_order r ! (2 * k) \<noteq> round_order r ! (2 * k + 1)"
    by (cases "SUPERBLOCK_ORDERS ! r") (auto simp: round_order_def ABBA_EXPANSION_def BAAB_EXPANSION_def)
qed

lemma cell_injective:
  assumes "c < MAX_CELLS" "c' < MAX_CELLS" "cell_stage c = cell_stage c'" "id_suffix (cell_case c) = id_suffix (cell_case c')"
  shows "c = c'"
proof -
  have "c mod 2 = c' mod 2"
    using assms(3) by (auto simp: cell_stage_def nth_Cons' split: if_splits) 
  moreover have "c div 2 = c' div 2"
  proof -
    have "c div 2 < length issuance_benchmark_cases" "c' div 2 < length issuance_benchmark_cases"
      using assms by (simp_all add: length_cases ISSUANCE_FIXTURE_CASE_COUNT_def MAX_CELLS_def)
    then show ?thesis
      using id_suffixes_distinct assms(4) by (simp add: cell_case_def distinct_conv_nth) metis
  qed
  ultimately show ?thesis
    by (metis div_mult_mod_eq)
qed

lemma cell_of_case:
  assumes "b \<in> set issuance_benchmark_cases"
  obtains c where "c < MAX_CELLS" "cell_case c = b" "cell_stage c = stage"
proof -
  obtain k where k: "k < ISSUANCE_FIXTURE_CASE_COUNT" "issuance_benchmark_cases ! k = b"
    using assms by (auto simp: in_set_conv_nth length_cases)
  then have "2 * k + (if stage = ExecutorAssembly then 0 else 1) < MAX_CELLS"
    by (simp add: ISSUANCE_FIXTURE_CASE_COUNT_def MAX_CELLS_def)
  with k show ?thesis
    by (cases stage; intro that [of "2 * k + (if stage = ExecutorAssembly then 0 else 1)"])
       (simp_all add: cell_case_def cell_stage_def)
qed

lemma scheduled_runs_of_cell:
  assumes "c < MAX_CELLS"
  shows "{(r, c', e). scheduled_benchmark_id r c' e = Some (full_criterion_id (cell_case c) (cell_stage c) route)}
    = (\<lambda>(r, e). (r, c, e)) ` (SIGMA r:{..<MAX_GLOBAL_ROUNDS}. {e. e < length (round_order r) \<and> round_order r ! e = route})"
proof (intro set_eqI, clarify)
  fix r c' e
  have "scheduled_benchmark_id r c' e = Some (full_criterion_id (cell_case c) (cell_stage c) route) \<longleftrightarrow>
      r < MAX_GLOBAL_ROUNDS \<and> e < MAX_EXPANSION_POSITIONS \<and> round_order r ! e = route \<and>
      (c' < MAX_CELLS \<and> cell_stage c = cell_stage c' \<and> id_suffix (cell_case c) = id_suffix (cell_case c'))"
    unfolding scheduled_eq_Some full_criterion_id_eq by blast
  also have "c' < MAX_CELLS \<and> cell_stage c = cell_stage c' \<and> id_suffix (cell_case c) = id_suffix (cell_case c')
      \<longleftrightarrow> c' = c"
    using assms cell_injective [OF assms] by blast
  finally show "(r, c', e) \<in> {(r, c', e). scheduled_benchmark_id r c' e
        = Some (full_criterion_id (cell_case c) (cell_stage c) route)} \<longleftrightarrow>
      (r, c', e) \<in> (\<lambda>(r, e). (r, c, e)) `
        (SIGMA r:{..<MAX_GLOBAL_ROUNDS}. {e. e < length (round_order r) \<and> round_order r ! e = route})"
    by (auto simp: length_schedule image_iff)
qed

lemma count_list_card: "count_list xs x = card {i. i < length xs \<and> xs ! i = x}"
proof -
  have "{i. i < length xs \<and> x = xs ! i} = {i. i < length xs \<and> xs ! i = x}"
    by blast
  then show ?thesis
    by (simp only: count_list_eq_length_filter length_filter_conv_card)
qed

text \<open>C28. The launch schedule is balanced: each of the 132 benchmark identifiers of the qualification
  matrix is scheduled at exactly 80 coordinates (round, cell, position), four in each of the twenty
  rounds.
\<close>

theorem schedule_is_balanced:
  assumes "i \<in> set (qualification_criterion_ids issuance_benchmark_cases)"
  shows "card {(r, c, e). scheduled_benchmark_id r c e = Some i} = 80 \<and>
    (\<forall>r<MAX_GLOBAL_ROUNDS. card {(c, e). scheduled_benchmark_id r c e = Some i} = 4)"
proof -
  obtain b stage route where b: "b \<in> set issuance_benchmark_cases" and i: "i = full_criterion_id b stage route"
    using assms by (auto simp: in_criterion_ids)
  from cell_of_case [OF b, of stage] obtain c where c: "c < MAX_CELLS" "cell_case c = b" "cell_stage c = stage" .
  let ?runs = "\<lambda>r. {e. e < length (round_order r) \<and> round_order r ! e = route}"
  have four: "card (?runs r) = 4" for r
    using round_balanced(1) [of r route] by (simp only: count_list_card)
  have all: "{(r, c, e). scheduled_benchmark_id r c e = Some i}
      = (\<lambda>(r, e). (r, c, e)) ` (SIGMA r:{..<MAX_GLOBAL_ROUNDS}. ?runs r)"
    using scheduled_runs_of_cell [OF c(1), of route] by (simp only: i c)
  have "inj_on (\<lambda>(r, e). (r, c, e)) (SIGMA r:{..<MAX_GLOBAL_ROUNDS}. ?runs r)"
    by (rule inj_onI) auto
  then have "card {(r, c, e). scheduled_benchmark_id r c e = Some i} = (\<Sum>r<MAX_GLOBAL_ROUNDS. card (?runs r))"
    unfolding all by (simp only: card_image)
      (rule card_SigmaI, rule finite_lessThan, rule ballI, rule finite_subset [OF _ finite_lessThan], blast)
  moreover have "{(c', e). scheduled_benchmark_id r c' e = Some i} = Pair c ` ?runs r" if "r < MAX_GLOBAL_ROUNDS" for r
    using that all by (fastforce simp: set_eq_iff image_iff)
  then have "card {(c', e). scheduled_benchmark_id r c' e = Some i} = 4" if "r < MAX_GLOBAL_ROUNDS" for r
    using that four [of r] card_image [of "Pair c" "?runs r"] by (simp only:) (simp add: inj_on_def)
  ultimately show ?thesis
    by (simp add: four MAX_GLOBAL_ROUNDS_def)
qed

theorem schedule_is_balanced_witness:
  "card {(r, c, e). scheduled_benchmark_id r c e
      = Some (full_criterion_id (cell_case 0) ExecutorAssembly AdaptiveCandidate)} = 80"
proof -
  have "full_criterion_id (cell_case 0) ExecutorAssembly AdaptiveCandidate
      \<in> set (qualification_criterion_ids issuance_benchmark_cases)"
    using cell_in_cases [of 0] by (auto simp: in_criterion_ids MAX_CELLS_def)
  from schedule_is_balanced [OF this] show ?thesis by blast
qed

subsection \<open>Timestamps\<close>

text \<open>The text of an instant: year, month, day, hour, minute, second, nanosecond.\<close>

definition render_instant :: "nat \<Rightarrow> nat \<Rightarrow> nat \<Rightarrow> nat \<Rightarrow> nat \<Rightarrow> nat \<Rightarrow> nat \<Rightarrow> string" where
  "render_instant year month day hour minute second nano =
     zero_padded 4 year @ ''-'' @ zero_padded 2 month @ ''-'' @ zero_padded 2 day @ ''T'' @
     zero_padded 2 hour @ '':'' @ zero_padded 2 minute @ '':'' @ zero_padded 2 second @ ''.'' @
     zero_padded 9 nano @ ''Z''"

lemma undec_append_digit: "undec (s @ [c]) = 10 * undec s + (byte c - 48)"
  by (simp add: undec_def)

lemma ascii_digit_less: "is_ascii_digit c \<Longrightarrow> byte c - 48 < 10"
  unfolding is_ascii_digit_def by linarith

lemma ascii_decimal_from_digits:
  "list_all is_ascii_digit s \<Longrightarrow> v < 10 ^ k \<Longrightarrow> k + length s \<le> 9 \<Longrightarrow>
     ascii_decimal_from v s = Some (foldl (\<lambda>n c. 10 * n + (byte c - 48)) v s)"
proof (induction s arbitrary: v k)
  case (Cons c s)
  have c: "48 \<le> byte c" "byte c - 48 < 10" and s: "list_all is_ascii_digit s"
    using Cons.prems(1) by (simp_all add: is_ascii_digit_def [of c] ascii_digit_less)
  have step: "10 * v + (byte c - 48) < 10 ^ Suc k"
    using Cons.prems(2) c by simp
  also have "\<dots> \<le> 10 ^ 9"
    using Cons.prems(3) by (intro power_increasing) auto
  finally have "10 * v + (byte c - 48) < 2 ^ 32"
    by simp
  moreover have "Suc k + length s \<le> 9"
    using Cons.prems(3) by simp
  ultimately show ?case
    using Cons.IH [OF s step] c by (simp add: u32_checked_def mult.commute)
qed simp

lemma ascii_decimal_digits: "list_all is_ascii_digit s \<Longrightarrow> length s \<le> 9 \<Longrightarrow> ascii_decimal s = Some (undec s)"
  unfolding ascii_decimal_def undec_def by (rule ascii_decimal_from_digits [of _ _ 0]) auto

text \<open>A block of digits of the right width is the zero-padded numeral of its value.\<close>

lemma undec_less: "list_all is_ascii_digit s \<Longrightarrow> undec s < 10 ^ length s"
proof (induction s rule: rev_induct)
  case (snoc c s)
  then have "undec s < 10 ^ length s" "byte c - 48 < 10"
    by (simp_all add: ascii_digit_less)
  then show ?case
    by (simp add: undec_append_digit)
qed (simp add: undec_def)

lemma undec_inj_digits:
  "list_all is_ascii_digit s \<Longrightarrow> list_all is_ascii_digit t \<Longrightarrow> length s = length t \<Longrightarrow> undec s = undec t \<Longrightarrow> s = t"
proof (induction s arbitrary: t rule: rev_induct)
  case (snoc c s)
  then obtain d t' where t: "t = t' @ [d]"
    by (cases t rule: rev_cases) auto
  have digits: "is_ascii_digit c" "is_ascii_digit d"
    using snoc.prems t by simp_all
  have sum: "10 * undec s + (byte c - 48) = 10 * undec t' + (byte d - 48)"
    using snoc.prems(4) by (simp add: t undec_append_digit)
  have "x = y \<and> m = k" if "10 * m + x = 10 * k + y" "x < 10" "y < 10" for m k x y :: nat
    using that by presburger
  from this [OF sum] have "byte c - 48 = byte d - 48" and "undec s = undec t'"
    using digits by (simp_all only: ascii_digit_less)
  moreover have "byte c = byte d"
    using calculation(1) digits unfolding is_ascii_digit_def by linarith
  ultimately show ?case
    using snoc t by simp
qed simp

lemma zero_padded_digits: "list_all is_ascii_digit (zero_padded w n)"
proof -
  have "list_all is_ascii_digit (dec n)"
    using dec_digits [of _ n] by (simp add: list_all_iff is_ascii_digit_def)
  moreover have "list_all is_ascii_digit (replicate k (CHR ''0''))" for k
    by (induction k) (simp_all add: is_ascii_digit_def byte_def)
  ultimately show ?thesis
    by (simp add: zero_padded_def)
qed

lemma length_dec_le: "n < 10 ^ w \<Longrightarrow> 0 < w \<Longrightarrow> length (dec n) \<le> w"
proof (induction n arbitrary: w rule: dec.induct)
  case (1 n)
  show ?case
  proof (cases "n < 10")
    case True
    then show ?thesis
      using "1.prems" by (subst dec.simps) simp
  next
    case False
    then obtain v where w: "w = Suc v" "0 < v"
      using "1.prems" by (cases w; cases "w = 1") auto
    then have "n div 10 < 10 ^ v"
      using "1.prems" by (simp add: div_less_iff_less_mult)
    from "1.IH" [OF False this w(2)] show ?thesis
      using False w by (subst dec.simps) simp
  qed
qed

lemma length_zero_padded: "n < 10 ^ w \<Longrightarrow> 0 < w \<Longrightarrow> length (zero_padded w n) = w"
  using length_dec_le [of n w] by (simp add: zero_padded_def)

lemma undec_zero_padded: "undec (zero_padded w n) = n"
proof -
  have "undec (replicate k (CHR ''0'') @ s) = undec s" for k s
    by (induction k) (simp_all add: undec_def byte_def)
  then show ?thesis
    by (simp add: zero_padded_def)
qed

lemma zero_padded_undec: "list_all is_ascii_digit s \<Longrightarrow> s \<noteq> [] \<Longrightarrow> zero_padded (length s) (undec s) = s"
  by (intro undec_inj_digits zero_padded_digits)
     (simp_all add: length_zero_padded undec_less undec_zero_padded)

text \<open>The layout of a timestamp: seven blocks of digits and seven separators.\<close>

definition timestamp_layout :: "string \<Rightarrow> string \<Rightarrow> string \<Rightarrow> string \<Rightarrow> string \<Rightarrow> string \<Rightarrow> string \<Rightarrow> string" where
  "timestamp_layout y mo d h mi s n =
     y @ [CHR ''-''] @ mo @ [CHR ''-''] @ d @ [CHR ''T''] @ h @ [CHR '':''] @ mi @ [CHR '':''] @ s @ [CHR ''.'']
       @ n @ [CHR ''Z'']"

lemma drop_slice: "i \<le> j \<Longrightarrow> drop i xs = slice xs i j @ drop j xs"
  unfolding slice_def by (metis append_take_drop_id drop_drop le_add_diff_inverse2)

lemma drop_nth: "j < length xs \<Longrightarrow> drop j xs = [xs ! j] @ drop (Suc j) xs"
  by (simp add: Cons_nth_drop_Suc)

lemma split_timestamp:
  assumes "length s = 30"
  shows "s = slice s 0 4 @ [s ! 4] @ slice s 5 7 @ [s ! 7] @ slice s 8 10 @ [s ! 10] @ slice s 11 13 @ [s ! 13] @
    slice s 14 16 @ [s ! 16] @ slice s 17 19 @ [s ! 19] @ slice s 20 29 @ [s ! 29]"
proof -
  have "drop 30 s = []"
    using assms by simp
  with assms show ?thesis
    using drop_slice [of 0 4 s] drop_nth [of 4 s] drop_slice [of 5 7 s] drop_nth [of 7 s] drop_slice [of 8 10 s]
      drop_nth [of 10 s] drop_slice [of 11 13 s] drop_nth [of 13 s] drop_slice [of 14 16 s] drop_nth [of 16 s]
      drop_slice [of 17 19 s] drop_nth [of 19 s] drop_slice [of 20 29 s] drop_nth [of 29 s]
    by simp
qed

definition misplaced :: "nat \<times> char \<Rightarrow> bool" where
  "misplaced p = (case p of (index, c) \<Rightarrow> index \<notin> set timestamp_separators \<and> \<not> is_ascii_digit c)"

lemma digits_well_placed: "list_all is_ascii_digit s \<Longrightarrow> \<not> list_ex misplaced (enumerate k s)"
  by (induction s arbitrary: k) (auto simp: misplaced_def)

lemma well_placed_digits:
  assumes "\<not> list_ex misplaced (enumerate 0 s)" "j \<le> length s" "{i..<j} \<inter> set timestamp_separators = {}"
  shows "list_all is_ascii_digit (slice s i j)"
proof -
  have "is_ascii_digit (slice s i j ! k)" if "k < length (slice s i j)" for k
  proof -
    have k: "i + k < j"
      using that unfolding slice_def length_take length_drop by linarith
    then have "(i + k, s ! (i + k)) \<in> set (enumerate 0 s)"
      using assms(2) by (simp add: in_set_enumerate_eq)
    then have "\<not> misplaced (i + k, s ! (i + k))"
      using assms(1) by (auto simp: list_ex_iff)
    moreover have "i + k \<in> {i..<j}"
      using k by simp
    then have "i + k \<notin> set timestamp_separators"
      using assms(3) by blast
    ultimately have "is_ascii_digit (s ! (i + k))"
      by (simp add: misplaced_def)
    then show ?thesis
      using k assms(2) by (simp add: slice_def)
  qed
  then show ?thesis
    by (simp add: list_all_length)
qed

lemma length_slice: "j \<le> length s \<Longrightarrow> length (slice s i j) = j - i"
  by (simp add: slice_def)

lemma timestamp_layout_shape:
  assumes "length y = 4" "length mo = 2" "length d = 2" "length h = 2" "length mi = 2" "length sc = 2" "length n = 9"
    and "list_all is_ascii_digit y" "list_all is_ascii_digit mo" "list_all is_ascii_digit d"
    "list_all is_ascii_digit h" "list_all is_ascii_digit mi" "list_all is_ascii_digit sc" "list_all is_ascii_digit n"
  defines "s \<equiv> timestamp_layout y mo d h mi sc n"
  shows "length s = 30" "s ! 4 = CHR ''-''" "s ! 7 = CHR ''-''" "s ! 10 = CHR ''T''" "s ! 13 = CHR '':''"
    "s ! 16 = CHR '':''" "s ! 19 = CHR ''.''" "s ! 29 = CHR ''Z''"
    "slice s 0 4 = y" "slice s 5 7 = mo" "slice s 8 10 = d" "slice s 11 13 = h" "slice s 14 16 = mi" "slice s 17 19 = sc"
    "\<not> list_ex misplaced (enumerate 0 s)"
proof -
  show "length s = 30" "s ! 4 = CHR ''-''" "s ! 7 = CHR ''-''" "s ! 10 = CHR ''T''" "s ! 13 = CHR '':''"
    "s ! 16 = CHR '':''" "s ! 19 = CHR ''.''" "s ! 29 = CHR ''Z''"
    using assms(1-7) by (simp_all add: s_def timestamp_layout_def nth_append)
  show "slice s 0 4 = y" "slice s 5 7 = mo" "slice s 8 10 = d" "slice s 11 13 = h" "slice s 14 16 = mi" "slice s 17 19 = sc"
    using assms(1-7) by (simp_all add: s_def timestamp_layout_def slice_def)
  show "\<not> list_ex misplaced (enumerate 0 s)"
    using assms(1-14)
    by (simp add: s_def timestamp_layout_def enumerate_append_eq digits_well_placed)
       (simp add: misplaced_def timestamp_separators_def)
qed

text \<open>
  The calendar, independent of the tables of the code: \<open>day_number\<close> is the usual count of the days
  of the proleptic Gregorian calendar, whose years are taken to begin in March so that a leap day
  ends its year, and a date exists when its day comes before the first of the next month.
\<close>

definition day_number :: "nat \<Rightarrow> nat \<Rightarrow> nat \<Rightarrow> int" where
  "day_number year month day =
     (let y = int year - (if month \<le> 2 then 1 else 0);
          m = (if month \<le> 2 then int month + 9 else int month - 3)
      in 365 * y + y div 4 - y div 100 + y div 400 + (153 * m + 2) div 5 + int day - 1)"

definition gregorian_date :: "nat \<Rightarrow> nat \<Rightarrow> nat \<Rightarrow> bool" where
  "gregorian_date year month day \<longleftrightarrow> 1 \<le> month \<and> month \<le> 12 \<and> 1 \<le> day \<and>
     day_number year month day <
       (if month = 12 then day_number (Suc year) 1 1 else day_number year (Suc month) 1)"

lemma day_number_known:
  "day_number 1970 1 1 - day_number 1 1 1 = 719162"
  "day_number 2000 3 1 - day_number 2000 2 29 = 1" "day_number 1900 3 1 - day_number 1900 2 28 = 1"
  "day_number 2023 12 25 - day_number 1 1 1 = 738878"
  by (simp_all add: day_number_def)

lemma div_pred: "0 < k \<Longrightarrow> y div k = (y - 1) div k + (if k dvd y then 1 else 0)" for y k :: int
proof -
  assume k: "0 < k"
  show ?thesis
  proof (cases "k dvd y")
    case True
    then obtain q where "y = k * q" by blast
    moreover have "(k * q - 1) div k = q - 1"
      using k by (intro int_div_pos_eq [of _ _ _ "k - 1"]) (auto simp: algebra_simps)
    ultimately show ?thesis using k by simp
  next
    case False
    then have "y mod k \<noteq> 0" by (simp add: dvd_eq_mod_eq_0)
    moreover have "0 \<le> y mod k" "y mod k < k" using k by simp_all
    ultimately have "(y - 1) div k = y div k"
      by (intro int_div_pos_eq [of _ _ _ "y mod k - 1"]) (auto simp: algebra_simps)
    with False show ?thesis by simp
  qed
qed

lemma leap_balance:
  fixes a b c y :: int
  assumes "a = a' + (if p then 1 else 0)" "b = b' + (if q then 1 else 0)" "c = c' + (if r then 1 else 0)"
    and "r \<Longrightarrow> q" "q \<Longrightarrow> p"
  shows "365 * y + a - b + c = 365 * (y - 1) + a' - b' + c' + 337 + (if p \<and> (\<not> q \<or> r) then 29 else 28)"
  using assms by (cases p; cases q; cases r) simp_all

lemma february_days: "day_number year 3 1 = day_number year 2 1 + (if is_leap_year year then 29 else 28)"
proof -
  have dvd: "(4 dvd int year) = (4 dvd year)" "(100 dvd int year) = (100 dvd year)" "(400 dvd int year) = (400 dvd year)"
    using int_dvd_int_iff [of 4 year] int_dvd_int_iff [of 100 year] int_dvd_int_iff [of 400 year] by simp_all
  have chain: "4 dvd year" if "100 dvd year"
    by (rule dvd_trans [OF _ that]) simp
  have chain': "100 dvd year" if "400 dvd year"
    by (rule dvd_trans [OF _ that]) simp
  have d: "int year div 4 = (int year - 1) div 4 + (if 4 dvd year then 1 else 0)"
    "int year div 100 = (int year - 1) div 100 + (if 100 dvd year then 1 else 0)"
    "int year div 400 = (int year - 1) div 400 + (if 400 dvd year then 1 else 0)"
    by (subst div_pred, simp, simp only: dvd)+
  have "day_number year 3 1 = 365 * int year + int year div 4 - int year div 100 + int year div 400"
    "day_number year 2 1 = 365 * (int year - 1) + (int year - 1) div 4 - (int year - 1) div 100 + (int year - 1) div 400 + 337"
    by (simp_all add: day_number_def Let_def)
  then show ?thesis
    unfolding is_leap_year_def by (simp only: leap_balance [OF d chain' chain])
qed

lemma gregorian_date_month_days:
  "gregorian_date year month day \<longleftrightarrow> 1 \<le> day \<and> (\<exists>days. month_days year month = Some days \<and> day \<le> days)"
proof -
  have day: "day_number year month day = day_number year month 1 + int day - 1"
    by (simp add: day_number_def Let_def)
  consider "month = 1" | "month = 2" | "month = 3" | "month = 4" | "month = 5" | "month = 6" | "month = 7"
    | "month = 8" | "month = 9" | "month = 10" | "month = 11" | "month = 12" | "\<not> (1 \<le> month \<and> month \<le> 12)"
    by atomize_elim presburger
  then show ?thesis
  proof cases
    case 2
    then show ?thesis
      using day february_days [of year] by (auto simp: gregorian_date_def month_days_def)
  next
    case 13
    then show ?thesis by (auto simp: gregorian_date_def month_days_def)
  qed (auto simp: gregorian_date_def month_days_def day_number_def Let_def)
qed
text \<open>The fields a layout stands for, and when they are an instant of the calendar.\<close>

definition calendar_instant :: "nat \<Rightarrow> nat \<Rightarrow> nat \<Rightarrow> nat \<Rightarrow> nat \<Rightarrow> nat \<Rightarrow> bool" where
  "calendar_instant year month day hour minute second \<longleftrightarrow>
     1 \<le> year \<and> gregorian_date year month day \<and> hour \<le> 23 \<and> minute \<le> 59 \<and> second \<le> 59"

lemma calendar_instant_fields:
  "calendar_instant year month day hour minute second \<longleftrightarrow>
     1 \<le> year \<and> 1 \<le> day \<and> (\<exists>days. month_days year month = Some days \<and> day \<le> days) \<and>
     hour \<le> 23 \<and> minute \<le> 59 \<and> second \<le> 59"
  by (auto simp: calendar_instant_def gregorian_date_month_days)

lemma valid_timestamp_layout:
  "valid_utc_rfc3339_nanoseconds s \<longleftrightarrow>
     (\<exists>y mo d h mi sc n. s = timestamp_layout y mo d h mi sc n \<and>
        length y = 4 \<and> length mo = 2 \<and> length d = 2 \<and> length h = 2 \<and> length mi = 2 \<and> length sc = 2 \<and> length n = 9 \<and>
        list_all is_ascii_digit y \<and> list_all is_ascii_digit mo \<and> list_all is_ascii_digit d \<and>
        list_all is_ascii_digit h \<and> list_all is_ascii_digit mi \<and> list_all is_ascii_digit sc \<and>
        list_all is_ascii_digit n \<and>
        calendar_instant (undec y) (undec mo) (undec d) (undec h) (undec mi) (undec sc))" (is "?L \<longleftrightarrow> ?R")
proof
  have misplaced: "list_ex (\<lambda>(index, c). index \<notin> set timestamp_separators \<and> \<not> is_ascii_digit c) = list_ex misplaced"
    by (simp add: misplaced_def [abs_def])
  {
    assume L: ?L
    then have len: "length s = 30" and seps: "s ! 4 = CHR ''-''" "s ! 7 = CHR ''-''" "s ! 10 = CHR ''T''"
        "s ! 13 = CHR '':''" "s ! 16 = CHR '':''" "s ! 19 = CHR ''.''" "s ! 29 = CHR ''Z''"
      and placed: "\<not> list_ex misplaced (enumerate 0 s)"
      by (simp_all add: valid_utc_rfc3339_nanoseconds_def misplaced split: if_splits)
    have digits: "list_all is_ascii_digit (slice s 0 4)" "list_all is_ascii_digit (slice s 5 7)"
        "list_all is_ascii_digit (slice s 8 10)" "list_all is_ascii_digit (slice s 11 13)"
        "list_all is_ascii_digit (slice s 14 16)" "list_all is_ascii_digit (slice s 17 19)"
        "list_all is_ascii_digit (slice s 20 29)"
      by (rule well_placed_digits [OF placed]; simp add: len timestamp_separators_def)+
    note lengths = length_slice [of _ s]
    have "calendar_instant (undec (slice s 0 4)) (undec (slice s 5 7)) (undec (slice s 8 10))
        (undec (slice s 11 13)) (undec (slice s 14 16)) (undec (slice s 17 19))"
      using L len digits
      by (simp add: valid_utc_rfc3339_nanoseconds_def ascii_decimal_digits lengths calendar_instant_fields
          split: if_splits option.splits)
    moreover have "s = timestamp_layout (slice s 0 4) (slice s 5 7) (slice s 8 10) (slice s 11 13) (slice s 14 16)
        (slice s 17 19) (slice s 20 29)"
      using split_timestamp [OF len] by (simp add: timestamp_layout_def seps)
    ultimately show ?R
      using digits len by (intro exI conjI) (assumption | simp add: lengths)+
  }
  {
    assume ?R
    then obtain y mo d h mi sc n where s: "s = timestamp_layout y mo d h mi sc n"
      and lens: "length y = 4" "length mo = 2" "length d = 2" "length h = 2" "length mi = 2" "length sc = 2" "length n = 9"
      and digits: "list_all is_ascii_digit y" "list_all is_ascii_digit mo" "list_all is_ascii_digit d"
        "list_all is_ascii_digit h" "list_all is_ascii_digit mi" "list_all is_ascii_digit sc" "list_all is_ascii_digit n"
      and instant: "calendar_instant (undec y) (undec mo) (undec d) (undec h) (undec mi) (undec sc)"
      by blast
    from timestamp_layout_shape [OF lens digits] instant digits lens show ?L
      unfolding s valid_utc_rfc3339_nanoseconds_def misplaced
      by (auto simp: ascii_decimal_digits calendar_instant_fields)
  }
qed

text \<open>C40. The timestamps a release frame may carry are exactly the RFC 3339 texts of the instants of the
  proleptic Gregorian calendar from year 1 to 9999, with nine digits of nanoseconds and the zone Z.
  The calendar is given by the count of its days, not by the month lengths or the leap year test
  of the code.\<close>

theorem timestamp_valid_iff_instant:
  "valid_utc_rfc3339_nanoseconds s \<longleftrightarrow>
     (\<exists>year month day hour minute second nano. s = render_instant year month day hour minute second nano \<and>
        year < 10000 \<and> nano < 1000000000 \<and> calendar_instant year month day hour minute second)"
  (is "_ \<longleftrightarrow> ?R")
proof
  have block: "zero_padded w (undec x) = x" if "list_all is_ascii_digit x" "length x = w" "0 < w" for x w
    using zero_padded_undec [of x] that by (cases x) auto
  {
    assume "valid_utc_rfc3339_nanoseconds s"
    then obtain y mo d h mi sc n where s: "s = timestamp_layout y mo d h mi sc n"
      and lens: "length y = 4" "length mo = 2" "length d = 2" "length h = 2" "length mi = 2" "length sc = 2" "length n = 9"
      and digits: "list_all is_ascii_digit y" "list_all is_ascii_digit mo" "list_all is_ascii_digit d"
        "list_all is_ascii_digit h" "list_all is_ascii_digit mi" "list_all is_ascii_digit sc" "list_all is_ascii_digit n"
      and instant: "calendar_instant (undec y) (undec mo) (undec d) (undec h) (undec mi) (undec sc)"
      by (auto simp: valid_timestamp_layout)
    have "s = render_instant (undec y) (undec mo) (undec d) (undec h) (undec mi) (undec sc) (undec n)"
      by (simp add: s timestamp_layout_def render_instant_def block lens digits)
    moreover have "undec y < 10000" "undec n < 1000000000"
      using undec_less [OF digits(1)] undec_less [OF digits(7)] lens by simp_all
    ultimately show ?R
      using instant by blast
  }
  {
    assume ?R
    then obtain year month day hour minute second nano
      where s: "s = render_instant year month day hour minute second nano"
        and bounds: "year < 10000" "nano < 1000000000" and instant: "calendar_instant year month day hour minute second"
      by blast
    from instant have small: "month < 100" "day < 100" "hour < 100" "minute < 100" "second < 100"
      by (auto simp: calendar_instant_fields month_days_def split: if_splits)
    show "valid_utc_rfc3339_nanoseconds s"
      unfolding valid_timestamp_layout
      by (rule exI [of _ "zero_padded 4 year"], rule exI [of _ "zero_padded 2 month"], rule exI [of _ "zero_padded 2 day"],
          rule exI [of _ "zero_padded 2 hour"], rule exI [of _ "zero_padded 2 minute"],
          rule exI [of _ "zero_padded 2 second"], rule exI [of _ "zero_padded 9 nano"])
         (simp add: s render_instant_def timestamp_layout_def length_zero_padded zero_padded_digits undec_zero_padded
           bounds small instant)
  }
qed

end
