(* ===== verification/Launch_Barrier_Properties.thy ===== *)
theory Launch_Barrier_Properties
  imports Launch_Barrier Launch_Schedule_Properties
begin

text \<open>
  What the launch barrier does to the world and in which order: everything before the ready frame
  and between the release and the receipt only observes, the receipt needs a release frame that
  matches the ready child, and a file read through a bound handle did not change meanwhile.
\<close>

subsection \<open>Which calls the operations make\<close>

fun observing :: "os_call \<Rightarrow> bool" where
  "observing (SymlinkMetadata p) = True"
| "observing (FirstDirEntry p) = True"
| "observing (OpenNoFollow p) = True"
| "observing (HandleMetadata f) = True"
| "observing (ReadHandle f n) = True"
| "observing (ReadToEnd f n) = True"
| "observing (Canonicalize p) = True"
| "observing c = False"

text \<open>The calls that store the bytes of a new file durably.\<close>

fun storing :: "string \<Rightarrow> os_call \<Rightarrow> bool" where
  "storing bytes (WriteAll f s) = (s = bytes)"
| "storing bytes (FlushHandle f) = True"
| "storing bytes (SyncHandle f) = True"
| "storing bytes (OpenDirectory p) = True"
| "storing bytes c = False"

lemma makes_symlink_metadata [makes_intro]: "makes observing (symlink_metadata K p)"
  unfolding symlink_metadata_def by (intro makes_intro) simp

lemma makes_require_directory [makes_intro]: "makes observing (require_directory K p m)"
  unfolding require_directory_def by (auto intro!: makes_intro)

lemma makes_campaign_directory [makes_intro]: "makes observing (require_campaign_directory K p role m)"
  unfolding require_campaign_directory_def by (auto simp: Let_def intro!: makes_intro)

lemma makes_empty_directory [makes_intro]: "makes observing (require_empty_directory K p m)"
  unfolding require_empty_directory_def by (auto intro!: makes_intro split: option.split)

lemma path_absent_iff:
  "require_path_absent K p m h = (Inr u, h') \<longleftrightarrow>
     (\<exists>e. os_symlink_metadata K h p = Inl e \<and> kind_of e = NotFoundKind) \<and> h' = SymlinkMetadata p # h"
  by (auto simp: require_path_absent_def symlink_metadata_def io_call_def split: sum.split)

lemma makes_path_absent [makes_intro]: "makes observing (require_path_absent K p m)"
  by (auto simp: makes_def require_path_absent_def symlink_metadata_def io_call_def split: sum.split)

lemma makes_same_canonical_path [makes_intro]: "makes observing (require_same_canonical_path K p q m)"
  unfolding require_same_canonical_path_def canonicalize_def by (auto intro!: makes_intro)

lemma makes_checked_metadata [makes_intro]: "makes observing (checked_path_file_metadata K p n m)"
  unfolding checked_path_file_metadata_def by (auto intro!: makes_intro)

lemma makes_open_no_follow [makes_intro]: "makes observing (open_regular_file_no_follow K p)"
  unfolding open_regular_file_no_follow_def by (intro makes_intro) simp

lemma makes_snapshot [makes_intro]: "makes observing (regular_file_snapshot K f n m)"
  unfolding regular_file_snapshot_def by (auto intro!: makes_intro)

lemma makes_verify [makes_intro]: "makes observing (verify_unchanged_and_bound K b)"
  unfolding verify_unchanged_and_bound_def by (auto simp: Let_def intro!: makes_intro)

lemma makes_bound_open [makes_intro]: "makes observing (bound_regular_file_open K p n m)"
  unfolding bound_regular_file_open_def by (auto simp: Let_def intro!: makes_intro)

lemma makes_read_bounded [makes_intro]: "makes observing (read_bounded_regular_file K p n m)"
  unfolding read_bounded_regular_file_def by (auto simp: Let_def intro!: makes_intro split: option.split)

lemma makes_hash_chunks [makes_intro]: "makes observing (hash_chunks K f e limit n seen)"
proof (induction K f e limit n seen rule: hash_chunks.induct)
  case (1 K f e limit n seen)
  then show ?case
    by (subst hash_chunks.simps) (auto simp: Let_def intro!: makes_intro split: option.split)
qed

lemma makes_fingerprint_file [makes_intro]: "makes observing (fingerprint_regular_file_bounded K C p n m)"
  unfolding fingerprint_regular_file_bounded_def by (auto simp: Let_def intro!: makes_intro split: option.split prod.split)

lemma makes_fingerprint [makes_intro]: "makes observing (fingerprint_regular_file K C p m)"
  unfolding fingerprint_regular_file_def by (intro makes_intro)

lemma makes_mutable_paths [makes_intro]: "makes observing (validate_mutable_paths_after_release K p)"
  unfolding validate_mutable_paths_after_release_def by (intro makes_intro)

lemma makes_prepare_token [makes_intro]: "makes observing (prepare_token K C p)"
  unfolding prepare_token_def by (intro makes_intro)

lemma makes_prepare_paths [makes_intro]: "makes observing (prepare_paths K root t)"
  unfolding prepare_paths_def Let_def by (intro makes_intro)

lemma makes_prepare_ready [makes_intro]: "makes observing (prepare_ready_frame K C root bs t p)"
  unfolding prepare_ready_frame_def Let_def by (intro makes_intro)

lemma makes_prepare [makes_intro]: "makes observing (prepare_from_environment K C)"
  unfolding prepare_from_environment_def by (auto intro!: makes_intro split: option.split)

lemma makes_sync_parent [makes_intro]: "makes (storing bytes) (sync_parent_directory K p)"
  unfolding sync_parent_directory_def Let_def by (auto intro!: makes_intro)

subsection \<open>Traces\<close>

lemma io_bindE:
  assumes "io_bind m f h = (r, h')"
  obtains (error) e where "m h = (Inl e, h')" "r = Inl e"
    | (result) x k where "m h = (Inr x, k)" "f x k = (r, h')"
  using assms by (auto simp: io_bind_def split: prod.splits sum.splits)

text \<open>Calls that observe, then create \<open>p\<close>, then store \<open>bytes\<close> in it (the latest first).\<close>

definition creation :: "path \<Rightarrow> string \<Rightarrow> history \<Rightarrow> bool" where
  "creation p bytes cs \<longleftrightarrow>
     (\<exists>stores checks. cs = stores @ CreateNew p # checks \<and> list_all (storing bytes) stores \<and> list_all observing checks)"

lemma creation_append: "creation p bytes cs \<Longrightarrow> list_all observing ds \<Longrightarrow> creation p bytes (cs @ ds)"
  unfolding creation_def by force

lemma create_trace:
  assumes "create_new_durable_file K p bytes h = (r, h')"
  shows "\<exists>cs. h' = cs @ h \<and> (list_all observing cs \<or> creation p bytes cs)"
proof -
  let ?store = "\<lambda>parent file.
     io_bind (io_map_err (protocol_error ''launch receipt write failed'')
       (io_call (WriteAll file bytes) (\<lambda>h. os_write_all K h file bytes))) (\<lambda>_.
     io_bind (io_map_err (protocol_error ''launch receipt flush failed'')
       (io_call (FlushHandle file) (\<lambda>h. os_flush K h file))) (\<lambda>_.
     io_bind (io_map_err (protocol_error ''launch receipt durable sync failed'')
       (io_call (SyncHandle file) (\<lambda>h. os_sync_all K h file))) (\<lambda>_.
     sync_parent_directory K parent)))"
  have store: "makes (storing bytes) (?store parent fd)" for parent fd
    by (auto intro!: makes_intro)
  from assms show ?thesis
    unfolding create_new_durable_file_def
  proof (cases rule: io_bindE)
    case (error e)
    then show ?thesis by (auto simp: io_of_def)
  next
    case (result parent k)
    then have k: "k = h" by (simp add: io_of_def)
    from result(2) show ?thesis
    proof (cases rule: io_bindE)
      case (error e)
      then show ?thesis
        using makesD [OF makes_require_directory] k by fastforce
    next
      case (result u k2)
      obtain cs where cs: "k2 = cs @ h" "list_all observing cs"
        using makesD [OF makes_require_directory result(1)] k by blast
      from result(2) show ?thesis
      proof (cases rule: io_bindE)
        case (error e)
        then have "h' = [CreateNew p] @ cs @ h"
          using cs by (auto simp: io_map_err_def io_call_def split: sum.splits)
        moreover have "creation p bytes (CreateNew p # cs)"
          using cs unfolding creation_def by force
        ultimately show ?thesis by (intro exI [of _ "CreateNew p # cs"]) simp
      next
        case (result fd k3)
        then have k3: "k3 = CreateNew p # cs @ h"
          using cs by (auto simp: io_map_err_iff io_call_iff)
        obtain ds where "h' = ds @ k3" "list_all (storing bytes) ds"
          using makesD [OF store result(2)] by blast
        then show ?thesis
          using k3 cs unfolding creation_def by (intro exI [of _ "ds @ CreateNew p # cs"]) force
      qed
    qed
  qed
qed

text \<open>
  \<open>accepted_release C p bytes r\<close>: the bytes are within the limit, they are the canonical encoding of
  \<open>r\<close>, and \<open>r\<close> matches the prepared child.
\<close>

definition accepted_release :: "launch_codec \<Rightarrow> prepared_barrier \<Rightarrow> string \<Rightarrow> launch_release_frame \<Rightarrow> bool" where
  "accepted_release C p bytes r \<longleftrightarrow>
     length bytes \<le> MAX_LAUNCH_FRAME_BYTES \<and> release_from_slice C bytes = Inr r \<and>
     (\<exists>body. release_to_vec C r = Inr body \<and> bytes = body @ [char_of (10 :: nat)]) \<and> validate_release p r = Inr ()"

definition receipt_text :: "launch_codec \<Rightarrow> prepared_barrier \<Rightarrow> launch_release_frame \<Rightarrow> string \<Rightarrow> string \<Rightarrow> bool" where
  "receipt_text C p r release_bytes bytes \<longleftrightarrow>
     (\<exists>f body. fingerprint_bytes C release_bytes = Inr f \<and>
        receipt_to_vec_pretty C (launch_receipt_of p r f) = Inr body \<and> bytes = body @ [char_of (10 :: nat)])"

lemma or_protocol_error_iff: "or_protocol_error r m = Inr x \<longleftrightarrow> r = Inr x"
  by (auto simp: or_protocol_error_def split: sum.split)

lemma parse_canonical_compact_iff:
  "parse_canonical_compact_json from_slice to_vec bytes m = Inr v \<longleftrightarrow>
     from_slice bytes = Inr v \<and> (\<exists>body. to_vec v = Inr body \<and> bytes = body @ [char_of (10 :: nat)])"
  by (auto simp: parse_canonical_compact_json_def canonical_compact_json_def sum_bind_eq_Inr or_protocol_error_iff
      split: if_splits)

lemma canonical_pretty_iff:
  "canonical_pretty_json to_vec v m = Inr bytes \<longleftrightarrow> (\<exists>body. to_vec v = Inr body \<and> bytes = body @ [char_of (10 :: nat)])"
  by (auto simp: canonical_pretty_json_def sum_bind_eq_Inr or_protocol_error_iff)

lemma io_of_result: "io_of r h = (x, h') \<longleftrightarrow> x = r \<and> h' = h"
  by (auto simp: io_of_def)

lemma complete_trace:
  assumes "complete_after_release K C p release_bytes h = (r, h')"
  shows "\<exists>cs. h' = cs @ h \<and> (list_all observing cs \<or>
    (\<exists>release bytes. accepted_release C p release_bytes release \<and> receipt_text C p release release_bytes bytes \<and>
       creation (pb_receipt_path p) bytes cs))"
proof (cases "MAX_LAUNCH_FRAME_BYTES < length release_bytes")
  case True
  then have "h' = h"
    using assms by (simp add: complete_after_release_def io_err_def io_of_def)
  then show ?thesis by simp
next
  case small: False
  from assms small have "io_bind (io_of (parse_canonical_compact_json (release_from_slice C) (release_to_vec C)
      release_bytes ''launch release frame is invalid'')) (\<lambda>release.
      io_bind (io_of (validate_release p release)) (\<lambda>_.
      io_bind (validate_mutable_paths_after_release K p) (\<lambda>_.
      io_bind (io_of (fingerprint_bytes C release_bytes)) (\<lambda>release_fingerprint.
      io_bind (io_of (canonical_pretty_json (receipt_to_vec_pretty C) (launch_receipt_of p release release_fingerprint)
        ''launch receipt encoding failed'')) (\<lambda>receipt_bytes.
      io_bind (io_require (length receipt_bytes \<le> MAX_BARRIER_ARTIFACT_BYTES)
        (protocol_error ''launch receipt exceeds the size limit'')) (\<lambda>_.
      create_new_durable_file K (pb_receipt_path p) receipt_bytes)))))) h = (r, h')"
    by (simp add: complete_after_release_def)
  then show ?thesis
  proof (elim io_bindE, goal_cases)
    case (7 release k1 u k2 v k3 f k4 bytes k5 w k6)
    then have "accepted_release C p release_bytes release" "receipt_text C p release release_bytes bytes"
      using small by (auto simp: accepted_release_def receipt_text_def io_of_iff parse_canonical_compact_iff
          canonical_pretty_iff)
    moreover have "validate_mutable_paths_after_release K p h = (Inr v, k3)"
      using 7 by (auto simp: io_of_iff)
    then obtain cs where "k3 = cs @ h" "list_all observing cs"
      using makesD [OF makes_mutable_paths] by blast
    moreover obtain ds where "h' = ds @ k3" "list_all observing ds \<or> creation (pb_receipt_path p) bytes ds"
      using 7 create_trace by (fastforce simp: io_of_iff io_require_iff)
    ultimately show ?case
      by (intro exI [of _ "ds @ cs"]) (auto dest: creation_append)
  qed (auto simp: io_of_result io_require_def dest!: makesD [OF makes_mutable_paths])
qed




lemma selected_invocation:
  assumes "validate_selected_invocation K route t = Inr ()"
  shows "\<exists>benchmark. var_os K ISSUANCE_ROUTE_BENCHMARK_ID_ENV = Some benchmark \<and>
    scheduled_benchmark_id (lt_global_round_ordinal t) (lt_cell_ordinal t) (lt_expansion_position t) = Some benchmark \<and>
    drop 1 (os_args K) = expected_arguments benchmark"
proof -
  obtain validated where validated: "validate_issuance_route_invocation (Some route)
      (var_os K ISSUANCE_ROUTE_BENCHMARK_ID_ENV) (drop 1 (os_args K)) = Inr validated"
    using assms unfolding validate_selected_invocation_def sum_bind_eq_Inr by blast
  note selected = assms [unfolded validate_selected_invocation_def validated sum_bind.simps]
  obtain v where "validated = Some v"
    using selected by (cases validated) simp_all
  note v = validated [unfolded this] and rest = selected [unfolded this option.case]
  obtain benchmark where b: "var_os K ISSUANCE_ROUTE_BENCHMARK_ID_ENV = Some benchmark"
      "position (\<lambda>route. qr_benchmark_id route = benchmark) (qualification_routes issuance_benchmark_cases)
        = Some (vi_selected_route_index v)"
      "drop 1 (os_args K) = expected_arguments benchmark"
    using v unfolding validate_invocation_eq_Some by blast
  have "scheduled_benchmark_id (lt_global_round_ordinal t) (lt_cell_ordinal t) (lt_expansion_position t) = Some benchmark"
    using rest b(2) unfolding position_eq_Some by (simp add: slice_get_def split: option.splits if_splits)
  with b show ?thesis by blast
qed

text \<open>C24. A prepared child is the scheduled one. When the preparation succeeds, the token is valid, the
  process was started with the frozen Criterion arguments for the benchmark that the schedule names
  at the token's coordinate, the token's file and the receipt's lie at the names of that coordinate
  below the working directory, the ready frame on its way out is the encoding of this token, and
  its fingerprint is the one a release has to carry.
\<close>

theorem prepared_child_is_scheduled:
  assumes "prepare_from_environment K C h = (Inr (Some p), h')"
  shows "let t = pb_token p; root = pb_campaign_root p in
    validate_token t = Inr () \<and> os_current_dir K = Inr root \<and> is_absolute root \<and>
    (\<exists>benchmark. var_os K ISSUANCE_ROUTE_BENCHMARK_ID_ENV = Some benchmark \<and>
       scheduled_benchmark_id (lt_global_round_ordinal t) (lt_cell_ordinal t) (lt_expansion_position t) = Some benchmark \<and>
       drop 1 (os_args K) = expected_arguments benchmark) \<and>
    (\<exists>token_path. var_os K MARTY_PERF_START_BARRIER_ENV = Some token_path \<and>
       path_eq token_path (path_join (path_join root ''barriers'') (coordinate_stem t @ ''.token''))) \<and>
    pb_receipt_path p = path_join (path_join root ''barrier-receipts'') (coordinate_stem t @ ''.json'') \<and>
    (\<exists>body. ready_to_vec C (ready_frame t (pb_token_fingerprint p) (pb_fixed_binary_fingerprint p)) = Inr body \<and>
       pb_ready_bytes p = body @ [char_of (10 :: nat)]) \<and>
    length (pb_ready_bytes p) \<le> MAX_LAUNCH_FRAME_BYTES \<and>
    fingerprint_bytes C (pb_ready_bytes p) = Inr (pb_ready_fingerprint p)"
proof -
  have compact: "canonical_compact_json to_vec v m = Inr bytes \<longleftrightarrow>
      (\<exists>body. to_vec v = Inr body \<and> bytes = body @ [char_of (10 :: nat)])"
    for to_vec :: "'a \<Rightarrow> string + string" and v m bytes
    by (auto simp: canonical_compact_json_def sum_bind_eq_Inr or_protocol_error_iff)
  have absolute: "require_exact_absolute_path a b m = Inr u \<longleftrightarrow> is_absolute a \<and> path_eq a b" for a b m u
    by (auto simp: require_exact_absolute_path_def)
  have campaign: "require_campaign_directory K r role m k = (Inr q, k') \<Longrightarrow> q = path_join r role" for r role m k q k'
    by (auto simp: require_campaign_directory_def Let_def io_iff)
  have utf8: "path_from_utf8_os_string s m = Inr q \<longleftrightarrow> valid_utf8 s \<and> q = s" for s m q
    by (auto simp: path_from_utf8_os_string_def into_string_def)
  obtain token_path root token_bytes t home route temp receipt token_print binary_print ready ready_print k1 k2
    where path: "var_os K MARTY_PERF_START_BARRIER_ENV = Some token_path"
      and token: "prepare_token K C token_path h = (Inr (root, token_bytes, t), k1)"
      and paths: "prepare_paths K root t k1 = (Inr (home, route, temp, receipt), k2)"
      and frame: "prepare_ready_frame K C root token_bytes t route k2
        = (Inr (token_print, binary_print, ready, ready_print), h')"
      and p: "pb_token p = t" "pb_campaign_root p = root" "pb_receipt_path p = receipt" "pb_ready_bytes p = ready"
        "pb_token_fingerprint p = token_print" "pb_fixed_binary_fingerprint p = binary_print"
        "pb_ready_fingerprint p = ready_print"
    using assms unfolding prepare_from_environment_def by (auto simp: io_iff split: option.splits)
  have "validate_token t = Inr ()" "os_current_dir K = Inr root" "is_absolute root"
    "path_eq token_path (path_join (path_join root ''barriers'') (coordinate_stem t @ ''.token''))"
    using token unfolding prepare_token_def by (auto simp: io_iff absolute utf8 dest!: campaign)
  moreover have "receipt = path_join (path_join root ''barrier-receipts'') (coordinate_stem t @ ''.json'')"
    using paths unfolding prepare_paths_def Let_def by (auto simp: io_iff dest!: campaign)
  moreover have "validate_selected_invocation K route t = Inr ()"
    and "\<exists>body. ready_to_vec C (ready_frame t token_print binary_print) = Inr body \<and> ready = body @ [char_of (10 :: nat)]"
    and "length ready \<le> MAX_LAUNCH_FRAME_BYTES" "fingerprint_bytes C ready = Inr ready_print"
    using frame unfolding prepare_ready_frame_def Let_def by (auto simp: io_iff compact)
  ultimately show ?thesis
    using path selected_invocation [of K route t] by (simp add: p Let_def)
qed

text \<open>The streamed fingerprint is the fingerprint of the bytes that were read, whatever the chunks.\<close>

lemma hash_chunks_bytes:
  "hash_chunks K f e limit n seen h = (Inr (n', s), h') \<Longrightarrow>
     \<exists>more. s = seen @ more \<and> n' = n + length more \<and> length more \<le> limit"
proof (induction K f e limit n seen arbitrary: h rule: hash_chunks.induct)
  case (1 K f e limit n seen)
  show ?case
  proof (cases "limit = 0")
    case True
    then show ?thesis
      using "1.prems" by (simp add: hash_chunks.simps [of K f e 0 n seen] io_iff)
  next
    case False
    let ?n = "min (64 * 1024) limit"
    let ?read = "io_map_err e (io_call (ReadHandle f ?n) (\<lambda>h. map_sum id (take ?n) (os_read K h f ?n)))"
    let ?next = "\<lambda>chunk. if chunk = [] then io_ok (n, seen)
        else case checked_add n (length chunk) of None \<Rightarrow> io_err e
          | Some n2 \<Rightarrow> hash_chunks K f e (limit - length chunk) n2 (seen @ chunk)"
    have "io_bind ?read ?next h = (Inr (n', s), h')"
      using "1.prems" False by (simp only: hash_chunks.simps [of K f e limit n seen] if_False Let_def)
    then obtain chunk k where chunk: "?read h = (Inr chunk, k)" and rest: "?next chunk k = (Inr (n', s), h')"
      unfolding io_bind_iff by blast
    have "length chunk \<le> limit"
      using chunk by (cases "os_read K h f ?n") (auto simp: io_map_err_iff io_call_iff)
    note chunk = this
    show ?thesis
    proof (cases "chunk = []")
      case True
      then show ?thesis
        using rest by (simp add: io_iff)
    next
      case nonempty: False
      then obtain n2 where n2: "checked_add n (length chunk) = Some n2"
        and "hash_chunks K f e (limit - length chunk) n2 (seen @ chunk) k = (Inr (n', s), h')"
        using rest by (auto simp: io_iff split: option.splits)
      from "1.IH" [OF False refl nonempty n2 this(2)] obtain more
        where "s = (seen @ chunk) @ more" "n' = n2 + length more" "length more \<le> limit - length chunk"
        by blast
      then show ?thesis
        using n2 chunk by (intro exI [of _ "chunk @ more"]) auto
    qed
  qed
qed

lemma file_fingerprint_of_bytes:
  assumes "fingerprint_regular_file_bounded K C p maximum_bytes m h = (Inr f, h')" and "maximum_bytes < 2 ^ 63"
  shows "\<exists>content. fingerprint_bytes C content = Inr f \<and> content \<noteq> [] \<and> length content \<le> maximum_bytes"
proof -
  obtain b k n s k' limit where read: "hash_chunks K b (protocol_error m) limit 0 [] k = (Inr (n, s), k')"
    and n: "n \<le> maximum_bytes" "n \<noteq> 0"
    and f: "f = \<lparr>af_sha256 = uppercase_hex (lc_sha256 C s), af_byte_length = n\<rparr>"
    using assms(1) unfolding fingerprint_regular_file_bounded_def Let_def
    by (auto simp: io_iff split: option.splits if_splits prod.splits)
  from hash_chunks_bytes [OF read] have "n = length s"
    by auto
  then show ?thesis
    using n f assms(2) by (intro exI [of _ s]) (auto simp: fingerprint_bytes_def usize_max_def)
qed

subsection \<open>A run\<close>

text \<open>
  A campaign below \<open>/c\<close> with one scheduled child: the system below keeps quiet, the controller
  answers the ready frame with the matching release, and the barrier stores its receipt.
\<close>

definition sample_token :: launch_token where
  "sample_token =
     \<lparr>lt_schema = TOKEN_SCHEMA, lt_campaign_id = ''00000000-0000-4000-8000-000000000000'',
      lt_global_round_ordinal = 0, lt_cell_ordinal = 0, lt_expansion_position = 0,
      lt_timing_process_id = ''r00-c00-e0'', lt_nonce_uppercase_hex_256 = replicate 64 (CHR ''A''),
      lt_process_identity_pseudonym = replicate 64 (CHR ''B'')\<rparr>"

definition sample_print :: "nat \<Rightarrow> artifact_fingerprint" where
  "sample_print n = \<lparr>af_sha256 = replicate 64 (CHR ''0''), af_byte_length = n\<rparr>"

definition sample_release :: launch_release_frame where
  "sample_release =
     \<lparr>rl_schema = RELEASE_SCHEMA, rl_campaign_id = ''00000000-0000-4000-8000-000000000000'',
      rl_global_round_ordinal = 0, rl_cell_ordinal = 0, rl_expansion_position = 0,
      rl_timing_process_id = ''r00-c00-e0'', rl_process_identity_pseudonym = replicate 64 (CHR ''B''),
      rl_launch_token_fingerprint = sample_print 2, rl_ready_frame_fingerprint = sample_print 2,
      rl_process_start_record_fingerprint = sample_print 1,
      rl_prepared_at_utc_rfc3339_nanoseconds = ''2024-02-29T12:34:56.000000000Z'',
      rl_prepared_at_monotonic_nanoseconds = 0\<rparr>"

definition line_of :: "string \<Rightarrow> string" where
  "line_of s = s @ [char_of (10 :: nat)]"

definition sample_codec :: launch_codec where
  "sample_codec =
     \<lparr>lc_sha256 = (\<lambda>s. replicate 32 (char_of (0 :: nat))),
      token_from_slice = (\<lambda>s. if s = line_of ''T'' then Inr sample_token else Inl []),
      token_to_vec_pretty = (\<lambda>t. Inr ''T''), ready_to_vec = (\<lambda>r. Inr ''R''),
      release_from_slice = (\<lambda>s. if s = line_of ''L'' then Inr sample_release else Inl []),
      release_to_vec = (\<lambda>r. Inr ''L''), receipt_to_vec_pretty = (\<lambda>r. Inr ''receipt'')\<rparr>"

definition sample_metadata :: "bool \<Rightarrow> nat \<Rightarrow> metadata" where
  "sample_metadata directory n =
     \<lparr>md_is_symlink = False, md_is_dir = directory, md_is_file = (\<not> directory), md_len = n, md_nlink = 1, md_dev = 1,
      md_ino = n, md_mode = 0, md_mtime = 0, md_mtime_nsec = 0, md_ctime = 0, md_ctime_nsec = 0\<rparr>"

definition sample_os :: os where
  "sample_os =
     \<lparr>os_args = ''bench'' # expected_arguments ''sd_jwt_issuance/v2__s_ea__r_so__p_s__d_0__n_0001'',
      os_vars = [(''CRITERION_HOME'', ''/c/criterion/r00_c00_e0''), (''MARTY_PERF_START_BARRIER'', ''/c/barriers/r00_c00_e0.token''),
        (''NO_COLOR'', ''1''), (''RUST_BACKTRACE'', ''0''),
        (''SD_JWT_ISSUANCE_ROUTE_BENCHMARK_ID'', ''sd_jwt_issuance/v2__s_ea__r_so__p_s__d_0__n_0001''),
        (''SD_JWT_ISSUANCE_ROUTE_NDJSON'', ''/c/routes/r00_c00_e0.ndjson''), (''TEMP'', ''/c/tmp/r00_c00_e0''),
        (''TMP'', ''/c/tmp/r00_c00_e0'')],
      os_current_dir = Inr ''/c'', os_current_exe = Inr ''/c/bin/fixed-benchmark'',
      os_symlink_metadata = (\<lambda>h p.
        if p \<in> {''/c'', ''/c/barriers'', ''/c/criterion'', ''/c/routes'', ''/c/tmp'', ''/c/barrier-receipts'', ''/c/bin'',
                ''/c/criterion/r00_c00_e0'', ''/c/tmp/r00_c00_e0''} then Inr (sample_metadata True 0)
        else if p = ''/c/barriers/r00_c00_e0.token'' then Inr (sample_metadata False 2)
        else if p = ''/c/bin/fixed-benchmark'' then Inr (sample_metadata False 1)
        else Inl (IoError NotFoundKind [])),
      os_first_entry = (\<lambda>h p. Inr None),
      os_open_no_follow = (\<lambda>h p. Inr (if p = ''/c/bin/fixed-benchmark'' then 1 else 2)),
      os_handle_metadata = (\<lambda>h f. Inr (sample_metadata False f)),
      os_read = (\<lambda>h f n. Inr (case h of ReadHandle f n # _ \<Rightarrow> [] | _ \<Rightarrow> ''B'')),
      os_read_to_end = (\<lambda>h f. Inr (line_of ''T'')), os_canonicalize = (\<lambda>h p. Inr p),
      os_stdout_write = (\<lambda>h s. Inr ()), os_stdout_flush = (\<lambda>h. Inr ()), os_stdin_read_to_end = (\<lambda>h. Inr (line_of ''L'')),
      os_create_new = (\<lambda>h p. Inr 3), os_write_all = (\<lambda>h f s. Inr ()), os_flush = (\<lambda>h f. Inr ()), os_sync_all = (\<lambda>h f. Inr ()),
      os_open_directory = (\<lambda>h p. Inr 4)\<rparr>"

lemma valid_utf8_ascii: "is_ascii s \<Longrightarrow> valid_utf8 s"
proof -
  assume s: "is_ascii s"
  have "concat (map utf8_encode (map byte s)) = s"
    using s by (induction s) (simp_all add: is_ascii_def is_ascii_byte_def utf8_encode_def)
  moreover have "list_all is_scalar (map byte s)"
    using s by (induction s) (simp_all add: is_ascii_def is_ascii_byte_def is_scalar_def)
  ultimately show ?thesis
    using s by (simp add: valid_utf8_def chars_ascii)
qed

lemma zero_padded_2 [simp]: "zero_padded 2 0 = ''00''"
  by code_simp

lemmas io_eval = io_bind_def io_call_def io_map_err_def io_ok_def io_err_def io_of_def io_require_def
lemmas ascii_eval = into_string_def valid_utf8_ascii is_ascii_def is_ascii_byte_def byte_def
lemmas path_eval = path_join_def path_eq_def is_absolute_def path_components_def

lemma sample_stem [simp]: "coordinate_stem sample_token = ''r00_c00_e0''"
  by (simp add: coordinate_stem_def sample_token_def)

lemma sample_directory:
  "p \<in> {''/c'', ''/c/barriers'', ''/c/criterion'', ''/c/routes'', ''/c/tmp'', ''/c/barrier-receipts'', ''/c/bin'',
     ''/c/criterion/r00_c00_e0'', ''/c/tmp/r00_c00_e0''} \<Longrightarrow>
   require_directory sample_os p m h = (Inr (), SymlinkMetadata p # h)"
  by (simp add: require_directory_def symlink_metadata_def io_eval sample_os_def sample_metadata_def
      metadata_is_reparse_point_def)

lemma sample_campaign_directory:
  "require_campaign_directory sample_os ''/c'' ''barriers'' m h = (Inr ''/c/barriers'', SymlinkMetadata ''/c/barriers'' # h)"
  "require_campaign_directory sample_os ''/c'' ''criterion'' m h = (Inr ''/c/criterion'', SymlinkMetadata ''/c/criterion'' # h)"
  "require_campaign_directory sample_os ''/c'' ''routes'' m h = (Inr ''/c/routes'', SymlinkMetadata ''/c/routes'' # h)"
  "require_campaign_directory sample_os ''/c'' ''tmp'' m h = (Inr ''/c/tmp'', SymlinkMetadata ''/c/tmp'' # h)"
  "require_campaign_directory sample_os ''/c'' ''bin'' m h = (Inr ''/c/bin'', SymlinkMetadata ''/c/bin'' # h)"
  "require_campaign_directory sample_os ''/c'' ''barrier-receipts'' m h
    = (Inr ''/c/barrier-receipts'', SymlinkMetadata ''/c/barrier-receipts'' # h)"
  by (simp_all add: require_campaign_directory_def path_join_def is_absolute_def sample_directory io_eval Let_def)

lemma sample_absent:
  "require_path_absent sample_os ''/c/routes/r00_c00_e0.ndjson'' m h
    = (Inr (), SymlinkMetadata ''/c/routes/r00_c00_e0.ndjson'' # h)"
  "require_path_absent sample_os ''/c/barrier-receipts/r00_c00_e0.json'' m h
    = (Inr (), SymlinkMetadata ''/c/barrier-receipts/r00_c00_e0.json'' # h)"
  by (simp_all add: require_path_absent_def symlink_metadata_def io_call_def sample_os_def)

lemma sample_empty: "require_empty_directory sample_os p m h = (Inr (), FirstDirEntry p # h)"
  by (simp add: require_empty_directory_def io_eval sample_os_def)

text \<open>The two files of the campaign: the token under handle 2, the executable under handle 1.\<close>

definition sample_file :: "path \<Rightarrow> nat \<Rightarrow> bool" where
  "sample_file p n \<longleftrightarrow> (\<forall>h. os_symlink_metadata sample_os h p = Inr (sample_metadata False n)) \<and>
     (\<forall>h. os_open_no_follow sample_os h p = Inr n)"

lemma sample_files: "sample_file ''/c/barriers/r00_c00_e0.token'' 2" "sample_file ''/c/bin/fixed-benchmark'' 1"
  by (simp_all add: sample_file_def sample_os_def)

lemma sample_handle: "os_handle_metadata sample_os h n = Inr (sample_metadata False n)"
  by (simp add: sample_os_def)

lemma sample_metadata_fields [simp]:
  "\<not> md_is_symlink (sample_metadata d n)" "md_is_file (sample_metadata d n) = (\<not> d)" "md_len (sample_metadata d n) = n"
  "md_nlink (sample_metadata d n) = 1"
  by (simp_all add: sample_metadata_def)

lemma sample_snapshot:
  "n \<le> most \<Longrightarrow> regular_file_snapshot sample_os n most m h
     = (Inr (snapshot_of (sample_metadata False n)), HandleMetadata n # h)"
  by (simp add: regular_file_snapshot_def io_eval sample_handle)

lemma sample_checked:
  "sample_file p n \<Longrightarrow> n \<le> most \<Longrightarrow> checked_path_file_metadata sample_os p most m h
     = (Inr (sample_metadata False n), SymlinkMetadata p # h)"
  by (simp add: checked_path_file_metadata_def symlink_metadata_def io_eval sample_file_def
      metadata_is_reparse_point_def path_metadata_has_one_link_def)

lemma sample_open: "sample_file p n \<Longrightarrow> open_regular_file_no_follow sample_os p h = (Inr n, OpenNoFollow p # h)"
  by (simp add: open_regular_file_no_follow_def io_eval sample_file_def)

lemma sample_verify:
  "sample_file p n \<Longrightarrow> n \<le> most \<Longrightarrow>
   verify_unchanged_and_bound sample_os \<lparr>br_file = n, br_path = p, br_initial = snapshot_of (sample_metadata False n),
       br_maximum_bytes = most, br_message = m\<rparr> h
     = (Inr (), [HandleMetadata n, OpenNoFollow p, SymlinkMetadata p, HandleMetadata n] @ h)"
  by (simp add: verify_unchanged_and_bound_def Let_def sample_snapshot sample_checked sample_open io_eval
      path_metadata_matches_handle_def)

definition open_calls :: "path \<Rightarrow> nat \<Rightarrow> history" where
  "open_calls p n = [HandleMetadata n, OpenNoFollow p, SymlinkMetadata p, HandleMetadata n, HandleMetadata n,
     OpenNoFollow p, SymlinkMetadata p]"

lemma sample_file_bound:
  "sample_file p n \<Longrightarrow> n \<le> most \<Longrightarrow>
   bound_regular_file_open sample_os p most m h
     = (Inr \<lparr>br_file = n, br_path = p, br_initial = snapshot_of (sample_metadata False n),
         br_maximum_bytes = most, br_message = m\<rparr>, open_calls p n @ h)"
  by (simp add: bound_regular_file_open_def open_calls_def Let_def sample_snapshot sample_checked sample_open
      sample_verify io_eval path_metadata_matches_handle_def)

lemma sample_snapshot_length: "fs_byte_length (snapshot_of (sample_metadata d n)) = n"
  by (simp add: snapshot_of_def)

lemma sample_read_token:
  "read_bounded_regular_file sample_os ''/c/barriers/r00_c00_e0.token'' MAX_BARRIER_ARTIFACT_BYTES m h
     = (Inr (line_of ''T''), [HandleMetadata 2, OpenNoFollow ''/c/barriers/r00_c00_e0.token'',
         SymlinkMetadata ''/c/barriers/r00_c00_e0.token'', HandleMetadata 2, ReadToEnd 2 16777217]
         @ open_calls ''/c/barriers/r00_c00_e0.token'' 2 @ h)"
proof -
  have "os_read_to_end sample_os k 2 = Inr (line_of ''T'')" for k
    by (simp add: sample_os_def)
  moreover have "length (line_of ''T'') = 2"
    by (simp add: line_of_def)
  ultimately show ?thesis
    by (simp add: read_bounded_regular_file_def Let_def sample_files sample_verify io_eval sample_snapshot_length
        sample_file_bound [OF sample_files(1)]
        checked_add_def MAX_BARRIER_ARTIFACT_BYTES_def usize_max_def)
qed

lemma sample_hash_chunks:
  "hash_chunks sample_os 1 e 2147483649 0 [] (HandleMetadata n # h)
     = (Inr (1, ''B''), [ReadHandle 1 65536, ReadHandle 1 65536, HandleMetadata n] @ h)"
proof -
  have read: "os_read sample_os k f n = Inr (case k of ReadHandle f n # _ \<Rightarrow> [] | _ \<Rightarrow> ''B'')" for k f n
    by (simp add: sample_os_def)
  show ?thesis
    by (subst hash_chunks.simps, simp add: read io_eval checked_add_def usize_max_def Let_def,
        subst hash_chunks.simps, simp add: read io_eval checked_add_def usize_max_def Let_def)
qed

lemma sample_hex: "uppercase_hex (replicate n (char_of (0 :: nat))) = replicate (2 * n) (CHR ''0'')"
  by (induction n) (simp_all add: uppercase_hex_def HEX_def byte_def)

lemma sample_fingerprint_bytes: "length s \<le> 100 \<Longrightarrow> fingerprint_bytes sample_codec s = Inr (sample_print (length s))"
  by (simp add: fingerprint_bytes_def sample_codec_def sample_print_def sample_hex usize_max_def)

lemma sample_fingerprint_file:
  "fingerprint_regular_file sample_os sample_codec ''/c/bin/fixed-benchmark'' m h
     = (Inr (sample_print 1), [HandleMetadata 1, OpenNoFollow ''/c/bin/fixed-benchmark'',
         SymlinkMetadata ''/c/bin/fixed-benchmark'', HandleMetadata 1, ReadHandle 1 65536, ReadHandle 1 65536]
         @ open_calls ''/c/bin/fixed-benchmark'' 1 @ h)"
  using sample_files(2) sample_hash_chunks
  by (simp add: fingerprint_regular_file_def fingerprint_regular_file_bounded_def Let_def sample_verify io_eval
      sample_snapshot_length sample_file_bound [OF sample_files(2)] checked_add_def MAX_FIXED_BINARY_BYTES_def usize_max_def
      open_calls_def sample_codec_def sample_hex sample_print_def)

lemma io_bind_fst: "fst (m h) = Inr x \<Longrightarrow> io_bind m f h = f x (snd (m h))"
  by (auto simp: io_bind_def split: prod.splits sum.splits)

lemma sample_environment: "validate_environment_allowlist sample_os = Inr ()"
  by (simp add: validate_environment_allowlist_def sample_os_def ascii_eval expected_environment_def cfg_windows_def
      CRITERION_HOME_ENV_def MARTY_PERF_START_BARRIER_ENV_def NO_COLOR_ENV_def RUST_BACKTRACE_ENV_def
      ISSUANCE_ROUTE_BENCHMARK_ID_ENV_def ISSUANCE_ROUTE_NDJSON_ENV_def TEMP_ENV_def TMP_ENV_def)

lemma list_all_replicate: "list_all P (replicate n x) \<longleftrightarrow> n = 0 \<or> P x"
  by (induction n) auto

lemma sample_token_valid: "validate_token sample_token = Inr ()"
proof -
  have "valid_uppercase_hex_256 (replicate 64 c)" if "upper_a_to_f c" for c
    using that by (simp add: valid_uppercase_hex_256_def list_all_replicate)
  moreover have "valid_uuid_v4 (lt_campaign_id sample_token)"
    by (simp add: sample_token_def valid_uuid_v4_def is_ascii_digit_def byte_def)
  moreover have "replicate 64 (CHR ''A'') \<noteq> replicate 64 (CHR ''B'')"
    by (simp add: numeral_eq_Suc)
  ultimately show ?thesis
    by (simp add: validate_token_def sample_token_def MAX_GLOBAL_ROUNDS_def MAX_CELLS_def MAX_EXPANSION_POSITIONS_def
        timing_process_id_def upper_a_to_f_def byte_def)
qed

lemma sample_prepare_token:
  "fst (prepare_token sample_os sample_codec ''/c/barriers/r00_c00_e0.token'' h) = Inr (''/c'', line_of ''T'', sample_token)"
proof -
  have parse: "parse_canonical_pretty_json (token_from_slice sample_codec) (token_to_vec_pretty sample_codec) (line_of ''T'') m
      = Inr sample_token" for m
    by (simp add: parse_canonical_pretty_json_def canonical_pretty_json_def or_protocol_error_def sample_codec_def line_of_def)
  have dir: "os_current_dir sample_os = Inr ''/c''"
    by (simp add: sample_os_def)
  have utf8: "path_from_utf8_os_string ''/c/barriers/r00_c00_e0.token'' m = Inr ''/c/barriers/r00_c00_e0.token''" for m
    by (simp add: path_from_utf8_os_string_def ascii_eval)
  have exact: "require_exact_absolute_path ''/c/barriers/r00_c00_e0.token''
      (path_join ''/c/barriers'' (''r00_c00_e0'' @ ''.token'')) m = Inr ()" for m
    by (simp add: require_exact_absolute_path_def path_join_def path_eq_def is_absolute_def)
  show ?thesis
    by (simp add: prepare_token_def io_eval sample_environment dir utf8 parse exact is_absolute_def sample_directory
        sample_read_token sample_token_valid sample_campaign_directory del: append.simps append_Cons)
qed

lemma sample_prepare_paths:
  "fst (prepare_paths sample_os ''/c'' sample_token h)
     = Inr (''/c/criterion/r00_c00_e0'', ''/c/routes/r00_c00_e0.ndjson'', ''/c/tmp/r00_c00_e0'',
         ''/c/barrier-receipts/r00_c00_e0.json'')"
proof -
  have env: "required_utf8_path_env sample_os CRITERION_HOME_ENV = Inr ''/c/criterion/r00_c00_e0''"
    "required_utf8_path_env sample_os ISSUANCE_ROUTE_NDJSON_ENV = Inr ''/c/routes/r00_c00_e0.ndjson''"
    "required_utf8_path_env sample_os TEMP_ENV = Inr ''/c/tmp/r00_c00_e0''"
    "required_utf8_path_env sample_os TMP_ENV = Inr ''/c/tmp/r00_c00_e0''"
    by (simp_all add: required_utf8_path_env_def var_os_def sample_os_def path_from_utf8_os_string_def ascii_eval
        CRITERION_HOME_ENV_def ISSUANCE_ROUTE_NDJSON_ENV_def TEMP_ENV_def TMP_ENV_def)
  have joins: "path_join ''/c/criterion'' ''r00_c00_e0'' = ''/c/criterion/r00_c00_e0''"
    "path_join ''/c/routes'' (''r00_c00_e0'' @ ''.ndjson'') = ''/c/routes/r00_c00_e0.ndjson''"
    "path_join ''/c/tmp'' ''r00_c00_e0'' = ''/c/tmp/r00_c00_e0''"
    "path_join ''/c/barrier-receipts'' (''r00_c00_e0'' @ ''.json'') = ''/c/barrier-receipts/r00_c00_e0.json''"
    by (simp_all add: path_join_def is_absolute_def)
  have same: "is_absolute p \<Longrightarrow> require_exact_absolute_path p p m = Inr ()" for p m
    by (simp add: require_exact_absolute_path_def path_eq_def)
  show ?thesis
    by (simp add: prepare_paths_def Let_def io_eval env joins same is_absolute_def sample_directory sample_empty
        sample_absent sample_campaign_directory del: append.simps append_Cons)
qed

lemma sample_scheduled:
  "scheduled_benchmark_id 0 0 0 = Some ''sd_jwt_issuance/v2__s_ea__r_so__p_s__d_0__n_0001''"
  "\<exists>routes. qualification_routes issuance_benchmark_cases =
     \<lparr>qr_benchmark_id = ''sd_jwt_issuance/v2__s_ea__r_so__p_s__d_0__n_0001'',
      qr_fixture_id = ''payload_small__decoys_off__n_0001'', qr_stage = ExecutorAssembly, qr_requested = SerialOracle\<rparr> # routes"
proof -
  obtain cs where cases: "issuance_benchmark_cases = \<lparr>bc_disclosure_count = 1, bc_kind = StandardFixture Small False\<rparr> # cs"
    by (simp add: issuance_benchmark_cases_def standard_cases_def ISSUANCE_DISCLOSURE_COUNTS_def)
  have first: "cell_case 0 = \<lparr>bc_disclosure_count = 1, bc_kind = StandardFixture Small False\<rparr>"
    by (simp only: cell_case_def cases div_0 nth_Cons_0)
  have id: "full_criterion_id \<lparr>bc_disclosure_count = 1, bc_kind = StandardFixture Small False\<rparr> ExecutorAssembly SerialOracle
      = ''sd_jwt_issuance/v2__s_ea__r_so__p_s__d_0__n_0001''"
    by (simp add: full_criterion_id_def benchmark_id_def ISSUANCE_BENCHMARK_GROUP_ID_def)
  show "scheduled_benchmark_id 0 0 0 = Some ''sd_jwt_issuance/v2__s_ea__r_so__p_s__d_0__n_0001''"
    unfolding scheduled_eq_Some using first id
    by (simp add: MAX_GLOBAL_ROUNDS_def MAX_CELLS_def MAX_EXPANSION_POSITIONS_def cell_stage_def
        round_order_def SUPERBLOCK_ORDERS_def ABBA_EXPANSION_def)
  show "\<exists>routes. qualification_routes issuance_benchmark_cases =
     \<lparr>qr_benchmark_id = ''sd_jwt_issuance/v2__s_ea__r_so__p_s__d_0__n_0001'',
      qr_fixture_id = ''payload_small__decoys_off__n_0001'', qr_stage = ExecutorAssembly, qr_requested = SerialOracle\<rparr> # routes"
    by (simp add: qualification_routes_def cases case_routes_def fixture_id_def id [simplified])
qed

lemma sample_selected: "validate_selected_invocation sample_os ''/c/routes/r00_c00_e0.ndjson'' sample_token = Inr ()"
proof -
  let ?id = "''sd_jwt_issuance/v2__s_ea__r_so__p_s__d_0__n_0001''"
  obtain routes r where routes: "qualification_routes issuance_benchmark_cases = r # routes" "qr_benchmark_id r = ?id"
    using sample_scheduled(2) by force
  have env: "var_os sample_os ISSUANCE_ROUTE_BENCHMARK_ID_ENV = Some ?id"
    by (simp add: var_os_def sample_os_def ISSUANCE_ROUTE_BENCHMARK_ID_ENV_def)
  have args: "drop (Suc 0) (os_args sample_os) = expected_arguments ?id"
    by (simp add: sample_os_def)
  have "validate_issuance_route_invocation (Some ''/c/routes/r00_c00_e0.ndjson'') (Some ?id) (expected_arguments ?id)
      = Inr (Some \<lparr>vi_destination = ''/c/routes/r00_c00_e0.ndjson'', vi_selected_route_index = 0\<rparr>)"
    unfolding validate_invocation_eq_Some
    by (simp add: routes is_absolute_def expected_arguments_def ascii_eval)
  then show ?thesis
    by (simp add: validate_selected_invocation_def env args path_eq_def slice_get_def routes sample_token_def
        sample_scheduled(1))
qed

lemma sample_prepare_ready:
  "fst (prepare_ready_frame sample_os sample_codec ''/c'' (line_of ''T'') sample_token ''/c/routes/r00_c00_e0.ndjson'' h)
     = Inr (sample_print 2, sample_print 1, line_of ''R'', sample_print 2)"
proof -
  have env: "validate_literal_environment sample_os = Inr ()" "validate_platform_environment sample_os = Inr ()"
    by (simp_all add: validate_literal_environment_def validate_platform_environment_def var_os_def sample_os_def
        NO_COLOR_ENV_def RUST_BACKTRACE_ENV_def SYSTEM_ROOT_ENV_def WINDIR_ENV_def cfg_windows_def)
  have exe: "os_current_exe sample_os = Inr ''/c/bin/fixed-benchmark''"
      "path_join ''/c/bin'' fixed_binary_name = ''/c/bin/fixed-benchmark''"
    by (simp_all add: sample_os_def path_join_def is_absolute_def fixed_binary_name_def cfg_windows_def)
  have canonical: "require_same_canonical_path sample_os p p m k = (Inr (), [Canonicalize p, Canonicalize p] @ k)" for p m k
    by (simp add: require_same_canonical_path_def canonicalize_def io_eval path_eq_def sample_os_def)
  have ready: "canonical_compact_json (ready_to_vec sample_codec) r m = Inr (line_of ''R'')" for r m
    by (simp add: canonical_compact_json_def or_protocol_error_def sample_codec_def line_of_def)
  have lines: "length (line_of ''T'') = 2" "length (line_of ''R'') = 2"
    by (simp_all add: line_of_def)
  show ?thesis
    by (simp add: prepare_ready_frame_def Let_def io_eval sample_selected env exe sample_campaign_directory canonical
        sample_fingerprint_file sample_fingerprint_bytes lines ready MAX_LAUNCH_FRAME_BYTES_def)
qed

definition sample_prepared :: prepared_barrier where
  "sample_prepared =
     \<lparr>pb_token = sample_token, pb_token_fingerprint = sample_print 2, pb_fixed_binary_fingerprint = sample_print 1,
      pb_ready_bytes = line_of ''R'', pb_ready_fingerprint = sample_print 2, pb_campaign_root = ''/c'',
      pb_criterion_home = ''/c/criterion/r00_c00_e0'', pb_route_path = ''/c/routes/r00_c00_e0.ndjson'',
      pb_temp_path = ''/c/tmp/r00_c00_e0'', pb_receipt_path = ''/c/barrier-receipts/r00_c00_e0.json''\<rparr>"

lemma sample_prepare: "fst (prepare_from_environment sample_os sample_codec h) = Inr (Some sample_prepared)"
proof -
  have "var_os sample_os MARTY_PERF_START_BARRIER_ENV = Some ''/c/barriers/r00_c00_e0.token''"
    by (simp add: var_os_def sample_os_def MARTY_PERF_START_BARRIER_ENV_def)
  then show ?thesis
    by (simp add: prepare_from_environment_def io_bind_fst sample_prepare_token sample_prepare_paths
        sample_prepare_ready io_ok_def io_of_def sample_prepared_def)
qed

lemma sample_mutable_paths:
  "fst (validate_mutable_paths_after_release sample_os sample_prepared h) = Inr ()"
  by (simp add: validate_mutable_paths_after_release_def sample_prepared_def io_eval sample_directory sample_empty
      sample_absent sample_campaign_directory)

lemma sample_release_valid: "validate_release sample_prepared sample_release = Inr ()"
proof -
  have "valid_utc_rfc3339_nanoseconds ''2024-02-29T12:34:56.000000000Z''"
    by (simp add: valid_utc_rfc3339_nanoseconds_def slice_def timestamp_separators_def is_ascii_digit_def byte_def
        ascii_decimal_def u32_checked_def month_days_def is_leap_year_def)
  moreover have "valid_artifact_fingerprint (sample_print 1) 1 MAX_LAUNCH_FRAME_BYTES"
    by (simp add: valid_artifact_fingerprint_def sample_print_def list_all_replicate is_ascii_digit_def byte_def
        MAX_LAUNCH_FRAME_BYTES_def)
  ultimately show ?thesis
    by (simp add: validate_release_def sample_prepared_def sample_release_def sample_token_def Let_def)
qed

lemma sample_create:
  "\<exists>stores checks. create_new_durable_file sample_os ''/c/barrier-receipts/r00_c00_e0.json'' bytes h
     = (Inr (), stores @ CreateNew ''/c/barrier-receipts/r00_c00_e0.json'' # checks)"
proof -
  have parent: "path_parent ''/c/barrier-receipts/r00_c00_e0.json'' = Some ''/c/barrier-receipts''"
    by (simp add: path_parent_def)
  have "create_new_durable_file sample_os ''/c/barrier-receipts/r00_c00_e0.json'' bytes h =
    (Inr (), [SyncHandle 4, OpenDirectory ''/c/barrier-receipts'', SyncHandle 3, FlushHandle 3, WriteAll 3 bytes]
       @ CreateNew ''/c/barrier-receipts/r00_c00_e0.json'' # SymlinkMetadata ''/c/barrier-receipts'' # h)"
    by (simp add: create_new_durable_file_def parent sync_parent_directory_def io_eval sample_directory)
       (simp add: sample_os_def)
  then show ?thesis by blast
qed

lemma sample_run:
  "\<exists>calls. run_issuance_launch_barrier_from_env sample_os sample_codec [] = (Inr (), calls) \<and>
     CreateNew ''/c/barrier-receipts/r00_c00_e0.json'' \<in> set calls"
proof -
  have stdio: "os_stdout_write sample_os h s = Inr ()" "os_stdout_flush sample_os h = Inr ()"
      "os_stdin_read_to_end sample_os h = Inr (line_of ''L'')" for h s
    by (simp_all add: sample_os_def)
  have line: "length (line_of ''L'') = 2" "take (Suc MAX_LAUNCH_FRAME_BYTES) (line_of ''L'') = line_of ''L''"
    by (simp_all add: line_of_def MAX_LAUNCH_FRAME_BYTES_def)
  have small: "2 \<le> MAX_LAUNCH_FRAME_BYTES" "\<not> MAX_LAUNCH_FRAME_BYTES < 2"
      "length (line_of ''receipt'') \<le> MAX_BARRIER_ARTIFACT_BYTES"
    by (simp_all add: MAX_LAUNCH_FRAME_BYTES_def MAX_BARRIER_ARTIFACT_BYTES_def line_of_def)
  have path: "pb_receipt_path sample_prepared = ''/c/barrier-receipts/r00_c00_e0.json''"
    by (simp add: sample_prepared_def)
  have parse: "parse_canonical_compact_json (release_from_slice sample_codec) (release_to_vec sample_codec) (line_of ''L'') m
      = Inr sample_release" for m
    unfolding parse_canonical_compact_iff by (simp add: sample_codec_def line_of_def)
  have receipt: "canonical_pretty_json (receipt_to_vec_pretty sample_codec) r m = Inr (line_of ''receipt'')" for r m
    unfolding canonical_pretty_iff by (simp add: sample_codec_def line_of_def)
  have "\<exists>k. complete_after_release sample_os sample_codec sample_prepared (line_of ''L'') h
      = create_new_durable_file sample_os ''/c/barrier-receipts/r00_c00_e0.json'' (line_of ''receipt'') k" for h
    by (simp add: complete_after_release_def line parse sample_release_valid receipt sample_fingerprint_bytes
        io_bind_fst sample_mutable_paths io_of_def io_require_def small path) blast
  then have "\<exists>calls. complete_after_release sample_os sample_codec sample_prepared (line_of ''L'') h = (Inr (), calls) \<and>
      CreateNew ''/c/barrier-receipts/r00_c00_e0.json'' \<in> set calls" for h
    using sample_create by (metis in_set_conv_decomp)
  then show ?thesis
    by (simp add: run_issuance_launch_barrier_from_env_def io_bind_fst sample_prepare io_map_err_def io_call_def stdio
        line)
qed


theorem prepared_child_is_scheduled_witness:
  "\<exists>benchmark. var_os sample_os ISSUANCE_ROUTE_BENCHMARK_ID_ENV = Some benchmark \<and>
     scheduled_benchmark_id 0 0 0 = Some benchmark \<and> drop 1 (os_args sample_os) = expected_arguments benchmark"
proof -
  obtain h' where "prepare_from_environment sample_os sample_codec [] = (Inr (Some sample_prepared), h')"
    using sample_prepare [of "[]"] by (metis prod.collapse)
  from prepared_child_is_scheduled [OF this] show ?thesis
    unfolding Let_def by (elim conjE) (simp add: sample_prepared_def sample_token_def)
qed

text \<open>A file read through a bound handle did not change meanwhile. When a bounded read succeeds,
  whatever else happened to the file system, the path named at the start a regular file with one
  link that is no symbolic link, its length is the number of bytes returned and within the bound,
  and at the end the path, opened again, shows the same device, inode, length, mode and times.
\<close>

theorem bounded_read_is_unchanged:
  assumes "read_bounded_regular_file K p maximum_bytes message h = (Inr bytes, h')"
  shows "\<exists>before after fd k. os_symlink_metadata K h p = Inr before \<and>
    \<not> md_is_symlink before \<and> md_is_file before \<and> md_nlink before = 1 \<and>
    length bytes = md_len before \<and> length bytes \<le> maximum_bytes \<and>
    os_open_no_follow K k p = Inr fd \<and> h' = HandleMetadata fd # OpenNoFollow p # k \<and>
    os_handle_metadata K (OpenNoFollow p # k) fd = Inr after \<and> snapshot_of after = snapshot_of before"
proof -
  obtain b k1 k2 where opened: "bound_regular_file_open K p maximum_bytes message h = (Inr b, k1)"
    and bytes: "length bytes = fs_byte_length (br_initial b)" "length bytes \<le> maximum_bytes"
    and verified: "verify_unchanged_and_bound K b k2 = (Inr (), h')"
    using assms unfolding read_bounded_regular_file_def Let_def
    by (auto simp: io_iff split: option.splits if_splits)
  obtain before where before: "os_symlink_metadata K h p = Inr before" "\<not> md_is_symlink before" "md_is_file before"
      "md_nlink before = 1" and b: "br_path b = p" "br_initial b = snapshot_of before"
    using opened
    unfolding bound_regular_file_open_def checked_path_file_metadata_def symlink_metadata_def Let_def
      path_metadata_has_one_link_def path_metadata_matches_handle_def
    by (auto simp: io_iff split: if_splits)
  have "\<exists>fd k after. os_open_no_follow K k p = Inr fd \<and> h' = HandleMetadata fd # OpenNoFollow p # k \<and>
      os_handle_metadata K (OpenNoFollow p # k) fd = Inr after \<and> snapshot_of after = snapshot_of before"
    using verified b
    unfolding verify_unchanged_and_bound_def regular_file_snapshot_def open_regular_file_no_follow_def Let_def
    by (auto simp: io_iff split: if_splits)
  moreover have "length bytes = md_len before"
    using bytes b by (simp add: snapshot_of_def)
  ultimately show ?thesis
    using before bytes by blast
qed

theorem bounded_read_is_unchanged_witness:
  "\<exists>before. os_symlink_metadata sample_os [] ''/c/barriers/r00_c00_e0.token'' = Inr before \<and> md_len before = 2"
  using bounded_read_is_unchanged [OF sample_read_token [of "[]" "[]"]] by (auto simp: line_of_def)

end
