(* ===== verification/Route_Records.thy ===== *)
theory Route_Records
  imports Route_Invocation
begin

text \<open>
  The route evidence of src/src/issuer/issuance_benchmark.rs: the records that the untimed
  preflight writes (\<open>IssuanceBenchmarkRouteRecord\<close>), their machine form, and the validator of the
  records and of the whole ordered matrix with the sink that stores the selected one. \<open>par\<close> says
  whether the build has the native executor.
\<close>

subsection \<open>The records\<close>

record route_record =
  rr_requested :: benchmark_route
  rr_effective :: effective_route
  rr_executor_batches :: "nat option"
  rr_serial_batches :: "nat option"
  rr_native_batches :: "nat option"
  rr_budget_fallback_batches :: "nat option"
  rr_max_native_worker_count :: nat
  rr_host_available_parallelism :: nat
  rr_ready_batches :: "ready_batch_trace list option"

text \<open>\<open>std::thread::available_parallelism\<close>, \<open>None\<close> when the system does not tell.\<close>

definition available_parallelism :: "nat option \<Rightarrow> nat" where
  "available_parallelism answer = (case answer of None \<Rightarrow> 1 | Some parallelism \<Rightarrow> parallelism)"

definition serial_oracle_record :: "nat option \<Rightarrow> route_record" where
  "serial_oracle_record answer =
     \<lparr>rr_requested = SerialOracle, rr_effective = EffectiveSerialOracle, rr_executor_batches = None,
      rr_serial_batches = None, rr_native_batches = None, rr_budget_fallback_batches = None,
      rr_max_native_worker_count = 0, rr_host_available_parallelism = available_parallelism answer,
      rr_ready_batches = None\<rparr>"

text \<open>
  The assertions on one ready batch: whether none of them fails, and \<open>expect\<close> finds what it wants.
  A division by a worker count of zero would panic as well. The sums fit \<open>usize\<close>.
\<close>

definition assert_selection_reason :: "ready_batch_trace \<Rightarrow> bool" where
  "assert_selection_reason batch =
     (case rb_selection_reason batch of
        BelowMinJobs \<Rightarrow> rb_work_estimate_status batch = EstimateNotEvaluated \<and>
          \<not> rb_parallelism_gate_evaluated batch \<and> \<not> rb_budget_gate_evaluated batch
      | WorkEstimateOverflow \<Rightarrow> rb_work_estimate_status batch = EstimateOverflow \<and>
          \<not> rb_parallelism_gate_evaluated batch \<and> \<not> rb_budget_gate_evaluated batch
      | BelowMinEstimatedWorkBytes \<Rightarrow> rb_work_estimate_status batch = EstimateAvailable \<and>
          \<not> rb_parallelism_gate_evaluated batch \<and> \<not> rb_budget_gate_evaluated batch
      | InsufficientAvailableParallelism \<Rightarrow> rb_work_estimate_status batch = EstimateAvailable \<and>
          rb_parallelism_gate_evaluated batch \<and> \<not> rb_budget_gate_evaluated batch
      | WorkerBudgetUnavailable \<Rightarrow> rb_budget_acquisition batch = AcquisitionUnavailable
      | BoundedNative \<Rightarrow> rb_budget_acquisition batch = Acquired)"

definition assert_selected_mode :: "ready_batch_trace \<Rightarrow> bool" where
  "assert_selected_mode batch =
     (case rb_selected_mode batch of
        SelectedSerial \<Rightarrow> rb_selection_reason batch \<noteq> BoundedNative \<and> rb_leased_worker_count batch = None \<and>
          rb_static_chunk_size batch = None \<and> rb_static_chunks batch = None
      | SelectedNative \<Rightarrow> rb_selection_reason batch = BoundedNative \<and> rb_budget_acquisition batch = Acquired \<and>
          rb_leased_worker_count batch = rb_selected_worker_count batch \<and>
          (case (rb_static_chunk_size batch, rb_selected_worker_count batch, rb_static_chunks batch,
                 rb_estimated_work_bytes batch) of
             (Some chunk_size, Some selected_worker_count, Some cs, Some estimated) \<Rightarrow>
               selected_worker_count \<noteq> 0 \<and>
               chunk_size = rb_job_count batch div selected_worker_count
                 + (if selected_worker_count dvd rb_job_count batch then 0 else 1) \<and>
               sum_list (map sc_job_count cs) = rb_job_count batch \<and>
               sum_list (map sc_estimated_work_bytes cs) = estimated \<and>
               list_all (\<lambda>(ordinal, chunk). sc_ordinal chunk = ordinal \<and> sc_job_count chunk \<le> chunk_size)
                 (enumerate 0 cs)
           | _ \<Rightarrow> False))"

definition assert_ready_batch_trace :: "bool \<Rightarrow> nat \<Rightarrow> ready_batch_trace \<Rightarrow> bool" where
  "assert_ready_batch_trace par expected_ordinal batch \<longleftrightarrow>
     rb_ordinal batch = expected_ordinal \<and>
     rb_work_gate_evaluated batch = (rb_work_estimate_status batch \<noteq> EstimateNotEvaluated) \<and>
     (case rb_work_estimate_status batch of
        EstimateAvailable \<Rightarrow> rb_estimated_work_bytes batch \<noteq> None
      | _ \<Rightarrow> rb_estimated_work_bytes batch = None) \<and>
     rb_parallelism_gate_evaluated batch = (rb_available_parallelism batch \<noteq> None) \<and>
     rb_selected_worker_count batch = map_option (\<lambda>available.
       min (min available (BENCHMARK_ISSUANCE_WORKER_CAP par)) (rb_job_count batch)) (rb_available_parallelism batch) \<and>
     rb_budget_gate_evaluated batch = (rb_budget_acquisition batch \<noteq> AcquisitionNotEvaluated) \<and>
     assert_selection_reason batch \<and> assert_selected_mode batch"

definition candidate_effective :: "execution_trace_summary \<Rightarrow> effective_route" where
  "candidate_effective s =
     (if ts_target_serial_fallback s then TargetSerialFallback
      else if ts_native_batches s \<noteq> 0 \<and> ts_serial_batches s \<noteq> 0 then MixedNativeAndSerial
      else if ts_native_batches s \<noteq> 0 then EffectiveBoundedNative
      else if ts_budget_fallback_batches s \<noteq> 0 then BudgetSerialFallback
      else ReadyBatchSerialFallback)"

definition assert_summary_batches :: "bool \<Rightarrow> execution_trace_summary \<Rightarrow> ready_batch_trace list \<Rightarrow> bool" where
  "assert_summary_batches par s batches \<longleftrightarrow>
     list_all (\<lambda>(ordinal, batch). assert_ready_batch_trace par ordinal batch) (enumerate 0 batches) \<and>
     (let native_batches = length (filter (\<lambda>batch. rb_selected_mode batch = SelectedNative) batches);
          serial_batches = length batches - native_batches;
          budget_fallback_batches =
            length (filter (\<lambda>batch. rb_selection_reason batch = WorkerBudgetUnavailable) batches);
          max_worker_count = fold max (List.map_filter rb_leased_worker_count batches) 0
      in ts_executor_batches s = length batches \<and> ts_serial_batches s = serial_batches \<and>
         ts_native_batches s = native_batches \<and> ts_budget_fallback_batches s = budget_fallback_batches \<and>
         ts_max_worker_count s = max_worker_count)"

definition candidate_record :: "bool \<Rightarrow> nat option \<Rightarrow> execution_trace_summary \<Rightarrow> route_record result" where
  "candidate_record par answer s =
     (if ts_target_serial_fallback s \<noteq> (ts_ready_batches s = None) then Panic
      else if (case ts_ready_batches s of None \<Rightarrow> False | Some batches \<Rightarrow> \<not> assert_summary_batches par s batches)
      then Panic
      else let then_some = (\<lambda>n. if ts_target_serial_fallback s then None else Some n) in
        Ok \<lparr>rr_requested = AdaptiveCandidate, rr_effective = candidate_effective s,
            rr_executor_batches = then_some (ts_executor_batches s),
            rr_serial_batches = then_some (ts_serial_batches s),
            rr_native_batches = then_some (ts_native_batches s),
            rr_budget_fallback_batches = then_some (ts_budget_fallback_batches s),
            rr_max_native_worker_count = ts_max_worker_count s,
            rr_host_available_parallelism = available_parallelism answer,
            rr_ready_batches = ts_ready_batches s\<rparr>)"

subsection \<open>The machine form\<close>

definition json_opt :: "nat option \<Rightarrow> json" where
  "json_opt n = (case n of None \<Rightarrow> Null | Some k \<Rightarrow> json_usize k)"

definition static_chunk_value :: "static_chunk_trace \<Rightarrow> json" where
  "static_chunk_value chunk =
     Object [(''ordinal'', json_usize (sc_ordinal chunk)), (''job_count'', json_usize (sc_job_count chunk)),
       (''estimated_work_bytes'', json_usize (sc_estimated_work_bytes chunk))]"

definition ready_batch_machine_value :: "ready_batch_trace \<Rightarrow> json" where
  "ready_batch_machine_value batch =
     Object [
       (''ordinal'', json_usize (rb_ordinal batch)),
       (''job_count'', json_usize (rb_job_count batch)),
       (''estimated_work_bytes'', json_opt (rb_estimated_work_bytes batch)),
       (''work_estimate_status'', String (work_estimate_label (rb_work_estimate_status batch))),
       (''work_gate_evaluated'', Bool (rb_work_gate_evaluated batch)),
       (''parallelism_gate_evaluated'', Bool (rb_parallelism_gate_evaluated batch)),
       (''budget_gate_evaluated'', Bool (rb_budget_gate_evaluated batch)),
       (''available_parallelism'', json_opt (rb_available_parallelism batch)),
       (''selected_worker_count'', json_opt (rb_selected_worker_count batch)),
       (''leased_worker_count'', json_opt (rb_leased_worker_count batch)),
       (''budget_acquisition_result'', String (budget_acquisition_label (rb_budget_acquisition batch))),
       (''selected_mode'', String (selected_mode_label (rb_selected_mode batch))),
       (''selection_reason'', String (selection_reason_label (rb_selection_reason batch))),
       (''static_chunk_size'', json_opt (rb_static_chunk_size batch)),
       (''static_chunks'',
          case rb_static_chunks batch of None \<Rightarrow> Null | Some cs \<Rightarrow> Array (map static_chunk_value cs))]"

definition machine_record_value :: "bool \<Rightarrow> route_record \<Rightarrow> benchmark_case \<Rightarrow> benchmark_stage \<Rightarrow> json" where
  "machine_record_value par r c stage =
     Object [
       (''schema'', String ISSUANCE_ROUTE_SCHEMA),
       (''benchmark_id'', String (ISSUANCE_BENCHMARK_GROUP_ID @ ''/'' @ benchmark_id c stage (rr_requested r))),
       (''fixture_id'', String (fixture_id c)),
       (''stage'', String (stage_label stage)),
       (''requested'', String (route_label (rr_requested r))),
       (''effective'', String (effective_label (rr_effective r))),
       (''executor_batches'', json_opt (rr_executor_batches r)),
       (''serial_batches'', json_opt (rr_serial_batches r)),
       (''native_batches'', json_opt (rr_native_batches r)),
       (''budget_fallback_batches'', json_opt (rr_budget_fallback_batches r)),
       (''max_native_worker_count'', json_usize (rr_max_native_worker_count r)),
       (''worker_cap'', json_usize (BENCHMARK_ISSUANCE_WORKER_CAP par)),
       (''host_available_parallelism'', json_usize (rr_host_available_parallelism r)),
       (''work_estimator_version'', String BENCHMARK_WORK_ESTIMATOR_VERSION),
       (''static_partition_rule_version'', String BENCHMARK_STATIC_PARTITION_RULE_VERSION),
       (''ready_batches'',
          case rr_ready_batches r of None \<Rightarrow> Null | Some batches \<Rightarrow> Array (map ready_batch_machine_value batches))]"

definition machine_record :: "bool \<Rightarrow> 'k externals \<Rightarrow> route_record \<Rightarrow> benchmark_case \<Rightarrow> benchmark_stage \<Rightarrow> string" where
  "machine_record par X r c stage = json_to_string X (machine_record_value par r c stage)"

subsection \<open>The shape of a record\<close>

definition MAX_ISSUANCE_ROUTE_ARTIFACT_BYTES :: nat where
  "MAX_ISSUANCE_ROUTE_ARTIFACT_BYTES = 1024 * 1024"

definition ISSUANCE_ROUTE_RECORD_FIELDS :: "string list" where
  "ISSUANCE_ROUTE_RECORD_FIELDS =
     [''schema'', ''benchmark_id'', ''fixture_id'', ''stage'', ''requested'', ''effective'', ''executor_batches'',
      ''serial_batches'', ''native_batches'', ''budget_fallback_batches'', ''max_native_worker_count'', ''worker_cap'',
      ''host_available_parallelism'', ''work_estimator_version'', ''static_partition_rule_version'', ''ready_batches'']"

definition ISSUANCE_READY_BATCH_FIELDS :: "string list" where
  "ISSUANCE_READY_BATCH_FIELDS =
     [''ordinal'', ''job_count'', ''estimated_work_bytes'', ''work_estimate_status'', ''work_gate_evaluated'',
      ''parallelism_gate_evaluated'', ''budget_gate_evaluated'', ''available_parallelism'', ''selected_worker_count'',
      ''leased_worker_count'', ''budget_acquisition_result'', ''selected_mode'', ''selection_reason'',
      ''static_chunk_size'', ''static_chunks'']"

definition ISSUANCE_STATIC_CHUNK_FIELDS :: "string list" where
  "ISSUANCE_STATIC_CHUNK_FIELDS = [''ordinal'', ''job_count'', ''estimated_work_bytes'']"

definition has_exact_keys :: "json \<Rightarrow> string list \<Rightarrow> bool" where
  "has_exact_keys v expected =
     (case as_object v of None \<Rightarrow> False | Some m \<Rightarrow> map fst m = expected)"

definition is_null_or_unsigned :: "json option \<Rightarrow> bool" where
  "is_null_or_unsigned v = (case v of None \<Rightarrow> False | Some v \<Rightarrow> is_null v \<or> as_u64 v \<noteq> None)"

text \<open>\<open>object.get(field).and_then(f).is_none()\<close> of the source, negated: the field reads as an \<open>f\<close>.\<close>

definition reads_as :: "(json \<Rightarrow> 'a option) \<Rightarrow> json_map \<Rightarrow> string \<Rightarrow> bool" where
  "reads_as f m field \<longleftrightarrow> Option.bind (map_get m field) f \<noteq> None"

definition chunk_has_canonical_shape :: "json \<Rightarrow> bool" where
  "chunk_has_canonical_shape chunk \<longleftrightarrow>
     has_exact_keys chunk ISSUANCE_STATIC_CHUNK_FIELDS \<and>
     (case as_object chunk of
        None \<Rightarrow> False
      | Some m \<Rightarrow> list_all (reads_as as_u64 m) ISSUANCE_STATIC_CHUNK_FIELDS)"

definition batch_has_canonical_shape :: "json \<Rightarrow> bool" where
  "batch_has_canonical_shape batch =
     (if \<not> has_exact_keys batch ISSUANCE_READY_BATCH_FIELDS then False
      else case as_object batch of
        None \<Rightarrow> False
      | Some m \<Rightarrow>
        (if \<not> list_all (reads_as as_u64 m) [''ordinal'', ''job_count''] \<or>
            \<not> list_all (\<lambda>field. is_null_or_unsigned (map_get m field))
                [''estimated_work_bytes'', ''available_parallelism'', ''selected_worker_count'', ''leased_worker_count'',
                 ''static_chunk_size''] \<or>
            \<not> list_all (reads_as as_str m)
                [''work_estimate_status'', ''budget_acquisition_result'', ''selected_mode'', ''selection_reason''] \<or>
            \<not> list_all (reads_as as_bool m)
                [''work_gate_evaluated'', ''parallelism_gate_evaluated'', ''budget_gate_evaluated'']
         then False
         else case map_get m ''static_chunks'' of
            None \<Rightarrow> False
          | Some static_chunks \<Rightarrow>
              is_null static_chunks \<or>
              (case as_array static_chunks of None \<Rightarrow> False | Some cs \<Rightarrow> list_all chunk_has_canonical_shape cs)))"

definition route_record_has_canonical_shape :: "json \<Rightarrow> bool" where
  "route_record_has_canonical_shape v =
     (if \<not> has_exact_keys v ISSUANCE_ROUTE_RECORD_FIELDS then False
      else case as_object v of
        None \<Rightarrow> False
      | Some m \<Rightarrow>
        (if \<not> list_all (reads_as as_str m)
                [''schema'', ''benchmark_id'', ''fixture_id'', ''stage'', ''requested'', ''effective'',
                 ''work_estimator_version'', ''static_partition_rule_version''] \<or>
            \<not> list_all (\<lambda>field. is_null_or_unsigned (map_get m field))
                [''executor_batches'', ''serial_batches'', ''native_batches'', ''budget_fallback_batches''] \<or>
            \<not> list_all (reads_as as_u64 m)
                [''max_native_worker_count'', ''worker_cap'', ''host_available_parallelism'']
         then False
         else case map_get m ''ready_batches'' of
            None \<Rightarrow> False
          | Some ready_batches \<Rightarrow>
              (if is_null ready_batches then True
               else case as_array ready_batches of
                  None \<Rightarrow> False
                | Some batches \<Rightarrow> list_all batch_has_canonical_shape batches)))"

subsection \<open>The semantics of a ready batch\<close>

definition nullable_unsigned_field :: "json_map \<Rightarrow> string \<Rightarrow> nat option option" where
  "nullable_unsigned_field m field =
     Option.bind (map_get m field) (\<lambda>v. if is_null v then Some None else map_option Some (as_u64 v))"

definition checked_ceil_div :: "nat \<Rightarrow> nat \<Rightarrow> nat option" where
  "checked_ceil_div v divisor =
     (if divisor = 0 then None else checked_add (v div divisor) (if divisor dvd v then 0 else 1))"

definition checked_mul :: "nat \<Rightarrow> nat \<Rightarrow> nat option" where
  "checked_mul a b = (if a * b \<le> usize_max then Some (a * b) else None)"

definition str_field :: "json_map \<Rightarrow> string \<Rightarrow> string option" where
  "str_field m field = Option.bind (map_get m field) as_str"

definition bool_field :: "json_map \<Rightarrow> string \<Rightarrow> bool option" where
  "bool_field m field = Option.bind (map_get m field) as_bool"

definition u64_field :: "json_map \<Rightarrow> string \<Rightarrow> nat option" where
  "u64_field m field = Option.bind (map_get m field) as_u64"

definition ready_batch_serial_tail_is_unevaluated :: "json_map \<Rightarrow> bool" where
  "ready_batch_serial_tail_is_unevaluated m \<longleftrightarrow>
     bool_field m ''parallelism_gate_evaluated'' = Some False \<and>
     nullable_unsigned_field m ''available_parallelism'' = Some None \<and>
     nullable_unsigned_field m ''selected_worker_count'' = Some None \<and>
     bool_field m ''budget_gate_evaluated'' = Some False \<and>
     str_field m ''budget_acquisition_result'' = Some ''not_evaluated'' \<and>
     str_field m ''selected_mode'' = Some ''serial'' \<and>
     nullable_unsigned_field m ''leased_worker_count'' = Some None \<and>
     nullable_unsigned_field m ''static_chunk_size'' = Some None \<and>
     map_option is_null (map_get m ''static_chunks'') = Some True"

text \<open>
  The loop over the chunks, with the ordinal and the jobs and bytes seen so far; \<open>None\<close> is
  \<open>return false\<close>.
\<close>

fun observe_chunks :: "nat \<Rightarrow> nat \<Rightarrow> nat \<Rightarrow> nat \<Rightarrow> nat \<Rightarrow> nat \<Rightarrow> json list \<Rightarrow> (nat \<times> nat) option" where
  "observe_chunks job_count chunk_size expected_chunk_count ordinal jobs work [] = Some (jobs, work)"
| "observe_chunks job_count chunk_size expected_chunk_count ordinal jobs work (chunk # cs) =
     Option.bind (as_object chunk) (\<lambda>m.
     Option.bind (u64_field m ''ordinal'') (\<lambda>chunk_ordinal.
     Option.bind (u64_field m ''job_count'') (\<lambda>chunk_jobs.
     Option.bind (u64_field m ''estimated_work_bytes'') (\<lambda>chunk_work.
     Option.bind
       (if ordinal + 1 = expected_chunk_count
        then Option.bind (checked_mul chunk_size (expected_chunk_count - 1)) (\<lambda>prior_jobs.
          if prior_jobs \<le> job_count then Some (job_count - prior_jobs) else None)
        else Some chunk_size) (\<lambda>expected_jobs.
     if chunk_ordinal \<noteq> ordinal \<or> chunk_jobs \<noteq> expected_jobs \<or> chunk_jobs = 0 \<or> chunk_size < chunk_jobs then None
     else Option.bind (checked_add jobs chunk_jobs) (\<lambda>next_jobs.
       Option.bind (checked_add work chunk_work) (\<lambda>next_work.
       observe_chunks job_count chunk_size expected_chunk_count (Suc ordinal) next_jobs next_work cs)))))))"

definition native_static_chunks_are_valid :: "json_map \<Rightarrow> nat \<Rightarrow> nat \<Rightarrow> nat \<Rightarrow> bool" where
  "native_static_chunks_are_valid m job_count estimated_work_bytes selected_worker_count =
     (case nullable_unsigned_field m ''static_chunk_size'' of
        Some (Some chunk_size) \<Rightarrow>
          (case checked_ceil_div job_count selected_worker_count of
             None \<Rightarrow> False
           | Some expected_chunk_size \<Rightarrow>
             (if chunk_size \<noteq> expected_chunk_size then False
              else case checked_ceil_div job_count chunk_size of
                None \<Rightarrow> False
              | Some expected_chunk_count \<Rightarrow>
                (case Option.bind (map_get m ''static_chunks'') as_array of
                   None \<Rightarrow> False
                 | Some cs \<Rightarrow>
                   (if length cs \<noteq> expected_chunk_count \<or> expected_chunk_count = 0 \<or>
                       selected_worker_count < expected_chunk_count then False
                    else observe_chunks job_count chunk_size expected_chunk_count 0 0 0 cs
                           = Some (job_count, estimated_work_bytes)))))
      | _ \<Rightarrow> False)"

text \<open>
  The decisions on the values of the fields, once all of them have been read: the gates against the
  estimate and the acquisition, then one case per reason, in the order of the source.
\<close>

definition ready_batch_fields_agree ::
    "json_map \<Rightarrow> nat \<Rightarrow> nat option \<Rightarrow> nat option \<Rightarrow> nat option \<Rightarrow> nat option \<Rightarrow> nat option \<Rightarrow> string \<Rightarrow> bool
       \<Rightarrow> bool \<Rightarrow> bool \<Rightarrow> string \<Rightarrow> string \<Rightarrow> string \<Rightarrow> json \<Rightarrow> nat \<Rightarrow> nat \<Rightarrow> bool" where
  "ready_batch_fields_agree m job_count estimated_work_bytes avail selected leased chunk_size
       status work_gate parallelism_gate budget_gate acquisition mode reason static_chunks host worker_cap =
     (if work_gate \<noteq> (status \<noteq> ''not_evaluated'') \<or>
         (estimated_work_bytes \<noteq> None) \<noteq> (status = ''available'') \<or>
         parallelism_gate \<noteq> (avail \<noteq> None \<and> selected \<noteq> None) \<or>
         budget_gate \<noteq> (acquisition \<noteq> ''not_evaluated'')
      then False
      else if job_count < 2 then
        reason = ''below_min_jobs'' \<and> status = ''not_evaluated'' \<and> \<not> work_gate \<and> estimated_work_bytes = None \<and>
        ready_batch_serial_tail_is_unevaluated m
      else if status = ''overflow'' then
        reason = ''work_estimate_overflow'' \<and> work_gate \<and> estimated_work_bytes = None \<and>
        ready_batch_serial_tail_is_unevaluated m
      else case estimated_work_bytes of None \<Rightarrow> False | Some estimated \<Rightarrow>
        if estimated < 1 then
          reason = ''below_min_estimated_work_bytes'' \<and> status = ''available'' \<and> work_gate \<and>
          ready_batch_serial_tail_is_unevaluated m
        else if status \<noteq> ''available'' \<or> \<not> work_gate then False
        else case avail of None \<Rightarrow> False | Some avail \<Rightarrow>
        (case selected of None \<Rightarrow> False | Some selected \<Rightarrow>
        if avail \<noteq> host \<or> avail = 0 \<or> \<not> parallelism_gate \<or>
           selected \<noteq> min (min avail worker_cap) job_count
        then False
        else if selected < 2 then
          reason = ''insufficient_available_parallelism'' \<and> \<not> budget_gate \<and> acquisition = ''not_evaluated'' \<and>
          mode = ''serial'' \<and> leased = None \<and> chunk_size = None \<and> is_null static_chunks
        else if acquisition = ''unavailable'' then
          reason = ''worker_budget_unavailable'' \<and> budget_gate \<and> mode = ''serial'' \<and> leased = None \<and>
          chunk_size = None \<and> is_null static_chunks
        else if acquisition \<noteq> ''acquired'' \<or> reason \<noteq> ''bounded_native'' \<or> \<not> budget_gate \<or>
                mode \<noteq> ''native_parallel'' \<or> leased \<noteq> Some selected
        then False
        else native_static_chunks_are_valid m job_count estimated selected))"

definition ready_batch_semantics_are_valid :: "json \<Rightarrow> nat \<Rightarrow> nat \<Rightarrow> nat \<Rightarrow> bool" where
  "ready_batch_semantics_are_valid batch expected_ordinal host worker_cap =
     (case as_object batch of None \<Rightarrow> False | Some m \<Rightarrow>
     (case u64_field m ''ordinal'' of None \<Rightarrow> False | Some ordinal \<Rightarrow>
     (case u64_field m ''job_count'' of None \<Rightarrow> False | Some job_count \<Rightarrow>
     if ordinal \<noteq> expected_ordinal \<or> job_count = 0 then False
     else case (nullable_unsigned_field m ''estimated_work_bytes'', nullable_unsigned_field m ''available_parallelism'',
         nullable_unsigned_field m ''selected_worker_count'', nullable_unsigned_field m ''leased_worker_count'',
         nullable_unsigned_field m ''static_chunk_size'') of
       (Some estimated_work_bytes, Some avail, Some selected, Some leased, Some chunk_size) \<Rightarrow>
         (case (str_field m ''work_estimate_status'', bool_field m ''work_gate_evaluated'',
             bool_field m ''parallelism_gate_evaluated'', bool_field m ''budget_gate_evaluated'',
             str_field m ''budget_acquisition_result'', str_field m ''selected_mode'', str_field m ''selection_reason'',
             map_get m ''static_chunks'') of
            (Some status, Some work_gate, Some parallelism_gate, Some budget_gate, Some acquisition, Some mode,
             Some reason, Some static_chunks) \<Rightarrow>
              ready_batch_fields_agree m job_count estimated_work_bytes avail selected leased chunk_size
                status work_gate parallelism_gate budget_gate acquisition mode reason static_chunks host worker_cap
          | _ \<Rightarrow> False)
     | _ \<Rightarrow> False)))"

subsection \<open>The semantics of a record\<close>

fun all_some :: "'a option list \<Rightarrow> 'a list option" where
  "all_some [] = Some []"
| "all_some (x # xs) = Option.bind x (\<lambda>y. map_option ((#) y) (all_some xs))"

definition expected_effective :: "nat \<Rightarrow> nat \<Rightarrow> nat \<Rightarrow> string" where
  "expected_effective native_batches serial_batches budget_fallback_batches =
     (if 0 < native_batches \<and> 0 < serial_batches then ''mixed_native_and_serial''
      else if 0 < native_batches then ''bounded_native''
      else if 0 < budget_fallback_batches then ''budget_serial_fallback''
      else ''ready_batch_serial_fallback'')"

definition batch_str_field_is :: "string \<Rightarrow> string \<Rightarrow> json \<Rightarrow> bool" where
  "batch_str_field_is field label batch \<longleftrightarrow> Option.bind (value_get batch field) as_str = Some label"

definition leased_workers :: "json \<Rightarrow> nat option" where
  "leased_workers batch =
     Option.bind (as_object batch) (\<lambda>m. Option.bind (nullable_unsigned_field m ''leased_worker_count'') (\<lambda>w. w))"

definition candidate_semantics_are_valid ::
    "nat option list \<Rightarrow> nat \<Rightarrow> string option \<Rightarrow> json list \<Rightarrow> nat \<Rightarrow> nat \<Rightarrow> bool" where
  "candidate_semantics_are_valid counts max_native_worker_count effective batches host worker_cap =
     (if \<not> list_all (\<lambda>(ordinal, batch). ready_batch_semantics_are_valid batch ordinal host worker_cap)
            (enumerate 0 batches)
      then False
      else
       (let executor_batches = length batches;
            native_batches = length (filter (batch_str_field_is ''selected_mode'' ''native_parallel'') batches);
            budget_fallback_batches =
              length (filter (batch_str_field_is ''selection_reason'' ''worker_budget_unavailable'') batches)
        in if executor_batches < native_batches then False
           else let serial_batches = executor_batches - native_batches;
                    observed_max_workers = fold max (List.map_filter leased_workers batches) 0
             in if counts \<noteq> [Some executor_batches, Some serial_batches, Some native_batches, Some budget_fallback_batches] \<or>
                   serial_batches < budget_fallback_batches \<or> max_native_worker_count \<noteq> observed_max_workers \<or>
                   worker_cap < max_native_worker_count
                then False
                else effective = Some (expected_effective native_batches serial_batches budget_fallback_batches)))"

definition route_record_semantics_are_valid :: "bool \<Rightarrow> json \<Rightarrow> qualification_route \<Rightarrow> bool" where
  "route_record_semantics_are_valid par v expected_route =
     (case as_object v of None \<Rightarrow> False | Some m \<Rightarrow>
     (case u64_field m ''worker_cap'' of None \<Rightarrow> False | Some worker_cap \<Rightarrow>
     (case u64_field m ''host_available_parallelism'' of None \<Rightarrow> False | Some host \<Rightarrow>
     if BENCHMARK_ISSUANCE_WORKER_CAP par \<noteq> worker_cap \<or> host = 0 \<or>
        str_field m ''work_estimator_version'' \<noteq> Some BENCHMARK_WORK_ESTIMATOR_VERSION \<or>
        str_field m ''static_partition_rule_version'' \<noteq> Some BENCHMARK_STATIC_PARTITION_RULE_VERSION
     then False
     else case all_some (map (nullable_unsigned_field m)
            [''executor_batches'', ''serial_batches'', ''native_batches'', ''budget_fallback_batches'']) of
       None \<Rightarrow> False
     | Some counts \<Rightarrow>
       (case u64_field m ''max_native_worker_count'' of None \<Rightarrow> False | Some max_native_worker_count \<Rightarrow>
       (let effective = str_field m ''effective'' in
        case map_get m ''ready_batches'' of None \<Rightarrow> False | Some ready_batches \<Rightarrow>
          if qr_requested expected_route = SerialOracle then
            effective = Some ''serial_oracle'' \<and> list_all (\<lambda>n. n = None) counts \<and> max_native_worker_count = 0 \<and>
            is_null ready_batches
          else if worker_cap = 1 then
            effective = Some ''target_serial_fallback'' \<and> list_all (\<lambda>n. n = None) counts \<and>
            max_native_worker_count = 0 \<and> is_null ready_batches
          else case as_array ready_batches of
            None \<Rightarrow> False
          | Some batches \<Rightarrow>
              candidate_semantics_are_valid counts max_native_worker_count effective batches host worker_cap)))))"

subsection \<open>The matrix and the sink\<close>

definition invalid_data :: "string \<Rightarrow> io_error" where
  "invalid_data m = IoError InvalidDataKind m"

text \<open>One turn of the loop over records and routes: the identifiers and the parallelism seen before.\<close>

definition validate_record ::
    "bool \<Rightarrow> 'k externals \<Rightarrow> string \<Rightarrow> qualification_route \<Rightarrow> string set \<times> nat option
       \<Rightarrow> io_error + string set \<times> nat option" where
  "validate_record par X line route seen =
     (case seen of (observed_ids, observed_host) \<Rightarrow>
     if (case checked_add (length line) 1 of None \<Rightarrow> True | Some bytes \<Rightarrow> MAX_ISSUANCE_ROUTE_ARTIFACT_BYTES < bytes)
     then Inl (invalid_data ''issuance route record exceeds the artifact size limit'')
     else if char_of (13 :: nat) \<in> set line \<or> char_of (10 :: nat) \<in> set line
     then Inl (invalid_data ''issuance route record must occupy exactly one line'')
     else case json_from_slice X line of
       Inl _ \<Rightarrow> Inl (invalid_data ''issuance route record must be valid JSON'')
     | Inr v \<Rightarrow>
       (if \<not> route_record_has_canonical_shape v \<or> json_to_string X v \<noteq> line
        then Inl (invalid_data ''issuance route record must have the canonical compact shape'')
        else if Option.bind (value_get v ''schema'') as_str \<noteq> Some ISSUANCE_ROUTE_SCHEMA
        then Inl (invalid_data ''issuance route record has an unexpected schema'')
        else case Option.bind (value_get v ''benchmark_id'') as_str of
          None \<Rightarrow> Inl (invalid_data ''issuance route record is missing its benchmark ID'')
        | Some benchmark \<Rightarrow>
          (if benchmark \<in> observed_ids
           then Inl (invalid_data ''issuance route evidence contains a duplicate benchmark ID'')
           else if benchmark \<noteq> qr_benchmark_id route \<or>
               Option.bind (value_get v ''fixture_id'') as_str \<noteq> Some (qr_fixture_id route) \<or>
               Option.bind (value_get v ''stage'') as_str \<noteq> Some (stage_label (qr_stage route)) \<or>
               Option.bind (value_get v ''requested'') as_str \<noteq> Some (route_label (qr_requested route))
           then Inl (invalid_data ''issuance route evidence does not match the canonical ordered matrix'')
           else if \<not> route_record_semantics_are_valid par v route
           then Inl (invalid_data ''issuance route record violates the frozen route semantics'')
           else case Option.bind (value_get v ''host_available_parallelism'') as_u64 of
             None \<Rightarrow> Inl (invalid_data ''issuance route record is missing host parallelism'')
           | Some host \<Rightarrow>
             (case observed_host of
                None \<Rightarrow> Inr (insert benchmark observed_ids, Some host)
              | Some observed \<Rightarrow>
                  (if observed \<noteq> host
                   then Inl (invalid_data ''issuance route records disagree on host parallelism'')
                   else Inr (insert benchmark observed_ids, Some observed))))))"

fun validate_records ::
    "bool \<Rightarrow> 'k externals \<Rightarrow> (string \<times> qualification_route) list \<Rightarrow> string set \<times> nat option
       \<Rightarrow> io_error + string set \<times> nat option" where
  "validate_records par X [] seen = Inr seen"
| "validate_records par X ((line, route) # rest) seen =
     sum_bind (validate_record par X line route seen) (validate_records par X rest)"

definition validated_selected_route_payload :: "bool \<Rightarrow> 'k externals \<Rightarrow> string list \<Rightarrow> nat \<Rightarrow> io_error + string" where
  "validated_selected_route_payload par X records selected_route_index =
     (if length records \<noteq> ISSUANCE_BENCHMARK_ID_COUNT
      then Inl (invalid_data (''issuance route evidence must contain exactly '' @ dec ISSUANCE_BENCHMARK_ID_COUNT @ '' records''))
      else sum_bind (validate_records par X (zip records (qualification_routes issuance_benchmark_cases)) ({}, None))
        (\<lambda>(observed_ids, _).
        if card observed_ids \<noteq> ISSUANCE_BENCHMARK_ID_COUNT
        then Inl (invalid_data ''issuance route evidence does not cover the canonical benchmark IDs'')
        else case slice_get records selected_route_index of
          None \<Rightarrow> Inl (invalid_data ''issuance route selector does not resolve after matrix validation'')
        | Some selected_record \<Rightarrow> Inr (selected_record @ [char_of (10 :: nat)])))"

record route_sink =
  sink_file :: handle
  sink_selected_route_index :: nat

definition prepare_issuance_route_sink ::
    "os \<Rightarrow> os_string option \<Rightarrow> os_string option \<Rightarrow> os_string list \<Rightarrow> route_sink option io" where
  "prepare_issuance_route_sink K destination selected_benchmark_id criterion_arguments =
     io_bind (io_of (validate_issuance_route_invocation destination selected_benchmark_id criterion_arguments)) (\<lambda>validated.
     case validated of
       None \<Rightarrow> io_ok None
     | Some v \<Rightarrow>
         io_bind (io_call (CreateNew (vi_destination v)) (\<lambda>h. os_create_new K h (vi_destination v))) (\<lambda>fd.
         io_ok (Some \<lparr>sink_file = fd, sink_selected_route_index = vi_selected_route_index v\<rparr>)))"

definition prepare_issuance_route_sink_from_env :: "os \<Rightarrow> route_sink option io" where
  "prepare_issuance_route_sink_from_env K =
     prepare_issuance_route_sink K (var_os K ISSUANCE_ROUTE_NDJSON_ENV) (var_os K ISSUANCE_ROUTE_BENCHMARK_ID_ENV)
       (drop 1 (os_args K))"

definition route_sink_finish :: "bool \<Rightarrow> os \<Rightarrow> 'k externals \<Rightarrow> route_sink \<Rightarrow> string list \<Rightarrow> unit io" where
  "route_sink_finish par K X sink records =
     io_bind (io_of (validated_selected_route_payload par X records (sink_selected_route_index sink))) (\<lambda>payload.
     io_bind (io_call (WriteAll (sink_file sink) payload) (\<lambda>h. os_write_all K h (sink_file sink) payload)) (\<lambda>_.
     io_bind (io_call (FlushHandle (sink_file sink)) (\<lambda>h. os_flush K h (sink_file sink))) (\<lambda>_.
     io_call (SyncHandle (sink_file sink)) (\<lambda>h. os_sync_all K h (sink_file sink)))))"

end
