(* ===== verification/Benchmark_Fixture.thy ===== *)
theory Benchmark_Fixture
  imports Route_Records Issuer
begin

text \<open>
  The fixtures of the issuance benchmark (src/src/issuer/issuance_benchmark.rs): the claims of a
  case, the tape that replaces the random source, the two prepared boundaries (executor only, and
  full issuance) and the untimed preflight that compares the serial oracle with the candidate.
\<close>

subsection \<open>The claims of a case\<close>

definition ISSUANCE_LARGE_PAYLOAD_BYTES :: nat where "ISSUANCE_LARGE_PAYLOAD_BYTES = 64 * 1024"

definition small_value :: "nat \<Rightarrow> json" where
  "small_value ordinal = String (''value-'' @ dec ordinal)"

definition medium_value :: "nat \<Rightarrow> json" where
  "medium_value ordinal =
     Object [(''ordinal'', json_usize ordinal),
       (''profile'', Object [(''active'', Bool (even ordinal)),
          (''display_name'', String (''Credential subject '' @ dec ordinal)),
          (''notes'', String (concat (replicate 64 ''medium-payload-'')))]),
       (''roles'', Array [String ''holder'', String ''member'', String ''verified''])]"

text \<open>\<open>saturating_sub\<close> is the subtraction of \<open>nat\<close>.\<close>

definition large_value :: "nat \<Rightarrow> json" where
  "large_value ordinal =
     (let suffix = ''-'' @ dec ordinal
      in String (replicate (ISSUANCE_LARGE_PAYLOAD_BYTES - length suffix) (CHR ''L'') @ suffix))"

fun payload_value :: "payload_class \<Rightarrow> nat \<Rightarrow> json" where
  "payload_value Small ordinal = small_value ordinal"
| "payload_value Medium ordinal = medium_value ordinal"
| "payload_value Large ordinal = large_value ordinal"
| "payload_value Mixed ordinal =
     (if ordinal mod 3 = 0 then small_value ordinal
      else if ordinal mod 3 = 1 then medium_value ordinal
      else large_value ordinal)"

text \<open>\<open>two_scalar_claims(first, second)\<close> of the source, a function inside the next one.\<close>

definition two_scalar_claims :: "string \<Rightarrow> string \<Rightarrow> json" where
  "two_scalar_claims first second =
     Object (map_insert second (String ''x'') (map_insert first (String ''x'') []))"

definition all_levels_nested_object_claims :: json where
  "all_levels_nested_object_claims =
     Object (map_insert ''tail'' (String ''x'')
       (map_insert ''right'' (two_scalar_claims ''c'' ''d'') (map_insert ''left'' (two_scalar_claims ''a'' ''b'') [])))"

definition two_scalar_entries :: json where
  "two_scalar_entries = Array [String ''x'', String ''x'']"

definition all_levels_array_dag_claims :: json where
  "all_levels_array_dag_claims =
     Object (map_insert ''tag'' (String ''x'')
       (map_insert ''groups'' (Array [two_scalar_entries, two_scalar_entries]) []))"

definition top_level_imbalanced_claims :: json where
  "top_level_imbalanced_claims =
     (let heavy = String (replicate (4 * 1024) (CHR ''H''));
          claims = map_insert ''h1'' heavy (map_insert ''h0'' heavy [])
      in Object (foldl (\<lambda>m ordinal. map_insert (''s'' @ dec ordinal) (String []) m) claims [0..<6]))"

definition claim_key :: "nat \<Rightarrow> string" where
  "claim_key ordinal = ''claim_'' @ zero_padded 4 ordinal"

definition selective_claims :: "benchmark_case \<Rightarrow> json" where
  "selective_claims c =
     (case bc_kind c of
        StandardFixture cls _ \<Rightarrow>
          Object (foldl (\<lambda>m ordinal. map_insert (claim_key ordinal) (payload_value cls ordinal) m) []
            [0..<bc_disclosure_count c])
      | AllLevelsNestedObjects \<Rightarrow> all_levels_nested_object_claims
      | AllLevelsArrayDag \<Rightarrow> all_levels_array_dag_claims
      | TopLevelImbalanced \<Rightarrow> top_level_imbalanced_claims)"

text \<open>\<open>Value::from(1_700_000_000_i64)\<close> is a number without a sign, as every one that is not negative.\<close>

definition full_claims :: "json \<Rightarrow> json result" where
  "full_claims selective =
     rbind (ok_or (as_object selective) (InvalidState ''benchmark claims must be an object'')) (\<lambda>m.
     Ok (Object (map_append
       (map_insert ''iat'' (Number (NU64 1700000000))
          (map_insert ''iss'' (String ''https://issuer.example.com'') [])) m)))"

definition saturating_add :: "nat \<Rightarrow> nat \<Rightarrow> nat" where
  "saturating_add a b = min (a + b) usize_max"

text \<open>The sums over members and elements are plain: they fit \<open>usize\<close> for every value in memory.\<close>

fun object_count :: "json \<Rightarrow> nat" where
  "object_count (Object ms) = saturating_add 1 (sum_list (map (\<lambda>(_, v). object_count v) ms))"
| "object_count (Array vs) = sum_list (map object_count vs)"
| "object_count v = 0"

subsection \<open>The random tape\<close>

record benchmark_tape =
  bt_disclosure_salts :: "string list"
  bt_decoy_counts :: "nat list"
  bt_decoy_salts :: "string list"

text \<open>\<open>(ordinal as u128).to_be_bytes()\<close>: sixteen bytes, the most significant first.\<close>

definition be_bytes_u128 :: "nat \<Rightarrow> string" where
  "be_bytes_u128 n = map (\<lambda>i. char_of (n div 256 ^ (15 - i))) [0..<16]"

definition deterministic_salt :: "'k externals \<Rightarrow> nat \<Rightarrow> nat \<Rightarrow> string" where
  "deterministic_salt X domain ordinal = base64url_encode X ((be_bytes_u128 ordinal)[0 := char_of domain])"

definition tape_decoy_counts :: "json \<Rightarrow> benchmark_case \<Rightarrow> nat list" where
  "tape_decoy_counts selective c =
     (if case_add_decoy_claims c then map (\<lambda>ordinal. 2 + ordinal mod 3) [0..<object_count selective] else [])"

definition tape_new :: "'k externals \<Rightarrow> json \<Rightarrow> benchmark_case \<Rightarrow> benchmark_tape" where
  "tape_new X selective c =
     (let counts = tape_decoy_counts selective c;
          decoy_salt_count = foldl saturating_add 0 counts
      in \<lparr>bt_disclosure_salts = map (deterministic_salt X 0x44) [0..<bc_disclosure_count c],
          bt_decoy_counts = counts,
          bt_decoy_salts = map (deterministic_salt X 0x58) [0..<decoy_salt_count]\<rparr>)"

definition tape_finish :: "benchmark_tape \<Rightarrow> unit result" where
  "tape_finish tape =
     (if bt_disclosure_salts tape = [] \<and> bt_decoy_counts tape = [] \<and> bt_decoy_salts tape = []
      then Ok ()
      else Err (InvalidState ''issuance benchmark random tape was not consumed exactly''))"

text \<open>
  The tape as a random source. A draw from an empty tape, and a decoy count outside the issuer's
  range, panic: the state becomes \<open>None\<close> and stays so, the draw gives a value that no one uses, and
  \<open>tape_finished\<close> turns the state into the panic of the whole call. Only an overflow of the 64-bit
  identities can make the planner return an error between the two, and no case comes near it.
\<close>

fun draw_disclosure_salt :: "benchmark_tape option \<Rightarrow> string \<times> benchmark_tape option" where
  "draw_disclosure_salt None = ([], None)"
| "draw_disclosure_salt (Some tape) =
     (case bt_disclosure_salts tape of
        [] \<Rightarrow> ([], None)
      | salt # salts \<Rightarrow> (salt, Some (tape\<lparr>bt_disclosure_salts := salts\<rparr>)))"

fun draw_decoy_count :: "nat \<Rightarrow> nat \<Rightarrow> benchmark_tape option \<Rightarrow> nat \<times> benchmark_tape option" where
  "draw_decoy_count low high None = (low, None)"
| "draw_decoy_count low high (Some tape) =
     (case bt_decoy_counts tape of
        [] \<Rightarrow> (low, None)
      | n # counts \<Rightarrow>
          if low \<le> n \<and> n < high then (n, Some (tape\<lparr>bt_decoy_counts := counts\<rparr>)) else (low, None))"

fun draw_decoy_salt :: "benchmark_tape option \<Rightarrow> string \<times> benchmark_tape option" where
  "draw_decoy_salt None = ([], None)"
| "draw_decoy_salt (Some tape) =
     (case bt_decoy_salts tape of
        [] \<Rightarrow> ([], None)
      | salt # salts \<Rightarrow> (salt, Some (tape\<lparr>bt_decoy_salts := salts\<rparr>)))"

definition tape_source :: "benchmark_tape option random_source" where
  "tape_source =
     \<lparr>disclosure_salt = draw_disclosure_salt, decoy_count = draw_decoy_count, decoy_salt = draw_decoy_salt\<rparr>"

definition tape_finished :: "benchmark_tape option \<Rightarrow> unit result" where
  "tape_finished state = (case state of None \<Rightarrow> Panic | Some tape \<Rightarrow> tape_finish tape)"

subsection \<open>Fixtures\<close>

record benchmark_fixture =
  fx_case :: benchmark_case
  fx_selective_claims :: json
  fx_full_claims :: json
  fx_random_tape :: benchmark_tape
  fx_sign_alg :: string
  fx_executor_input_bytes :: nat
  fx_full_input_bytes :: nat

text \<open>\<open>serde_json::to_vec\<close> of a value: an object serializes as its map.\<close>

definition value_to_vec :: "'k externals \<Rightarrow> json \<Rightarrow> string + string" where
  "value_to_vec X v = (case v of Object m \<Rightarrow> map_to_vec X m | _ \<Rightarrow> Inr (json_to_string X v))"

definition claims_bytes :: "'k externals \<Rightarrow> json \<Rightarrow> nat result" where
  "claims_bytes X v =
     rbind (map_err (\<lambda>e. InvalidState (''invalid benchmark claims: '' @ e)) (value_to_vec X v)) (\<lambda>bytes. Ok (length bytes))"

definition fixture_new :: "'k externals \<Rightarrow> benchmark_case \<Rightarrow> string \<Rightarrow> benchmark_fixture result" where
  "fixture_new X c alg_name =
     (let selective = selective_claims c in
      rbind (full_claims selective) (\<lambda>full.
      rbind (claims_bytes X selective) (\<lambda>executor_input_bytes.
      rbind (claims_bytes X full) (\<lambda>full_input_bytes.
      Ok \<lparr>fx_case = c, fx_selective_claims = selective, fx_full_claims = full,
          fx_random_tape = tape_new X selective c, fx_sign_alg = alg_name,
          fx_executor_input_bytes = executor_input_bytes, fx_full_input_bytes = full_input_bytes\<rparr>))))"

fun input_bytes :: "benchmark_fixture \<Rightarrow> benchmark_stage \<Rightarrow> nat" where
  "input_bytes f ExecutorAssembly = fx_executor_input_bytes f"
| "input_bytes f FullIssuance = fx_full_input_bytes f"

subsection \<open>The executor boundary\<close>

definition prepare_executor :: "benchmark_fixture \<Rightarrow> issuance_plan result" where
  "prepare_executor f =
     rbind (plan_create tape_source (fx_selective_claims f) (case_disclosure_strategy (fx_case f))
              (case_add_decoy_claims (fx_case f)) (Some (fx_random_tape f))) (\<lambda>(plan, tape).
     rbind (tape_finished tape) (\<lambda>_. Ok plan))"

record benchmark_assembly =
  ba_claims :: json
  ba_disclosures :: "string list"

definition assembly_from :: "issuance_assembly \<Rightarrow> benchmark_assembly" where
  "assembly_from a = \<lparr>ba_claims = ia_claims a, ba_disclosures = map raw_b64 (ia_disclosures a)\<rparr>"

definition disclosure_count :: "benchmark_assembly \<Rightarrow> nat" where
  "disclosure_count a = length (ba_disclosures a)"

text \<open>\<open>execute_plan\<close> of both boundaries: the executor a route asks for.\<close>

definition execute_route ::
    "bool \<Rightarrow> 'k externals \<Rightarrow> issuance_host \<Rightarrow> benchmark_route \<Rightarrow> issuance_budget \<Rightarrow> issuance_plan
       \<Rightarrow> (issuance_assembly \<times> issuance_budget) result" where
  "execute_route par X host route b plan =
     (case route of
        SerialOracle \<Rightarrow> rbind (execute_serial X plan) (\<lambda>assembly. Ok (assembly, b))
      | AdaptiveCandidate \<Rightarrow> execute_benchmark_candidate par X host plan b)"

definition executor_execute ::
    "bool \<Rightarrow> 'k externals \<Rightarrow> issuance_host \<Rightarrow> issuance_plan \<Rightarrow> benchmark_route \<Rightarrow> issuance_budget
       \<Rightarrow> (benchmark_assembly \<times> issuance_budget) result" where
  "executor_execute par X host plan route b =
     rbind (execute_route par X host route b plan) (\<lambda>(assembly, b'). Ok (assembly_from assembly, b'))"

definition executor_execute_with_trace ::
    "bool \<Rightarrow> 'k externals \<Rightarrow> issuance_host \<Rightarrow> nat option \<Rightarrow> issuance_plan \<Rightarrow> issuance_budget
       \<Rightarrow> (benchmark_assembly \<times> route_record \<times> issuance_budget) result" where
  "executor_execute_with_trace par X host answer plan b =
     rbind (execute_benchmark_candidate_with_trace par X host plan b) (\<lambda>((assembly, summary), b').
     rbind (candidate_record par answer summary) (\<lambda>route.
     Ok (assembly_from assembly, route, b')))"

subsection \<open>The full boundary\<close>

definition BENCHMARK_REMOTE_ES256_SIGNATURE :: string where
  "BENCHMARK_REMOTE_ES256_SIGNATURE = replicate 64 (char_of (1 :: nat))"

record prepared_full_issuance =
  pf_claims :: json
  pf_random_tape :: benchmark_tape
  pf_planner_alg :: string
  pf_case :: benchmark_case

definition prepare_full_issuance :: "benchmark_fixture \<Rightarrow> prepared_full_issuance" where
  "prepare_full_issuance f =
     \<lparr>pf_claims = fx_full_claims f, pf_random_tape = fx_random_tape f,
      pf_planner_alg = planner_sign_alg (Some (fx_sign_alg f)), pf_case = fx_case f\<rparr>"

text \<open>What both full executions do, around the executor they give to the planner.\<close>

definition full_issuance ::
    "'k externals \<Rightarrow> prepared_full_issuance \<Rightarrow> (issuance_plan \<Rightarrow> (issuance_assembly \<times> 'b) result)
       \<Rightarrow> (string \<times> 'b) result" where
  "full_issuance X p execute_plan =
     rbind (prepare_with_plan_executor X (pf_planner_alg p) (pf_claims p) (case_disclosure_strategy (pf_case p))
       \<lparr>opt_holder_key = None, opt_add_decoy_claims = case_add_decoy_claims (pf_case p),
        opt_serialization_format = Compact\<rparr> tape_source (Some (pf_random_tape p)) execute_plan) (\<lambda>(prepared, b, tape).
     rbind (tape_finished tape) (\<lambda>_.
     rbind (complete_for_benchmark X prepared BENCHMARK_REMOTE_ES256_SIGNATURE) (\<lambda>credential.
     Ok (credential, b))))"

definition full_execute ::
    "bool \<Rightarrow> 'k externals \<Rightarrow> issuance_host \<Rightarrow> prepared_full_issuance \<Rightarrow> benchmark_route \<Rightarrow> issuance_budget
       \<Rightarrow> (string \<times> issuance_budget) result" where
  "full_execute par X host p route b = full_issuance X p (execute_route par X host route b)"

text \<open>
  The planner calls the executor once on the way to a prepared credential, so the summary the
  closure stores is there when it returns one.
\<close>

definition full_execute_with_trace ::
    "bool \<Rightarrow> 'k externals \<Rightarrow> issuance_host \<Rightarrow> nat option \<Rightarrow> prepared_full_issuance \<Rightarrow> issuance_budget
       \<Rightarrow> (string \<times> route_record \<times> issuance_budget) result" where
  "full_execute_with_trace par X host answer p b =
     rbind (full_issuance X p (\<lambda>plan.
       rbind (execute_benchmark_candidate_with_trace par X host plan b) (\<lambda>((assembly, summary), b').
       Ok (assembly, summary, b')))) (\<lambda>(credential, summary, b').
     rbind (candidate_record par answer summary) (\<lambda>route.
     Ok (credential, route, b')))"

subsection \<open>The preflight\<close>

definition compact_disclosure_count :: "string \<Rightarrow> nat result" where
  "compact_disclosure_count credential =
     (let parts = length (split_on (CHR ''~'') credential)
      in if parts < 2 then Err (InvalidState ''invalid compact benchmark credential'') else Ok (parts - 2))"

record benchmark_preflight =
  bp_executor_candidate_route :: route_record
  bp_full_candidate_route :: route_record

definition preflight ::
    "bool \<Rightarrow> 'k externals \<Rightarrow> issuance_host \<Rightarrow> nat option \<Rightarrow> benchmark_fixture \<Rightarrow> issuance_budget
       \<Rightarrow> (benchmark_preflight \<times> issuance_budget) result" where
  "preflight par X host answer f b =
     rbind (prepare_executor f) (\<lambda>serial_plan.
     rbind (executor_execute par X host serial_plan SerialOracle b) (\<lambda>(serial_assembly, b1).
     rbind (prepare_executor f) (\<lambda>candidate_plan.
     rbind (executor_execute_with_trace par X host answer candidate_plan b1) (\<lambda>(candidate_assembly, candidate_route, b2).
     if serial_assembly \<noteq> candidate_assembly
     then Err (InvalidState ''issuance benchmark serial/candidate assembly mismatch'')
     else if disclosure_count serial_assembly \<noteq> bc_disclosure_count (fx_case f)
     then Err (InvalidState ''issuance benchmark assembly disclosure count mismatch'')
     else
     rbind (full_execute par X host (prepare_full_issuance f) SerialOracle b2) (\<lambda>(serial_credential, b3).
     rbind (full_execute_with_trace par X host answer (prepare_full_issuance f) b3)
       (\<lambda>(candidate_credential, full_candidate_route, b4).
     if serial_credential \<noteq> candidate_credential
     then Err (InvalidState ''issuance benchmark serial/candidate credential mismatch'')
     else
     rbind (compact_disclosure_count serial_credential) (\<lambda>credential_count.
     if credential_count \<noteq> bc_disclosure_count (fx_case f)
     then Err (InvalidState ''issuance benchmark credential disclosure count mismatch'')
     else Ok (\<lparr>bp_executor_candidate_route = candidate_route, bp_full_candidate_route = full_candidate_route\<rparr>, b4))))))))"

end
