(* ===== verification/Route_Properties.thy ===== *)
theory Route_Properties
  imports Route_Records Sample_Externals
begin

text \<open>
  The two sides of the route evidence agree: what a traced run records passes the writer's own
  assertions, and its machine form has the shape and the semantics the validator asks for. The
  validated payload is one record of a matrix that is complete, in order and consistent.
\<close>

subsection \<open>The chunks of a native batch\<close>

lemma length_chunks_eq: "0 < n \<Longrightarrow> length (chunks n xs) = length xs div n + (if n dvd length xs then 0 else 1)"
proof (induction n xs rule: chunks.induct)
  case (1 n xs)
  show ?case
  proof (cases "xs = []")
    case True
    then show ?thesis by simp
  next
    case False
    have IH: "length (chunks n (drop n xs)) = length (drop n xs) div n + (if n dvd length (drop n xs) then 0 else 1)"
      using "1.IH" "1.prems" False by simp
    have unfold: "length (chunks n xs) = Suc (length (chunks n (drop n xs)))"
      using False "1.prems" by (subst chunks.simps) simp
    show ?thesis
    proof (cases "n \<le> length xs")
      case True
      then obtain k where k: "length xs = n + k"
        using le_Suc_ex by blast
      show ?thesis
        unfolding unfold IH using "1.prems" div_add_self1 [of n k] by (simp add: k)
    next
      case small: False
      then have "drop n xs = []" by simp
      moreover have "\<not> n dvd length xs"
        using small False by (auto dest: dvd_imp_le)
      ultimately show ?thesis
        using small unfold by simp
    qed
  qed
qed

lemma chunk_lengths:
  "0 < n \<Longrightarrow> i < length (chunks n xs) \<Longrightarrow>
     length (chunks n xs ! i) = (if Suc i = length (chunks n xs) then length xs - n * i else n) \<and> n * i < length xs"
proof (induction n xs arbitrary: i rule: chunks.induct)
  case (1 n xs)
  then have nonempty: "xs \<noteq> []" by (auto simp: chunks.simps [of n xs] split: if_splits)
  have unfold: "chunks n xs = take n xs # chunks n (drop n xs)"
    using nonempty "1.prems"(1) by (subst chunks.simps) simp
  show ?case
  proof (cases i)
    case 0
    have "chunks n (drop n xs) = [] \<longleftrightarrow> length xs \<le> n"
      by (subst chunks.simps) (use "1.prems"(1) in auto)
    then show ?thesis
      using 0 nonempty by (simp add: unfold) 
  next
    case (Suc k)
    then have "k < length (chunks n (drop n xs))"
      using "1.prems"(2) by (simp add: unfold)
    from "1.IH" [OF _ "1.prems"(1) this] nonempty "1.prems"(1)
    have rest: "length (chunks n (drop n xs) ! k)
        = (if Suc k = length (chunks n (drop n xs)) then length xs - n - n * k else n)" "n * k < length xs - n"
      by simp_all
    from rest(2) have "n + n * k < length xs" by linarith
    moreover have "length xs - n - n * k = length xs - (n + n * k)"
      by simp
    ultimately show ?thesis
      unfolding Suc unfold nth_Cons_Suc length_Cons mult_Suc_right rest(1) by (simp only: nat.inject simp_thms)
  qed
qed

lemma observe_chunks_Some:
  "(\<And>k. k < length ts \<Longrightarrow> sc_ordinal (ts ! k) = ordinal + k \<and>
      sc_job_count (ts ! k) = (if Suc (ordinal + k) = count then total - size * (count - 1) else size) \<and>
      0 < sc_job_count (ts ! k) \<and> sc_job_count (ts ! k) \<le> size) \<Longrightarrow>
   size * (count - 1) \<le> total \<Longrightarrow> total \<le> usize_max \<Longrightarrow>
   jobs + sum_list (map sc_job_count ts) \<le> usize_max \<Longrightarrow> work + sum_list (map sc_estimated_work_bytes ts) \<le> usize_max \<Longrightarrow>
   observe_chunks total size count ordinal jobs work (map static_chunk_value ts)
     = Some (jobs + sum_list (map sc_job_count ts), work + sum_list (map sc_estimated_work_bytes ts))"
  for total size count :: nat
proof (induction ts arbitrary: ordinal jobs work)
  case (Cons t ts)
  have head: "sc_ordinal t = ordinal" "sc_job_count t = (if Suc ordinal = count then total - size * (count - 1) else size)"
      "0 < sc_job_count t" "sc_job_count t \<le> size"
    using Cons.prems(1) [of 0] by simp_all
  have tail: "sc_ordinal (ts ! k) = Suc ordinal + k \<and>
      sc_job_count (ts ! k) = (if Suc (Suc ordinal + k) = count then total - size * (count - 1) else size) \<and>
      0 < sc_job_count (ts ! k) \<and> sc_job_count (ts ! k) \<le> size" if "k < length ts" for k
    using Cons.prems(1) [of "Suc k"] that by simp
  have fields: "u64_field [(''ordinal'', json_usize a), (''job_count'', json_usize b), (''estimated_work_bytes'', json_usize c)]
      ''ordinal'' = Some a"
    "u64_field [(''ordinal'', json_usize a), (''job_count'', json_usize b), (''estimated_work_bytes'', json_usize c)]
      ''job_count'' = Some b"
    "u64_field [(''ordinal'', json_usize a), (''job_count'', json_usize b), (''estimated_work_bytes'', json_usize c)]
      ''estimated_work_bytes'' = Some c" for a b c
    by (simp_all add: u64_field_def json_usize_def)
  have mul: "checked_mul size (count - 1) = Some (size * (count - 1))"
    using Cons.prems(2,3) by (simp add: checked_mul_def)
  have expected: "(if ordinal + 1 = count
        then Option.bind (checked_mul size (count - 1)) (\<lambda>prior_jobs. if prior_jobs \<le> total then Some (total - prior_jobs) else None)
        else Some size) = Some (sc_job_count t)"
    unfolding mul using head(2) Cons.prems(2) by simp
  have sums: "checked_add jobs (sc_job_count t) = Some (jobs + sc_job_count t)"
      "checked_add work (sc_estimated_work_bytes t) = Some (work + sc_estimated_work_bytes t)"
    using Cons.prems(4,5) by (simp_all add: checked_add_def)
  have ok: "(sc_ordinal t \<noteq> ordinal \<or> sc_job_count t \<noteq> sc_job_count t \<or> sc_job_count t = 0 \<or> size < sc_job_count t) = False"
    using head(1,3,4) by simp
  have "observe_chunks total size count ordinal jobs work (map static_chunk_value (t # ts))
      = observe_chunks total size count (Suc ordinal) (jobs + sc_job_count t) (work + sc_estimated_work_bytes t)
          (map static_chunk_value ts)"
    by (simp only: list.map observe_chunks.simps static_chunk_value_def [of t] as_object.simps Option.bind.bind_lunit
        fields expected sums ok if_False)
  also have "\<dots> = Some ((jobs + sc_job_count t) + sum_list (map sc_job_count ts),
      (work + sc_estimated_work_bytes t) + sum_list (map sc_estimated_work_bytes ts))"
    by (rule Cons.IH [OF tail]) (use Cons.prems in simp_all)
  finally show ?case
    by (simp add: add.assoc)
qed simp

subsection \<open>The machine form of a batch\<close>

definition batch_members :: "ready_batch_trace \<Rightarrow> json_map" where
  "batch_members b = (case ready_batch_machine_value b of Object m \<Rightarrow> m | _ \<Rightarrow> [])"

lemma machine_value_members: "ready_batch_machine_value b = Object (batch_members b)"
  by (simp add: batch_members_def ready_batch_machine_value_def)

lemma nullable_opt:
  "map_get m k = Some (json_opt n) \<Longrightarrow> nullable_unsigned_field m k = Some n"
  by (cases n) (simp_all add: nullable_unsigned_field_def json_opt_def is_null_def json_usize_def)

lemma batch_u64:
  "u64_field (batch_members b) ''ordinal'' = Some (rb_ordinal b)"
  "u64_field (batch_members b) ''job_count'' = Some (rb_job_count b)"
  by (simp_all add: u64_field_def batch_members_def ready_batch_machine_value_def json_usize_def)

lemma batch_nullable:
  "nullable_unsigned_field (batch_members b) ''estimated_work_bytes'' = Some (rb_estimated_work_bytes b)"
  "nullable_unsigned_field (batch_members b) ''available_parallelism'' = Some (rb_available_parallelism b)"
  "nullable_unsigned_field (batch_members b) ''selected_worker_count'' = Some (rb_selected_worker_count b)"
  "nullable_unsigned_field (batch_members b) ''leased_worker_count'' = Some (rb_leased_worker_count b)"
  "nullable_unsigned_field (batch_members b) ''static_chunk_size'' = Some (rb_static_chunk_size b)"
  by (rule nullable_opt, simp add: batch_members_def ready_batch_machine_value_def)+

lemma batch_strings:
  "str_field (batch_members b) ''work_estimate_status'' = Some (work_estimate_label (rb_work_estimate_status b))"
  "str_field (batch_members b) ''budget_acquisition_result'' = Some (budget_acquisition_label (rb_budget_acquisition b))"
  "str_field (batch_members b) ''selected_mode'' = Some (selected_mode_label (rb_selected_mode b))"
  "str_field (batch_members b) ''selection_reason'' = Some (selection_reason_label (rb_selection_reason b))"
  by (simp_all add: str_field_def batch_members_def ready_batch_machine_value_def)

lemma batch_bools:
  "bool_field (batch_members b) ''work_gate_evaluated'' = Some (rb_work_gate_evaluated b)"
  "bool_field (batch_members b) ''parallelism_gate_evaluated'' = Some (rb_parallelism_gate_evaluated b)"
  "bool_field (batch_members b) ''budget_gate_evaluated'' = Some (rb_budget_gate_evaluated b)"
  by (simp_all add: bool_field_def batch_members_def ready_batch_machine_value_def)

definition chunks_value :: "ready_batch_trace \<Rightarrow> json" where
  "chunks_value b = (case rb_static_chunks b of None \<Rightarrow> Null | Some cs \<Rightarrow> Array (map static_chunk_value cs))"

lemma batch_chunks_member: "map_get (batch_members b) ''static_chunks'' = Some (chunks_value b)"
  by (simp add: batch_members_def ready_batch_machine_value_def chunks_value_def)

lemma chunks_value_null: "is_null (chunks_value b) \<longleftrightarrow> rb_static_chunks b = None"
  by (simp add: chunks_value_def is_null_def split: option.split)

lemmas batch_fields = batch_u64 batch_nullable batch_strings batch_bools batch_chunks_member

lemma batch_semantics:
  "ready_batch_semantics_are_valid (ready_batch_machine_value b) i host cap \<longleftrightarrow>
     rb_ordinal b = i \<and> rb_job_count b \<noteq> 0 \<and>
     ready_batch_fields_agree (batch_members b) (rb_job_count b) (rb_estimated_work_bytes b) (rb_available_parallelism b)
       (rb_selected_worker_count b) (rb_leased_worker_count b) (rb_static_chunk_size b)
       (work_estimate_label (rb_work_estimate_status b)) (rb_work_gate_evaluated b) (rb_parallelism_gate_evaluated b)
       (rb_budget_gate_evaluated b) (budget_acquisition_label (rb_budget_acquisition b))
       (selected_mode_label (rb_selected_mode b)) (selection_reason_label (rb_selection_reason b)) (chunks_value b) host cap"
  by (simp add: ready_batch_semantics_are_valid_def machine_value_members batch_fields)

lemma serial_tail:
  "ready_batch_serial_tail_is_unevaluated (batch_members b) \<longleftrightarrow>
     \<not> rb_parallelism_gate_evaluated b \<and> rb_available_parallelism b = None \<and> rb_selected_worker_count b = None \<and>
     \<not> rb_budget_gate_evaluated b \<and> rb_budget_acquisition b = AcquisitionNotEvaluated \<and>
     rb_selected_mode b = SelectedSerial \<and> rb_leased_worker_count b = None \<and> rb_static_chunk_size b = None \<and>
     rb_static_chunks b = None"
  by (cases "rb_budget_acquisition b"; cases "rb_selected_mode b")
     (auto simp: ready_batch_serial_tail_is_unevaluated_def batch_fields chunks_value_null)

lemma batch_shape: "batch_has_canonical_shape (ready_batch_machine_value b)"
proof -
  have opt: "is_null (json_opt n) \<or> as_u64 (json_opt n) \<noteq> None" for n
    by (cases n) (simp_all add: json_opt_def is_null_def json_usize_def)
  have chunk: "chunk_has_canonical_shape (static_chunk_value c)" for c
    by (simp add: chunk_has_canonical_shape_def static_chunk_value_def has_exact_keys_def
        ISSUANCE_STATIC_CHUNK_FIELDS_def reads_as_def json_usize_def)
  show ?thesis
    using opt
    by (cases "rb_static_chunks b")
       (simp_all add: batch_has_canonical_shape_def ready_batch_machine_value_def has_exact_keys_def
        ISSUANCE_READY_BATCH_FIELDS_def reads_as_def is_null_or_unsigned_def is_null_def [of Null]
        is_null_def [of "Array _"] json_usize_def list_all_iff chunk)
qed

subsection \<open>A recorded batch is valid\<close>

text \<open>
  What is promised of a record: its own assertions hold, and the validator accepts it. A vector
  holds at most \<open>usize::MAX\<close> jobs; a list of the model may be longer, so the validator is promised
  to accept when the job count fits.
\<close>

definition evident_batch :: "nat \<Rightarrow> nat \<Rightarrow> ready_batch_trace \<Rightarrow> bool" where
  "evident_batch host ordinal b \<longleftrightarrow>
     assert_ready_batch_trace True ordinal b \<and>
     (rb_job_count b \<le> usize_max \<longrightarrow>
        ready_batch_semantics_are_valid (ready_batch_machine_value b) ordinal host MAX_PARALLEL_ISSUANCE_WORKERS)"

text \<open>The record of a batch whose chunks are known.\<close>

definition batch_record ::
    "nat \<Rightarrow> nat \<Rightarrow> issuance_decision \<Rightarrow> nat option option \<Rightarrow> nat option \<Rightarrow> nat option \<Rightarrow> static_chunk_trace list option
       \<Rightarrow> ready_batch_trace" where
  "batch_record ordinal job_count decision estimated avail chunk_size cs =
       \<lparr>rb_ordinal = ordinal,
        rb_job_count = job_count,
        rb_estimated_work_bytes = Option.bind estimated (\<lambda>e. e),
        rb_work_estimate_status =
          (case estimated of None \<Rightarrow> EstimateNotEvaluated | Some (Some e) \<Rightarrow> EstimateAvailable
           | Some None \<Rightarrow> EstimateOverflow),
        rb_work_gate_evaluated = (estimated \<noteq> None),
        rb_parallelism_gate_evaluated = (avail \<noteq> None),
        rb_budget_gate_evaluated = (id_reason decision \<in> {WorkerBudgetUnavailable, BoundedNative}),
        rb_available_parallelism = avail,
        rb_selected_worker_count =
          map_option (\<lambda>avail. min (min avail MAX_PARALLEL_ISSUANCE_WORKERS) job_count) avail,
        rb_leased_worker_count =
          (case id_mode decision of IssuanceSerial \<Rightarrow> None | IssuanceNative worker_count \<Rightarrow> Some worker_count),
        rb_budget_acquisition =
          (case id_mode decision of
             IssuanceSerial \<Rightarrow>
               (if id_reason decision = WorkerBudgetUnavailable then AcquisitionUnavailable else AcquisitionNotEvaluated)
           | IssuanceNative worker_count \<Rightarrow> Acquired),
        rb_selected_mode =
          (case id_mode decision of IssuanceSerial \<Rightarrow> SelectedSerial | IssuanceNative worker_count \<Rightarrow> SelectedNative),
        rb_selection_reason = id_reason decision,
        rb_static_chunk_size = chunk_size,
        rb_static_chunks = cs\<rparr>"

lemma record_batch_eq:
  "record_benchmark_ready_batch X trace jobs decision estimated avail =
     rbind (batch_chunks X jobs decision) (\<lambda>(chunk_size, cs).
       Ok (trace @ [batch_record (length trace) (length jobs) decision estimated avail chunk_size cs]))"
  by (simp only: record_benchmark_ready_batch_def batch_record_def)

abbreviation serial_decision :: "issuance_reason \<Rightarrow> issuance_decision" where
  "serial_decision reason \<equiv> \<lparr>id_mode = IssuanceSerial, id_reason = reason\<rparr>"

lemmas evident_unfold = evident_batch_def assert_ready_batch_trace_def assert_selection_reason_def
  assert_selected_mode_def batch_semantics ready_batch_fields_agree_def serial_tail batch_record_def
  BENCHMARK_ISSUANCE_WORKER_CAP_def chunks_value_null

lemma evident_below_min_jobs:
  "0 < n \<Longrightarrow> n < 2 \<Longrightarrow> evident_batch host i (batch_record i n (serial_decision BelowMinJobs) None None None None)"
  by (simp add: evident_unfold)

lemma evident_overflow:
  "2 \<le> n \<Longrightarrow> evident_batch host i (batch_record i n (serial_decision WorkEstimateOverflow) (Some None) None None None)"
  by (simp add: evident_unfold)

lemma evident_below_min_bytes:
  "2 \<le> n \<Longrightarrow> e < 1 \<Longrightarrow>
     evident_batch host i (batch_record i n (serial_decision BelowMinEstimatedWorkBytes) (Some (Some e)) None None None)"
  by (simp add: evident_unfold)

lemma evident_insufficient:
  "2 \<le> n \<Longrightarrow> 1 \<le> e \<Longrightarrow> 0 < host \<Longrightarrow> issuance_worker_count host n < 2 \<Longrightarrow>
     evident_batch host i (batch_record i n (serial_decision InsufficientAvailableParallelism) (Some (Some e)) (Some host) None None)"
  by (simp add: evident_unfold issuance_worker_count_def) linarith

lemma evident_unavailable:
  "2 \<le> n \<Longrightarrow> 1 \<le> e \<Longrightarrow> 0 < host \<Longrightarrow> \<not> issuance_worker_count host n < 2 \<Longrightarrow>
     evident_batch host i (batch_record i n (serial_decision WorkerBudgetUnavailable) (Some (Some e)) (Some host) None None)"
  by (simp add: evident_unfold issuance_worker_count_def)

lemma checked_ceil_div_chunk:
  "0 < w \<Longrightarrow> n \<le> usize_max \<Longrightarrow> checked_ceil_div n w = Some (static_chunk_size n w)"
proof -
  assume w: "0 < w" and n: "n \<le> usize_max"
  have "static_chunk_size n w \<le> n"
  proof (cases "w dvd n")
    case True
    then show ?thesis by (simp add: static_chunk_size_def div_le_dividend)
  next
    case False
    then have "1 < w" "0 < n" using w by (auto intro: Suc_lessI gr0I)
    then have "n div w < n" by simp
    then show ?thesis using False by (simp add: static_chunk_size_def)
  qed
  then show ?thesis
    using w n by (simp add: checked_ceil_div_def static_chunk_size_def checked_add_def)
qed

lemma evident_native:
  assumes n_def: "n = length jobs" and w_def: "w = issuance_worker_count host n"
    and n: "2 \<le> n" and w: "2 \<le> w" and host: "0 < host"
    and est: "estimate_ready_job_work_bytes X jobs = Some e" "1 \<le> e" "e \<le> usize_max"
  shows "\<exists>ts. batch_chunks X jobs \<lparr>id_mode = IssuanceNative w, id_reason = BoundedNative\<rparr>
      = Ok (Some (static_chunk_size n w), Some ts) \<and>
    evident_batch host i (batch_record i n \<lparr>id_mode = IssuanceNative w, id_reason = BoundedNative\<rparr>
      (Some (Some e)) (Some host) (Some (static_chunk_size n w)) (Some ts))"
proof -
  let ?size = "static_chunk_size n w"
  let ?cs = "chunks ?size jobs"
  let ?count = "static_chunk_size n ?size"
  have wn: "w \<le> n" and wh: "w = min (min host MAX_PARALLEL_ISSUANCE_WORKERS) n"
    by (simp_all add: w_def issuance_worker_count_def)
  have pos: "0 < ?size" by (rule static_chunk_size_pos) (use n w in auto)
  then have c: "concat ?cs = jobs" by (rule concat_chunks)
  from trace_chunks_Ok [of X ?cs e 0] est(1) obtain ts where ts: "trace_chunks X 0 ?cs = Ok ts"
    "map sc_job_count ts = map length ?cs" "sum_list (map sc_estimated_work_bytes ts) = e"
    "map sc_ordinal ts = [0..<length ?cs]"
    by (auto simp: c)
  have len: "length ts = length ?cs" using arg_cong [OF ts(2), of length] by simp
  have count: "length ?cs = ?count"
    using length_chunks_eq [OF pos, of jobs] by (simp only: static_chunk_size_def [of n ?size] n_def [symmetric])
  have few: "?count \<le> w"
    using chunk_count [of w jobs, folded n_def] w by (simp add: count)
  have some: "0 < ?count"
    by (rule static_chunk_size_pos) (use n pos in auto)
  have jobs: "sum_list (map sc_job_count ts) = n"
    unfolding ts(2) using arg_cong [OF c, of length, folded n_def] by (simp add: length_concat)
  have each: "sc_ordinal (ts ! k) = k \<and>
      sc_job_count (ts ! k) = (if Suc k = ?count then n - ?size * (?count - 1) else ?size) \<and>
      0 < sc_job_count (ts ! k) \<and> sc_job_count (ts ! k) \<le> ?size \<and> ?size * k < n" if "k < length ts" for k
  proof -
    have "sc_job_count (ts ! k) = length (?cs ! k)" "sc_ordinal (ts ! k) = k"
      using that arg_cong [OF ts(2), of "\<lambda>l. l ! k"] arg_cong [OF ts(4), of "\<lambda>l. l ! k"] by (simp_all add: len)
    moreover have "?cs ! k \<noteq> [] \<and> length (?cs ! k) \<le> ?size"
      by (rule chunks_nonempty [of _ _ jobs]) (use that in \<open>simp add: len\<close>)
    moreover have "?count - 1 = k" if "Suc k = ?count"
      unfolding that [symmetric] by simp
    moreover have "length (?cs ! k) = (if Suc k = ?count then n - ?size * k else ?size) \<and> ?size * k < n"
      using chunk_lengths [OF pos, of k jobs, folded n_def] that by (simp add: len count)
    ultimately show ?thesis
      using pos by (cases "Suc k = ?count") simp_all
  qed
  have "?size * (?count - 1) \<le> n"
    using each [of "?count - 1"] some len count by simp
  have "observe_chunks n ?size ?count 0 0 0 (map static_chunk_value ts)
      = Some (0 + sum_list (map sc_job_count ts), 0 + sum_list (map sc_estimated_work_bytes ts))"
    if "n \<le> usize_max"
  proof (rule observe_chunks_Some)
    show "sc_ordinal (ts ! k) = 0 + k \<and>
        sc_job_count (ts ! k) = (if Suc (0 + k) = ?count then n - ?size * (?count - 1) else ?size) \<and>
        0 < sc_job_count (ts ! k) \<and> sc_job_count (ts ! k) \<le> ?size" if "k < length ts" for k
      unfolding add_0 using each [OF that] by blast
  qed (use \<open>?size * (?count - 1) \<le> n\<close> n that est jobs ts(3) in simp_all)
  then have observed: "observe_chunks n ?size ?count 0 0 0 (map static_chunk_value ts) = Some (n, e)" if "n \<le> usize_max"
    using that by (simp add: jobs ts(3))
  have chunks: "batch_chunks X jobs \<lparr>id_mode = IssuanceNative w, id_reason = BoundedNative\<rparr> = Ok (Some ?size, Some ts)"
    using ts pos by (simp add: batch_chunks_def Let_def n_def)
  let ?b = "batch_record i n \<lparr>id_mode = IssuanceNative w, id_reason = BoundedNative\<rparr> (Some (Some e)) (Some host)
      (Some ?size) (Some ts)"
  have "native_static_chunks_are_valid (batch_members ?b) n e w" if "n \<le> usize_max"
    using that checked_ceil_div_chunk [of w n] checked_ceil_div_chunk [of ?size n] n w pos few some observed
    by (simp add: native_static_chunks_are_valid_def batch_fields chunks_value_def batch_record_def len count)
  moreover have "list_all (\<lambda>(ordinal, chunk). sc_ordinal chunk = ordinal \<and> sc_job_count chunk \<le> ?size) (enumerate 0 ts)"
  proof -
    have "sc_ordinal (ts ! k) = k \<and> sc_job_count (ts ! k) \<le> ?size" if "k < length ts" for k
      using each [OF that] by blast
    then show ?thesis
      by (simp add: list_all_length nth_enumerate_eq)
  qed
  ultimately have "evident_batch host i ?b"
    using n w host est(2) jobs ts(3)
    unfolding evident_batch_def batch_semantics
    by (simp add: evident_unfold static_chunk_size_def wh [symmetric])
  with chunks show ?thesis by blast
qed

lemma recorded_evident:
  assumes sel: "select_execution_with_estimate (length jobs) (estimate_ready_job_work_bytes X jobs)
      BENCHMARK_ISSUANCE_THRESHOLDS host b = (sel, b')"
    and jobs: "jobs \<noteq> []" and host: "0 < host"
  shows "\<exists>batch. record_benchmark_ready_batch X trace jobs (selection_decision sel)
       (observed_estimate (length jobs) (estimate_ready_job_work_bytes X jobs) BENCHMARK_ISSUANCE_THRESHOLDS)
       (observed_parallelism (length jobs) (estimate_ready_job_work_bytes X jobs) BENCHMARK_ISSUANCE_THRESHOLDS host)
         = Ok (trace @ [batch]) \<and> rb_job_count batch = length jobs \<and> evident_batch host (length trace) batch"
proof -
  let ?n = "length jobs" and ?e = "estimate_ready_job_work_bytes X jobs" and ?t = "length trace"
  let ?w = "issuance_worker_count host ?n"
  have n: "0 < ?n" using jobs by simp
  have serial: "batch_chunks X jobs (serial_decision r) = Ok (None, None)" for r
    by (simp add: batch_chunks_def)
  note unfold = select_execution_with_estimate_def observed_estimate_def observed_parallelism_def
    BENCHMARK_ISSUANCE_THRESHOLDS_def decision_serial_def record_batch_eq serial
  have count: "rb_job_count (batch_record i k d es av size cs) = k" for i k d es av size cs
    by (simp add: batch_record_def)
  consider "?n < 2" | "2 \<le> ?n" "?e = None" | e where "2 \<le> ?n" "?e = Some e" "e < 1"
    | e where "2 \<le> ?n" "?e = Some e" "1 \<le> e" "?w < 2"
    | e where "2 \<le> ?n" "?e = Some e" "1 \<le> e" "\<not> ?w < 2" "fst (issuance_try_acquire b ?w) = None"
    | e where "2 \<le> ?n" "?e = Some e" "1 \<le> e" "\<not> ?w < 2" "fst (issuance_try_acquire b ?w) \<noteq> None"
    by (metis linorder_not_less option.exhaust)
  then show ?thesis
  proof cases
    case 1
    then show ?thesis
      using sel evident_below_min_jobs [OF n] by (auto simp: unfold count)
  next
    case 2
    then show ?thesis
      using sel evident_overflow by (auto simp: unfold count)
  next
    case (3 e)
    then show ?thesis
      using sel evident_below_min_bytes by (auto simp: unfold count)
  next
    case (4 e)
    then show ?thesis
      using sel evident_insufficient [OF _ _ host] by (auto simp: unfold count Let_def)
  next
    case (5 e)
    then show ?thesis
      using sel evident_unavailable [OF _ _ host]
      by (auto simp: unfold count Let_def split: prod.splits option.splits)
  next
    case (6 e)
    then obtain b2 where acquired: "issuance_try_acquire b ?w = (Some ?w, b2)"
      by (auto simp: issuance_try_acquire_def split: if_splits)
    have "e \<le> usize_max"
      using 6(2) jobs by (auto simp: estimate_ready_job_work_bytes_def estimate_from_Some)
    from evident_native [OF refl refl 6(1) _ host 6(2,3) this, of ?t] 6(4) obtain ts where
      "batch_chunks X jobs \<lparr>id_mode = IssuanceNative ?w, id_reason = BoundedNative\<rparr>
         = Ok (Some (static_chunk_size ?n ?w), Some ts)"
      "evident_batch host ?t (batch_record ?t ?n \<lparr>id_mode = IssuanceNative ?w, id_reason = BoundedNative\<rparr>
        (Some (Some e)) (Some host) (Some (static_chunk_size ?n ?w)) (Some ts))"
      by auto
    then show ?thesis
      using sel 6 acquired by (auto simp: unfold count Let_def)
  qed
qed

subsection \<open>The evidence of a traced run\<close>

definition all_evident :: "nat \<Rightarrow> ready_batch_trace list \<Rightarrow> bool" where
  "all_evident host bs \<longleftrightarrow> (\<forall>i<length bs. evident_batch host i (bs ! i))"

lemma all_evident_snoc:
  "all_evident host trace \<Longrightarrow> evident_batch host (length trace) batch \<Longrightarrow> all_evident host (trace @ [batch])"
  by (auto simp: all_evident_def nth_append less_Suc_eq)

lemma traced_execute_trace:
  assumes "jobs \<noteq> []" "0 < ih_threads host" "all_evident (ih_threads host) (snd e)"
  shows "all_evident (ih_threads host) (snd (snd (traced_execute X host BENCHMARK_ISSUANCE_THRESHOLDS e jobs)))"
proof -
  let ?t = BENCHMARK_ISSUANCE_THRESHOLDS and ?e = "estimate_ready_job_work_bytes X jobs"
  obtain sel b' where sel: "select_execution_with_estimate (length jobs) ?e ?t (ih_threads host) (fst e) = (sel, b')"
    by (rule prod.exhaust)
  from recorded_evident [OF sel assms(1,2), of "snd e"] obtain batch where
    "record_benchmark_ready_batch X (snd e) jobs (selection_decision sel)
      (observed_estimate (length jobs) ?e ?t) (observed_parallelism (length jobs) ?e ?t (ih_threads host))
        = Ok (snd e @ [batch])"
    and evident: "evident_batch (ih_threads host) (length (snd e)) batch"
    by blast
  then have "snd (snd (traced_execute X host ?t e jobs)) = snd e @ [batch]"
    by (simp add: traced_execute_def select_execution_with_benchmark_trace_def Let_def sel split: prod.split)
  then show ?thesis
    using all_evident_snoc [OF assms(3) evident] by simp
qed

interpretation evidence: stable_executor "traced_execute X host BENCHMARK_ISSUANCE_THRESHOLDS" X
    "\<lambda>e. 0 < ih_threads host \<longrightarrow> all_evident (ih_threads host) (snd e)"
  for X :: "'k externals" and host
proof (intro stable_executor.intro stable_executor_axioms.intro)
  show "issuance_executor (traced_execute X host BENCHMARK_ISSUANCE_THRESHOLDS) X"
    by (rule traced_stable.issuance_executor_axioms)
qed (use traced_execute_trace in blast)

lemma traced_run_evident:
  assumes "execute_with_executor (traced_execute X host BENCHMARK_ISSUANCE_THRESHOLDS) plan (b, []) = Ok (assembly, b', trace)"
    and "0 < ih_threads host"
  shows "all_evident (ih_threads host) trace"
  using evidence.execute_with_executor_stable [OF assms(1)] assms(2) by (simp add: all_evident_def)

subsection \<open>The record of a traced run\<close>

lemma machine_mode: "batch_str_field_is ''selected_mode'' ''native_parallel'' (ready_batch_machine_value b) \<longleftrightarrow>
    rb_selected_mode b = SelectedNative"
  using batch_strings(3) [of b]
  by (cases "rb_selected_mode b") (simp_all add: batch_str_field_is_def machine_value_members str_field_def)

lemma machine_reason: "batch_str_field_is ''selection_reason'' ''worker_budget_unavailable'' (ready_batch_machine_value b) \<longleftrightarrow>
    rb_selection_reason b = WorkerBudgetUnavailable"
  using batch_strings(4) [of b]
  by (cases "rb_selection_reason b") (simp_all add: batch_str_field_is_def machine_value_members str_field_def)

lemma machine_leased: "leased_workers (ready_batch_machine_value b) = rb_leased_worker_count b"
  by (simp add: leased_workers_def machine_value_members batch_nullable)

lemma evident_modes:
  assumes "evident_batch host i b"
  shows "rb_selected_mode b = SelectedNative \<Longrightarrow> rb_selection_reason b \<noteq> WorkerBudgetUnavailable"
    and "rb_leased_worker_count b = Some w \<Longrightarrow> w \<le> MAX_PARALLEL_ISSUANCE_WORKERS"
  using assms
  by (auto simp: evident_batch_def assert_ready_batch_trace_def assert_selected_mode_def
      BENCHMARK_ISSUANCE_WORKER_CAP_def split: selected_mode.splits)

lemma disjoint_filters:
  "(\<And>x. x \<in> set xs \<Longrightarrow> P x \<Longrightarrow> \<not> Q x) \<Longrightarrow> length (filter P xs) + length (filter Q xs) \<le> length xs"
  by (induction xs) auto

lemma max_of_leases:
  "(\<And>b w. b \<in> set bs \<Longrightarrow> rb_leased_worker_count b = Some w \<Longrightarrow> w \<le> c) \<Longrightarrow>
     fold max (List.map_filter rb_leased_worker_count bs) 0 \<le> c"
  by (force simp: fold_max_le List.map_filter_def)

lemma evident_asserts: "all_evident host bs \<Longrightarrow> assert_summary_batches True (trace_summary bs) bs"
  by (simp add: assert_summary_batches_def trace_summary_def Let_def list_all_length nth_enumerate_eq all_evident_def
      evident_batch_def)

lemma evident_candidate_semantics:
  assumes "all_evident host bs" and "\<forall>b\<in>set bs. rb_job_count b \<le> usize_max"
  shows "candidate_semantics_are_valid
     [Some (ts_executor_batches (trace_summary bs)), Some (ts_serial_batches (trace_summary bs)),
      Some (ts_native_batches (trace_summary bs)), Some (ts_budget_fallback_batches (trace_summary bs))]
     (ts_max_worker_count (trace_summary bs)) (Some (effective_label (candidate_effective (trace_summary bs))))
     (map ready_batch_machine_value bs) host MAX_PARALLEL_ISSUANCE_WORKERS"
proof -
  have evident: "\<exists>i. evident_batch host i b" if "b \<in> set bs" for b
    using that assms unfolding all_evident_def in_set_conv_nth by blast
  have "length (filter (\<lambda>b. rb_selected_mode b = SelectedNative) bs)
      + length (filter (\<lambda>b. rb_selection_reason b = WorkerBudgetUnavailable) bs) \<le> length bs"
    by (rule disjoint_filters) (use evident evident_modes(1) in blast)
  moreover have "fold max (List.map_filter rb_leased_worker_count bs) 0 \<le> MAX_PARALLEL_ISSUANCE_WORKERS"
    by (rule max_of_leases) (use evident evident_modes(2) in blast)
  moreover have "list_all (\<lambda>(ordinal, batch). ready_batch_semantics_are_valid batch ordinal host
      MAX_PARALLEL_ISSUANCE_WORKERS) (enumerate 0 (map ready_batch_machine_value bs))"
    using assms by (simp add: list_all_length nth_enumerate_eq all_evident_def evident_batch_def)
  moreover have "List.map_filter leased_workers (map ready_batch_machine_value bs)
      = List.map_filter rb_leased_worker_count bs"
    by (induction bs) (simp_all add: List.map_filter_simps machine_leased split: option.split)
  moreover have "length (filter P (map ready_batch_machine_value bs)) = length (filter (\<lambda>b. P (ready_batch_machine_value b)) bs)"
    for P by (simp add: filter_map comp_def)
  moreover have "effective_label (candidate_effective (trace_summary bs))
      = expected_effective (ts_native_batches (trace_summary bs)) (ts_serial_batches (trace_summary bs))
          (ts_budget_fallback_batches (trace_summary bs))"
    unfolding candidate_effective_def expected_effective_def
    by (simp only: trace_summary_def Let_def execution_trace_summary.simps effective_label.simps if_distrib [of effective_label]
        neq0_conv if_False)
  ultimately show ?thesis
    by (simp add: candidate_semantics_are_valid_def Let_def machine_mode machine_reason trace_summary_def)
qed

definition record_members :: "bool \<Rightarrow> route_record \<Rightarrow> benchmark_case \<Rightarrow> benchmark_stage \<Rightarrow> json_map" where
  "record_members par r c stage = (case machine_record_value par r c stage of Object m \<Rightarrow> m | _ \<Rightarrow> [])"

lemma machine_record_members: "machine_record_value par r c stage = Object (record_members par r c stage)"
  by (simp add: record_members_def machine_record_value_def)

lemma record_u64:
  "u64_field (record_members par r c stage) ''worker_cap'' = Some (BENCHMARK_ISSUANCE_WORKER_CAP par)"
  "u64_field (record_members par r c stage) ''host_available_parallelism'' = Some (rr_host_available_parallelism r)"
  "u64_field (record_members par r c stage) ''max_native_worker_count'' = Some (rr_max_native_worker_count r)"
  by (simp_all add: u64_field_def record_members_def machine_record_value_def json_usize_def)

lemma record_strings:
  "str_field (record_members par r c stage) ''work_estimator_version'' = Some BENCHMARK_WORK_ESTIMATOR_VERSION"
  "str_field (record_members par r c stage) ''static_partition_rule_version''
     = Some BENCHMARK_STATIC_PARTITION_RULE_VERSION"
  "str_field (record_members par r c stage) ''effective'' = Some (effective_label (rr_effective r))"
  by (simp_all add: str_field_def record_members_def machine_record_value_def)

lemma record_nullable:
  "nullable_unsigned_field (record_members par r c stage) ''executor_batches'' = Some (rr_executor_batches r)"
  "nullable_unsigned_field (record_members par r c stage) ''serial_batches'' = Some (rr_serial_batches r)"
  "nullable_unsigned_field (record_members par r c stage) ''native_batches'' = Some (rr_native_batches r)"
  "nullable_unsigned_field (record_members par r c stage) ''budget_fallback_batches'' = Some (rr_budget_fallback_batches r)"
  by (rule nullable_opt, simp add: record_members_def machine_record_value_def)+

lemma record_batches:
  "map_get (record_members par r c stage) ''ready_batches'' = Some (case rr_ready_batches r of None \<Rightarrow> Null
     | Some batches \<Rightarrow> Array (map ready_batch_machine_value batches))"
  by (simp add: record_members_def machine_record_value_def)

lemma record_shape: "route_record_has_canonical_shape (machine_record_value par r c stage)"
proof -
  have opt: "is_null (json_opt n) \<or> as_u64 (json_opt n) \<noteq> None" for n
    by (cases n) (simp_all add: json_opt_def is_null_def json_usize_def)
  have "list_all batch_has_canonical_shape (map ready_batch_machine_value bs)" for bs
    by (simp add: list_all_iff batch_shape)
  then show ?thesis
    using opt
    by (cases "rr_ready_batches r")
       (simp_all add: route_record_has_canonical_shape_def machine_record_value_def has_exact_keys_def
        ISSUANCE_ROUTE_RECORD_FIELDS_def reads_as_def is_null_or_unsigned_def is_null_def [of Null]
        is_null_def [of "Array _"] json_usize_def)
qed

definition expected_route :: "benchmark_case \<Rightarrow> benchmark_stage \<Rightarrow> benchmark_route \<Rightarrow> qualification_route" where
  "expected_route c stage requested =
     \<lparr>qr_benchmark_id = full_criterion_id c stage requested, qr_fixture_id = fixture_id c, qr_stage = stage,
      qr_requested = requested\<rparr>"

lemma serial_oracle_evidence:
  "0 < available_parallelism answer \<Longrightarrow>
     route_record_semantics_are_valid par (machine_record_value par (serial_oracle_record answer) c stage)
       (expected_route c stage SerialOracle)"
  by (simp add: route_record_semantics_are_valid_def machine_record_members record_u64 record_strings record_nullable
      record_batches serial_oracle_record_def expected_route_def is_null_def)

lemma fallback_evidence:
  "0 < available_parallelism answer \<Longrightarrow>
     \<exists>r. candidate_record False answer trace_summary_fallback = Ok r \<and>
       route_record_semantics_are_valid False (machine_record_value False r c stage)
         (expected_route c stage AdaptiveCandidate)"
  by (simp add: candidate_record_def trace_summary_fallback_def candidate_effective_def
      route_record_semantics_are_valid_def machine_record_members record_u64 record_strings record_nullable
      record_batches expected_route_def is_null_def BENCHMARK_ISSUANCE_WORKER_CAP_def)

lemma native_evidence:
  assumes "all_evident (available_parallelism answer) bs" and "0 < available_parallelism answer"
  shows "\<exists>r. candidate_record True answer (trace_summary bs) = Ok r \<and>
       ((\<forall>b\<in>set bs. rb_job_count b \<le> usize_max) \<longrightarrow>
         route_record_semantics_are_valid True (machine_record_value True r c stage)
           (expected_route c stage AdaptiveCandidate))"
proof -
  let ?s = "trace_summary bs"
  have cap: "BENCHMARK_ISSUANCE_WORKER_CAP True = MAX_PARALLEL_ISSUANCE_WORKERS" "MAX_PARALLEL_ISSUANCE_WORKERS \<noteq> 1"
    by (simp_all add: BENCHMARK_ISSUANCE_WORKER_CAP_def MAX_PARALLEL_ISSUANCE_WORKERS_def)
  have trace: "\<not> ts_target_serial_fallback ?s" "ts_ready_batches ?s = Some bs"
    by (simp_all add: trace_summary_def Let_def)
  show ?thesis
    using evident_asserts [OF assms(1)] evident_candidate_semantics [OF assms(1)] assms(2) cap
    by (simp add: candidate_record_def trace route_record_semantics_are_valid_def machine_record_members record_u64
        record_strings record_nullable record_batches expected_route_def is_null_def)
qed

text \<open>A plan of one job, executed with a trace that records one serial batch.\<close>

definition traced_X :: "unit externals" where
  "traced_X = sample_externals \<lparr>sw_texts = [(''K'', String ''n''), (''V'', Null)], sw_tokens = []\<rparr>"

definition traced_host :: issuance_host where
  "traced_host = \<lparr>ih_spawn = (\<lambda>i. True), ih_threads = 4\<rparr>"

definition traced_plan :: issuance_plan where
  "traced_plan =
     \<lparr>ip_root = PlannedValue 0 (PObject [ODisclosed (PlannedValue 1 (PScalar Null)) 0] []),
      ip_jobs = [\<lparr>pj_id = 0, pj_location = 1, pj_operation = ObjectDisclosure 0 ''n'' ''s''\<rparr>],
      ip_disclosure_job_ids = [0]\<rparr>"

lemma one_job_selected:
  "select_execution_with_estimate (Suc 0) estimate BENCHMARK_ISSUANCE_THRESHOLDS parallelism budget =
     (decision_serial BelowMinJobs, budget)"
  by (simp add: select_execution_with_estimate_def BENCHMARK_ISSUANCE_THRESHOLDS_def)

lemma one_job_traced:
  "\<exists>batch. traced_execute X host BENCHMARK_ISSUANCE_THRESHOLDS (budget, []) [job] =
     (serial_issuance_execute (process_issuance_job X) [job], budget, [batch]) \<and> rb_job_count batch = 1"
  by (simp add: traced_execute_def select_execution_with_benchmark_trace_def one_job_selected decision_serial_def
      run_selection_def record_benchmark_ready_batch_def batch_chunks_def Let_def)

lemma traced_plan_executed:
  "\<exists>assembly batch. execute_with_executor (traced_execute traced_X traced_host BENCHMARK_ISSUANCE_THRESHOLDS)
       traced_plan (issuance_budget_new 4, []) = Ok (assembly, issuance_budget_new 4, [batch]) \<and> rb_job_count batch = 1"
proof -
  let ?identity = "\<lparr>ji_job_id = 0, ji_location_id = Suc 0, ji_kind = ObjectKind, ji_ordinal = Some 0\<rparr>"
  obtain batch where "traced_execute traced_X traced_host BENCHMARK_ISSUANCE_THRESHOLDS (issuance_budget_new 4, [])
        [\<lparr>ij_identity = ?identity, ij_operation = IssueObject ''n'' ''s'' Null\<rparr>] =
      (serial_issuance_execute (process_issuance_job traced_X)
         [\<lparr>ij_identity = ?identity, ij_operation = IssueObject ''n'' ''s'' Null\<rparr>], issuance_budget_new 4, [batch])"
      "rb_job_count batch = 1"
    using one_job_traced by blast
  then show ?thesis
    by (simp add: execute_with_executor_def traced_plan_def assembler_new_def Let_def validate_registry_def
        take_planned_job_def map_insert_def execute_and_restore_def serial_issuance_execute_def restore_issuance_outcomes_def process_issuance_job_def
        expected_index_def enumerate_eq_zip record_disclosure_def assembler_finish_def restore_slot_def)
qed

text \<open>C19. The evidence of a traced run is accepted. When a benchmark candidate has been executed with a
  trace, its summary passes every assertion of the record's constructor, and the machine form of the
  record has the canonical shape; it has the semantics that the validator demands of the route when
  the batches fit a vector. This holds in a build with the native executor and in one without.
\<close>

theorem traced_run_gives_valid_evidence:
  assumes "execute_benchmark_candidate_with_trace par X host plan b = Ok ((assembly, summary), b')"
    and "available_parallelism answer = ih_threads host" and "0 < ih_threads host"
  shows "\<exists>r. candidate_record par answer summary = Ok r \<and>
    route_record_has_canonical_shape (machine_record_value par r c stage) \<and>
    ((\<forall>batches. ts_ready_batches summary = Some batches \<longrightarrow> (\<forall>batch\<in>set batches. rb_job_count batch \<le> usize_max)) \<longrightarrow>
      route_record_semantics_are_valid par (machine_record_value par r c stage)
        (expected_route c stage AdaptiveCandidate))"
proof (cases par)
  case True
  with assms(1) obtain trace where run: "execute_with_executor (traced_execute X host BENCHMARK_ISSUANCE_THRESHOLDS)
      plan (b, []) = Ok (assembly, b', trace)" and summary: "summary = trace_summary trace"
    by (auto simp: execute_benchmark_candidate_with_trace_def rbind_eq_Ok)
  have "ts_ready_batches summary = Some trace"
    by (simp add: summary trace_summary_def Let_def)
  with native_evidence [of answer trace c stage] traced_run_evident [OF run assms(3)] assms(2,3) True show ?thesis
    by (auto simp: summary record_shape)
next
  case False
  then have "summary = trace_summary_fallback"
    using assms(1) by (auto simp: execute_benchmark_candidate_with_trace_def rbind_eq_Ok)
  then show ?thesis
    using fallback_evidence [of answer c stage] assms(2,3) False by (auto simp: record_shape)
qed

theorem traced_run_gives_valid_evidence_witness:
  "\<exists>assembly batch r. execute_benchmark_candidate_with_trace True traced_X traced_host traced_plan (issuance_budget_new 4)
       = Ok ((assembly, trace_summary [batch]), issuance_budget_new 4) \<and>
     candidate_record True (Some 4) (trace_summary [batch]) = Ok r \<and>
     route_record_semantics_are_valid True (machine_record_value True r (hd issuance_benchmark_cases) FullIssuance)
       (expected_route (hd issuance_benchmark_cases) FullIssuance AdaptiveCandidate)"
proof -
  obtain assembly batch where "execute_with_executor (traced_execute traced_X traced_host BENCHMARK_ISSUANCE_THRESHOLDS)
       traced_plan (issuance_budget_new 4, []) = Ok (assembly, issuance_budget_new 4, [batch])" "rb_job_count batch = 1"
    using traced_plan_executed by blast
  then have run: "execute_benchmark_candidate_with_trace True traced_X traced_host traced_plan (issuance_budget_new 4)
      = Ok ((assembly, trace_summary [batch]), issuance_budget_new 4)" and "rb_job_count batch \<le> usize_max"
    by (simp_all add: execute_benchmark_candidate_with_trace_def usize_max_def)
  have "ts_ready_batches (trace_summary [batch]) = Some [batch]" "ih_threads traced_host = 4"
    by (simp_all add: trace_summary_def traced_host_def)
  with traced_run_gives_valid_evidence [OF run, of "Some 4" "hd issuance_benchmark_cases" FullIssuance]
    \<open>rb_job_count batch \<le> usize_max\<close> run show ?thesis
    by (simp add: available_parallelism_def) blast
qed

subsection \<open>The matrix\<close>

text \<open>What the validator asks of one line of the evidence.\<close>

definition evidence_line :: "bool \<Rightarrow> 'k externals \<Rightarrow> nat \<Rightarrow> string \<Rightarrow> qualification_route \<Rightarrow> bool" where
  "evidence_line par X host line route \<longleftrightarrow>
     length line < MAX_ISSUANCE_ROUTE_ARTIFACT_BYTES \<and> char_of (13 :: nat) \<notin> set line \<and> char_of (10 :: nat) \<notin> set line \<and>
     (\<exists>v. json_from_slice X line = Inr v \<and> json_to_string X v = line \<and> route_record_has_canonical_shape v \<and>
        Option.bind (value_get v ''schema'') as_str = Some ISSUANCE_ROUTE_SCHEMA \<and>
        Option.bind (value_get v ''benchmark_id'') as_str = Some (qr_benchmark_id route) \<and>
        Option.bind (value_get v ''fixture_id'') as_str = Some (qr_fixture_id route) \<and>
        Option.bind (value_get v ''stage'') as_str = Some (stage_label (qr_stage route)) \<and>
        Option.bind (value_get v ''requested'') as_str = Some (route_label (qr_requested route)) \<and>
        Option.bind (value_get v ''host_available_parallelism'') as_u64 = Some host \<and>
        route_record_semantics_are_valid par v route)"

lemma validate_record_iff:
  "validate_record par X line route (ids, h) = Inr seen \<longleftrightarrow>
     (\<exists>host. evidence_line par X host line route \<and> qr_benchmark_id route \<notin> ids \<and> h \<in> {None, Some host} \<and>
        seen = (insert (qr_benchmark_id route) ids, Some host))"
proof -
  have bytes: "(case checked_add (length line) 1 of None \<Rightarrow> True | Some bytes \<Rightarrow> MAX_ISSUANCE_ROUTE_ARTIFACT_BYTES < bytes)
      \<longleftrightarrow> \<not> length line < MAX_ISSUANCE_ROUTE_ARTIFACT_BYTES"
    by (auto simp: checked_add_def MAX_ISSUANCE_ROUTE_ARTIFACT_BYTES_def usize_max_def)
  show ?thesis
    unfolding validate_record_def prod.case bytes evidence_line_def
    by (auto split: sum.splits option.splits if_splits)
qed

lemma validate_records_iff:
  assumes "distinct (map (qr_benchmark_id \<circ> snd) ps)" "set (map (qr_benchmark_id \<circ> snd) ps) \<inter> ids = {}" "ps \<noteq> []"
  shows "validate_records par X ps (ids, h) = Inr seen \<longleftrightarrow>
     (\<exists>host. list_all (\<lambda>(line, route). evidence_line par X host line route) ps \<and> h \<in> {None, Some host} \<and>
        seen = (ids \<union> set (map (qr_benchmark_id \<circ> snd) ps), Some host))"
  using assms
proof (induction ps arbitrary: ids h seen)
  case (Cons p ps)
  obtain line route where p: "p = (line, route)" by (rule prod.exhaust)
  show ?case
  proof (cases "ps = []")
    case True
    then show ?thesis
      using Cons.prems by (auto simp: p sum_bind_eq_Inr validate_record_iff)
  next
    case False
    have IH: "validate_records par X ps (insert (qr_benchmark_id route) ids, k) = Inr s \<longleftrightarrow>
       (\<exists>host. list_all (\<lambda>(line, route). evidence_line par X host line route) ps \<and> k \<in> {None, Some host} \<and>
          s = (insert (qr_benchmark_id route) ids \<union> set (map (qr_benchmark_id \<circ> snd) ps), Some host))" for k s
      by (rule Cons.IH) (use Cons.prems False in \<open>auto simp: p\<close>)
    have step: "validate_records par X (p # ps) (ids, h) = Inr seen \<longleftrightarrow>
        (\<exists>host. evidence_line par X host line route \<and> qr_benchmark_id route \<notin> ids \<and> h \<in> {None, Some host} \<and>
           validate_records par X ps (insert (qr_benchmark_id route) ids, Some host) = Inr seen)"
      unfolding p validate_records.simps sum_bind_eq_Inr validate_record_iff by blast
    show ?thesis
      unfolding step IH using Cons.prems by (auto simp: p)
  qed
qed simp

text \<open>C25. The sink stores one line of complete evidence. The validation of the records yields a payload
  exactly when there are as many records as benchmark identifiers, every record is canonical
  single-line JSON that passes the validator for the route at its position, all of them report the
  same host parallelism, and the selected index is one of them; the payload is that record and a
  line feed.
\<close>

theorem selected_payload_iff:
  "validated_selected_route_payload par X records index = Inr payload \<longleftrightarrow>
     (\<exists>host. list_all2 (evidence_line par X host) records (qualification_routes issuance_benchmark_cases)) \<and>
     index < ISSUANCE_BENCHMARK_ID_COUNT \<and> payload = records ! index @ [char_of (10 :: nat)]"
proof -
  let ?routes = "qualification_routes issuance_benchmark_cases"
  have count: "length ?routes = ISSUANCE_BENCHMARK_ID_COUNT"
    using length_criterion_ids [of issuance_benchmark_cases]
    by (simp add: qualification_criterion_ids_def length_cases ISSUANCE_BENCHMARK_ID_COUNT_def)
  have ids: "distinct (map qr_benchmark_id ?routes)"
    using criterion_ids_distinct [OF id_suffixes_distinct] by (simp add: qualification_criterion_ids_def)
  show ?thesis
  proof (cases "length records = ISSUANCE_BENCHMARK_ID_COUNT")
    case False
    then show ?thesis
      using count by (auto simp: validated_selected_route_payload_def dest: list_all2_lengthD)
  next
    case True
    let ?ps = "zip records ?routes"
    have map_ids: "map (qr_benchmark_id \<circ> snd) ?ps = map qr_benchmark_id ?routes"
      using True count by (simp add: map_map [symmetric] del: map_map)
    have "?ps \<noteq> []"
      using True count by (auto simp: ISSUANCE_BENCHMARK_ID_COUNT_def ISSUANCE_FIXTURE_CASE_COUNT_def)
    then have "validate_records par X ?ps ({}, None) = Inr seen \<longleftrightarrow>
        (\<exists>host. list_all2 (evidence_line par X host) records ?routes \<and> seen = (set (map qr_benchmark_id ?routes), Some host))"
      for seen
      using validate_records_iff [of ?ps "{}" par X None seen] ids True count
      by (simp add: map_ids list_all2_iff list_all_iff)
    moreover have "card (set (map qr_benchmark_id ?routes)) = ISSUANCE_BENCHMARK_ID_COUNT"
      using distinct_card [OF ids] count by simp
    ultimately show ?thesis
      using True by (auto simp: validated_selected_route_payload_def sum_bind_eq_Inr slice_get_def split: if_splits)
  qed
qed

end
