(* ===== verification/Fixture_Properties.thy ===== *)
theory Fixture_Properties
  imports Benchmark_Fixture Route_Properties Launch_Schedule_Properties Recovery
begin

text \<open>
  The benchmark's fixtures against the issuer: what a plan draws from the random tape is what the
  fixture put there, and the preflight of every case of the matrix passes.
\<close>

subsection \<open>What a plan draws from the tape\<close>

text \<open>
  \<open>hidden\<close> counts the disclosures of a value under a strategy, \<open>objects\<close> its objects. A tape lasts for
  \<open>h\<close> disclosures and \<open>k\<close> objects when it has the salts, and counts in range with their decoy salts.
\<close>

fun hidden :: "json \<Rightarrow> strategy \<Rightarrow> nat"
  and hidden_array :: "nat \<Rightarrow> json list \<Rightarrow> strategy \<Rightarrow> nat"
  and hidden_object :: "json_map \<Rightarrow> strategy \<Rightarrow> nat"
where
  "hidden (Array vs) strat = hidden_array 0 vs strat"
| "hidden (Object ms) strat = hidden_object ms strat"
| "hidden v strat = 0"
| "hidden_array i [] strat = 0"
| "hidden_array i (v # vs) strat =
     hidden v (next_level strat (index_key i)) +
     ((if sd_for_key strat (index_key i) then 1 else 0) + hidden_array (Suc i) vs strat)"
| "hidden_object [] strat = 0"
| "hidden_object ((key, v) # ms) strat =
     hidden v (next_level strat key) + ((if sd_for_key strat key then 1 else 0) + hidden_object ms strat)"

fun objects :: "json \<Rightarrow> nat" and objects_array :: "json list \<Rightarrow> nat" and objects_object :: "json_map \<Rightarrow> nat"
where
  "objects (Array vs) = objects_array vs"
| "objects (Object ms) = Suc (objects_object ms)"
| "objects v = 0"
| "objects_array [] = 0"
| "objects_array (v # vs) = objects v + objects_array vs"
| "objects_object [] = 0"
| "objects_object ((key, v) # ms) = objects v + objects_object ms"

definition lasts :: "nat \<Rightarrow> nat \<Rightarrow> benchmark_tape \<Rightarrow> bool" where
  "lasts h k T \<longleftrightarrow>
     h \<le> length (bt_disclosure_salts T) \<and> k \<le> length (bt_decoy_counts T) \<and>
     (\<forall>n\<in>set (take k (bt_decoy_counts T)). DECOY_MIN_ELEMENTS \<le> n \<and> n < DECOY_MAX_ELEMENTS) \<and>
     sum_list (take k (bt_decoy_counts T)) \<le> length (bt_decoy_salts T)"

definition consume :: "nat \<Rightarrow> nat \<Rightarrow> benchmark_tape \<Rightarrow> benchmark_tape" where
  "consume h k T =
     \<lparr>bt_disclosure_salts = drop h (bt_disclosure_salts T), bt_decoy_counts = drop k (bt_decoy_counts T),
      bt_decoy_salts = drop (sum_list (take k (bt_decoy_counts T))) (bt_decoy_salts T)\<rparr>"

definition drawn :: "bool \<Rightarrow> nat \<Rightarrow> nat" where
  "drawn decoys n = (if decoys then n else 0)"

lemma consume_consume: "consume h' k' (consume h k T) = consume (h + h') (k + k') T"
  by (simp add: consume_def take_add add.commute)

lemma consume_zero: "consume 0 0 T = T"
  by (simp add: consume_def)

lemma lasts_add: "lasts (h + h') (k + k') T \<longleftrightarrow> lasts h k T \<and> lasts h' k' (consume h k T)"
proof -
  have le_add: "a + b \<le> length xs \<longleftrightarrow> a \<le> length xs \<and> b \<le> length (drop a xs)" for a b and xs :: "'b list"
    by (simp add: le_diff_conv2) linarith
  have take_all: "(\<forall>n\<in>set (take (a + b) xs). P n) \<longleftrightarrow>
      (\<forall>n\<in>set (take a xs). P n) \<and> (\<forall>n\<in>set (take b (drop a xs)). P n)" for a b P and xs :: "nat list"
    by (simp only: take_add set_append ball_Un)
  have take_sum: "sum_list (take (a + b) xs) = sum_list (take a xs) + sum_list (take b (drop a xs))"
    for a b and xs :: "nat list"
    by (simp only: take_add sum_list_append)
  show ?thesis
    unfolding lasts_def consume_def benchmark_tape.simps le_add take_all take_sum by blast
qed

lemma drawn_add: "drawn d (m + n) = drawn d m + drawn d n"
  by (simp add: drawn_def)

lemma draw_decoys_tape:
  "n \<le> length (bt_decoy_salts T) \<Longrightarrow>
     snd (draw_decoys tape_source n (Some T)) = Some (T\<lparr>bt_decoy_salts := drop n (bt_decoy_salts T)\<rparr>)"
proof (induction n arbitrary: T)
  case (Suc n)
  then obtain salt salts where "bt_decoy_salts T = salt # salts" by (cases "bt_decoy_salts T") auto
  with Suc.IH [of "T\<lparr>bt_decoy_salts := salts\<rparr>"] Suc.prems show ?case
    by (simp add: tape_source_def split_def)
qed (simp add: tape_source_def)

lemma decoys_drawn:
  assumes "lasts 0 (drawn decoys 1) T"
  shows "\<exists>digests. direct_decoys X tape_source decoys (Some T) = (digests, Some (consume 0 (drawn decoys 1) T))"
proof (cases decoys)
  case True
  with assms obtain n counts where n: "bt_decoy_counts T = n # counts" "2 \<le> n" "n < 5" "n \<le> length (bt_decoy_salts T)"
    by (cases "bt_decoy_counts T") (auto simp: lasts_def drawn_def DECOY_MIN_ELEMENTS_def DECOY_MAX_ELEMENTS_def)
  let ?T = "T\<lparr>bt_decoy_counts := counts\<rparr>"
  have "decoy_count tape_source DECOY_MIN_ELEMENTS DECOY_MAX_ELEMENTS (Some T) = (n, Some ?T)"
    using n by (simp add: tape_source_def DECOY_MIN_ELEMENTS_def DECOY_MAX_ELEMENTS_def)
  moreover have "snd (draw_decoys tape_source n (Some ?T)) = Some (consume 0 1 T)"
    using draw_decoys_tape [of n ?T] n by (simp add: consume_def)
  ultimately show ?thesis
    using True by (simp add: direct_decoys_def drawn_def split_def)
qed (simp add: direct_decoys_def drawn_def consume_zero)

lemma salt_drawn:
  "lasts 1 0 T \<Longrightarrow> \<exists>salt. disclosure_salt tape_source (Some T) = (salt, Some (consume 1 0 T))"
  by (cases "bt_disclosure_salts T") (auto simp: tape_source_def lasts_def consume_def)

text \<open>The concealment draws what the two counts say, no more and no less.\<close>

lemma direct_draws:
  "lasts (hidden v strat) (drawn decoys (objects v)) T \<Longrightarrow>
     \<exists>out ds. direct_value X tape_source decoys v strat (Some T)
        = (out, ds, Some (consume (hidden v strat) (drawn decoys (objects v)) T)) \<and> length ds = hidden v strat"
  "lasts (hidden_array i vs strat) (drawn decoys (objects_array vs)) T \<Longrightarrow>
     \<exists>outs ds. direct_array X tape_source decoys i vs strat (Some T)
        = (outs, ds, Some (consume (hidden_array i vs strat) (drawn decoys (objects_array vs)) T)) \<and>
        length ds = hidden_array i vs strat"
  "lasts (hidden_object ms strat) (drawn decoys (objects_object ms)) T \<Longrightarrow>
     \<exists>claims' digests ds. direct_object X tape_source decoys claims ms strat (Some T)
        = (claims', digests, ds, Some (consume (hidden_object ms strat) (drawn decoys (objects_object ms)) T)) \<and>
        length ds = hidden_object ms strat"
proof (induction v strat and i vs strat and ms strat arbitrary: T and T and claims T
    rule: hidden_hidden_array_hidden_object.induct)
  case (1 vs strat)
  then show ?case by fastforce
next
  case (2 ms strat)
  have s: "drawn decoys (Suc (objects_object ms)) = drawn decoys (objects_object ms) + drawn decoys (Suc 0)"
    by (simp add: drawn_def)
  with 2(2) have l: "lasts (hidden_object ms strat) (drawn decoys (objects_object ms)) T"
    "lasts 0 (drawn decoys 1) (consume (hidden_object ms strat) (drawn decoys (objects_object ms)) T)"
    using lasts_add [of "hidden_object ms strat" 0] by (simp_all add: s)
  from 2(1) [OF l(1), of "map_insert SD_DIGESTS_KEY Null []"] decoys_drawn [OF l(2), of X] show ?case
    by (auto simp: consume_consume s)
next
  case (5 i v vs strat)
  let ?T1 = "consume (hidden v (next_level strat (index_key i))) (drawn decoys (objects v)) T"
  have d: "drawn decoys (objects_array (v # vs)) = drawn decoys (objects v) + (0 + drawn decoys (objects_array vs))"
    by (simp add: drawn_add)
  show ?case
  proof (cases "sd_for_key strat (index_key i)")
    case True
    from 5(3) [unfolded d] True have l: "lasts (hidden v (next_level strat (index_key i))) (drawn decoys (objects v)) T"
      "lasts 1 0 ?T1" "lasts (hidden_array (Suc i) vs strat) (drawn decoys (objects_array vs)) (consume 1 0 ?T1)"
      by (simp_all only: hidden_array.simps if_True lasts_add)
    from 5(1) [OF l(1)] obtain out ds where v: "direct_value X tape_source decoys v (next_level strat (index_key i)) (Some T)
        = (out, ds, Some ?T1)" "length ds = hidden v (next_level strat (index_key i))" by blast
    from salt_drawn [OF l(2)] obtain salt where
      "disclosure_salt tape_source (Some ?T1) = (salt, Some (consume 1 0 ?T1))" by blast
    with v 5(2) [OF l(3)] True show ?thesis
      unfolding d by (auto simp: consume_consume Let_def)
  next
    case False
    from 5(3) [unfolded d] False have l: "lasts (hidden v (next_level strat (index_key i))) (drawn decoys (objects v)) T"
      "lasts (hidden_array (Suc i) vs strat) (drawn decoys (objects_array vs)) ?T1"
      by (simp_all add: lasts_add)
    from 5(1) [OF l(1)] 5(2) [OF l(2)] False show ?thesis
      unfolding d by (auto simp: consume_consume)
  qed
next
  case (7 key v ms strat)
  let ?T1 = "consume (hidden v (next_level strat key)) (drawn decoys (objects v)) T"
  have d: "drawn decoys (objects_object ((key, v) # ms)) = drawn decoys (objects v) + (0 + drawn decoys (objects_object ms))"
    by (simp add: drawn_add)
  show ?case
  proof (cases "sd_for_key strat key")
    case True
    from 7(3) [unfolded d] True have l: "lasts (hidden v (next_level strat key)) (drawn decoys (objects v)) T"
      "lasts 1 0 ?T1" "lasts (hidden_object ms strat) (drawn decoys (objects_object ms)) (consume 1 0 ?T1)"
      by (simp_all only: hidden_object.simps if_True lasts_add)
    from 7(1) [OF l(1)] obtain out ds where v: "direct_value X tape_source decoys v (next_level strat key) (Some T)
        = (out, ds, Some ?T1)" "length ds = hidden v (next_level strat key)" by blast
    from salt_drawn [OF l(2)] obtain salt where
      "disclosure_salt tape_source (Some ?T1) = (salt, Some (consume 1 0 ?T1))" by blast
    with v 7(2) [OF l(3), of claims] True show ?thesis
      unfolding d by (auto simp: consume_consume Let_def)
  next
    case False
    from 7(3) [unfolded d] False have l: "lasts (hidden v (next_level strat key)) (drawn decoys (objects v)) T"
      "lasts (hidden_object ms strat) (drawn decoys (objects_object ms)) ?T1"
      by (simp_all add: lasts_add)
    from 7(1) [OF l(1)] obtain out ds where "direct_value X tape_source decoys v (next_level strat key) (Some T)
        = (out, ds, Some ?T1)" "length ds = hidden v (next_level strat key)" by blast
    with 7(2) [OF l(2), of "map_insert key out claims"] False show ?thesis
      unfolding d by (auto simp: consume_consume)
  qed
qed (simp_all add: drawn_def consume_zero)

subsection \<open>The claims of the cases\<close>

lemma object_count_objects:
  "objects v \<le> usize_max \<Longrightarrow> object_count v = objects v"
  "objects_array vs \<le> usize_max \<Longrightarrow> sum_list (map object_count vs) = objects_array vs"
  "objects_object ms \<le> usize_max \<Longrightarrow> sum_list (map (\<lambda>(_, v). object_count v) ms) = objects_object ms"
  by (induction v and vs and ms rule: objects_objects_array_objects_object.induct)
     (simp_all add: saturating_add_def)

lemma hidden_none:
  "hidden v NoSDClaims = 0" "hidden_array i vs NoSDClaims = 0" "hidden_object ms NoSDClaims = 0"
  by (induction v "NoSDClaims :: strategy" and i vs "NoSDClaims :: strategy" and ms "NoSDClaims :: strategy"
      rule: hidden_hidden_array_hidden_object.induct) simp_all

lemma hidden_top_level: "hidden_object ms TopLevel = length ms"
  by (induction ms) (auto simp: hidden_none)

lemma objects_object_le: "(\<And>k v. (k, v) \<in> set ms \<Longrightarrow> objects v \<le> b) \<Longrightarrow> objects_object ms \<le> b * length ms"
  by (induction ms) (auto, force)

lemma nodes_object_le: "(\<And>k v. (k, v) \<in> set ms \<Longrightarrow> node_count v \<le> b) \<Longrightarrow> nodes_object ms \<le> b * length ms"
  by (induction ms) (auto, force)

lemma foldl_map_insert:
  "distinct (map k xs) \<Longrightarrow> set (map k xs) \<inter> fst ` set m = {} \<Longrightarrow>
     foldl (\<lambda>m x. map_insert (k x) (v x) m) m xs = m @ map (\<lambda>x. (k x, v x)) xs"
proof (induction xs arbitrary: m)
  case (Cons x xs)
  then have "foldl (\<lambda>m x. map_insert (k x) (v x) m) m (x # xs)
      = foldl (\<lambda>m x. map_insert (k x) (v x) m) (m @ [(k x, v x)]) xs"
    by (simp add: map_insert_new)
  also have "\<dots> = (m @ [(k x, v x)]) @ map (\<lambda>x. (k x, v x)) xs"
    by (rule Cons.IH) (use Cons.prems in auto)
  finally show ?case by simp
qed simp

text \<open>What the planner and the issuer need to know of the claims of a case.\<close>

definition plannable :: "json_map \<Rightarrow> bool" where
  "plannable m \<longleftrightarrow> distinct (map fst m) \<and> keys_avoid reserved_keys (Object m) \<and>
     fst ` set m \<inter> {''iss'', ''iat'', ''exp'', CNF_KEY} = {} \<and> objects (Object m) \<le> 2000 \<and> node_count (Object m) \<le> 20000"

lemma payload_value_facts:
  "objects (payload_value cls i) \<le> 2" "node_count (payload_value cls i) \<le> 10"
  "keys_avoid reserved_keys (payload_value cls i)"
  by (cases cls; simp add: small_value_def medium_value_def large_value_def Let_def json_usize_def reserved_keys_def
      SD_DIGESTS_KEY_def SD_LIST_PREFIX_def)+

definition standard_claims :: "payload_class \<Rightarrow> nat \<Rightarrow> json_map" where
  "standard_claims cls n = map (\<lambda>i. (claim_key i, payload_value cls i)) [0..<n]"

lemma claim_key_inj: "claim_key i = claim_key j \<longleftrightarrow> i = j"
  using undec_zero_padded by (auto simp: claim_key_def) metis

lemma disjoint_subset1: "A \<subseteq> B \<Longrightarrow> B \<inter> C = {} \<Longrightarrow> A \<inter> C = {}"
  by blast

lemma claim_key_fresh: "range claim_key \<inter> {''iss'', ''iat'', ''exp'', CNF_KEY} = {}" "claim_key i \<notin> reserved_keys"
  by (auto simp: claim_key_def CNF_KEY_def reserved_keys_def SD_DIGESTS_KEY_def SD_LIST_PREFIX_def)

lemma selective_standard:
  "bc_kind c = StandardFixture cls d \<Longrightarrow> selective_claims c = Object (standard_claims cls (bc_disclosure_count c))"
  using foldl_map_insert [of claim_key "[0..<bc_disclosure_count c]" "[]" "payload_value cls"]
  by (simp add: selective_claims_def standard_claims_def distinct_map inj_on_def claim_key_inj)

lemma standard_plannable:
  assumes "n \<le> 512"
  shows "plannable (standard_claims cls n)"
proof -
  have "objects_object (standard_claims cls n) \<le> 2 * length (standard_claims cls n)"
    by (rule objects_object_le) (auto simp: standard_claims_def payload_value_facts)
  moreover have "nodes_object (standard_claims cls n) \<le> 10 * length (standard_claims cls n)"
    by (rule nodes_object_le) (auto simp: standard_claims_def payload_value_facts)
  moreover have "keys_avoid reserved_keys (Object (standard_claims cls n))"
    by (simp add: standard_claims_def list_all_iff payload_value_facts claim_key_fresh)
  moreover have "fst ` set (standard_claims cls n) \<inter> {''iss'', ''iat'', ''exp'', CNF_KEY} = {}"
    by (rule disjoint_subset1 [OF _ claim_key_fresh(1)]) (auto simp: standard_claims_def)
  moreover have "length (standard_claims cls n) = n" "distinct (map fst (standard_claims cls n))"
    by (simp_all add: standard_claims_def comp_def distinct_map inj_on_def claim_key_inj)
  ultimately show ?thesis
    using assms by (simp add: plannable_def)
qed

lemma standard_kinds:
  "c \<in> set (standard_cases classes d) \<Longrightarrow> (\<exists>cls. bc_kind c = StandardFixture cls d) \<and> bc_disclosure_count c \<le> 512"
  by (auto simp: standard_cases_def ISSUANCE_DISCLOSURE_COUNTS_def)

lemma case_kinds:
  assumes "c \<in> set issuance_benchmark_cases"
  obtains cls d where "bc_kind c = StandardFixture cls d" "bc_disclosure_count c \<le> 512"
  | "c = \<lparr>bc_disclosure_count = 7, bc_kind = AllLevelsNestedObjects\<rparr>"
  | "c = \<lparr>bc_disclosure_count = 8, bc_kind = AllLevelsArrayDag\<rparr>"
  | "c = \<lparr>bc_disclosure_count = 8, bc_kind = TopLevelImbalanced\<rparr>"
proof -
  have "(\<exists>cls d. bc_kind c = StandardFixture cls d) \<and> bc_disclosure_count c \<le> 512 \<or>
      c \<in> {\<lparr>bc_disclosure_count = 7, bc_kind = AllLevelsNestedObjects\<rparr>,
        \<lparr>bc_disclosure_count = 8, bc_kind = AllLevelsArrayDag\<rparr>, \<lparr>bc_disclosure_count = 8, bc_kind = TopLevelImbalanced\<rparr>}"
    using assms standard_kinds unfolding issuance_benchmark_cases_def set_append list.set by blast
  with that show ?thesis by blast
qed

lemma case_claims:
  assumes "c \<in> set issuance_benchmark_cases"
  obtains m where "selective_claims c = Object m" "plannable m"
    "hidden (Object m) (case_disclosure_strategy c) = bc_disclosure_count c"
    "finalize_input (case_disclosure_strategy c) = Ok (case_disclosure_strategy c)"
  using assms
proof (cases rule: case_kinds)
  case (1 cls d)
  show ?thesis
    by (rule that [OF selective_standard [OF 1(1)] standard_plannable [OF 1(2)]])
       (simp_all add: case_disclosure_strategy_def 1(1) hidden_top_level, simp add: standard_claims_def)
next
  case 2
  show ?thesis
    by (rule that [of "[(''left'', Object [(''a'', String ''x''), (''b'', String ''x'')]),
        (''right'', Object [(''c'', String ''x''), (''d'', String ''x'')]), (''tail'', String ''x'')]"])
 (simp_all add: 2 selective_claims_def all_levels_nested_object_claims_def two_scalar_claims_def
      map_insert_def plannable_def reserved_keys_def SD_DIGESTS_KEY_def SD_LIST_PREFIX_def CNF_KEY_def
      case_disclosure_strategy_def)
next
  case 3
  show ?thesis
    by (rule that [of "[(''groups'', Array [two_scalar_entries, two_scalar_entries]), (''tag'', String ''x'')]"])
 (simp_all add: 3 selective_claims_def all_levels_array_dag_claims_def two_scalar_entries_def
      map_insert_def plannable_def reserved_keys_def SD_DIGESTS_KEY_def SD_LIST_PREFIX_def CNF_KEY_def
      case_disclosure_strategy_def)
next
  case 4
  let ?heavy = "String (replicate (4 * 1024) (CHR ''H''))"
  let ?m = "[(''h0'', ?heavy), (''h1'', ?heavy), (''s0'', String []), (''s1'', String []), (''s2'', String []),
      (''s3'', String []), (''s4'', String []), (''s5'', String [])]"
  have digits: "dec 0 = ''0''" "dec 1 = ''1''" "dec 2 = ''2''" "dec 3 = ''3''" "dec 4 = ''4''" "dec 5 = ''5''"
    by code_simp+
  have "[0..<6] = [0, 1, 2, 3, 4, 5 :: nat]"
    by (simp add: upt_rec)
  then have claims: "top_level_imbalanced_claims = Object ?m"
    by (simp only: top_level_imbalanced_claims_def Let_def foldl.simps digits) (simp add: map_insert_def)
  show ?thesis
    by (rule that [of ?m]) (simp_all add: 4 claims selective_claims_def plannable_def reserved_keys_def SD_DIGESTS_KEY_def
      SD_LIST_PREFIX_def CNF_KEY_def case_disclosure_strategy_def)
qed

subsection \<open>Planning a fixture\<close>

lemma foldl_saturating_add:
  "acc + sum_list ns \<le> usize_max \<Longrightarrow> foldl saturating_add acc ns = acc + sum_list ns"
proof (induction ns arbitrary: acc)
  case (Cons n ns)
  then have "saturating_add acc n = acc + n" by (simp add: saturating_add_def)
  with Cons.IH [of "acc + n"] Cons.prems show ?case by (simp add: add.assoc)
qed simp

lemma sum_list_below: "(\<And>n. n \<in> set ns \<Longrightarrow> n \<le> b) \<Longrightarrow> sum_list ns \<le> b * length ns" for b :: nat
  by (induction ns) (auto, force)

lemma tape_lasts:
  assumes "objects v \<le> 2000" and "hidden v strat = bc_disclosure_count c"
  shows "lasts (hidden v strat) (drawn (case_add_decoy_claims c) (objects v)) (tape_new X v c)"
    and "tape_finished (Some (consume (hidden v strat) (drawn (case_add_decoy_claims c) (objects v)) (tape_new X v c))) = Ok ()"
proof -
  let ?counts = "tape_decoy_counts v c"
  have "object_count v = objects v"
    using assms(1) by (intro object_count_objects) (simp add: usize_max_def)
  then have counts: "?counts = map (\<lambda>i. 2 + i mod 3) [0..<drawn (case_add_decoy_claims c) (objects v)]"
    by (simp add: tape_decoy_counts_def drawn_def)
  then have few: "length ?counts = drawn (case_add_decoy_claims c) (objects v)" by simp
  have range: "\<forall>n\<in>set ?counts. 2 \<le> n \<and> n < 5"
    unfolding counts by auto
  then have "sum_list ?counts \<le> 5 * length ?counts"
    by (intro sum_list_below) auto
  moreover have "length ?counts \<le> 2000"
    using assms(1) few by (simp add: drawn_def split: if_splits)
  ultimately have "foldl saturating_add 0 ?counts = sum_list ?counts"
    by (subst foldl_saturating_add) (simp_all add: usize_max_def)
  then show "lasts (hidden v strat) (drawn (case_add_decoy_claims c) (objects v)) (tape_new X v c)"
    and "tape_finished (Some (consume (hidden v strat) (drawn (case_add_decoy_claims c) (objects v)) (tape_new X v c))) = Ok ()"
    using range assms(2)
    by (simp_all add: tape_new_def lasts_def consume_def tape_finished_def tape_finish_def Let_def few [symmetric]
        DECOY_MIN_ELEMENTS_def DECOY_MAX_ELEMENTS_def)
qed

lemma tape_in_range: "decoys_in_range tape_source"
proof -
  have "fst (draw_decoy_count DECOY_MIN_ELEMENTS DECOY_MAX_ELEMENTS t) < DECOY_MAX_ELEMENTS" for t
    by (cases t) (auto simp: DECOY_MIN_ELEMENTS_def DECOY_MAX_ELEMENTS_def split: list.split)
  then show ?thesis
    by (simp add: decoys_in_range_def tape_source_def)
qed

lemma direct_object_out:
  "direct_value X R decoys (Object ms) strat r = (out, ds, r') \<Longrightarrow> \<exists>concealed. out = Object concealed"
  by (auto simp: finish_object_def split: prod.splits if_splits)

text \<open>The plan of a case consumes its tape exactly and yields as many disclosures as the case says.\<close>

lemma case_planned:
  assumes "plannable m" and "hidden (Object m) (case_disclosure_strategy c) = bc_disclosure_count c"
  obtains plan tape concealed ds where
    "plan_create tape_source (Object m) (case_disclosure_strategy c) (case_add_decoy_claims c)
       (Some (tape_new X (Object m) c)) = Ok (plan, tape)"
    "tape_finished tape = Ok ()" "complete_plan X plan (Object concealed) ds"
    "length ds = bc_disclosure_count c" "made X (map snd ds)"
proof -
  let ?strat = "case_disclosure_strategy c" and ?d = "case_add_decoy_claims c" and ?T = "tape_new X (Object m) c"
  have o: "objects (Object m) \<le> 2000" and "6 * node_count (Object m) \<le> usize_max"
    using assms(1) unfolding plannable_def usize_max_def by simp_all
  from plan_create_progress [OF tape_in_range this(2)] obtain plan tape where
    plan: "plan_create tape_source (Object m) ?strat ?d (Some ?T) = Ok (plan, tape)" by blast
  from plan_create_complete [OF plan, of X] obtain out ds where
    direct: "direct_value X tape_source ?d (Object m) ?strat (Some ?T) = (out, map snd ds, tape)"
    and complete: "complete_plan X plan out ds" by blast
  from direct_object_out [OF direct] obtain concealed where out: "out = Object concealed" by blast
  note tape = tape_lasts [OF o assms(2), of X]
  have "tape_finished tape = Ok ()" "length ds = bc_disclosure_count c"
    using direct_draws(1) [OF tape(1), of X] tape(2) direct assms(2) by auto
  moreover have "made X (map snd ds)"
    using direct_made(1) [of X tape_source ?d "Object m" ?strat "Some ?T"] direct by simp
  ultimately show thesis
    using that plan complete unfolding out by blast
qed

subsection \<open>Running both routes\<close>

definition traceable_host :: "issuance_host \<Rightarrow> nat option \<Rightarrow> bool" where
  "traceable_host host answer \<longleftrightarrow>
     (\<forall>i. ih_spawn host i) \<and> available_parallelism answer = ih_threads host \<and> 0 < ih_threads host"

lemma serial_route:
  "complete_plan X plan out ds \<Longrightarrow>
     execute_route par X host SerialOracle b plan = Ok (\<lparr>ia_claims = out, ia_disclosures = map snd ds\<rparr>, b)"
  by (simp add: execute_route_def execute_serial_complete)

lemma traced_route:
  assumes "complete_plan X plan out ds" and "traceable_host host answer"
  obtains summary route where
    "execute_benchmark_candidate_with_trace par X host plan b
       = Ok ((\<lparr>ia_claims = out, ia_disclosures = map snd ds\<rparr>, summary), b)"
    "candidate_record par answer summary = Ok route"
proof -
  have spawn: "\<forall>i. ih_spawn host i" using assms(2) by (simp add: traceable_host_def)
  with traced_candidate_sat [OF assms(1), of b host par] execute_serial_complete [OF assms(1)] obtain summary where
    run: "execute_benchmark_candidate_with_trace par X host plan b
       = Ok ((\<lparr>ia_claims = out, ia_disclosures = map snd ds\<rparr>, summary), b)"
    by (cases "execute_benchmark_candidate_with_trace par X host plan b") auto
  have "\<exists>route. candidate_record par answer summary = Ok route"
  proof (cases par)
    case True
    with run obtain e trace where "execute_with_executor (traced_execute X host BENCHMARK_ISSUANCE_THRESHOLDS) plan (b, [])
        = Ok (\<lparr>ia_claims = out, ia_disclosures = map snd ds\<rparr>, e, trace)" "summary = trace_summary trace"
      by (auto simp: execute_benchmark_candidate_with_trace_def rbind_eq_Ok)
    with traced_run_evident [of X host plan b] native_evidence [of answer trace] assms(2) True show ?thesis
      by (simp add: traceable_host_def) blast
  next
    case False
    with run have "summary = trace_summary_fallback"
      by (auto simp: execute_benchmark_candidate_with_trace_def rbind_eq_Ok)
    with fallback_evidence [of answer] assms(2) False show ?thesis
      by (simp add: traceable_host_def) blast
  qed
  with run that show thesis by blast
qed

text \<open>What the two external parts of a remote credential must do: encode, and take the signature's form.\<close>

definition signs_remotely :: "'k externals \<Rightarrow> string \<Rightarrow> bool" where
  "signs_remotely X alg_name \<longleftrightarrow>
     (\<exists>a text. algorithm_from_str X alg_name = Inr a \<and> header_to_vec X (protected_header X a) = Inr text \<and>
        remote_signature_shape X a BENCHMARK_REMOTE_ES256_SIGNATURE = Some True) \<and>
     (\<forall>m. \<exists>text. map_to_vec X m = Inr text)"

lemma full_claims_object:
  assumes "plannable m"
  shows "full_claims (Object m) = Ok (Object ([(''iss'', String ''https://issuer.example.com''), (''iat'', Number (NU64 1700000000))] @ m))"
proof -
  let ?own = "[(''iss'', String ''https://issuer.example.com''), (''iat'', Number (NU64 1700000000))]"
  have "map_append ?own m = ?own @ m"
    using assms by (intro map_append_fresh) (auto simp: plannable_def)
  then show ?thesis
    by (simp add: full_claims_def map_insert_def)
qed

lemma full_claims_admissible:
  assumes "plannable m"
  defines "full \<equiv> [(''iss'', String ''https://issuer.example.com''), (''iat'', Number (NU64 1700000000))] @ m"
  shows "admissible_claims None full" and "concealable_claims None full = m"
proof -
  have fresh: "k \<notin> {''iss'', ''iat'', ''exp'', CNF_KEY}" if "k \<in> fst ` set m" for k
    using assms(1) that unfolding plannable_def by blast
  then have "filter (\<lambda>p. fst p \<notin> set always_revealed_keys) m = m"
    by (auto simp: always_revealed_keys_def filter_id_conv)
  then show "concealable_claims None full = m"
    by (simp add: full_def concealable_claims_def own_claims_def always_revealed_keys_def)
  have "map_get m CNF_KEY = None"
    using fresh by (auto simp: map_get_def map_of_eq_None_iff)
  then have "confirmation_jwk full = None"
    by (simp add: full_def confirmation_jwk_def CNF_KEY_def)
  then show "admissible_claims None full"
    using assms(1) by (simp add: admissible_claims_def public_confirmation_def full_def plannable_def reserved_keys_def
        SD_DIGESTS_KEY_def SD_LIST_PREFIX_def)
qed

text \<open>A prepared credential of the case completes, and its parts count its disclosures.\<close>

lemma prepared_completes:
  assumes "signs_remotely X alg_name" and "base64_alphabet X" and "made X ds"
    and "opt_serialization_format options = Compact"
  obtains p credential where "prepared_from X alg_name options m concealed ds p"
    "complete_for_benchmark X p BENCHMARK_REMOTE_ES256_SIGNATURE = Ok credential"
    "compact_disclosure_count credential = Ok (length ds)"
proof -
  let ?sig = "base64_encode X BENCHMARK_REMOTE_ES256_SIGNATURE"
  from assms(1) obtain a header_text payload_text where
    a: "algorithm_from_str X alg_name = Inr a" "header_to_vec X (protected_header X a) = Inr header_text"
      "remote_signature_shape X a BENCHMARK_REMOTE_ES256_SIGNATURE = Some True"
    and payload: "map_to_vec X (issued_payload concealed (revealed_claims (opt_holder_key options) m)
      (opt_holder_key options)) = Inr payload_text"
    unfolding signs_remotely_def by blast
  let ?input = "base64_encode X header_text @ ''.'' @ base64_encode X payload_text"
  let ?p = "\<lparr>prep_algorithm = a, prep_disclosures = map raw_b64 ds,
             prep_payload = base64_encode X payload_text, prep_protected = base64_encode X header_text,
             prep_serialization_format = Compact, prep_signing_input = ?input\<rparr>"
  let ?parts = "(?input @ ''.'' @ ?sig) # map raw_b64 ds"
  have "CHR ''~'' \<notin> set (raw_b64 d)" if "d \<in> set ds" for d
    using assms(2,3) that by (auto simp: made_def new_with_salt_sel base64url_encode_def base64_no_tilde)
  then have free: "CHR ''~'' \<notin> set part" if "part \<in> set (?parts @ [[]])" for part
    using that base64_no_tilde [OF assms(2)] by auto
  have "split_on (CHR ''~'') (join ''~'' ?parts @ ''~'') = ?parts @ [[]]"
    using split_on_join [of "?parts @ [[]]" "CHR ''~''"] free join_snoc_empty [of ?parts "''~''"] by simp
  then have "compact_disclosure_count (join ''~'' ?parts @ ''~'') = Ok (length ds)"
    by (simp add: compact_disclosure_count_def Let_def)
  moreover have "complete_for_benchmark X ?p BENCHMARK_REMOTE_ES256_SIGNATURE = Ok (join ''~'' ?parts @ ''~'')"
    using a(3) by (simp add: complete_for_benchmark_def validate_remote_signature_def complete_encoded_signature_def
        base64url_encode_def COMBINED_SERIALIZATION_FORMAT_SEPARATOR_def)
  moreover have "prepared_from X alg_name options m concealed ds ?p"
    using a payload assms(4) by (auto simp: prepared_from_def)
  ultimately show thesis using that by blast
qed

lemma full_issuance_runs:
  assumes "plannable m" and "full_claims (Object m) = Ok (Object full)"
    and "finalize_input (case_disclosure_strategy (fx_case f)) = Ok (case_disclosure_strategy (fx_case f))"
    and "plan_create tape_source (Object m) (case_disclosure_strategy (fx_case f)) (case_add_decoy_claims (fx_case f))
       (Some (fx_random_tape f)) = Ok (plan, tape)" and "tape_finished tape = Ok ()"
    and "fx_full_claims f = Object full"
    and "execute plan = Ok (\<lparr>ia_claims = Object concealed, ia_disclosures = ds\<rparr>, x)"
    and "prepared_from X (fx_sign_alg f)
       \<lparr>opt_holder_key = None, opt_add_decoy_claims = case_add_decoy_claims (fx_case f),
        opt_serialization_format = Compact\<rparr> full concealed ds p"
    and "complete_for_benchmark X p BENCHMARK_REMOTE_ES256_SIGNATURE = Ok credential"
  shows "full_issuance X (prepare_full_issuance f) execute = Ok (credential, x)"
proof -
  have "full = [(''iss'', String ''https://issuer.example.com''), (''iat'', Number (NU64 1700000000))] @ m"
    using assms(2) full_claims_object [OF assms(1)] by simp
  with full_claims_admissible [OF assms(1)] have full: "admissible_claims None full" "concealable_claims None full = m"
    by simp_all
  have "prepare_with_plan_executor X (fx_sign_alg f) (Object full) (case_disclosure_strategy (fx_case f))
      \<lparr>opt_holder_key = None, opt_add_decoy_claims = case_add_decoy_claims (fx_case f), opt_serialization_format = Compact\<rparr>
      tape_source (Some (fx_random_tape f)) execute = Ok (p, x, tape)"
    unfolding prepare_with_plan_executor_Ok using assms(3-8) full by auto
  then show ?thesis
    using assms(5,6,9) by (simp add: full_issuance_def prepare_full_issuance_def planner_sign_alg_def)
qed

text \<open>C20. The preflight of every benchmark case passes. For each of the 33 cases the fixture is built and its
  preflight returns: the plan consumes the random tape exactly, the serial oracle and the candidate
  agree on the assembly and on the credential, both have as many disclosures as the case says, and
  the candidate's two route records are made. Threads can be started, the two readings of the host's
  parallelism agree, the algorithm exists and takes a signature of 64 bytes, and the encoders encode.
\<close>

theorem benchmark_preflight_passes:
  assumes "c \<in> set issuance_benchmark_cases" and "signs_remotely X alg_name" and "base64_alphabet X"
    and "traceable_host host answer"
  shows "\<exists>f routes. fixture_new X c alg_name = Ok f \<and> preflight par X host answer f b = Ok (routes, b)"
proof -
  from case_claims [OF assms(1)] obtain m where m: "selective_claims c = Object m" "plannable m"
    "hidden (Object m) (case_disclosure_strategy c) = bc_disclosure_count c"
    "finalize_input (case_disclosure_strategy c) = Ok (case_disclosure_strategy c)" .
  from case_planned [OF m(2,3)] obtain plan tape concealed ds where
    plan: "plan_create tape_source (Object m) (case_disclosure_strategy c) (case_add_decoy_claims c)
       (Some (tape_new X (Object m) c)) = Ok (plan, tape)" "tape_finished tape = Ok ()"
    and complete: "complete_plan X plan (Object concealed) ds"
    and ds: "length ds = bc_disclosure_count c" "made X (map snd ds)" .
  obtain full where full: "full_claims (Object m) = Ok (Object full)"
    using full_claims_object [OF m(2)] by blast
  obtain bytes full_bytes where bytes: "map_to_vec X m = Inr bytes" "map_to_vec X full = Inr full_bytes"
    using assms(2) unfolding signs_remotely_def by blast
  let ?f = "\<lparr>fx_case = c, fx_selective_claims = Object m, fx_full_claims = Object full,
    fx_random_tape = tape_new X (Object m) c, fx_sign_alg = alg_name,
    fx_executor_input_bytes = length bytes, fx_full_input_bytes = length full_bytes\<rparr>"
  have new: "fixture_new X c alg_name = Ok ?f"
    by (simp add: fixture_new_def m(1) full claims_bytes_def value_to_vec_def bytes Let_def)
  have prepared: "prepare_executor ?f = Ok plan"
    by (simp add: prepare_executor_def plan)
  note serial = serial_route [OF complete, of par host b]
  obtain summary route where traced: "execute_benchmark_candidate_with_trace par X host plan b
      = Ok ((\<lparr>ia_claims = Object concealed, ia_disclosures = map snd ds\<rparr>, summary), b)"
    "candidate_record par answer summary = Ok route"
    using traced_route [OF complete assms(4)] .
  from prepared_completes [OF assms(2,3) ds(2), of "\<lparr>opt_holder_key = None,
      opt_add_decoy_claims = case_add_decoy_claims c, opt_serialization_format = Compact\<rparr>" full concealed]
  obtain p credential where p: "prepared_from X alg_name \<lparr>opt_holder_key = None,
      opt_add_decoy_claims = case_add_decoy_claims c, opt_serialization_format = Compact\<rparr> full concealed (map snd ds) p"
    "complete_for_benchmark X p BENCHMARK_REMOTE_ES256_SIGNATURE = Ok credential"
    "compact_disclosure_count credential = Ok (length (map snd ds))" by auto
  have "full_execute par X host (prepare_full_issuance ?f) SerialOracle b = Ok (credential, b)"
    unfolding full_execute_def by (rule full_issuance_runs [OF m(2) full _ _ plan(2) _ _ _ p(2)]) (use m plan p serial in simp_all)
  moreover have "full_execute_with_trace par X host answer (prepare_full_issuance ?f) b = Ok (credential, route, b)"
  proof -
    have run: "rbind (execute_benchmark_candidate_with_trace par X host plan b) (\<lambda>((assembly, summary), b').
        Ok (assembly, summary, b')) = Ok (\<lparr>ia_claims = Object concealed, ia_disclosures = map snd ds\<rparr>, summary, b)"
      by (simp only: traced(1) rbind.simps prod.case)
    have "full_issuance X (prepare_full_issuance ?f) (\<lambda>plan.
        rbind (execute_benchmark_candidate_with_trace par X host plan b) (\<lambda>((assembly, summary), b').
        Ok (assembly, summary, b'))) = Ok (credential, summary, b)"
      by (rule full_issuance_runs [OF m(2) full _ _ plan(2) _ _ _ p(2)]) (use m plan p run in simp_all)
    then show ?thesis
      by (simp add: full_execute_with_trace_def traced(2))
  qed
  ultimately have "preflight par X host answer ?f b
      = Ok (\<lparr>bp_executor_candidate_route = route, bp_full_candidate_route = route\<rparr>, b)"
    using serial traced p(3) ds(1)
    by (simp add: preflight_def prepared executor_execute_def executor_execute_with_trace_def assembly_from_def
        disclosure_count_def)
  with new show ?thesis by blast
qed

definition preflight_X :: "unit externals" where
  "preflight_X = (sample_externals \<lparr>sw_texts = [], sw_tokens = []\<rparr>)\<lparr>p256_signature_ok := (\<lambda>s. length s = 64)\<rparr>"

theorem benchmark_preflight_passes_witness:
  "\<exists>f routes. fixture_new preflight_X \<lparr>bc_disclosure_count = 512, bc_kind = StandardFixture Mixed True\<rparr> ''ES256'' = Ok f \<and>
     preflight True preflight_X traced_host (Some 4) f (issuance_budget_new 4) = Ok (routes, issuance_budget_new 4)"
proof (rule benchmark_preflight_passes)
  show "\<lparr>bc_disclosure_count = 512, bc_kind = StandardFixture Mixed True\<rparr> \<in> set issuance_benchmark_cases"
    by (simp add: issuance_benchmark_cases_def standard_cases_def ISSUANCE_DISCLOSURE_COUNTS_def)
  show "signs_remotely preflight_X ''ES256''"
    by (simp add: signs_remotely_def preflight_X_def sample_externals_def sample_algorithm_def
        BENCHMARK_REMOTE_ES256_SIGNATURE_def)
  show "base64_alphabet preflight_X"
    using sample_base64(1) by (simp add: base64_alphabet_def preflight_X_def)
  show "traceable_host traced_host (Some 4)"
    by (simp add: traceable_host_def traced_host_def available_parallelism_def)
qed

end
