(* ===== verification/Local_Issuer.thy ===== *)
theory Local_Issuer
  imports Issuer Holder
begin

text \<open>
  Signing with a local key: \<open>SDJWTIssuer\<close> of src/src/issuer.rs and
  \<open>create_presentation_with_local_key\<close> of src/src/holder.rs. Both are compiled for tests, where they are
  the oracle that the two-step protocols (prepare, sign elsewhere, complete) are compared with.
  A method on \<open>&mut self\<close> returns its result and the object it leaves, also when it fails midway.

  The signing code of other crates is the record \<open>S\<close>; \<open>'e\<close> is the type of private keys:
  \<open>encode_claims\<close> and \<open>encode_kb_claims\<close> are \<open>jsonwebtoken::encode\<close> of a map of claims and of a hash map,
  \<open>p256_signer\<close> is the P-256 signing function of a PKCS#8 key, if it is one.
\<close>

record 'e local_signer =
  encode_claims :: "jose_header \<Rightarrow> json_map \<Rightarrow> 'e \<Rightarrow> string + string"
  encode_kb_claims :: "jose_header \<Rightarrow> (string \<rightharpoonup> json) \<Rightarrow> 'e \<Rightarrow> string + string"
  p256_signer :: "'e \<Rightarrow> (string \<Rightarrow> string) option"

text \<open>One method call after another on the same object; \<open>?\<close> stops at the first failure.\<close>

definition and_then :: "'a result \<times> 's \<Rightarrow> ('a \<Rightarrow> 's \<Rightarrow> 'b result \<times> 's) \<Rightarrow> 'b result \<times> 's" where
  "and_then m f =
     (case m of (r, s) \<Rightarrow> (case r of Ok x \<Rightarrow> f x s | Err e \<Rightarrow> (Err e, s) | Panic \<Rightarrow> (Panic, s)))"

lemma and_then_simps [simp]:
  "and_then (Ok x, s) f = f x s" "and_then (Err e, s) f = (Err e, s)" "and_then (Panic, s) f = (Panic, s)"
  by (simp_all add: and_then_def)

subsection \<open>The issuer with a key\<close>

record 'e sd_jwt_issuer =
  li_sign_alg :: string
  li_add_decoy_claims :: bool
  li_extra_header_parameters :: "(string \<rightharpoonup> string) option"
  li_issuer_key :: 'e
  li_holder_key :: "jwk option"
  li_inner :: sd_common
  li_all_disclosures :: "disclosure list"
  li_sd_jwt_payload :: json_map
  li_signed_sd_jwt :: string
  li_serialized_sd_jwt :: string

definition local_issuer_new :: "'e \<Rightarrow> string option \<Rightarrow> 'e sd_jwt_issuer" where
  "local_issuer_new issuer_key alg =
     \<lparr>li_sign_alg = (case alg of None \<Rightarrow> ''ES256'' | Some a \<Rightarrow> a), li_add_decoy_claims = False,
      li_extra_header_parameters = None, li_issuer_key = issuer_key, li_holder_key = None,
      li_inner = common_new Compact, li_all_disclosures = [], li_sd_jwt_payload = [],
      li_signed_sd_jwt = [], li_serialized_sd_jwt = []\<rparr>"

definition local_reset :: "'e sd_jwt_issuer \<Rightarrow> 'e sd_jwt_issuer" where
  "local_reset iss =
     iss\<lparr>li_extra_header_parameters := None, li_all_disclosures := [], li_sd_jwt_payload := [],
        li_signed_sd_jwt := [], li_serialized_sd_jwt := []\<rparr>"

text \<open>\<open>'b\<close> is what the execution leaves beside its assembly, \<open>'r\<close> the state of the random source.\<close>

definition assemble_sd_jwt_payload ::
    "json \<Rightarrow> strategy \<Rightarrow> 'r random_source \<Rightarrow> 'r \<Rightarrow> (issuance_plan \<Rightarrow> (issuance_assembly \<times> 'b) result)
       \<Rightarrow> 'e sd_jwt_issuer \<Rightarrow> ('b \<times> 'r) result \<times> 'e sd_jwt_issuer" where
  "assemble_sd_jwt_payload user_claims sd_strategy R r execute_plan iss =
     (let run = rbind (ok_or (as_object user_claims) (ConversionError ''json object'')) (\<lambda>claims.
        let claims1 = (if li_holder_key iss \<noteq> None then shift_remove CNF_KEY claims else claims);
            (always_revealed, claims2) = remove_entries always_revealed_keys claims1
        in rbind (plan_create R (Object claims2) sd_strategy (li_add_decoy_claims iss) r) (\<lambda>(plan, r').
           rbind (execute_plan plan) (\<lambda>(assembly, b). Ok (always_revealed, assembly, b, r'))))
      in and_then (run, iss) (\<lambda>(always_revealed, assembly, b, r') iss.
           let iss1 = iss\<lparr>li_all_disclosures := ia_disclosures assembly\<rparr>
           in and_then (ok_or (as_object (ia_claims assembly)) (ConversionError ''json object''), iss1)
                (\<lambda>concealed iss1.
                   let payload = map_insert DIGEST_ALG_KEY (String DEFAULT_DIGEST_ALG) concealed;
                       payload1 = map_append payload always_revealed;
                       payload2 = (case li_holder_key iss1 of
                         None \<Rightarrow> payload1
                       | Some key \<Rightarrow> map_insert CNF_KEY (Object [(JWK_KEY, jwk_value key)]) payload1)
                   in (Ok (b, r'), iss1\<lparr>li_sd_jwt_payload := payload2\<rparr>))))"

text \<open>
  \<open>inner.typ\<close> is never set, so the header is the protected header of the planner. An \<open>ES256\<close> token is
  signed by the deterministic P-256 signer, any other one by \<open>jsonwebtoken\<close>.
\<close>

definition signed_jws :: "'k externals \<Rightarrow> 'e local_signer \<Rightarrow> 'e sd_jwt_issuer \<Rightarrow> string result" where
  "signed_jws X S iss =
     (if li_extra_header_parameters iss \<noteq> None then Panic
      else rbind (map_err DeserializationError (algorithm_from_str X (li_sign_alg iss))) (\<lambda>a.
        let header = protected_header X a
        in if jh_alg header = ES256
           then rbind (ok_or (p256_signer S (li_issuer_key iss)) (DeserializationError ''invalid test ES256 key'')) (\<lambda>sign.
                rbind (map_err DeserializationError (header_to_vec X header)) (\<lambda>header_text.
                rbind (map_err DeserializationError (map_to_vec X (li_sd_jwt_payload iss))) (\<lambda>payload_text.
                let signing_input = base64url_encode X header_text @ ''.'' @ base64url_encode X payload_text
                in Ok (signing_input @ ''.'' @ base64url_encode X (sign signing_input)))))
           else map_err DeserializationError (encode_claims S header (li_sd_jwt_payload iss) (li_issuer_key iss))))"

definition create_signed_jws ::
    "'k externals \<Rightarrow> 'e local_signer \<Rightarrow> 'e sd_jwt_issuer \<Rightarrow> unit result \<times> 'e sd_jwt_issuer" where
  "create_signed_jws X S iss =
     and_then (signed_jws X S iss, iss) (\<lambda>jws iss. (Ok (), iss\<lparr>li_signed_sd_jwt := jws\<rparr>))"

definition combined_form :: "'k externals \<Rightarrow> 'e sd_jwt_issuer \<Rightarrow> string result" where
  "combined_form X iss =
     (let disclosures = map raw_b64 (li_all_disclosures iss)
      in case format (li_inner iss) of
           Compact \<Rightarrow>
             Ok (join COMBINED_SERIALIZATION_FORMAT_SEPARATOR (li_signed_sd_jwt iss # disclosures)
                 @ COMBINED_SERIALIZATION_FORMAT_SEPARATOR)
         | FlattenedJson \<Rightarrow>
             rbind (split_jwt (li_signed_sd_jwt iss)) (\<lambda>(protected, payload, signature).
             map_err DeserializationError (flattened_to_string X
               \<lparr>fj_protected = protected, fj_payload = payload, fj_signature = signature,
                fj_header = \<lparr>hdr_disclosures = disclosures, hdr_kb_jwt = None\<rparr>\<rparr>))
         | GeneralJson \<Rightarrow>
             rbind (split_jwt (li_signed_sd_jwt iss)) (\<lambda>(protected, payload, signature).
             map_err DeserializationError (general_to_string X
               \<lparr>gj_payload = payload,
                gj_signatures = [\<lparr>gs_protected = protected, gs_signature = signature,
                  gs_header = \<lparr>hdr_disclosures = disclosures, hdr_kb_jwt = None\<rparr>\<rparr>]\<rparr>)))"

definition create_combined :: "'k externals \<Rightarrow> 'e sd_jwt_issuer \<Rightarrow> unit result \<times> 'e sd_jwt_issuer" where
  "create_combined X iss =
     and_then (combined_form X iss, iss) (\<lambda>s iss. (Ok (), iss\<lparr>li_serialized_sd_jwt := s\<rparr>))"

definition issue_sd_jwt_with_plan_executor ::
    "'k externals \<Rightarrow> 'e local_signer \<Rightarrow> 'e sd_jwt_issuer \<Rightarrow> json \<Rightarrow> strategy \<Rightarrow> issuance_options \<Rightarrow> 'r random_source
       \<Rightarrow> 'r \<Rightarrow> (issuance_plan \<Rightarrow> (issuance_assembly \<times> 'b) result) \<Rightarrow> (string \<times> 'b \<times> 'r) result \<times> 'e sd_jwt_issuer" where
  "issue_sd_jwt_with_plan_executor X S iss user_claims sd_strategy options R r execute_plan =
     (let checked =
        rbind (validate_public_holder_key (opt_holder_key options)) (\<lambda>_.
        rbind (validate_user_confirmation_claim user_claims) (\<lambda>_.
        rbind (finalize_input sd_strategy) (\<lambda>strat.
        rbind (check_for_sd_claim user_claims) (\<lambda>_. Ok strat))))
      in and_then (checked, iss) (\<lambda>strat iss.
         let iss1 = (local_reset iss)\<lparr>li_inner := common_new (opt_serialization_format options),
               li_holder_key := opt_holder_key options, li_add_decoy_claims := opt_add_decoy_claims options\<rparr>
         in and_then (assemble_sd_jwt_payload user_claims strat R r execute_plan iss1) (\<lambda>(b, r') iss2.
            and_then (create_signed_jws X S iss2) (\<lambda>_ iss3.
            and_then (create_combined X iss3) (\<lambda>_ iss4. (Ok (li_serialized_sd_jwt iss4, b, r'), iss4))))))"

definition issue_sd_jwt_with_random_source ::
    "bool \<Rightarrow> 'k externals \<Rightarrow> issuance_host \<Rightarrow> issuance_budget \<Rightarrow> 'e local_signer \<Rightarrow> 'e sd_jwt_issuer \<Rightarrow> json
       \<Rightarrow> strategy \<Rightarrow> issuance_options \<Rightarrow> 'r random_source \<Rightarrow> 'r
       \<Rightarrow> (string \<times> issuance_budget \<times> 'r) result \<times> 'e sd_jwt_issuer" where
  "issue_sd_jwt_with_random_source par X host budget S iss user_claims sd_strategy options R r =
     issue_sd_jwt_with_plan_executor X S iss user_claims sd_strategy options R r
       (\<lambda>plan. plan_execute par X host plan budget)"

definition local_issue_sd_jwt ::
    "bool \<Rightarrow> 'k externals \<Rightarrow> issuance_host \<Rightarrow> issuance_budget \<Rightarrow> (nat \<Rightarrow> 'g \<Rightarrow> string \<times> 'g)
       \<Rightarrow> (nat \<Rightarrow> nat \<Rightarrow> 'g \<Rightarrow> nat \<times> 'g) \<Rightarrow> 'g \<Rightarrow> 'e local_signer \<Rightarrow> 'e sd_jwt_issuer \<Rightarrow> json \<Rightarrow> strategy
       \<Rightarrow> jwk option \<Rightarrow> bool \<Rightarrow> serialization_format
       \<Rightarrow> (string \<times> issuance_budget \<times> 'g option) result \<times> 'e sd_jwt_issuer" where
  "local_issue_sd_jwt par X host budget fill_bytes gen_range thread_rng S iss user_claims sd_strategy
       holder_key add_decoy_claims fmt =
     issue_sd_jwt_with_random_source par X host budget S iss user_claims sd_strategy
       \<lparr>opt_holder_key = holder_key, opt_add_decoy_claims = add_decoy_claims, opt_serialization_format = fmt\<rparr>
       (legacy_random_source X fill_bytes gen_range thread_rng) None"

subsection \<open>The holder with a key\<close>

definition create_key_binding_jwt ::
    "'k externals \<Rightarrow> 'e local_signer \<Rightarrow> string + nat \<Rightarrow> string \<Rightarrow> string \<Rightarrow> 'e \<Rightarrow> string option
       \<Rightarrow> sd_jwt_holder \<Rightarrow> unit result \<times> sd_jwt_holder" where
  "create_key_binding_jwt X S clock nonce aud holder_key alg_option h =
     (let alg = (case alg_option of None \<Rightarrow> ''ES256'' | Some a \<Rightarrow> a);
          h1 = h\<lparr>hd_kb_header := (hd_kb_header h)(''alg'' \<mapsto> String alg, ''typ'' \<mapsto> String KB_JWT_TYP_HEADER)\<rparr>
      in and_then (fill_key_binding_payload X clock nonce aud h1) (\<lambda>_ h2.
         and_then (map_err DeserializationError (algorithm_from_str X alg), h2) (\<lambda>a h2.
         and_then (map_err DeserializationError (encode_kb_claims S (kb_header_of X a) (hd_kb_payload h2) holder_key), h2)
           (\<lambda>jwt h2. (Ok (), h2\<lparr>hd_kb_jwt := jwt\<rparr>)))))"

definition create_presentation_with_local_key ::
    "'k externals \<Rightarrow> 'e local_signer \<Rightarrow> string + nat \<Rightarrow> sd_jwt_holder \<Rightarrow> json_map \<Rightarrow> string option \<Rightarrow> string option
       \<Rightarrow> 'e option \<Rightarrow> string option \<Rightarrow> string result \<times> sd_jwt_holder" where
  "create_presentation_with_local_key X S clock h claims_to_disclose nonce aud holder_key alg_option =
     (let h1 = reset_key_binding h
      in and_then (select_disclosures (hd_engine h1) (hd_payload h1) claims_to_disclose, h1) (\<lambda>ds h1.
         let h2 = h1\<lparr>hd_disclosures := ds\<rparr>
         in and_then (case (nonce, aud, holder_key) of
                (Some n, Some a, Some key) \<Rightarrow> create_key_binding_jwt X S clock n a key alg_option h2
              | (None, None, None) \<Rightarrow> (Ok (), h2)
              | _ \<Rightarrow> (Err (InvalidInput ''Inconsistency in parameters to determine JWT KB by holder''), h2))
              (\<lambda>_ h3. (render_presentation X h3, h3))))"

end
