(* ===== verification/Local_Issuer_Properties.thy ===== *)
theory Local_Issuer_Properties
  imports Local_Issuer Issuer_Properties
begin

text \<open>
  The local signer is the remote protocol with the two ends in one process: what \<open>SDJWTIssuer\<close> issues is
  what the planner prepares, completed with the signature of the issuer's key. The tests of the crate
  compare the two on single claim sets; here it holds for every input, errors and panics included.
\<close>

text \<open>
  What is relied on of the signing code for a key and an algorithm: a P-256 key has its signing
  function; for another algorithm \<open>jsonwebtoken::encode\<close> serializes header and claims as the crate does
  and appends the signature of \<open>header.claims\<close>, and a map of claims can be serialized.
\<close>

definition signs_as :: "'k externals \<Rightarrow> 'e local_signer \<Rightarrow> 'e \<Rightarrow> algorithm \<Rightarrow> (string \<Rightarrow> string) \<Rightarrow> bool" where
  "signs_as X S key a sign \<longleftrightarrow>
     (if a = ES256 then p256_signer S key = Some sign
      else \<forall>m. \<exists>header_text payload_text.
        header_to_vec X (protected_header X a) = Inr header_text \<and> map_to_vec X m = Inr payload_text \<and>
        encode_claims S (protected_header X a) m key =
          Inr (let input = base64_encode X header_text @ ''.'' @ base64_encode X payload_text
               in input @ ''.'' @ base64_encode X (sign input)))"

lemma fst_and_then: "fst (and_then (r, s) f) = rbind r (\<lambda>x. fst (f x s))"
  by (cases r) simp_all

lemma and_then_assoc: "and_then (and_then m f) g = and_then m (\<lambda>x s. and_then (f x s) g)"
  by (cases m; cases "fst m") simp_all

text \<open>The token of the local issuer is the signing input of the planner with its signature.\<close>

lemma signed_jws_serial:
  assumes "algorithm_from_str X (li_sign_alg iss) = Inr a" and "signs_as X S key a sign"
    and "jh_alg (header_new X a) = a" and "li_issuer_key iss = key" and "li_extra_header_parameters iss = None"
  shows "signed_jws X S iss =
    rbind (map_err DeserializationError (header_to_vec X (protected_header X a))) (\<lambda>header_text.
    rbind (map_err DeserializationError (map_to_vec X (li_sd_jwt_payload iss))) (\<lambda>payload_text.
    let input = base64_encode X header_text @ ''.'' @ base64_encode X payload_text
    in Ok (input @ ''.'' @ base64_encode X (sign input))))"
proof -
  have alg: "jh_alg (protected_header X a) = a" using assms(3) by (simp add: protected_header_def)
  show ?thesis
  proof (cases "a = ES256")
    case True
    with assms alg show ?thesis by (simp add: signed_jws_def signs_as_def Let_def base64url_encode_def)
  next
    case False
    with assms(2) have "\<forall>m. \<exists>ht pt. header_to_vec X (protected_header X a) = Inr ht \<and> map_to_vec X m = Inr pt \<and>
        encode_claims S (protected_header X a) m key =
          Inr (let input = base64_encode X ht @ ''.'' @ base64_encode X pt in input @ ''.'' @ base64_encode X (sign input))"
      unfolding signs_as_def by (simp only: if_False simp_thms)
    from spec [OF this, of "li_sd_jwt_payload iss"] obtain ht pt where tok:
      "header_to_vec X (protected_header X a) = Inr ht" "map_to_vec X (li_sd_jwt_payload iss) = Inr pt"
      "encode_claims S (protected_header X a) (li_sd_jwt_payload iss) key =
         Inr (let input = base64_encode X ht @ ''.'' @ base64_encode X pt in input @ ''.'' @ base64_encode X (sign input))"
      by blast
    show ?thesis using False assms(1,4,5) tok by (simp add: signed_jws_def Let_def alg)
  qed
qed

lemma split_signed:
  "base64_alphabet X \<Longrightarrow>
     split_jwt (base64_encode X h @ CHR ''.'' # base64_encode X m @ CHR ''.'' # base64_encode X s)
       = Ok (base64_encode X h, base64_encode X m, base64_encode X s)"
  using split_jwt_of_parts [of "base64_encode X h" "base64_encode X m" "base64_encode X s"]
  by (simp add: split_jwt_Ok base64_no_dot jwt_of_parts_def)

text \<open>The same for the issuer and the planner as programs, whatever the signature is then used for.\<close>

lemma local_issuer_serial:
  assumes "algorithm_from_str X (li_sign_alg iss) = Inr a" and "signs_as X S (li_issuer_key iss) a sign"
    and "jh_alg (header_new X a) = a" and "base64_alphabet X"
  shows "fst (issue_sd_jwt_with_plan_executor X S iss claims strat options R r execute) =
    rbind (prepare_with_plan_executor X (li_sign_alg iss) claims strat options R r execute) (\<lambda>(p, b, r').
    rbind (complete_encoded_signature X p (base64_encode X (sign (prep_signing_input p)))) (\<lambda>sd_jwt.
    Ok (sd_jwt, b, r')))"
  by (simp add: issue_sd_jwt_with_plan_executor_def prepare_with_plan_executor_def assemble_sd_jwt_payload_def
      fst_and_then and_then_assoc create_signed_jws_def create_combined_def Let_def split_def rbind_assoc local_reset_def
      signed_jws_serial [OF _ assms(2,3)] assms(1) base64url_encode_def combined_form_def common_new_def
      issued_payload_def holder_confirmation_def no_key_binding_def complete_encoded_signature_def split_signed [OF assms(4)] cong: serialization_format.case_cong option.case_cong)

lemma issue_keeps_key:
  "li_sign_alg (snd (issue_sd_jwt_with_plan_executor X S iss claims strat options R r execute)) = li_sign_alg iss"
  "li_issuer_key (snd (issue_sd_jwt_with_plan_executor X S iss claims strat options R r execute)) = li_issuer_key iss"
  by (simp_all add: issue_sd_jwt_with_plan_executor_def assemble_sd_jwt_payload_def create_signed_jws_def
      create_combined_def and_then_def local_reset_def Let_def split: result.split prod.split)

lemma prepared_algorithm:
  "prepare_with_plan_executor X alg_name claims strat options R r execute = Ok (p, b, r') \<Longrightarrow>
     algorithm_from_str X alg_name = Inr a \<Longrightarrow> prep_algorithm p = a"
  by (auto simp: prepare_with_plan_executor_Ok prepared_from_def)

subsection \<open>Properties\<close>

text \<open>C26. The issuer with a key is the planner with a remote signer. For every claim set, strategy, option,
  serialization, random source and plan execution, \<open>SDJWTIssuer\<close> returns what preparing with the planner
  and completing with the signature of the key returns: the same credential, the same error, the same
  panic, the same state of budget and random source. An earlier issuance with the object does not show,
  as its algorithm and key stay. The signing code signs as documented and its signatures verify.\<close>

theorem local_issuer_is_planner:
  assumes "algorithm_from_str X (li_sign_alg iss) = Inr a" and "signs_as X S (li_issuer_key iss) a sign"
    and "jh_alg (header_new X a) = a" and "base64_alphabet X"
    and "\<And>input. verify_remote_signature X a input (sign input) key = Ok ()"
  shows "\<exists>iss'. issue_sd_jwt_with_plan_executor X S iss claims strat options R r execute =
      (rbind (prepare_with_plan_executor X (li_sign_alg iss) claims strat options R r execute) (\<lambda>(p, b, r').
       rbind (complete X p (sign (prep_signing_input p)) key) (\<lambda>sd_jwt. Ok (sd_jwt, b, r'))), iss') \<and>
      li_sign_alg iss' = li_sign_alg iss \<and> li_issuer_key iss' = li_issuer_key iss"
proof -
  have "complete X p (sign (prep_signing_input p)) key =
      complete_encoded_signature X p (base64_encode X (sign (prep_signing_input p)))"
    if "prepare_with_plan_executor X (li_sign_alg iss) claims strat options R r execute = Ok (p, b, r')" for p b r'
    using prepared_algorithm [OF that assms(1)] assms(5) by (simp add: complete_def base64url_encode_def)
  then have "fst (issue_sd_jwt_with_plan_executor X S iss claims strat options R r execute) =
      rbind (prepare_with_plan_executor X (li_sign_alg iss) claims strat options R r execute) (\<lambda>(p, b, r').
      rbind (complete X p (sign (prep_signing_input p)) key) (\<lambda>sd_jwt. Ok (sd_jwt, b, r')))"
    unfolding local_issuer_serial [OF assms(1-4)] by (auto intro: rbind_cong)
  then show ?thesis
    using issue_keeps_key [of X S iss claims strat options R r execute] by (auto simp: prod_eq_iff)
qed

definition sample_signer :: "unit local_signer" where
  "sample_signer =
     \<lparr>encode_claims = (\<lambda>h m key. Inl ''unused''), encode_kb_claims = (\<lambda>h m key. Inl ''unused''),
      p256_signer = (\<lambda>key. Some (\<lambda>input. ''x''))\<rparr>"

theorem local_issuer_is_planner_witness:
  "\<exists>iss'. issue_sd_jwt_with_plan_executor issuer_X sample_signer (local_issuer_new () None) (Object issuer_claims) AllLevels
      issuer_options sample_source () (\<lambda>plan. plan_execute True issuer_X sample_host plan (issuance_budget_new 4))
     = (Ok (issuer_presentation, issuance_budget_new 4, ()), iss')"
proof -
  let ?iss = "local_issuer_new () None"
  have alg: "algorithm_from_str issuer_X (li_sign_alg ?iss) = Inr ES256"
    by (simp add: local_issuer_new_def sample_algorithm_def)
  have signs: "signs_as issuer_X sample_signer (li_issuer_key ?iss) ES256 (\<lambda>input. ''x'')"
    by (simp add: signs_as_def sample_signer_def)
  have header: "jh_alg (header_new issuer_X ES256) = ES256" by (simp add: sample_header_def)
  have valid: "verify_remote_signature issuer_X ES256 input ''x'' () = Ok ()" for input
    by (simp add: verify_remote_signature_Ok install_crypto_provider_def native_ensure_installed_def)
  have name: "li_sign_alg ?iss = ''ES256''" by (simp add: local_issuer_new_def)
  have "rbind (prepare_with_plan_executor issuer_X ''ES256'' (Object issuer_claims) AllLevels issuer_options sample_source ()
      (\<lambda>plan. plan_execute True issuer_X sample_host plan (issuance_budget_new 4))) (\<lambda>(p, b, r').
      rbind (complete issuer_X p ''x'' ()) (\<lambda>sd_jwt. Ok (sd_jwt, b, r'))) = Ok (issuer_presentation, issuance_budget_new 4, ())"
    using issuer_prepares issuer_completes by (simp add: prepare_with_random_source_def)
  with local_issuer_is_planner [OF alg signs header sample_base64(1) valid, of "Object issuer_claims" AllLevels
      issuer_options sample_source "()" "\<lambda>plan. plan_execute True issuer_X sample_host plan (issuance_budget_new 4)"]
  show ?thesis unfolding name by (elim exE conjE) simp
qed

subsection \<open>The holder with a key\<close>

text \<open>
  A presentation signed with the local key is the completed presentation: the same map of key binding
  claims is signed, in the order the parameter \<open>hashmap_to_vec\<close> writes it.
\<close>

theorem local_presentation_is_completed:
  assumes "prepare_key_binding_presentation X clock h requests nonce aud alg_option = (Ok p, h')"
    and "encode_kb_claims S (kb_header_of X (pp_algorithm p)) (hd_kb_payload h') holder_key =
       Inr (pp_signing_input p @ ''.'' @ base64_encode X signature)"
    and "verify_remote_signature X (pp_algorithm p) (pp_signing_input p) signature (pp_verification_key p) = Ok ()"
  shows "fst (create_presentation_with_local_key X S clock h requests (Some nonce) (Some aud) (Some holder_key) alg_option)
    = complete_key_binding X p signature"
proof -
  obtain ds where ds: "select_disclosures (hd_engine h) (hd_payload h) requests = Ok ds"
    using assms(1) by (cases "select_disclosures (hd_engine h) (hd_payload h) requests")
      (auto simp: prepare_key_binding_presentation_def reset_key_binding_def)
  obtain a where a: "algorithm_from_str X (case alg_option of None \<Rightarrow> ''ES256'' | Some a \<Rightarrow> a) = Inr a"
    using assms(1) ds by (auto simp: prepare_key_binding_presentation_def reset_key_binding_def Let_def split: sum.splits)
  obtain secs where secs: "clock = Inr secs"
    using assms(1) ds a by (cases clock) (auto simp: prepare_key_binding_presentation_def reset_key_binding_def
        fill_key_binding_payload_def Let_def)
  show ?thesis
    using assms
    by (auto simp: prepare_key_binding_presentation_def create_presentation_with_local_key_def create_key_binding_jwt_def
        fill_key_binding_payload_def set_key_binding_digest_key_def key_binding_digest_def Let_def ds a secs rbind_eq_Ok
        fst_and_then and_then_assoc complete_key_binding_def render_presentation_def base64url_encode_def
        reset_key_binding_def)
qed

end
