(* ===== verification/Interop_Types.thy ===== *)
theory Interop_Types
  imports Host_Io Types
begin

text \<open>
  The data of the interoperability tool (generate/src): its error type (error.rs), its settings
  (types/settings.rs) and its specification of a test case (types/specification.rs), with the two
  passes over the YAML tree of the claims: removing the \<open>!sd\<close> tags, and collecting the JSONPaths of
  what they mark (utils/generate.rs).
\<close>

subsection \<open>Errors\<close>

datatype error_kind = Input | IOError | DataNotEqual

fun error_kind_as_str :: "error_kind \<Rightarrow> string" where
  "error_kind_as_str Input = ''Input error''"
| "error_kind_as_str IOError = ''IO error''"
| "error_kind_as_str DataNotEqual = ''Data not equal error''"

text \<open>The derived \<open>Debug\<close> form of a kind.\<close>

fun error_kind_debug :: "error_kind \<Rightarrow> string" where
  "error_kind_debug Input = ''Input''"
| "error_kind_debug IOError = ''IOError''"
| "error_kind_debug DataNotEqual = ''DataNotEqual''"

text \<open>A boxed cause is used for its displayed text only.\<close>

record tool_error =
  te_kind :: error_kind
  te_cause :: "string option"
  te_message :: "string option"

definition tool_error_from_msg :: "error_kind \<Rightarrow> string \<Rightarrow> tool_error" where
  "tool_error_from_msg kind msg = \<lparr>te_kind = kind, te_cause = None, te_message = Some msg\<rparr>"

definition tool_error_from_opt_msg :: "error_kind \<Rightarrow> string option \<Rightarrow> tool_error" where
  "tool_error_from_opt_msg kind msg = \<lparr>te_kind = kind, te_cause = None, te_message = msg\<rparr>"

definition tool_error_from_kind :: "error_kind \<Rightarrow> tool_error" where
  "tool_error_from_kind kind = \<lparr>te_kind = kind, te_cause = None, te_message = None\<rparr>"

definition with_cause :: "tool_error \<Rightarrow> string \<Rightarrow> tool_error" where
  "with_cause err cause = err\<lparr>te_cause := Some cause\<rparr>"

definition tool_error_from_io :: "string \<Rightarrow> tool_error" where
  "tool_error_from_io err = with_cause (tool_error_from_kind IOError) err"

definition tool_error_from_json :: "string \<Rightarrow> tool_error" where
  "tool_error_from_json err = with_cause (tool_error_from_kind Input) err"

definition tool_error_from_yaml :: "string \<Rightarrow> tool_error" where
  "tool_error_from_yaml err = with_cause (tool_error_from_kind Input) err"

text \<open>\<open>Display\<close>, \<open>PartialEq\<close> (which ignores the cause) and \<open>source\<close>.\<close>

definition tool_error_display :: "tool_error \<Rightarrow> string" where
  "tool_error_display err =
     (case (te_kind err, te_message err) of
        (Input, None) \<Rightarrow> error_kind_debug Input
      | (Input, Some msg) \<Rightarrow> msg
      | (kind, None) \<Rightarrow> error_kind_as_str kind
      | (kind, Some msg) \<Rightarrow> error_kind_as_str kind @ '': '' @ msg)
     @ (case te_cause err of None \<Rightarrow> [] | Some cause \<Rightarrow> '' ['' @ cause @ '']'')"

definition tool_error_eq :: "tool_error \<Rightarrow> tool_error \<Rightarrow> bool" where
  "tool_error_eq a b \<longleftrightarrow> te_kind a = te_kind b \<and> te_message a = te_message b"

definition tool_error_source :: "tool_error \<Rightarrow> string option" where
  "tool_error_source err = te_cause err"

text \<open>A call of the tool returns, fails with an error of the tool, or panics.\<close>

datatype 'a outcome = Done 'a | Failed tool_error | Panicked

fun obind :: "'a outcome \<Rightarrow> ('a \<Rightarrow> 'b outcome) \<Rightarrow> 'b outcome" where
  "obind (Done x) f = f x"
| "obind (Failed e) f = Failed e"
| "obind Panicked f = Panicked"

lemma obind_cong [fundef_cong]:
  "m = m' \<Longrightarrow> (\<And>x. m' = Done x \<Longrightarrow> f x = g x) \<Longrightarrow> obind m f = obind m' g"
  by (cases m') auto

lemma obind_eq_Done: "obind m f = Done y \<longleftrightarrow> (\<exists>x. m = Done x \<and> f x = Done y)"
  by (cases m) auto

lemma obind_eq_Panicked: "obind m f = Panicked \<longleftrightarrow> m = Panicked \<or> (\<exists>x. m = Done x \<and> f x = Panicked)"
  by (cases m) auto

lemma obind_eq_Failed: "obind m f = Failed e \<longleftrightarrow> m = Failed e \<or> (\<exists>x. m = Done x \<and> f x = Failed e)"
  by (cases m) auto

text \<open>\<open>.expect(...)\<close> and \<open>.unwrap()\<close> on an answer of another crate, an option, a result of the crate
  and an outcome of the tool, and \<open>?\<close> on an answer with its conversion into the tool's error.\<close>

definition expect :: "string + 'a \<Rightarrow> 'a outcome" where
  "expect r = (case r of Inl e \<Rightarrow> Panicked | Inr x \<Rightarrow> Done x)"

definition expect_some :: "'a option \<Rightarrow> 'a outcome" where
  "expect_some r = (case r of None \<Rightarrow> Panicked | Some x \<Rightarrow> Done x)"

definition unwrap_result :: "'a result \<Rightarrow> 'a outcome" where
  "unwrap_result r = (case r of Ok x \<Rightarrow> Done x | _ \<Rightarrow> Panicked)"

definition unwrap_outcome :: "'a outcome \<Rightarrow> 'a outcome" where
  "unwrap_outcome r = (case r of Done x \<Rightarrow> Done x | _ \<Rightarrow> Panicked)"

definition question :: "(string \<Rightarrow> tool_error) \<Rightarrow> string + 'a \<Rightarrow> 'a outcome" where
  "question convert r = (case r of Inl e \<Rightarrow> Failed (convert e) | Inr x \<Rightarrow> Done x)"

lemma outcome_simps [simp]:
  "expect (Inl e) = Panicked" "expect (Inr x) = Done x"
  "expect_some None = Panicked" "expect_some (Some x) = Done x"
  "unwrap_result (Ok x) = Done x" "unwrap_result (Err err) = Panicked" "unwrap_result Panic = Panicked"
  "unwrap_outcome (Done x) = Done x" "unwrap_outcome (Failed f) = Panicked" "unwrap_outcome Panicked = Panicked"
  "question convert (Inl e) = Failed (convert e)" "question convert (Inr x) = Done x"
  by (simp_all add: expect_def expect_some_def unwrap_result_def unwrap_outcome_def question_def)

lemma outcome_eq_Done [simp]:
  "expect r = Done x \<longleftrightarrow> r = Inr x"
  "expect_some s = Done x \<longleftrightarrow> s = Some x"
  "unwrap_result t = Done x \<longleftrightarrow> t = Ok x"
  "unwrap_outcome u = Done x \<longleftrightarrow> u = Done x"
  "question convert r = Done x \<longleftrightarrow> r = Inr x"
  by (auto simp: expect_def expect_some_def unwrap_result_def unwrap_outcome_def question_def
      split: sum.split option.split result.split outcome.split)

text \<open>The extension trait of error.rs on the results of other crates.\<close>

definition map_err_string :: "('e \<Rightarrow> string) \<Rightarrow> 'e + 'a \<Rightarrow> string + 'a" where
  "map_err_string display r = (case r of Inl e \<Rightarrow> Inl (display e) | Inr x \<Rightarrow> Inr x)"

definition with_err_msg :: "error_kind \<Rightarrow> string \<Rightarrow> string + 'a \<Rightarrow> 'a outcome" where
  "with_err_msg kind msg r = question (with_cause (tool_error_from_msg kind msg)) r"

definition map_input_err :: "(unit \<Rightarrow> string) \<Rightarrow> string + 'a \<Rightarrow> 'a outcome" where
  "map_input_err mapfn r = question (with_cause (tool_error_from_msg Input (mapfn ()))) r"

definition with_input_err :: "string \<Rightarrow> string + 'a \<Rightarrow> 'a outcome" where
  "with_input_err msg r = question (with_cause (tool_error_from_msg Input msg)) r"

subsection \<open>Equality of JSON values\<close>

text \<open>
  \<open>serde_json::Value\<close>'s \<open>==\<close>: objects are compared as maps, whatever the order of their members,
  and a float is compared as a number, so its two zeros are equal.
\<close>

definition float_zero :: "64 word \<Rightarrow> bool" where
  "float_zero w \<longleftrightarrow> w = 0 \<or> w = 0x8000000000000000"

fun number_eq :: "json_number \<Rightarrow> json_number \<Rightarrow> bool" where
  "number_eq (NU64 a) (NU64 b) \<longleftrightarrow> a = b"
| "number_eq (NI64 a) (NI64 b) \<longleftrightarrow> a = b"
| "number_eq (NF64 a) (NF64 b) \<longleftrightarrow> a = b \<or> float_zero a \<and> float_zero b"
| "number_eq a b \<longleftrightarrow> False"

function (sequential) value_eq :: "json \<Rightarrow> json \<Rightarrow> bool" where
  "value_eq Null Null \<longleftrightarrow> True"
| "value_eq (Bool a) (Bool b) \<longleftrightarrow> a = b"
| "value_eq (Number a) (Number b) \<longleftrightarrow> number_eq a b"
| "value_eq (String a) (String b) \<longleftrightarrow> a = b"
| "value_eq (Array vs) (Array ws) \<longleftrightarrow>
     length vs = length ws \<and> list_all (\<lambda>(v, w). value_eq v w) (zip vs ws)"
| "value_eq (Object m) (Object m') \<longleftrightarrow>
     length m = length m' \<and>
     list_all (\<lambda>(k, v). case map_get m' k of None \<Rightarrow> False | Some w \<Rightarrow> value_eq v w) m"
| "value_eq v w \<longleftrightarrow> False"
  by pat_completeness auto
termination
  by (relation "measure (\<lambda>(v, w). size v)")
    (auto dest!: set_zip_leftD simp: less_Suc_eq_le elim: size_list_estimation' order_trans [rotated])

lemma value_eq_of_eqv: "json_eqv v w \<Longrightarrow> value_eq v w"
proof (induction rule: json_eqv.induct)
  case (eqv_Number n)
  then show ?case by (cases n) auto
next
  case (eqv_Array vs ws)
  then show ?case by (auto simp: list_all2_iff list_all_iff)
next
  case (eqv_Object m m')
  have "length m = card (fst ` set m)" "length m' = card (fst ` set m')"
    using distinct_card [OF eqv_Object.hyps(1)] distinct_card [OF eqv_Object.hyps(2)] by simp_all
  then have "length m = length m'"
    using eqv_Object.hyps(3) by simp
  moreover have "\<exists>w. map_get m' k = Some w \<and> value_eq v w" if v: "(k, v) \<in> set m" for k v
  proof -
    from v have "k \<in> fst ` set m'"
      using eqv_Object.hyps(3) by force
    then obtain w where w: "(k, w) \<in> set m'" by auto
    then have "map_get m' k = Some w"
      using eqv_Object.hyps(2) by (simp add: map_get_def)
    with eqv_Object.IH v w show ?thesis by blast
  qed
  ultimately show ?case
    by (fastforce simp: list_all_iff)
qed auto

subsection \<open>YAML trees\<close>

text \<open>
  \<open>serde_yaml::Value\<close>. A mapping is its list of members in insertion order, with keys of any
  kind; \<open>insert\<close> replaces the value of a present key in place. Two keys are the same here when they
  are equal as trees.
\<close>

datatype yaml =
    YNull
  | YBool bool
  | YNumber json_number
  | YString string
  | YSequence "yaml list"
  | YMapping "(yaml \<times> yaml) list"
  | YTagged string yaml

text \<open>\<open>as_str\<close> looks through tags.\<close>

fun yaml_as_str :: "yaml \<Rightarrow> string option" where
  "yaml_as_str (YString s) = Some s"
| "yaml_as_str (YTagged tag v) = yaml_as_str v"
| "yaml_as_str v = None"

subsection \<open>Settings\<close>

record key_parameters =
  key_kty :: string
  key_d :: string
  key_crv :: string
  key_x :: string
  key_y :: string

record key_settings =
  ks_key_size :: int
  ks_kty :: string
  ks_issuer_key :: key_parameters
  ks_holder_key :: yaml

record identifiers =
  id_issuer :: string
  id_verifier :: string

record settings =
  st_identifiers :: identifiers
  st_key_settings :: key_settings
  st_key_binding_nonce :: string
  st_expiry_seconds :: "nat option"
  st_random_seed :: "nat option"
  st_iat :: "nat option"
  st_exp :: "nat option"

subsection \<open>Specifications\<close>

record test_specification =
  sp_user_claims :: yaml
  sp_holder_disclosed_claims :: json_map
  sp_add_decoy_claims :: "bool option"
  sp_key_binding :: "bool option"
  sp_serialization_format :: "string option"

definition specification_default :: test_specification where
  "specification_default =
     \<lparr>sp_user_claims = YNull, sp_holder_disclosed_claims = [], sp_add_decoy_claims = None,
      sp_key_binding = None, sp_serialization_format = None\<rparr>"

text \<open>Empty arrays and objects of a request become \<open>false\<close>, at every depth.\<close>

fun replace_empty_items :: "json \<Rightarrow> json"
  and replace_empty_members :: "json_map \<Rightarrow> json_map \<Rightarrow> json_map"
where
  "replace_empty_items (Array arr) =
     (if arr = [] then Bool False else Array (map replace_empty_items arr))"
| "replace_empty_items (Object obj) =
     (if obj = [] then Bool False else Object (replace_empty_members [] obj))"
| "replace_empty_items v = v"
| "replace_empty_members result [] = result"
| "replace_empty_members result ((key, v) # obj) =
     replace_empty_members (map_insert key (replace_empty_items v) result) obj"

definition update_disclosed_claims :: "test_specification \<Rightarrow> test_specification outcome" where
  "update_disclosed_claims spec =
     (if sp_holder_disclosed_claims spec = [] then Done spec
      else obind (expect_some (as_object (replace_empty_items (Object (sp_holder_disclosed_claims spec)))))
             (\<lambda>claims. Done (spec\<lparr>sp_holder_disclosed_claims := claims\<rparr>)))"

text \<open>\<open>From<&str>\<close>; \<open>parsed\<close> is the answer of \<open>serde_yaml::from_str\<close>.\<close>

definition specification_from_str :: "string + test_specification \<Rightarrow> test_specification outcome" where
  "specification_from_str parsed =
     update_disclosed_claims (case parsed of Inl e \<Rightarrow> specification_default | Inr spec \<Rightarrow> spec)"

text \<open>
  \<open>_validate\<close>, which the tool does not call; \<open>tag_eq\<close> is the comparison of \<open>serde_yaml::Tag\<close> with a
  string.
\<close>

definition SD_TAG :: string where
  "SD_TAG = ''!sd''"

function (sequential) validate :: "(string \<Rightarrow> string \<Rightarrow> bool) \<Rightarrow> yaml \<Rightarrow> unit outcome"
  and validate_list :: "(string \<Rightarrow> string \<Rightarrow> bool) \<Rightarrow> yaml list \<Rightarrow> unit outcome"
  and validate_map :: "(string \<Rightarrow> string \<Rightarrow> bool) \<Rightarrow> (yaml \<times> yaml) list \<Rightarrow> unit outcome"
where
  "validate tag_eq (YString s) = Done ()"
| "validate tag_eq (YBool b) = Done ()"
| "validate tag_eq (YNumber n) = Done ()"
| "validate tag_eq (YTagged tag v) = (if tag_eq tag SD_TAG then validate tag_eq v else Panicked)"
| "validate tag_eq (YSequence vs) = validate_list tag_eq vs"
| "validate tag_eq (YMapping ms) = validate_map tag_eq ms"
| "validate tag_eq YNull = Panicked"
| "validate_list tag_eq [] = Done ()"
| "validate_list tag_eq (v # vs) = obind (validate tag_eq v) (\<lambda>_. validate_list tag_eq vs)"
| "validate_map tag_eq [] = Done ()"
| "validate_map tag_eq ((key, v) # ms) =
     obind (validate tag_eq key) (\<lambda>_. obind (validate tag_eq v) (\<lambda>_. validate_map tag_eq ms))"
  by pat_completeness auto
termination
  by (relation "measure (case_sum (\<lambda>(eq, v). size v)
        (case_sum (\<lambda>(eq, vs). size_list size vs) (\<lambda>(eq, ms). size_list (size_prod size size) ms)))") auto

function (sequential) remove_tags :: "yaml \<Rightarrow> yaml"
  and remove_member_tags :: "(yaml \<times> yaml) list \<Rightarrow> (yaml \<times> yaml) list \<Rightarrow> (yaml \<times> yaml) list"
where
  "remove_tags (YTagged tag v) = remove_tags v"
| "remove_tags (YMapping ms) = YMapping (remove_member_tags [] ms)"
| "remove_tags (YSequence vs) = YSequence (map remove_tags vs)"
| "remove_tags v = v"
| "remove_member_tags filtered [] = filtered"
| "remove_member_tags filtered ((key, v) # ms) =
     (case key of
        YTagged tag name \<Rightarrow> remove_member_tags (AList.update name (remove_tags v) filtered) ms
      | YNull \<Rightarrow> remove_member_tags filtered ms
      | _ \<Rightarrow> remove_member_tags (AList.update key (remove_tags v) filtered) ms)"
  by pat_completeness auto
termination
  by (relation "measure (case_sum size (\<lambda>(filtered, ms). size_list (size_prod size size) ms))")
    (auto simp: less_Suc_eq_le size_list_estimation')

text \<open>\<open>claims_to_json_value\<close>; \<open>from_value\<close> is \<open>serde_yaml::from_value\<close> into a JSON value.\<close>

definition claims_to_json_value :: "(yaml \<Rightarrow> string + json) \<Rightarrow> yaml \<Rightarrow> json outcome" where
  "claims_to_json_value from_value claims = expect (from_value (remove_tags claims))"

subsection \<open>JSONPaths of the marked claims\<close>

definition start_path :: "string \<Rightarrow> string" where
  "start_path path = (if path = [] then ''$'' else path)"

text \<open>The paths that a call pushes. A member whose key is neither tagged nor a string is skipped.\<close>

function (sequential) generate_jsonpath_from_tagged_values :: "yaml \<Rightarrow> string \<Rightarrow> string list outcome"
  and jsonpaths_of_members :: "(yaml \<times> yaml) list \<Rightarrow> string \<Rightarrow> string list outcome"
  and jsonpaths_of_elements :: "nat \<Rightarrow> yaml list \<Rightarrow> string \<Rightarrow> string list outcome"
where
  "generate_jsonpath_from_tagged_values (YMapping ms) path = jsonpaths_of_members ms (start_path path)"
| "generate_jsonpath_from_tagged_values (YSequence vs) path = jsonpaths_of_elements 0 vs (start_path path)"
| "generate_jsonpath_from_tagged_values (YTagged tag v) path =
     (case v of
        YMapping ms \<Rightarrow> obind (generate_jsonpath_from_tagged_values v (start_path path))
                          (\<lambda>paths. Done (start_path path # paths))
      | YSequence vs \<Rightarrow> obind (generate_jsonpath_from_tagged_values v (start_path path))
                          (\<lambda>paths. Done (start_path path # paths))
      | _ \<Rightarrow> Done [start_path path])"
| "generate_jsonpath_from_tagged_values v path = Done []"
| "jsonpaths_of_members [] path = Done []"
| "jsonpaths_of_members ((key, v) # ms) path =
     obind (case key of
              YTagged tag name \<Rightarrow>
                obind (expect_some (yaml_as_str name)) (\<lambda>s.
                let subpath = path @ ''.'' @ s
                in obind (generate_jsonpath_from_tagged_values v subpath) (\<lambda>paths. Done (subpath # paths)))
            | YString s \<Rightarrow> generate_jsonpath_from_tagged_values v (path @ ''.'' @ s)
            | _ \<Rightarrow> Done [])
       (\<lambda>paths. obind (jsonpaths_of_members ms path) (\<lambda>rest. Done (paths @ rest)))"
| "jsonpaths_of_elements index [] path = Done []"
| "jsonpaths_of_elements index (v # vs) path =
     obind (generate_jsonpath_from_tagged_values v (path @ ''.['' @ dec index @ '']''))
       (\<lambda>paths. obind (jsonpaths_of_elements (Suc index) vs path) (\<lambda>rest. Done (paths @ rest)))"
  by pat_completeness auto
termination
  by (relation "measure (case_sum (\<lambda>(v, path). size v)
        (case_sum (\<lambda>(ms, path). size_list (size_prod size size) ms) (\<lambda>(index, vs, path). size_list size vs)))") auto

definition sd_claims_to_jsonpath :: "yaml \<Rightarrow> string list outcome" where
  "sd_claims_to_jsonpath claims = generate_jsonpath_from_tagged_values claims []"

end
