(* ===== verification/Interop_Payload.thy ===== *)
theory Interop_Payload
  imports Interop_Types Utils
begin

text \<open>
  Reading an SD-JWT back (generate/src/utils/funcs.rs): the payload of a credential in each of the
  three serializations, the removal of decoy digests before two payloads are compared, and the
  salts loaded into the queue of the \<open>mock_salts\<close> feature.

  What the tool calls outside the repository is the record \<open>J\<close>: the deserializers of its own types,
  the files it reads and the key codecs. It writes no file; a file is taken to keep its content
  while the tool runs. \<open>'e\<close> is the type of private signing keys.
\<close>

subsection \<open>The parameters\<close>

record mirror_header =
  mh_disclosures :: "string list"

record flattened_mirror =
  fm_payload :: string
  fm_header :: mirror_header

record general_mirror_signature =
  gms_header :: mirror_header

record general_mirror =
  gm_payload :: string
  gm_signatures :: "general_mirror_signature list"

record ('k, 'e) interop =
  flattened_mirror_from_str :: "string \<Rightarrow> string + flattened_mirror"
  general_mirror_from_str :: "string \<Rightarrow> string + general_mirror"
  string_list_from_str :: "string \<Rightarrow> string + string list"
  yaml_to_json :: "yaml \<Rightarrow> string + json"
  yaml_to_jwk :: "yaml \<Rightarrow> string + jwk"
  settings_from_yaml :: "string \<Rightarrow> string + settings"
  specification_from_yaml :: "string \<Rightarrow> string + test_specification"
  file_text :: "path \<Rightarrow> string + string"
  file_bytes :: "path \<Rightarrow> string + string"
  dir_entries :: "path \<Rightarrow> string + (string + path) list"
  path_is_dir :: "path \<Rightarrow> bool"
  path_exists :: "path \<Rightarrow> bool"
  decoding_key_from_pem :: "string \<Rightarrow> string + 'k"
  encoding_key_from_pem :: "string \<Rightarrow> string + 'e"
  jwt_sign :: "string \<Rightarrow> 'e \<Rightarrow> algorithm \<Rightarrow> string + string"

subsection \<open>Decoy digests\<close>

fun keep_digests :: "string set \<Rightarrow> json list \<Rightarrow> json list outcome" where
  "keep_digests hashes [] = Done []"
| "keep_digests hashes (item # items) =
     obind (expect_some (as_str item)) (\<lambda>digest.
     obind (keep_digests hashes items) (\<lambda>kept.
     Done (if digest \<in> hashes then item # kept else kept)))"

fun remove_decoy_items :: "string set \<Rightarrow> json \<Rightarrow> json outcome"
  and remove_decoy_members :: "string set \<Rightarrow> json_map \<Rightarrow> json_map \<Rightarrow> json_map outcome"
  and remove_decoy_member :: "string set \<Rightarrow> string \<Rightarrow> json \<Rightarrow> json outcome"
where
  "remove_decoy_items hashes (Object payload) =
     obind (remove_decoy_members hashes [] payload) (\<lambda>m. Done (Object m))"
| "remove_decoy_items hashes v = Panicked"
| "remove_decoy_members hashes m [] = Done m"
| "remove_decoy_members hashes m ((key, val) # payload) =
     obind (remove_decoy_member hashes key val) (\<lambda>filtered.
     remove_decoy_members hashes (map_insert key filtered m) payload)"
| "remove_decoy_member hashes key val =
     (if key = ''_sd''
      then obind (expect_some (as_array val)) (\<lambda>items.
           obind (keep_digests hashes items) (\<lambda>kept. Done (Array kept)))
      else case val of
             Object payload \<Rightarrow> remove_decoy_items hashes val
           | _ \<Rightarrow> Done val)"

subsection \<open>Payloads\<close>

definition digests_of :: "'k externals \<Rightarrow> string list \<Rightarrow> string set" where
  "digests_of X disclosures = set (map (base64_hash X) disclosures)"

definition decode_payload :: "'k externals \<Rightarrow> string \<Rightarrow> string list \<Rightarrow> bool \<Rightarrow> json outcome" where
  "decode_payload X payload disclosures remove_decoy =
     obind (unwrap_result (base64url_decode X payload)) (\<lambda>bytes.
     obind (question tool_error_from_json (json_from_slice X bytes)) (\<lambda>value.
     if remove_decoy then remove_decoy_items (digests_of X disclosures) value else Done value))"

definition parse_payload_flattened_json ::
    "'k externals \<Rightarrow> ('k, 'e) interop \<Rightarrow> string \<Rightarrow> bool \<Rightarrow> json outcome" where
  "parse_payload_flattened_json X J sd_jwt remove_decoy =
     obind (question tool_error_from_json (flattened_mirror_from_str J sd_jwt)) (\<lambda>parsed.
     decode_payload X (fm_payload parsed) (mh_disclosures (fm_header parsed)) remove_decoy)"

definition parse_payload_general_json ::
    "'k externals \<Rightarrow> ('k, 'e) interop \<Rightarrow> string \<Rightarrow> bool \<Rightarrow> json outcome" where
  "parse_payload_general_json X J sd_jwt remove_decoy =
     obind (question tool_error_from_json (general_mirror_from_str J sd_jwt)) (\<lambda>parsed.
     case gm_signatures parsed of
       [] \<Rightarrow> Failed (tool_error_from_msg Input ''General JSON SD-JWT must contain at least one signature'')
     | signature # _ \<Rightarrow>
         decode_payload X (gm_payload parsed) (mh_disclosures (gms_header signature)) remove_decoy)"

text \<open>\<open>remove(0)\<close> and \<open>payload[1]\<close> panic when there is no such part.\<close>

definition parse_payload_compact :: "'k externals \<Rightarrow> string \<Rightarrow> bool \<Rightarrow> json outcome" where
  "parse_payload_compact X sd_jwt remove_decoy =
     (case filter (\<lambda>s. s \<noteq> []) (split_on (CHR ''~'') sd_jwt) of
        [] \<Rightarrow> Panicked
      | jwt # disclosures \<Rightarrow>
          (let parts = split_on (CHR ''.'') jwt
           in if length parts \<le> 1 then Panicked
              else obind (unwrap_result (base64url_decode X (parts ! 1))) (\<lambda>bytes.
                   obind (expect (json_from_slice X bytes)) (\<lambda>value.
                   if remove_decoy then remove_decoy_items (digests_of X disclosures) value
                   else Done value))))"

definition parse_sdjwt_payload ::
    "'k externals \<Rightarrow> ('k, 'e) interop \<Rightarrow> string \<Rightarrow> serialization_format \<Rightarrow> bool \<Rightarrow> json outcome" where
  "parse_sdjwt_payload X J sd_jwt fmt remove_decoy =
     (case fmt of
        FlattenedJson \<Rightarrow> parse_payload_flattened_json X J sd_jwt remove_decoy
      | GeneralJson \<Rightarrow> parse_payload_general_json X J sd_jwt remove_decoy
      | Compact \<Rightarrow> parse_payload_compact X sd_jwt remove_decoy)"

subsection \<open>Salts\<close>

text \<open>The queue \<open>SALTS\<close> after the call: the salts of the file come after those already there.\<close>

definition load_salts :: "('k, 'e) interop \<Rightarrow> path \<Rightarrow> string list \<Rightarrow> string list outcome" where
  "load_salts J p queue =
     obind (question (tool_error_from_msg IOError) (file_text J p)) (\<lambda>json_data.
     obind (question tool_error_from_json (string_list_from_str J json_data)) (\<lambda>salts.
     Done (queue @ salts)))"

end
