(* ===== verification/Interop_Tool.thy ===== *)
theory Interop_Tool
  imports Interop_Payload Issuer Holder Verifier
begin

text \<open>
  The interoperability tool's program (generate/src/main.rs): for each specification it issues a
  credential with the crate, presents the requested claims, verifies the presentation, and compares
  payload and verified claims with the artifacts that the Python implementation stored. The crate is
  built with the feature \<open>mock_salts\<close> and without \<open>parallel\<close>, so it starts no thread.
\<close>

subsection \<open>The crate as the tool builds it\<close>

definition sequential_host :: issuance_host where
  "sequential_host = \<lparr>ih_spawn = (\<lambda>_. False), ih_threads = 0\<rparr>"

definition sequential_env :: verifier_env where
  "sequential_env =
     \<lparr>env_parallel = False, env_spawn = (\<lambda>_. False), env_threads = 0, env_budget = budget_new 0\<rparr>"

text \<open>
  \<open>LegacyIssuanceRandomSource\<close> with \<open>mock_salts\<close>: disclosure salts come from the queue, decoys from
  the generator. A draw from the empty queue panics: the state becomes \<open>None\<close> and stays so, and
  \<open>prepare_with_mock_salts\<close> turns it into the panic of the whole call. Where the call returns an
  error instead, the tool unwraps it, which is the same panic.
\<close>

definition mock_disclosure_salt ::
    "(string list \<times> 'g option) option \<Rightarrow> string \<times> (string list \<times> 'g option) option" where
  "mock_disclosure_salt state =
     (case state of
        None \<Rightarrow> ([], None)
      | Some (queue, rng) \<Rightarrow>
          (case generate_salt_mock queue of
             (Ok salt, queue') \<Rightarrow> (salt, Some (queue', rng))
           | _ \<Rightarrow> ([], None)))"

definition mock_random_source ::
    "'k externals \<Rightarrow> (nat \<Rightarrow> 'g \<Rightarrow> string \<times> 'g) \<Rightarrow> (nat \<Rightarrow> nat \<Rightarrow> 'g \<Rightarrow> nat \<times> 'g) \<Rightarrow> 'g
       \<Rightarrow> (string list \<times> 'g option) option random_source" where
  "mock_random_source X fill_bytes gen_range initialize =
     \<lparr>disclosure_salt = mock_disclosure_salt,
      decoy_count = (\<lambda>low high state.
        case state of
          None \<Rightarrow> (low, None)
        | Some (queue, rng) \<Rightarrow>
            (case gen_range low high (legacy_rng initialize rng) of (n, g) \<Rightarrow> (n, Some (queue, Some g)))),
      decoy_salt = (\<lambda>state.
        case state of
          None \<Rightarrow> ([], None)
        | Some (queue, rng) \<Rightarrow>
            (case generate_salt_with_rng X fill_bytes (legacy_rng initialize rng) of
               (salt, g) \<Rightarrow> (salt, Some (queue, Some g))))\<rparr>"

text \<open>The process: the queue of salts and the thread's generator.\<close>

record 'g tool_state =
  ts_salts :: "string list"
  ts_rng :: 'g

record 'g generator =
  g_fill_bytes :: "nat \<Rightarrow> 'g \<Rightarrow> string \<times> 'g"
  g_gen_range :: "nat \<Rightarrow> nat \<Rightarrow> 'g \<Rightarrow> nat \<times> 'g"

definition prepare_with_mock_salts ::
    "'k externals \<Rightarrow> 'g generator \<Rightarrow> string \<Rightarrow> json \<Rightarrow> strategy \<Rightarrow> issuance_options \<Rightarrow> 'g tool_state
       \<Rightarrow> (prepared_sd_jwt \<times> 'g tool_state) result" where
  "prepare_with_mock_salts X G alg_name user_claims strat options s =
     rbind (prepare_with_random_source False X sequential_host (issuance_budget_new 0) alg_name user_claims
              strat options (mock_random_source X (g_fill_bytes G) (g_gen_range G) (ts_rng s))
              (Some (ts_salts s, None))) (\<lambda>(prepared, _, state).
     case state of
       None \<Rightarrow> Panic
     | Some (queue, rng) \<Rightarrow> Ok (prepared, \<lparr>ts_salts = queue, ts_rng = legacy_rng (ts_rng s) rng\<rparr>))"

subsection \<open>File names\<close>

definition ISSUER_KEY_PEM_FILE_NAME :: string where "ISSUER_KEY_PEM_FILE_NAME = ''issuer_key.pem''"
definition ISSUER_PUBLIC_KEY_PEM_FILE_NAME :: string where
  "ISSUER_PUBLIC_KEY_PEM_FILE_NAME = ''issuer_public_key.pem''"
definition SETTINGS_FILE_NAME :: string where "SETTINGS_FILE_NAME = ''settings.yml''"
definition SPECIFICATION_FILE_NAME :: string where "SPECIFICATION_FILE_NAME = ''specification.yml''"
definition SALTS_FILE_NAME :: string where "SALTS_FILE_NAME = ''claims_vs_salts.json''"
definition SD_JWT_FILE_NAME_TEMPLATE :: string where "SD_JWT_FILE_NAME_TEMPLATE = ''sd_jwt_issuance''"
definition VERIFIED_CLAIMS_FILE_NAME :: string where "VERIFIED_CLAIMS_FILE_NAME = ''verified_contents.json''"

subsection \<open>Issuing, presenting, verifying\<close>

definition get_key :: "('k, 'e) interop \<Rightarrow> path \<Rightarrow> 'e outcome" where
  "get_key J p = obind (expect (file_bytes J p)) (\<lambda>key. expect (encoding_key_from_pem J key))"

definition add_claim :: "string \<Rightarrow> json outcome \<Rightarrow> json_map \<Rightarrow> json_map outcome" where
  "add_claim key value claims =
     (if contains_key claims key then Done claims else obind value (\<lambda>v. Done (map_insert key v claims)))"

text \<open>\<open>user_claims\<close> with the issuer and the times of the settings where the specification has none.\<close>

definition completed_claims :: "settings \<Rightarrow> json_map \<Rightarrow> json_map outcome" where
  "completed_claims st claims =
     obind (add_claim ''iss'' (Done (String (id_issuer (st_identifiers st)))) claims) (\<lambda>claims1.
     obind (add_claim ''iat'' (obind (expect_some (st_iat st)) (\<lambda>iat. Done (Number (NU64 iat)))) claims1) (\<lambda>claims2.
     add_claim ''exp'' (obind (expect_some (st_exp st)) (\<lambda>exp. Done (Number (NU64 exp)))) claims2))"

definition tool_holder_key :: "('k, 'e) interop \<Rightarrow> test_specification \<Rightarrow> settings \<Rightarrow> jwk option outcome" where
  "tool_holder_key J spec st =
     (if sp_key_binding spec = Some True
      then obind (expect (yaml_to_jwk J (ks_holder_key (st_key_settings st)))) (\<lambda>jwk. Done (Some jwk))
      else Done None)"

definition issue_sd_jwt ::
    "'k externals \<Rightarrow> ('k, 'e) interop \<Rightarrow> 'g generator \<Rightarrow> path \<Rightarrow> test_specification \<Rightarrow> settings
       \<Rightarrow> serialization_format \<Rightarrow> bool \<Rightarrow> 'g tool_state \<Rightarrow> (string \<times> 'g tool_state) outcome" where
  "issue_sd_jwt X J G directory spec st fmt decoy s =
     obind (get_key J (path_join directory ISSUER_KEY_PEM_FILE_NAME)) (\<lambda>issuer_key.
     obind (claims_to_json_value (yaml_to_json J) (sp_user_claims spec)) (\<lambda>user_claims.
     obind (expect_some (as_object user_claims)) (\<lambda>claims_obj.
     obind (completed_claims st claims_obj) (\<lambda>claims.
     obind (sd_claims_to_jsonpath (sp_user_claims spec)) (\<lambda>sd_claims_jsonpaths.
     obind (tool_holder_key J spec st) (\<lambda>jwk.
     obind (unwrap_result (prepare_with_mock_salts X G (planner_sign_alg (Some ''ES256'')) (Object claims)
              (Custom sd_claims_jsonpaths)
              \<lparr>opt_holder_key = jwk, opt_add_decoy_claims = decoy, opt_serialization_format = fmt\<rparr> s)) (\<lambda>(prepared, s').
     obind (expect (jwt_sign J (prep_signing_input prepared) issuer_key (prep_algorithm prepared))) (\<lambda>encoded_signature.
     obind (expect (base64_decode X encoded_signature)) (\<lambda>signature.
     obind (question tool_error_from_io (file_bytes J (path_join directory ISSUER_PUBLIC_KEY_PEM_FILE_NAME))) (\<lambda>pem.
     obind (expect (decoding_key_from_pem J pem)) (\<lambda>issuer_public_key.
     obind (unwrap_result (complete X prepared signature issuer_public_key)) (\<lambda>sd_jwt.
     Done (sd_jwt, s')))))))))))))"

text \<open>
  The key callback of the holder and the verifier reads the file when it is called, and panics when
  it cannot; \<open>new\<close> is \<open>new_with_policy\<close> with the default policy and a callback that returns \<open>Ok\<close>.
\<close>

definition public_key_of_file :: "('k, 'e) interop \<Rightarrow> path \<Rightarrow> 'k result" where
  "public_key_of_file J p =
     (case file_bytes J p of
        Inl e \<Rightarrow> Panic
      | Inr pem \<Rightarrow> (case decoding_key_from_pem J pem of Inl e \<Rightarrow> Panic | Inr key \<Rightarrow> Ok key))"

definition tool_create_presentation ::
    "'k externals \<Rightarrow> ('k, 'e) interop \<Rightarrow> path \<Rightarrow> string \<Rightarrow> serialization_format \<Rightarrow> json_map \<Rightarrow> string outcome" where
  "tool_create_presentation X J directory sd_jwt fmt disclosed_claims =
     (let pub_key_path = path_join directory ISSUER_PUBLIC_KEY_PEM_FILE_NAME
      in obind (unwrap_result (holder_new_with_policy X sd_jwt fmt
                  (\<lambda>_ _. public_key_of_file J pub_key_path) policy_default)) (\<lambda>holder.
         unwrap_result (fst (create_presentation X holder disclosed_claims))))"

definition verify_presentation ::
    "'k externals \<Rightarrow> ('k, 'e) interop \<Rightarrow> path \<Rightarrow> string \<Rightarrow> serialization_format \<Rightarrow> json outcome" where
  "verify_presentation X J directory presentation fmt =
     (let pub_key_path = path_join directory ISSUER_PUBLIC_KEY_PEM_FILE_NAME
      in obind (unwrap_result (verifier_new_with_policy X sequential_env presentation
                  (\<lambda>_ _. public_key_of_file J pub_key_path) None None fmt policy_default)) (\<lambda>verified.
         Done (verified_claims verified)))"

subsection \<open>Comparison\<close>

definition load_sd_jwt :: "('k, 'e) interop \<Rightarrow> path \<Rightarrow> string outcome" where
  "load_sd_jwt J p = question tool_error_from_io (file_text J p)"

definition parse_verified_claims :: "'k externals \<Rightarrow> string \<Rightarrow> json outcome" where
  "parse_verified_claims X content = question tool_error_from_json (json_from_slice X content)"

definition compare_jwt_payloads :: "json \<Rightarrow> json \<Rightarrow> unit outcome" where
  "compare_jwt_payloads stored own =
     (if value_eq own stored then Done ()
      else Failed (tool_error_from_msg DataNotEqual ''JWT payloads are different''))"

definition compare_verified_claims :: "json \<Rightarrow> json \<Rightarrow> unit outcome" where
  "compare_verified_claims stored own =
     (if value_eq stored own then Done ()
      else Failed (tool_error_from_msg DataNotEqual ''verified claims are different''))"

text \<open>\<open>loaded_sd_jwt.replace('\n', "")\<close>\<close>

definition drop_newlines :: "string \<Rightarrow> string" where
  "drop_newlines s = filter (\<lambda>c. c \<noteq> CHR 0x0A) s"

definition chosen_format :: "string option \<Rightarrow> (serialization_format \<times> string) outcome" where
  "chosen_format name =
     (case name of
        None \<Rightarrow> Done (Compact, SD_JWT_FILE_NAME_TEMPLATE @ ''.txt'')
      | Some fmt \<Rightarrow>
          if fmt = ''json'' then Done (FlattenedJson, SD_JWT_FILE_NAME_TEMPLATE @ ''.json'')
          else if fmt = ''compact'' then Done (Compact, SD_JWT_FILE_NAME_TEMPLATE @ ''.txt'')
          else Panicked)"

definition generate_and_check ::
    "'k externals \<Rightarrow> ('k, 'e) interop \<Rightarrow> 'g generator \<Rightarrow> path \<Rightarrow> settings \<Rightarrow> test_specification
       \<Rightarrow> 'g tool_state \<Rightarrow> 'g tool_state outcome" where
  "generate_and_check X J G directory st spec s =
     (let decoy = (sp_add_decoy_claims spec = Some True)
      in obind (chosen_format (sp_serialization_format spec)) (\<lambda>(fmt, stored_name).
         obind (issue_sd_jwt X J G directory spec st fmt decoy s) (\<lambda>(sd_jwt, s').
         obind (tool_create_presentation X J directory sd_jwt fmt (sp_holder_disclosed_claims spec)) (\<lambda>presentation.
         obind (verify_presentation X J directory presentation fmt) (\<lambda>verified.
         obind (load_sd_jwt J (path_join directory stored_name)) (\<lambda>stored.
         obind (parse_sdjwt_payload X J (drop_newlines stored) fmt decoy) (\<lambda>stored_payload.
         obind (parse_sdjwt_payload X J sd_jwt fmt decoy) (\<lambda>own_payload.
         obind (compare_jwt_payloads stored_payload own_payload) (\<lambda>_.
         obind (load_sd_jwt J (path_join directory VERIFIED_CLAIMS_FILE_NAME)) (\<lambda>content.
         obind (parse_verified_claims X content) (\<lambda>loaded_claims.
         obind (compare_verified_claims loaded_claims verified) (\<lambda>_.
         Done s'))))))))))))"

subsection \<open>The program\<close>

definition get_settings :: "('k, 'e) interop \<Rightarrow> path \<Rightarrow> settings outcome" where
  "get_settings J p = obind (expect (file_text J p)) (\<lambda>contents. expect (settings_from_yaml J contents))"

definition specification_from_path :: "('k, 'e) interop \<Rightarrow> path \<Rightarrow> test_specification outcome" where
  "specification_from_path J p =
     obind (expect (file_text J p)) (\<lambda>contents.
     obind (expect (specification_from_yaml J contents)) (\<lambda>spec.
     update_disclosed_claims spec))"

text \<open>The two ways of finding the specifications; both fill the queue of salts as they go.\<close>

fun scan_entries :: "('k, 'e) interop \<Rightarrow> (string + path) list \<Rightarrow> string list \<Rightarrow> (path list \<times> string list) outcome" where
  "scan_entries J [] queue = Done ([], queue)"
| "scan_entries J (Inl e # entries) queue = scan_entries J entries queue"
| "scan_entries J (Inr p # entries) queue =
     (if path_is_dir J p \<and> path_exists J (path_join p SPECIFICATION_FILE_NAME)
      then obind (unwrap_outcome (load_salts J (path_join p SALTS_FILE_NAME) queue)) (\<lambda>queue1.
           obind (scan_entries J entries queue1) (\<lambda>(paths, queue2).
           Done (path_join p SPECIFICATION_FILE_NAME # paths, queue2)))
      else scan_entries J entries queue)"

fun given_paths :: "('k, 'e) interop \<Rightarrow> path \<Rightarrow> path list \<Rightarrow> string list \<Rightarrow> (path list \<times> string list) outcome" where
  "given_paths J basedir [] queue = Done ([], queue)"
| "given_paths J basedir (d # ds) queue =
     obind (unwrap_outcome (load_salts J (path_join d SALTS_FILE_NAME) queue)) (\<lambda>queue1.
     obind (given_paths J basedir ds queue1) (\<lambda>(paths, queue2).
     Done (path_join (path_join basedir d) SPECIFICATION_FILE_NAME # paths, queue2)))"

definition get_specification_paths ::
    "('k, 'e) interop \<Rightarrow> path list \<Rightarrow> path \<Rightarrow> string list \<Rightarrow> (path list \<times> string list) outcome" where
  "get_specification_paths J args basedir queue =
     (if args = []
      then obind (question tool_error_from_io (dir_entries J basedir)) (\<lambda>entries. scan_entries J entries queue)
      else given_paths J basedir args queue)"

text \<open>One round of the loop of \<open>main\<close>; \<open>pop\<close> leaves a path without a parent as it is.\<close>

definition check_directory ::
    "'k externals \<Rightarrow> ('k, 'e) interop \<Rightarrow> 'g generator \<Rightarrow> path \<Rightarrow> 'g tool_state \<Rightarrow> 'g tool_state outcome" where
  "check_directory X J G p s =
     obind (expect_some (path_parent p)) (\<lambda>parent.
     obind (get_settings J (path_join (path_join parent ''..'') SETTINGS_FILE_NAME)) (\<lambda>st.
     obind (specification_from_path J p) (\<lambda>spec.
     unwrap_outcome (generate_and_check X J G parent st spec s))))"

fun check_directories ::
    "'k externals \<Rightarrow> ('k, 'e) interop \<Rightarrow> 'g generator \<Rightarrow> path list \<Rightarrow> 'g tool_state \<Rightarrow> 'g tool_state outcome" where
  "check_directories X J G [] s = Done s"
| "check_directories X J G (p # ps) s = obind (check_directory X J G p s) (check_directories X J G ps)"

text \<open>\<open>main\<close>, with the arguments parsed, in the working directory \<open>basedir\<close>.\<close>

definition tool_main ::
    "'k externals \<Rightarrow> ('k, 'e) interop \<Rightarrow> 'g generator \<Rightarrow> path list \<Rightarrow> string + path \<Rightarrow> 'g \<Rightarrow> 'g tool_state outcome" where
  "tool_main X J G args current_dir rng =
     obind (expect current_dir) (\<lambda>basedir.
     obind (unwrap_outcome (get_specification_paths J args basedir [])) (\<lambda>(paths, queue).
     check_directories X J G paths \<lparr>ts_salts = queue, ts_rng = rng\<rparr>))"

end
