(* ===== verification/Interop_Paths.thy ===== *)
theory Interop_Paths
  imports Interop_Tool Issuance_Spec
begin

text \<open>
  What the \<open>!sd\<close> tags of a specification mean, and that the JSONPaths the tool derives from them say
  the same to the issuer. \<open>tagged_value\<close> conceals a YAML tree by its tags, with no path; concealing the
  plain JSON claims with the strategy of the derived paths gives the same result.
\<close>

subsection \<open>Tagged trees\<close>

fun is_tagged :: "yaml \<Rightarrow> bool" where
  "is_tagged (YTagged tag v) = True"
| "is_tagged v = False"

fun untag :: "yaml \<Rightarrow> yaml" where
  "untag (YTagged tag v) = v"
| "untag v = v"

definition key_name :: "yaml \<Rightarrow> string" where
  "key_name key = (case yaml_as_str key of None \<Rightarrow> [] | Some s \<Rightarrow> s)"

definition marked :: "yaml \<times> yaml \<Rightarrow> bool" where
  "marked member \<longleftrightarrow> is_tagged (fst member) \<or> is_tagged (snd member)"

text \<open>The JSON value of a tree without its tags.\<close>

fun plain_json :: "yaml \<Rightarrow> json" where
  "plain_json YNull = Null"
| "plain_json (YBool b) = Bool b"
| "plain_json (YNumber n) = Number n"
| "plain_json (YString s) = String s"
| "plain_json (YSequence vs) = Array (map plain_json vs)"
| "plain_json (YMapping ms) = Object (map (\<lambda>(k, v). (key_name k, plain_json v)) ms)"
| "plain_json (YTagged tag v) = plain_json v"

definition plain_members :: "(yaml \<times> yaml) list \<Rightarrow> json_map" where
  "plain_members ms = map (\<lambda>(k, v). (key_name k, plain_json v)) ms"

text \<open>
  The trees the statements are about: a key is a string or a tagged string, keys differ, a name is
  not empty and has no \<open>.\<close> and no \<open>[\<close> (which JSONPaths cannot tell from their own), no tag is directly
  under a tag, and numbers are as the parser makes them.
\<close>

definition clean_name :: "string \<Rightarrow> bool" where
  "clean_name k \<longleftrightarrow> k \<noteq> [] \<and> CHR ''.'' \<notin> set k \<and> CHR ''['' \<notin> set k"

definition string_key :: "yaml \<Rightarrow> bool" where
  "string_key key \<longleftrightarrow> (\<exists>s. key = YString s \<or> (\<exists>tag. key = YTagged tag (YString s)))"

fun number_ok :: "json_number \<Rightarrow> bool" where
  "number_ok (NU64 n) \<longleftrightarrow> True"
| "number_ok (NI64 i) \<longleftrightarrow> i < 0"
| "number_ok (NF64 w) \<longleftrightarrow> f64_is_finite w"

fun well_marked :: "yaml \<Rightarrow> bool" where
  "well_marked (YMapping ms) \<longleftrightarrow>
     distinct (map (\<lambda>(k, v). key_name k) ms) \<and>
     list_all (\<lambda>(k, v). string_key k \<and> clean_name (key_name k) \<and> well_marked v) ms"
| "well_marked (YSequence vs) \<longleftrightarrow> list_all well_marked vs"
| "well_marked (YTagged tag v) \<longleftrightarrow> \<not> is_tagged v \<and> well_marked v"
| "well_marked (YNumber n) \<longleftrightarrow> number_ok n"
| "well_marked v \<longleftrightarrow> True"

text \<open>The trees that are left when the tags are gone, and what the YAML library makes of them.\<close>

fun untagged :: "yaml \<Rightarrow> bool" where
  "untagged (YMapping ms) \<longleftrightarrow>
     distinct (map (\<lambda>(k, v). key_name k) ms) \<and> list_all (\<lambda>(k, v). k = YString (key_name k) \<and> untagged v) ms"
| "untagged (YSequence vs) \<longleftrightarrow> list_all untagged vs"
| "untagged (YTagged tag v) \<longleftrightarrow> False"
| "untagged (YNumber n) \<longleftrightarrow> number_ok n"
| "untagged v \<longleftrightarrow> True"

definition yaml_conversion :: "(yaml \<Rightarrow> string + json) \<Rightarrow> bool" where
  "yaml_conversion from_value \<longleftrightarrow> (\<forall>y. untagged y \<longrightarrow> from_value y = Inr (plain_json y))"

lemma key_name_simps [simp]:
  "key_name (YString s) = s" "key_name (YTagged tag (YString s)) = s"
  by (simp_all add: key_name_def)

lemma update_fresh: "k \<notin> fst ` set m \<Longrightarrow> AList.update k v m = m @ [(k, v)]"
  by (induction m) auto

subsection \<open>Removing the tags\<close>

definition stripped_members :: "(yaml \<times> yaml) list \<Rightarrow> (yaml \<times> yaml) list" where
  "stripped_members ms = map (\<lambda>(k, v). (YString (key_name k), remove_tags v)) ms"

lemma remove_member_tags_fresh:
  "list_all (\<lambda>(k, v). string_key k) ms \<Longrightarrow> distinct (map (\<lambda>(k, v). key_name k) ms) \<Longrightarrow>
     (\<And>k v. (k, v) \<in> set ms \<Longrightarrow> YString (key_name k) \<notin> fst ` set filtered) \<Longrightarrow>
     remove_member_tags filtered ms = filtered @ stripped_members ms"
proof (induction ms arbitrary: filtered)
  case Nil
  then show ?case by (simp add: stripped_members_def)
next
  case (Cons p ms)
  obtain k v where p: "p = (k, v)" by (cases p)
  let ?entry = "(YString (key_name k), remove_tags v)"
  from Cons.prems(1) have "string_key k" and rest: "list_all (\<lambda>(k, v). string_key k) ms" by (simp_all add: p)
  from this(1) have "remove_member_tags filtered (p # ms)
      = remove_member_tags (AList.update (YString (key_name k)) (remove_tags v) filtered) ms"
    unfolding p string_key_def by auto
  also have "AList.update (YString (key_name k)) (remove_tags v) filtered = filtered @ [?entry]"
    using Cons.prems(3) [of k v] by (intro update_fresh) (simp add: p)
  also have "remove_member_tags (filtered @ [?entry]) ms = (filtered @ [?entry]) @ stripped_members ms"
    by (rule Cons.IH [OF rest]) (use Cons.prems in \<open>force simp: p\<close>)+
  finally show ?case
    by (simp add: p stripped_members_def)
qed

lemma remove_tags_plain:
  "well_marked y \<Longrightarrow> untagged (remove_tags y) \<and> plain_json (remove_tags y) = plain_json y"
proof (induction y)
  case (YMapping ms)
  have keys: "list_all (\<lambda>(k, v). string_key k) ms" "distinct (map (\<lambda>(k, v). key_name k) ms)"
    using YMapping.prems by (auto simp: list_all_iff)
  have IH: "untagged (remove_tags v) \<and> plain_json (remove_tags v) = plain_json v" if "(k, v) \<in> set ms" for k v
    using YMapping that by (auto simp: list_all_iff)
  have eq: "remove_tags (YMapping ms) = YMapping (stripped_members ms)"
    using remove_member_tags_fresh [OF keys, of "[]"] by simp
  have "distinct (map (\<lambda>(k, v). key_name k) (stripped_members ms))"
    using keys(2) by (simp add: stripped_members_def comp_def split_def)
  moreover have "list_all (\<lambda>(k, v). k = YString (key_name k) \<and> untagged v) (stripped_members ms)"
    using IH by (auto simp: stripped_members_def list_all_iff)
  moreover have "map (\<lambda>(k, v). (key_name k, plain_json v)) (stripped_members ms)
      = map (\<lambda>(k, v). (key_name k, plain_json v)) ms"
    using IH by (auto simp: stripped_members_def)
  ultimately show ?case
    unfolding eq by simp
qed (auto simp: list_all_iff)

subsection \<open>The derived paths\<close>

text \<open>
  Where the marked nodes of a tree are, as the tokens that lead to them: member names and \<open>[i]\<close>. A
  JSONPath is \<open>$\<close> and the tokens, each after a dot.
\<close>

definition own_mark :: "yaml \<Rightarrow> string list list" where
  "own_mark y = (if is_tagged y then [[]] else [])"

function (sequential) marks :: "yaml \<Rightarrow> string list list"
  and marks_of_members :: "(yaml \<times> yaml) list \<Rightarrow> string list list"
  and marks_of_elements :: "nat \<Rightarrow> yaml list \<Rightarrow> string list list"
where
  "marks (YMapping ms) = marks_of_members ms"
| "marks (YSequence vs) = marks_of_elements 0 vs"
| "marks (YTagged tag v) = marks v"
| "marks v = []"
| "marks_of_members [] = []"
| "marks_of_members ((k, v) # ms) =
     (if is_tagged k then [[key_name k]] else []) @ map ((#) (key_name k)) (own_mark v @ marks v) @ marks_of_members ms"
| "marks_of_elements index [] = []"
| "marks_of_elements index (v # vs) =
     map ((#) (index_key index)) (own_mark v @ marks v) @ marks_of_elements (Suc index) vs"
  by pat_completeness auto
termination
  by (relation "measure (case_sum size
        (case_sum (\<lambda>ms. size_list (size_prod size size) ms) (\<lambda>(index, vs). size_list size vs)))") auto

definition dotted :: "string list \<Rightarrow> string" where
  "dotted ts = concat (map ((#) (CHR ''.'')) ts)"

lemma dotted_simps [simp]: "dotted [] = []" "dotted (t # ts) = CHR ''.'' # t @ dotted ts"
  by (simp_all add: dotted_def)

lemma dotted_join: "ts \<noteq> [] \<Longrightarrow> dotted ts = CHR ''.'' # join ''.'' ts"
  by (induction "''.''" ts rule: join.induct) auto

lemma generated_paths:
  "well_marked y \<Longrightarrow> p \<noteq> [] \<Longrightarrow>
     generate_jsonpath_from_tagged_values y p = Done (map (\<lambda>ts. p @ dotted ts) (own_mark y @ marks y))"
  "list_all (\<lambda>(k, v). string_key k \<and> well_marked v) ms \<Longrightarrow> p \<noteq> [] \<Longrightarrow>
     jsonpaths_of_members ms p = Done (map (\<lambda>ts. p @ dotted ts) (marks_of_members ms))"
  "list_all well_marked vs \<Longrightarrow> p \<noteq> [] \<Longrightarrow>
     jsonpaths_of_elements index vs p = Done (map (\<lambda>ts. p @ dotted ts) (marks_of_elements index vs))"
proof (induction y p and ms p and index vs p
    rule: generate_jsonpath_from_tagged_values_jsonpaths_of_members_jsonpaths_of_elements.induct)
  case (1 ms p)
  then show ?case by (auto simp: own_mark_def start_path_def list_all_iff)
next
  case (2 vs p)
  then show ?case by (simp add: own_mark_def start_path_def)
next
  case (3 tag v p)
  then show ?case
    by (cases v) (auto simp: own_mark_def start_path_def)
next
  case (6 key v ms p)
  then have "string_key key" and v: "well_marked v" and ms: "list_all (\<lambda>(k, v). string_key k \<and> well_marked v) ms" by auto
  from this(1) obtain s where s: "key = YString s \<or> (\<exists>tag. key = YTagged tag (YString s))" by (auto simp: string_key_def)
  have val: "generate_jsonpath_from_tagged_values v (p @ ''.'' @ s)
      = Done (map (\<lambda>ts. (p @ ''.'' @ s) @ dotted ts) (own_mark v @ marks v))"
    using s 6 v by auto
  have rest: "jsonpaths_of_members ms p = Done (map (\<lambda>ts. p @ dotted ts) (marks_of_members ms))"
    using s "6.IH"(3) [OF _ ms "6.prems"(2)] by (auto simp: val [simplified])
  show ?case
    using s by (auto simp: val [simplified] rest comp_def)
next
  case (8 index v vs p)
  then show ?case by (auto simp: comp_def index_key_def)
qed (auto simp: own_mark_def)

lemma marks_of_members_nonempty: "ts \<in> set (marks_of_members ms) \<Longrightarrow> ts \<noteq> []"
  by (induction ms) (auto split: if_splits)

definition path_text :: "string list \<Rightarrow> string" where
  "path_text ts = join ''.'' ts"

text \<open>The strategy of the tool: the derived paths, as \<open>finalize_input\<close> leaves them.\<close>

lemma tool_strategy:
  assumes "well_marked (YMapping ms)"
  obtains paths where "sd_claims_to_jsonpath (YMapping ms) = Done paths"
    "finalize_input (Custom paths) = Ok (Custom (map path_text (marks_of_members ms)))"
proof -
  have "jsonpaths_of_members ms ''$'' = Done (map (\<lambda>ts. ''$'' @ dotted ts) (marks_of_members ms))"
    by (rule generated_paths(2)) (use assms in \<open>auto simp: list_all_iff\<close>)
  then have "sd_claims_to_jsonpath (YMapping ms) = Done (map (\<lambda>ts. ''$'' @ dotted ts) (marks_of_members ms))"
    by (simp add: sd_claims_to_jsonpath_def start_path_def)
  moreover have "map (\<lambda>ts. ''$'' @ dotted ts) (marks_of_members ms)
      = map ((@) ''$.'') (map path_text (marks_of_members ms))"
    using marks_of_members_nonempty [of _ ms] by (auto simp: path_text_def dotted_join)
  ultimately show ?thesis
    using that finalize_input_Custom by metis
qed

subsection \<open>Paths and tokens\<close>

definition path_token :: "string \<Rightarrow> bool" where
  "path_token t \<longleftrightarrow> clean_name t \<or> (\<exists>i. t = index_key i)"

definition token_lists :: "string list set \<Rightarrow> bool" where
  "token_lists L \<longleftrightarrow> (\<forall>ts \<in> L. ts \<noteq> [] \<and> list_all path_token ts)"

text \<open>What the locations \<open>L\<close> leave below the token \<open>k\<close>.\<close>

definition below :: "string \<Rightarrow> string list set \<Rightarrow> string list set" where
  "below k L = {ts. ts \<noteq> [] \<and> k # ts \<in> L}"

lemma index_key_chars:
  "CHR ''.'' \<notin> set (index_key i)" "CHR ''['' \<notin> set (tl (index_key i))" "index_key i \<noteq> []"
  using dec_digits [of _ i] by (fastforce simp: index_key_def byte_def)+

lemma path_token_no_dot: "path_token t \<Longrightarrow> CHR ''.'' \<notin> set t"
  by (auto simp: path_token_def clean_name_def index_key_chars)

lemma path_token_bracket: "path_token (k @ CHR ''['' # r) \<Longrightarrow> k = []"
proof -
  assume t: "path_token (k @ CHR ''['' # r)"
  then obtain i where "k @ CHR ''['' # r = index_key i"
    by (auto simp: path_token_def clean_name_def)
  then have "CHR ''['' \<notin> set (tl (k @ CHR ''['' # r))"
    using index_key_chars(2) [of i] by metis
  then show "k = []" by (cases k) auto
qed

lemma path_token_nonempty: "path_token t \<Longrightarrow> t \<noteq> []"
  unfolding path_token_def clean_name_def using index_key_chars(3) by metis

lemma split_path_text: "ts \<noteq> [] \<Longrightarrow> list_all path_token ts \<Longrightarrow> split_on (CHR ''.'') (path_text ts) = ts"
  unfolding path_text_def by (rule split_on_join) (auto simp: list_all_iff path_token_no_dot)

lemma path_text_Cons: "ts \<noteq> [] \<Longrightarrow> path_text (t # ts) = t @ CHR ''.'' # path_text ts"
  by (cases ts) (simp_all add: path_text_def)

lemma sd_for_token:
  assumes "token_lists L" and "set ps = path_text ` L" and "path_token k"
  shows "sd_for_key (Custom ps) k \<longleftrightarrow> [k] \<in> L"
proof
  assume "sd_for_key (Custom ps) k"
  then obtain ts where ts: "ts \<in> L" "k = path_text ts" using assms(2) by auto
  from ts(1) assms(1) have "split_on (CHR ''.'') (path_text ts) = ts"
    by (intro split_path_text) (simp_all add: token_lists_def)
  moreover have "split_on (CHR ''.'') k = [k]"
    by (rule split_on_none [OF path_token_no_dot [OF assms(3)]])
  ultimately have "ts = [k]" using ts(2) by metis
  with ts(1) show "[k] \<in> L" by simp
next
  assume "[k] \<in> L"
  then have "path_text [k] \<in> set ps" unfolding assms(2) by (rule imageI)
  then show "sd_for_key (Custom ps) k" by (simp add: path_text_def)
qed

lemma next_token:
  assumes L: "token_lists L" and ps: "set ps = path_text ` L" and k: "path_token k"
  obtains ps' where "next_level (Custom ps) k = Custom ps'" "set ps' = path_text ` below k L" "token_lists (below k L)"
proof
  show "next_level (Custom ps) k = Custom (List.map_filter (next_path k) ps)" by simp
  show "token_lists (below k L)" using L by (force simp: token_lists_def below_def)
  have mf: "rest \<in> set (List.map_filter (next_path k) ps) \<longleftrightarrow> (\<exists>p \<in> set ps. next_path k p = Some rest)" for rest
    by (induction ps) (auto simp: List.map_filter_simps split: option.split)
  have "next_path k (path_text ts) = Some rest \<longleftrightarrow> (\<exists>us. us \<noteq> [] \<and> ts = k # us \<and> rest = path_text us)"
    if ts: "ts \<in> L" for ts rest
  proof
    assume "next_path k (path_text ts) = Some rest"
    then consider "path_text ts = k @ CHR ''.'' # rest" | r where "path_text ts = k @ CHR ''['' # r"
      by (auto simp: next_path_Some)
    then show "\<exists>us. us \<noteq> [] \<and> ts = k # us \<and> rest = path_text us"
    proof cases
      case 1
      from ts L have "split_on (CHR ''.'') (path_text ts) = ts"
        by (intro split_path_text) (simp_all add: token_lists_def)
      then have "ts = k # split_on (CHR ''.'') rest"
        using split_on_append [OF path_token_no_dot [OF k], of rest] by (simp add: 1)
      then show ?thesis by (intro exI [of _ "split_on (CHR ''.'') rest"]) (simp add: path_text_def join_split_on)
    next
      case 2
      obtain t us where tu: "ts = t # us" "path_token t" "list_all path_token us"
        using L ts by (cases ts) (auto simp: token_lists_def)
      have "\<exists>r'. t = k @ CHR ''['' # r'"
      proof (cases "us = []")
        case True
        then show ?thesis using 2 by (simp add: tu path_text_def)
      next
        case False
        then have e: "t @ CHR ''.'' # path_text us = k @ CHR ''['' # r" using 2 by (simp add: tu path_text_Cons)
        then show ?thesis
          using path_token_no_dot [OF k] by (auto simp: append_eq_append_conv2 Cons_eq_append_conv append_eq_Cons_conv)
      qed
      then have "k = []" using path_token_bracket tu(2) by blast
      with path_token_nonempty [OF k] show ?thesis by simp
    qed
  next
    assume "\<exists>us. us \<noteq> [] \<and> ts = k # us \<and> rest = path_text us"
    then show "next_path k (path_text ts) = Some rest"
      by (auto simp: next_path_Some path_text_Cons)
  qed
  then show "set (List.map_filter (next_path k) ps) = path_text ` below k L"
    unfolding set_eq_iff mf ps below_def by (auto simp: image_iff Bex_def)
qed

subsection \<open>Concealment by tags\<close>

function (sequential) tagged_value ::
      "'k externals \<Rightarrow> 'r random_source \<Rightarrow> bool \<Rightarrow> yaml \<Rightarrow> 'r \<Rightarrow> json \<times> disclosure list \<times> 'r"
  and tagged_elements ::
      "'k externals \<Rightarrow> 'r random_source \<Rightarrow> bool \<Rightarrow> yaml list \<Rightarrow> 'r \<Rightarrow> json list \<times> disclosure list \<times> 'r"
  and tagged_members ::
      "'k externals \<Rightarrow> 'r random_source \<Rightarrow> bool \<Rightarrow> json_map \<Rightarrow> (yaml \<times> yaml) list \<Rightarrow> 'r
         \<Rightarrow> json_map \<times> string list \<times> disclosure list \<times> 'r"
where
  "tagged_value X R decoys (YSequence vs) r =
     (case tagged_elements X R decoys vs r of (outs, ds, r') \<Rightarrow> (Array outs, ds, r'))"
| "tagged_value X R decoys (YMapping ms) r =
     (case tagged_members X R decoys (map_insert SD_DIGESTS_KEY Null []) ms r of
        (claims, digests, ds, r1) \<Rightarrow>
          (case direct_decoys X R decoys r1 of (decoy_digests, r2) \<Rightarrow>
             (finish_object claims (digests @ decoy_digests), ds, r2)))"
| "tagged_value X R decoys (YTagged tag v) r = tagged_value X R decoys v r"
| "tagged_value X R decoys v r = (plain_json v, [], r)"
| "tagged_elements X R decoys [] r = ([], [], r)"
| "tagged_elements X R decoys (v # vs) r =
     (case tagged_value X R decoys v r of (out, ds, r1) \<Rightarrow>
      if is_tagged v
      then case disclosure_salt R r1 of (salt, r2) \<Rightarrow>
           (let d = new_with_salt X None out salt
            in case tagged_elements X R decoys vs r2 of (outs, ds', r3) \<Rightarrow>
               (placeholder (hash d) # outs, ds @ d # ds', r3))
      else case tagged_elements X R decoys vs r1 of (outs, ds', r3) \<Rightarrow> (out # outs, ds @ ds', r3))"
| "tagged_members X R decoys claims [] r = (claims, [], [], r)"
| "tagged_members X R decoys claims ((k, v) # ms) r =
     (case tagged_value X R decoys v r of (out, ds, r1) \<Rightarrow>
      if marked (k, v)
      then case disclosure_salt R r1 of (salt, r2) \<Rightarrow>
           (let d = new_with_salt X (Some (key_name k)) out salt
            in case tagged_members X R decoys claims ms r2 of (claims', digests, ds', r3) \<Rightarrow>
               (claims', hash d # digests, ds @ d # ds', r3))
      else case tagged_members X R decoys (map_insert (key_name k) out claims) ms r1 of
             (claims', digests, ds', r3) \<Rightarrow> (claims', digests, ds @ ds', r3))"
  by pat_completeness auto
termination
  by (relation "measure (case_sum (\<lambda>(X, R, decoys, v, r). size v)
        (case_sum (\<lambda>(X, R, decoys, vs, r). size_list size vs)
          (\<lambda>(X, R, decoys, claims, ms, r). size_list (size_prod size size) ms)))") auto

lemma marks_nonempty [simp]:
  "[] \<notin> set (marks y)" "[] \<notin> set (marks_of_members ms)" "[] \<notin> set (marks_of_elements i vs)"
  by (induction y and ms and i vs rule: marks_marks_of_members_marks_of_elements.induct) (auto split: if_splits)

lemma marks_of_members_iff:
  "n # ts \<in> set (marks_of_members ms) \<longleftrightarrow>
     (\<exists>(k, v) \<in> set ms. key_name k = n \<and> (ts = [] \<and> marked (k, v) \<or> ts \<in> set (marks v)))"
proof (induction ms)
  case (Cons p ms)
  then show ?case
    by (cases p) (auto simp: marked_def own_mark_def split: if_splits)
qed simp

lemma index_key_inj [simp]: "index_key i = index_key j \<longleftrightarrow> i = j"
  by (auto simp: index_key_def)

lemma marks_of_elements_iff:
  "n # ts \<in> set (marks_of_elements i vs) \<longleftrightarrow>
     (\<exists>j < length vs. n = index_key (i + j) \<and> (ts = [] \<and> is_tagged (vs ! j) \<or> ts \<in> set (marks (vs ! j))))"
proof (induction vs arbitrary: i)
  case (Cons v vs)
  have shift: "(\<exists>j < length (v # vs). P j) \<longleftrightarrow> P 0 \<or> (\<exists>j < length vs. P (Suc j))" for P
    using less_Suc_eq_0_disj by auto
  show ?case
    unfolding shift by (auto simp: own_mark_def Cons.IH)
qed simp

lemma marks_tokens:
  "well_marked y \<Longrightarrow> token_lists (set (marks y))"
  "list_all (\<lambda>(k, v). clean_name (key_name k) \<and> well_marked v) ms \<Longrightarrow> token_lists (set (marks_of_members ms))"
  "list_all well_marked vs \<Longrightarrow> token_lists (set (marks_of_elements i vs))"
proof (induction y and ms and i vs rule: marks_marks_of_members_marks_of_elements.induct)
  case (1 ms)
  then show ?case by (auto simp: list_all_iff)
qed (auto simp: token_lists_def path_token_def own_mark_def split: if_splits)

lemma below_members:
  assumes "distinct (map (\<lambda>(k, v). key_name k) ms)" and "(k, v) \<in> set ms"
  shows "[key_name k] \<in> set (marks_of_members ms) \<longleftrightarrow> marked (k, v)"
    and "below (key_name k) (set (marks_of_members ms)) = set (marks v)"
proof -
  have uniq: "p = (k, v)" if "p \<in> set ms" "key_name (fst p) = key_name k" for p
  proof -
    have "inj_on (\<lambda>(k, v). key_name k) (set ms)" using assms(1) by (simp add: distinct_map)
    from inj_onD [OF this, of p "(k, v)"] that assms(2) show ?thesis by (simp add: split_def)
  qed
  have pick: "(\<exists>p \<in> set ms. key_name (fst p) = key_name k \<and> Q p) \<longleftrightarrow> Q (k, v)" for Q
    using assms(2) uniq by (metis fst_conv)
  show "[key_name k] \<in> set (marks_of_members ms) \<longleftrightarrow> marked (k, v)"
    unfolding marks_of_members_iff split_def pick by simp
  show "below (key_name k) (set (marks_of_members ms)) = set (marks v)"
    unfolding below_def marks_of_members_iff split_def pick using marks_nonempty(1) [of v] by (auto simp del: marks_nonempty)
qed

lemma below_elements:
  assumes "j < length vs"
  shows "[index_key (i + j)] \<in> set (marks_of_elements i vs) \<longleftrightarrow> is_tagged (vs ! j)"
    and "below (index_key (i + j)) (set (marks_of_elements i vs)) = set (marks (vs ! j))"
  using assms by (auto simp: below_def marks_of_elements_iff)

text \<open>\<open>strategy_of L\<close>: a custom strategy for the locations \<open>L\<close>.\<close>

definition strategy_for :: "string list set \<Rightarrow> strategy \<Rightarrow> bool" where
  "strategy_for L strat \<longleftrightarrow> token_lists L \<and> (\<exists>ps. strat = Custom ps \<and> set ps = path_text ` L)"

lemma strategy_for_key: "strategy_for L strat \<Longrightarrow> path_token k \<Longrightarrow> sd_for_key strat k \<longleftrightarrow> [k] \<in> L"
  by (auto simp only: strategy_for_def sd_for_token)

lemma strategy_for_next: "strategy_for L strat \<Longrightarrow> path_token k \<Longrightarrow> strategy_for (below k L) (next_level strat k)"
  unfolding strategy_for_def using next_token by metis

lemma tagged_concealment:
  "well_marked y \<Longrightarrow> strategy_for (set (marks y)) strat \<Longrightarrow>
     direct_value X R decoys (plain_json y) strat r = tagged_value X R decoys y r"
  "list_all well_marked vs \<Longrightarrow> token_lists L \<Longrightarrow> strategy_for L strat \<Longrightarrow>
     (\<And>j. j < length vs \<Longrightarrow> ([index_key (i + j)] \<in> L \<longleftrightarrow> is_tagged (vs ! j)) \<and>
        below (index_key (i + j)) L = set (marks (vs ! j))) \<Longrightarrow>
     direct_array X R decoys i (map plain_json vs) strat r = tagged_elements X R decoys vs r"
  "list_all (\<lambda>(k, v). clean_name (key_name k) \<and> well_marked v) ms \<Longrightarrow> token_lists L \<Longrightarrow> strategy_for L strat \<Longrightarrow>
     (\<And>k v. (k, v) \<in> set ms \<Longrightarrow> ([key_name k] \<in> L \<longleftrightarrow> marked (k, v)) \<and> below (key_name k) L = set (marks v)) \<Longrightarrow>
     direct_object X R decoys claims (plain_members ms) strat r = tagged_members X R decoys claims ms r"
proof (induction X R decoys y r and X R decoys vs r and X R decoys claims ms r arbitrary: strat and strat i L and strat L
    rule: tagged_value_tagged_elements_tagged_members.induct)
  case (1 X R decoys vs r)
  then have "direct_array X R decoys 0 (map plain_json vs) strat r = tagged_elements X R decoys vs r"
    using below_elements [of _ vs 0] by (intro "1.IH" [of "set (marks (YSequence vs))"]) (auto simp: strategy_for_def)
  then show ?case by simp
next
  case (2 X R decoys ms r)
  have "direct_object X R decoys (map_insert SD_DIGESTS_KEY Null []) (plain_members ms) strat r
      = tagged_members X R decoys (map_insert SD_DIGESTS_KEY Null []) ms r"
    using 2 below_members [of ms]
    by (intro "2.IH" [of "set (marks (YMapping ms))"]) (auto simp: strategy_for_def list_all_iff)
  then show ?case by (simp add: plain_members_def split: prod.split)
next
  case (6 X R decoys v vs r)
  let ?k = "index_key i"
  have k: "path_token ?k" by (auto simp: path_token_def)
  have here: "[?k] \<in> L \<longleftrightarrow> is_tagged v" "below ?k L = set (marks v)"
    using "6.prems"(4) [of 0] by simp_all
  have v: "direct_value X R decoys (plain_json v) (next_level strat ?k) r = tagged_value X R decoys v r"
    using "6.prems" strategy_for_next [OF "6.prems"(3) k] by (intro "6.IH"(1)) (simp_all add: here)
  have sd: "sd_for_key strat ?k \<longleftrightarrow> is_tagged v"
    using strategy_for_key [OF "6.prems"(3) k] here by simp
  have later: "([index_key (Suc i + j)] \<in> L \<longleftrightarrow> is_tagged (vs ! j)) \<and> below (index_key (Suc i + j)) L = set (marks (vs ! j))"
    if "j < length vs" for j
    using "6.prems"(4) [of "Suc j"] that by simp
  show ?case
    using "6.IH"(2) [OF _ _ _ _ _ _ "6.prems"(2,3) later] "6.IH"(3) [OF _ _ _ _ "6.prems"(2,3) later] "6.prems"(1)
    by (auto simp: v sd Let_def split: prod.split)
next
  case (8 X R decoys claims k v ms r)
  let ?k = "key_name k"
  have k: "path_token ?k" using "8.prems"(1) by (simp add: path_token_def)
  have here: "[?k] \<in> L \<longleftrightarrow> marked (k, v)" "below ?k L = set (marks v)"
    using "8.prems"(4) [of k v] by simp_all
  have v: "direct_value X R decoys (plain_json v) (next_level strat ?k) r = tagged_value X R decoys v r"
    using "8.prems" strategy_for_next [OF "8.prems"(3) k] by (intro "8.IH"(1)) (simp_all add: here)
  have sd: "sd_for_key strat ?k \<longleftrightarrow> marked (k, v)"
    using strategy_for_key [OF "8.prems"(3) k] here by simp
  have later: "([key_name k'] \<in> L \<longleftrightarrow> marked (k', v')) \<and> below (key_name k') L = set (marks v')"
    if "(k', v') \<in> set ms" for k' v'
    using "8.prems"(4) [of k' v'] that by simp
  show ?case
    using "8.IH"(2) [OF _ _ _ _ _ _ "8.prems"(2,3) later] "8.IH"(3) [OF _ _ _ _ "8.prems"(2,3) later] "8.prems"(1)
    by (auto simp: v sd plain_members_def Let_def split: prod.split)
qed (auto simp: plain_members_def)

end
