(* ===== verification/Interop_Payload_Properties.thy ===== *)
theory Interop_Payload_Properties
  imports Interop_Paths Issuer_Properties
begin

text \<open>
  What the interoperability tool compares: the payload it reads back from a credential, what removing
  the decoy digests does to it and where it does nothing, and what the respacing of the feature
  \<open>mock_salts\<close> does to a disclosed string.
\<close>

subsection \<open>Reading a payload back\<close>

definition base64_nonempty :: "'k externals \<Rightarrow> bool" where
  "base64_nonempty X \<longleftrightarrow> (\<forall>s. s \<noteq> [] \<longrightarrow> base64_encode X s \<noteq> [])"

text \<open>The tool's own types read the members they name from what the crate serialized.\<close>

definition mirror_of_header :: "unprotected_header \<Rightarrow> mirror_header" where
  "mirror_of_header h = \<lparr>mh_disclosures = hdr_disclosures h\<rparr>"

definition mirrors :: "'k externals \<Rightarrow> ('k, 'e) interop \<Rightarrow> serialization_format \<Rightarrow> bool" where
  "mirrors X J fmt \<longleftrightarrow>
     (case fmt of
        Compact \<Rightarrow> True
      | FlattenedJson \<Rightarrow> \<forall>j s. flattened_to_string X j = Inr s \<longrightarrow>
          flattened_mirror_from_str J s
            = Inr \<lparr>fm_payload = fj_payload j, fm_header = mirror_of_header (fj_header j)\<rparr>
      | GeneralJson \<Rightarrow> \<forall>j s. general_to_string X j = Inr s \<longrightarrow>
          general_mirror_from_str J s
            = Inr \<lparr>gm_payload = gj_payload j,
                gm_signatures = map (\<lambda>sg. \<lparr>gms_header = mirror_of_header (gs_header sg)\<rparr>) (gj_signatures j)\<rparr>)"

lemma made_nonempty: "made X ds \<Longrightarrow> base64_nonempty X \<Longrightarrow> d \<in> set ds \<Longrightarrow> raw_b64 d \<noteq> []"
  by (auto simp: made_def base64_nonempty_def new_with_salt_sel base64url_encode_def disclosure_data_def
      split: option.split)

lemma completed_reads_back:
  assumes p: "prepared_from X alg_name options m concealed ds p" and made: "made X ds"
    and X: "base64_alphabet X" "base64_inverse X" "base64_nonempty X"
    and fin: "complete_encoded_signature X p (base64_encode X sig) = Ok sd_jwt"
    and payload: "prep_payload p = base64_encode X text" "json_from_slice X text = Inr v"
    and J: "mirrors X J (opt_serialization_format options)"
  shows "parse_sdjwt_payload X J sd_jwt (opt_serialization_format options) remove_decoy =
     (if remove_decoy then remove_decoy_items (digests_of X (map raw_b64 ds)) v else Done v)"
proof -
  from p obtain header_text payload_text where q: "prep_disclosures p = map raw_b64 ds"
    "prep_signing_input p = base64_encode X header_text @ ''.'' @ base64_encode X payload_text"
    "prep_payload p = base64_encode X payload_text" "prep_serialization_format p = opt_serialization_format options"
    by (auto simp: prepared_from_def)
  have decode: "base64url_decode X (prep_payload p) = Ok text"
    using X(2) by (simp add: payload(1) base64url_decode_def base64_inverse_def)
  show ?thesis
  proof (cases "opt_serialization_format options")
    case FlattenedJson
    then show ?thesis
      using fin J by (auto simp: complete_encoded_signature_def q(1,4) mirrors_def parse_sdjwt_payload_def
          parse_payload_flattened_json_def decode_payload_def decode payload(2) mirror_of_header_def no_key_binding_def)
  next
    case GeneralJson
    then show ?thesis
      using fin J by (auto simp: complete_encoded_signature_def q(1,4) mirrors_def parse_sdjwt_payload_def
          parse_payload_general_json_def decode_payload_def decode payload(2) mirror_of_header_def no_key_binding_def)
  next
    case Compact
    let ?token = "prep_signing_input p @ ''.'' @ base64_encode X sig"
    have token: "?token = jwt_of_parts (base64_encode X header_text) (base64_encode X payload_text) (base64_encode X sig)"
      by (simp add: q(2) jwt_of_parts_def)
    have parts: "split_on (CHR ''.'') ?token = [base64_encode X header_text, base64_encode X payload_text, base64_encode X sig]"
      unfolding token by (intro split_jwt_of_parts base64_no_dot [OF X(1)])
    have free: "CHR ''~'' \<notin> set d" if "d \<in> set (?token # map raw_b64 ds @ [[]])" for d
      using that by (auto dest!: made_raw [OF made] simp: q(2) base64_no_tilde [OF X(1)])
    have "sd_jwt = join ''~'' (?token # map raw_b64 ds @ [[]])"
      using fin join_snoc_empty [of "?token # map raw_b64 ds" "''~''"] Compact
      by (simp add: complete_encoded_signature_def q(1,4) COMBINED_SERIALIZATION_FORMAT_SEPARATOR_def)
    then have "split_on (CHR ''~'') sd_jwt = ?token # map raw_b64 ds @ [[]]"
      using split_on_join [of "?token # map raw_b64 ds @ [[]]", OF _ free] by simp
    moreover have "filter (\<lambda>s. s \<noteq> []) (map raw_b64 ds) = map raw_b64 ds"
      using made_nonempty [OF made X(3)] by (simp add: filter_id_conv)
    ultimately have "filter (\<lambda>s. s \<noteq> []) (split_on (CHR ''~'') sd_jwt) = ?token # map raw_b64 ds"
      by simp
    then show ?thesis
      using decode q(3) by (simp add: Compact parse_sdjwt_payload_def parse_payload_compact_def
          parts [simplified] Let_def payload(2))
  qed
qed

text \<open>C27. What the tool compares is the payload that was signed. Reading a completed credential back, in
  any of the three serializations, gives the payload around the one-pass concealment of the claims,
  and with decoys removed what is left of it for the digests of the credential's own disclosures.
  The base64 alphabet has neither separator, and the text of the signed payload reads back as it.\<close>

theorem tool_reads_signed_payload:
  assumes "prepare_with_random_source par X host b alg_name (Object m) strat options R r = Ok (p, b', r')"
    and "complete X p sig key = Ok sd_jwt"
    and "base64_alphabet X" and "base64_inverse X" and "base64_nonempty X"
    and "\<And>text. map_to_vec X (signed_payload X R options m strat r) = Inr text \<Longrightarrow>
           json_from_slice X text = Inr (Object (signed_payload X R options m strat r))"
    and "mirrors X J (opt_serialization_format options)"
  shows "\<exists>strat' concealed ds. finalize_input strat = Ok strat' \<and>
     direct_value X R (opt_add_decoy_claims options) (Object (concealable_claims (opt_holder_key options) m)) strat' r
       = (Object concealed, ds, r') \<and> prep_disclosures p = map raw_b64 ds \<and>
     (let payload = Object (issued_payload concealed (revealed_claims (opt_holder_key options) m) (opt_holder_key options))
      in parse_sdjwt_payload X J sd_jwt (opt_serialization_format options) False = Done payload \<and>
         parse_sdjwt_payload X J sd_jwt (opt_serialization_format options) True
           = remove_decoy_items (digests_of X (prep_disclosures p)) payload)"
proof -
  from prepared_payload [OF assms(1)] obtain strat' concealed ds where
    f: "finalize_input strat = Ok strat'"
    and d: "direct_value X R (opt_add_decoy_claims options) (Object (concealable_claims (opt_holder_key options) m)) strat' r
      = (Object concealed, ds, r')"
    and p: "prepared_from X alg_name options m concealed ds p"
    and signed: "signed_payload X R options m strat r =
       issued_payload concealed (revealed_claims (opt_holder_key options) m) (opt_holder_key options)"
    by blast
  have made: "made X ds"
    using direct_made(1) [of X R "opt_add_decoy_claims options" _ strat' r] d by (metis fst_conv snd_conv)
  from p obtain payload_text where q: "prep_disclosures p = map raw_b64 ds" "prep_payload p = base64_encode X payload_text"
    "map_to_vec X (issued_payload concealed (revealed_claims (opt_holder_key options) m) (opt_holder_key options)) = Inr payload_text"
    by (auto simp: prepared_from_def)
  have "complete_encoded_signature X p (base64_encode X sig) = Ok sd_jwt"
    using assms(2) by (simp add: complete_Ok)
  from completed_reads_back [OF p made assms(3-5) this q(2) assms(6) [unfolded signed, OF q(3)] assms(7)] show ?thesis
    using f d q(1) by auto
qed

text \<open>Parameters of the tool for concrete inputs: every file is there and every key is usable.\<close>

definition sample_settings :: settings where
  "sample_settings =
     \<lparr>st_identifiers = \<lparr>id_issuer = ''i'', id_verifier = ''v''\<rparr>,
      st_key_settings = \<lparr>ks_key_size = 256, ks_kty = ''EC'',
        ks_issuer_key = \<lparr>key_kty = ''EC'', key_d = [], key_crv = [], key_x = [], key_y = []\<rparr>,
        ks_holder_key = YNull\<rparr>,
      st_key_binding_nonce = ''n'', st_expiry_seconds = None, st_random_seed = None, st_iat = Some 1, st_exp = Some 2\<rparr>"

definition sample_interop :: "(unit, unit) interop" where
  "sample_interop =
     \<lparr>flattened_mirror_from_str = (\<lambda>s. Inl ''syntax''), general_mirror_from_str = (\<lambda>s. Inl ''syntax''),
      string_list_from_str = (\<lambda>s. Inr [s]),
      yaml_to_json = (\<lambda>y. if untagged y then Inr (plain_json y) else Inl ''tag''),
      yaml_to_jwk = (\<lambda>y. Inl ''jwk''), settings_from_yaml = (\<lambda>s. Inr sample_settings),
      specification_from_yaml = (\<lambda>s. Inr specification_default), file_text = (\<lambda>p. Inr p),
      file_bytes = (\<lambda>p. Inr p), dir_entries = (\<lambda>p. Inr []), path_is_dir = (\<lambda>p. True), path_exists = (\<lambda>p. True),
      decoding_key_from_pem = (\<lambda>s. Inr ()), encoding_key_from_pem = (\<lambda>s. Inr ()),
      jwt_sign = (\<lambda>input key a. Inr (letters_encode ''x''))\<rparr>"

lemma sample_nonempty: "base64_nonempty (sample_externals w)"
proof -
  have "s \<noteq> [] \<Longrightarrow> letters_encode s \<noteq> []" for s
    by (cases s) (simp_all add: letters_encode_def letter_pair_def)
  then show ?thesis by (simp add: base64_nonempty_def)
qed

theorem tool_reads_signed_payload_witness:
  "parse_sdjwt_payload issuer_X sample_interop issuer_presentation Compact False = Done (Object issuer_payload)"
proof -
  have reads: "json_from_slice issuer_X t =
      Inr (Object (signed_payload issuer_X sample_source issuer_options issuer_claims AllLevels ()))"
    if "map_to_vec issuer_X (signed_payload issuer_X sample_source issuer_options issuer_claims AllLevels ()) = Inr t" for t
    using that unfolding issuer_signs issuer_map_to_vec by (auto simp: sample_parse_4 sample_text_def sample_name_def)
  have fmt: "opt_serialization_format issuer_options = Compact" "opt_holder_key issuer_options = None"
    "opt_add_decoy_claims issuer_options = False"
    by (simp_all add: issuer_options_def)
  have "mirrors issuer_X sample_interop (opt_serialization_format issuer_options)" by (simp add: fmt mirrors_def)
  from tool_reads_signed_payload [OF issuer_prepares issuer_completes sample_base64 sample_nonempty reads this]
  obtain concealed ds where
    "direct_value issuer_X sample_source False (Object (concealable_claims None issuer_claims)) AllLevels ()
       = (Object concealed, ds, ())"
    "parse_sdjwt_payload issuer_X sample_interop issuer_presentation Compact False
       = Done (Object (issued_payload concealed (revealed_claims None issuer_claims) None))"
    unfolding fmt Let_def finalize_input.simps by auto
  then show ?thesis
    unfolding issuer_direct by (auto simp: issuer_payload)
qed

subsection \<open>Decoys\<close>

text \<open>
  \<open>decoys_added H v w\<close>: \<open>w\<close> is the object \<open>v\<close> with strings outside \<open>H\<close> put between the digests of its
  \<open>_sd\<close> members, in it and in the objects below it that no array is around.
\<close>

fun is_object :: "json \<Rightarrow> bool" where
  "is_object (Object m) = True"
| "is_object v = False"

definition digests_added :: "string set \<Rightarrow> json \<Rightarrow> json \<Rightarrow> bool" where
  "digests_added H v w \<longleftrightarrow>
     (\<exists>ds es fs. v = Array (map String ds) \<and> w = Array (map String fs) \<and> fs \<in> shuffles ds es \<and> set es \<inter> H = {})"

inductive decoys_added :: "string set \<Rightarrow> json \<Rightarrow> json \<Rightarrow> bool"
  and member_decoys_added :: "string set \<Rightarrow> string \<times> json \<Rightarrow> string \<times> json \<Rightarrow> bool" for H
where
  da_object: "list_all2 (member_decoys_added H) m m' \<Longrightarrow> decoys_added H (Object m) (Object m')"
| da_digests: "digests_added H v w \<Longrightarrow> member_decoys_added H (''_sd'', v) (''_sd'', w)"
| da_below: "k \<noteq> ''_sd'' \<Longrightarrow> decoys_added H v w \<Longrightarrow> member_decoys_added H (k, v) (k, w)"
| da_other: "k \<noteq> ''_sd'' \<Longrightarrow> \<not> is_object v \<Longrightarrow> member_decoys_added H (k, v) (k, v)"

text \<open>An object all of whose \<open>_sd\<close> members, outside arrays, list digests in \<open>H\<close> only.\<close>

fun decoy_free :: "string set \<Rightarrow> json \<Rightarrow> bool" where
  "decoy_free H (Object m) \<longleftrightarrow>
     list_all (\<lambda>(k, v). if k = ''_sd'' then \<exists>ds. v = Array (map String ds) \<and> set ds \<subseteq> H
                        else case v of Object m' \<Rightarrow> decoy_free H v | _ \<Rightarrow> True) m"
| "decoy_free H v \<longleftrightarrow> False"

text \<open>The shape of a payload: objects with distinct keys whose \<open>_sd\<close> is an array of strings.\<close>

fun digest_shape :: "json \<Rightarrow> bool" where
  "digest_shape (Object m) \<longleftrightarrow> distinct (map fst m) \<and>
     list_all (\<lambda>(k, v). if k = ''_sd'' then \<exists>ds. v = Array (map String ds)
                        else case v of Object m' \<Rightarrow> digest_shape v | _ \<Rightarrow> True) m"
| "digest_shape v \<longleftrightarrow> False"

lemma digests_added_filter:
  "fs \<in> shuffles ds es \<Longrightarrow> set ds \<subseteq> H \<Longrightarrow> set es \<inter> H = {} \<Longrightarrow> filter (\<lambda>d. d \<in> H) fs = ds"
proof -
  assume fs: "fs \<in> shuffles ds es" and H: "set ds \<subseteq> H" "set es \<inter> H = {}"
  have "filter (\<lambda>d. d \<in> H) fs \<in> shuffles (filter (\<lambda>d. d \<in> H) ds) (filter (\<lambda>d. d \<in> H) es)"
    using fs filter_shuffles [of "\<lambda>d. d \<in> H" ds es] by blast
  moreover have "filter (\<lambda>d. d \<in> H) ds = ds" "filter (\<lambda>d. d \<in> H) es = []"
    using H by (auto simp: filter_id_conv filter_empty_conv)
  ultimately show ?thesis by simp
qed

lemma keep_digests_filter: "keep_digests H (map String ds) = Done (map String (filter (\<lambda>d. d \<in> H) ds))"
  by (induction ds) auto

text \<open>Member by member: what removal makes is the one value that decoys can be added to.\<close>

definition member_free :: "string set \<Rightarrow> string \<times> json \<Rightarrow> bool" where
  "member_free H member \<longleftrightarrow>
     (if fst member = ''_sd'' then \<exists>ds. snd member = Array (map String ds) \<and> set ds \<subseteq> H
      else is_object (snd member) \<longrightarrow> decoy_free H (snd member))"

lemma decoy_free_members: "decoy_free H (Object m) \<longleftrightarrow> list_all (member_free H) m"
proof -
  have "member_free H (k, v) \<longleftrightarrow> (if k = ''_sd'' then \<exists>ds. v = Array (map String ds) \<and> set ds \<subseteq> H
      else case v of Object m' \<Rightarrow> decoy_free H v | _ \<Rightarrow> True)" for k v
    by (cases v) (simp_all add: member_free_def)
  then show ?thesis by (auto simp: list_all_iff)
qed

declare decoy_free.simps(1) [simp del]

definition removes :: "string set \<Rightarrow> string \<times> json \<Rightarrow> string \<times> json \<Rightarrow> bool" where
  "removes H w v \<longleftrightarrow> fst v = fst w \<and> remove_decoy_member H (fst w) (snd w) = Done (snd v) \<and>
     member_free H v \<and> member_decoys_added H v w \<and> (\<forall>v'. member_free H v' \<and> member_decoys_added H v' w \<longrightarrow> v' = v)"

inductive_cases member_addedE: "member_decoys_added H v (k, w)"
inductive_cases object_addedE: "decoys_added H v (Object m)"
inductive_cases added_scalarE:
  "decoys_added H v Null" "decoys_added H v (Bool b)" "decoys_added H v (Number n)" "decoys_added H v (String s)"
  "decoys_added H v (Array vs)"

lemma map_String_inj [simp]: "map String as = map String bs \<longleftrightarrow> as = bs"
  by (rule inj_map_eq_map) (simp add: inj_def)

lemma removes_digests: "removes H (''_sd'', Array (map String fs)) (''_sd'', Array (map String (filter (\<lambda>d. d \<in> H) fs)))"
proof -
  let ?kept = "filter (\<lambda>d. d \<in> H) fs" and ?others = "filter (\<lambda>d. d \<notin> H) fs"
  have "fs \<in> shuffles ?kept ?others" "set ?others \<inter> H = {}" by (auto simp: partition_in_shuffles)
  then have "digests_added H (Array (map String ?kept)) (Array (map String fs))"
    unfolding digests_added_def by blast
  moreover have "v' = (''_sd'', Array (map String ?kept))"
    if "member_free H v'" "member_decoys_added H v' (''_sd'', Array (map String fs))" for v'
  proof -
    from that(2) obtain v where v: "v' = (''_sd'', v)" "digests_added H v (Array (map String fs))"
      by (rule member_addedE) simp_all
    from v that(1) obtain ds es where "v = Array (map String ds)" "fs \<in> shuffles ds es" "set ds \<subseteq> H" "set es \<inter> H = {}"
      unfolding digests_added_def member_free_def by auto
    with digests_added_filter [of fs ds es H] v(1) show ?thesis by simp
  qed
  ultimately show ?thesis
    unfolding removes_def by (auto simp: keep_digests_filter member_free_def intro: da_digests)
qed

lemma removes_members:
  "list_all2 (removes H) m' m \<Longrightarrow> distinct (map fst m') \<Longrightarrow> (\<And>k. k \<in> fst ` set m' \<Longrightarrow> k \<notin> fst ` set acc) \<Longrightarrow>
     remove_decoy_members H acc m' = Done (acc @ m)"
proof (induction m' m arbitrary: acc rule: list_all2_induct)
  case (Cons w m' v m)
  obtain k x y where e: "w = (k, x)" "v = (k, y)" "remove_decoy_member H k x = Done y"
    using Cons.hyps(1) by (cases w; cases v) (simp add: removes_def del: remove_decoy_member.simps)
  have new: "map_insert k y acc = acc @ [(k, y)]"
    using Cons.prems(2) [of k] by (intro map_insert_new) (simp add: e)
  have "distinct (map fst m')" "\<And>k'. k' \<in> fst ` set m' \<Longrightarrow> k' \<notin> fst ` set (acc @ [(k, y)])"
    using Cons.prems(1) Cons.prems(2) by (auto simp: e)
  then have "remove_decoy_members H (acc @ [(k, y)]) m' = Done ((acc @ [(k, y)]) @ m)" by (rule Cons.IH)
  with new show ?case by (simp add: e del: remove_decoy_member.simps)
qed simp

lemma list_all2_unique:
  "list_all2 (\<lambda>w v. \<forall>v'. P v' \<and> R v' w \<longrightarrow> v' = v) m' m \<Longrightarrow> list_all P vs \<Longrightarrow> list_all2 R vs m' \<Longrightarrow> vs = m"
  by (induction m' m arbitrary: vs rule: list_all2_induct) (auto simp: list_all2_Cons2)

lemma removes_object:
  assumes "list_all2 (removes H) m' m" and "distinct (map fst m')"
  shows "remove_decoy_items H (Object m') = Done (Object m)" and "decoy_free H (Object m)"
    and "decoys_added H (Object m) (Object m')"
    and "decoy_free H q \<Longrightarrow> decoys_added H q (Object m') \<Longrightarrow> q = Object m"
proof -
  show "remove_decoy_items H (Object m') = Done (Object m)"
    using removes_members [OF assms, of "[]"] by simp
  show "decoy_free H (Object m)"
    unfolding decoy_free_members list_all_length using assms(1) by (simp add: list_all2_conv_all_nth removes_def)
  have "list_all2 (member_decoys_added H) m m'"
    using assms(1) by (simp add: list_all2_conv_all_nth removes_def)
  then show "decoys_added H (Object m) (Object m')" by (rule da_object)
  assume q: "decoy_free H q" "decoys_added H q (Object m')"
  from q(2) obtain vs where vs: "q = Object vs" "list_all2 (member_decoys_added H) vs m'"
    by (rule object_addedE) simp
  have "list_all2 (\<lambda>w v. \<forall>v'. member_free H v' \<and> member_decoys_added H v' w \<longrightarrow> v' = v) m' m"
    using assms(1) by (simp add: list_all2_conv_all_nth removes_def)
  from list_all2_unique [OF this _ vs(2)] q(1) show "q = Object m"
    unfolding vs(1) decoy_free_members by simp
qed

lemma removes_below:
  assumes "k \<noteq> ''_sd''" and "list_all2 (removes H) m' m" and "distinct (map fst m')"
  shows "removes H (k, Object m') (k, Object m)"
proof -
  note o = removes_object [OF assms(2,3)]
  have "v' = (k, Object m)" if "member_free H v'" "member_decoys_added H v' (k, Object m')" for v'
  proof -
    from that(2) obtain v where v: "v' = (k, v)" "decoys_added H v (Object m')"
      by (rule member_addedE) (use assms(1) in simp_all)
    from v(2) have "is_object v" by (rule object_addedE) simp
    with v(1) that(1) assms(1) have "decoy_free H v" by (simp add: member_free_def)
    with o(4) v show ?thesis by simp
  qed
  moreover have "remove_decoy_member H k (Object m') = Done (Object m)"
    using o(1) assms(1) by simp
  ultimately show ?thesis
    using da_below [OF assms(1) o(3)] o(2) assms(1) by (simp add: removes_def member_free_def del: remove_decoy_member.simps)
qed

lemma removes_other:
  assumes "k \<noteq> ''_sd''" and "\<not> is_object v"
  shows "removes H (k, v) (k, v)"
proof -
  have "v' = (k, v)" if "member_decoys_added H v' (k, v)" for v'
    using that assms by (cases v) (auto elim!: member_addedE elim: added_scalarE)
  moreover have "remove_decoy_member H k v = Done v" using assms by (cases v) simp_all
  ultimately show ?thesis
    using da_other [OF assms] assms by (auto simp: removes_def member_free_def)
qed

lemma list_all2_exists: "(\<And>w. w \<in> set ws \<Longrightarrow> \<exists>v. P w v) \<Longrightarrow> \<exists>vs. list_all2 P ws vs"
proof (induction ws)
  case (Cons w ws)
  obtain v where "P w v" using Cons.prems [of w] by auto
  moreover obtain vs where "list_all2 P ws vs" using Cons.IH Cons.prems by auto
  ultimately have "list_all2 P (w # ws) (v # vs)" by simp
  then show ?case by blast
qed (auto intro: exI [of _ "[]"])

lemma shaped_removes: "digest_shape (Object m') \<Longrightarrow> \<exists>m. list_all2 (removes H) m' m"
proof (induction "size (Object m')" arbitrary: m' rule: less_induct)
  case less
  have "\<exists>v. removes H w v" if w: "w \<in> set m'" for w
  proof -
    obtain k x where kx: "w = (k, x)" by (cases w)
    from less.prems w kx have shape: "if k = ''_sd'' then \<exists>ds. x = Array (map String ds)
        else case x of Object m'' \<Rightarrow> digest_shape x | _ \<Rightarrow> True"
      by (auto simp: list_all_iff)
    consider "k = ''_sd''" | m2 where "k \<noteq> ''_sd''" "x = Object m2" | "k \<noteq> ''_sd''" "\<not> is_object x"
      by (cases x) auto
    then show ?thesis
    proof cases
      case 1
      with shape removes_digests kx show ?thesis by auto
    next
      case 2
      have "size (Object m2) < size (Object m')"
        using w kx 2 size_list_estimation' [of w m' "size x" "size_prod (\<lambda>x. 0) size"] by simp
      with less.hyps [of m2] shape 2 obtain m3 where "list_all2 (removes H) m2 m3" by auto
      moreover have "distinct (map fst m2)" using shape 2 by simp
      ultimately show ?thesis using removes_below 2 kx by blast
    next
      case 3
      with removes_other kx show ?thesis by blast
    qed
  qed
  then show ?case by (rule list_all2_exists)
qed

text \<open>C29. Removing decoys is exact. For a payload whose objects have distinct keys and list strings under
  \<open>_sd\<close>, removal for the digests \<open>H\<close> returns the one value that lists no digest outside \<open>H\<close> and of
  which the payload is made by putting strings outside \<open>H\<close> between its digests: it takes out every
  decoy of the payload and of the objects in it, keeps the order of the other digests, and changes
  nothing else. So two payloads that differ in such decoys only become the same.\<close>

theorem decoys_removed_exactly:
  assumes "digest_shape payload"
  shows "\<exists>v. remove_decoy_items H payload = Done v \<and> decoy_free H v \<and> decoys_added H v payload \<and>
     (\<forall>w. decoy_free H w \<and> decoys_added H w payload \<longrightarrow> w = v)"
proof -
  from assms obtain m' where m': "payload = Object m'" by (cases payload) auto
  with assms shaped_removes obtain m where m: "list_all2 (removes H) m' m" by blast
  have "distinct (map fst m')" using assms m' by simp
  from removes_object [OF m this] m' show ?thesis by blast
qed

theorem decoys_removed_exactly_witness:
  "remove_decoy_items {''a''} (Object [(''_sd'', Array [String ''x'', String ''a'']), (''n'', Null)])
     = Done (Object [(''_sd'', Array [String ''a'']), (''n'', Null)])"
proof -
  have "\<exists>ds. [String ''x'', String ''a''] = map String ds" by (intro exI [of _ "[''x'', ''a'']"]) simp
  then have "digest_shape (Object [(''_sd'', Array [String ''x'', String ''a'']), (''n'', Null)])" by simp
  from decoys_removed_exactly [OF this, of "{''a''}"] show ?thesis by (auto simp: map_insert_def)
qed

text \<open>Decoys below an array stay. \<open>remove_decoy_items\<close> does not descend into arrays, so a decoy of an
  object in an array is compared as if it were a digest: two payloads that differ only in such a
  decoy are different to the tool, while the same two decoys in an object outside arrays are not.\<close>

definition compare_without_decoys :: "string set \<Rightarrow> json \<Rightarrow> json \<Rightarrow> unit outcome" where
  "compare_without_decoys H a b =
     obind (remove_decoy_items H a) (\<lambda>v. obind (remove_decoy_items H b) (compare_jwt_payloads v))"

theorem decoys_in_arrays_compared:
  assumes "decoy \<noteq> other" and "decoy \<notin> H" and "other \<notin> H" and "k \<noteq> ''_sd''"
  shows "compare_without_decoys H (Object [(k, Array [Object [(''_sd'', Array [String decoy])]])])
       (Object [(k, Array [Object [(''_sd'', Array [String other])]])])
     = Failed (tool_error_from_msg DataNotEqual ''JWT payloads are different'') \<and>
     compare_without_decoys H (Object [(k, Object [(''_sd'', Array [String decoy])])])
       (Object [(k, Object [(''_sd'', Array [String other])])]) = Done ()"
  using assms by (simp add: compare_without_decoys_def compare_jwt_payloads_def map_insert_def)

theorem decoys_in_arrays_compared_witness:
  "compare_without_decoys {} (Object [(''a'', Array [Object [(''_sd'', Array [String ''x''])]])])
     (Object [(''a'', Array [Object [(''_sd'', Array [String ''y''])]])])
     = Failed (tool_error_from_msg DataNotEqual ''JWT payloads are different'')"
  using decoys_in_arrays_compared [of "''x''" "''y''" "{}" "''a''"] by simp

subsection \<open>Respacing\<close>

lemma strip_prefix_absent: "p \<notin> set s \<Longrightarrow> strip_prefix (p # ps) s = None"
  by (cases s) auto

lemma replace_absent: "p \<notin> set s \<Longrightarrow> replace_all p ps to s = s"
proof (induction s)
  case (Cons c s)
  then show ?case using strip_prefix_absent [of p "c # s" ps] by simp
qed simp

lemma replace_one: "replace_all p [] to s = concat (map (\<lambda>c. if c = p then to else [c]) s)"
  by (induction s) auto

text \<open>A pattern that starts with a quote has no match in a quoted text without another quote whose
  second character is not that of the pattern.\<close>

lemma replace_quoted:
  assumes "quote \<notin> set s" and "CHR '':'' \<notin> set s"
  shows "replace_all quote (CHR '':'' # ps) to (quote # s @ [quote]) = quote # s @ [quote]"
proof -
  have tail: "replace_all quote (CHR '':'' # ps) to (s @ [quote]) = s @ [quote]"
    using assms(1)
  proof (induction s)
    case (Cons c s)
    then show ?case by simp
  qed simp
  have "strip_prefix (CHR '':'' # ps) (s @ [quote]) = None"
    using assms(2) by (cases s) (auto simp: quote_def)
  with tail show ?thesis by simp
qed

text \<open>The respacing of the feature \<open>mock_salts\<close> changes what is disclosed. The text of a string
  value without quotes and colons, as the serializer quotes it, gets a space after every comma
  inside the string, so a string with a comma is disclosed as another string.\<close>

theorem mock_spacing_changes_strings:
  assumes "build_mock_salts X" and "json_to_string X (String s) = quote # s @ [quote]"
    and "quote \<notin> set s" and "CHR '':'' \<notin> set s"
  shows "value_text X (String s)
       = quote # concat (map (\<lambda>c. if c = CHR '','' then '', '' else [c]) s) @ [quote] \<and>
     (CHR '','' \<in> set s \<longrightarrow> value_text X (String s) \<noteq> json_to_string X (String s))"
proof -
  let ?t = "concat (map (\<lambda>c. if c = CHR '','' then '', '' else [c]) s)"
  have brackets: "replace_all CHR '':'' ''['' '': ['' (quote # s @ [quote]) = quote # s @ [quote]"
    using assms(4) by (intro replace_absent) (auto simp: quote_def)
  have commas: "replace_all CHR '','' [] '', '' (quote # s @ [quote]) = quote # ?t @ [quote]"
    unfolding replace_one by (simp add: quote_def)
  have free: "quote \<notin> set ?t" "CHR '':'' \<notin> set ?t"
    using assms(3,4) by (auto simp: quote_def split: if_splits)
  have shown: "value_text X (String s) = quote # ?t @ [quote]"
    by (simp only: value_text_def mock_spacing_def assms(1,2) Let_def if_True brackets commas replace_quoted [OF free])
  have grows: "length ?t = length s + count_list s (CHR '','')"
    by (induction s) auto
  have "?t \<noteq> s" if "CHR '','' \<in> set s"
    using grows that count_list_zero_iff [of s "CHR '',''"] by (metis add_cancel_right_right)
  with shown assms(2) show ?thesis by auto
qed

definition comma_world :: sample_world where
  "comma_world = \<lparr>sw_texts = [(quote # ''a,b'' @ [quote], String ''a,b'')], sw_tokens = []\<rparr>"

theorem mock_spacing_changes_strings_witness:
  "value_text ((sample_externals comma_world)\<lparr>build_mock_salts := True\<rparr>) (String ''a,b'') = quote # ''a, b'' @ [quote]"
proof -
  let ?X = "(sample_externals comma_world)\<lparr>build_mock_salts := True\<rparr>"
  have "json_to_string ?X (String ''a,b'') = quote # ''a,b'' @ [quote]"
    by (simp add: sample_externals_def sample_print_def comma_world_def)
  from mock_spacing_changes_strings [OF _ this] show ?thesis by (simp add: quote_def)
qed

end
