(* ===== verification/Interop_Properties.thy ===== *)
theory Interop_Properties
  imports Interop_Payload_Properties
begin

text \<open>
  The properties of the interoperability tool and of the \<open>mock_salts\<close> feature it uses: what it
  conceals, the salts it needs, how it reads a credential back, and what its comparison ignores.
\<close>

subsection \<open>The queue of salts\<close>

text \<open>\<open>draws n st st'\<close>: from \<open>st\<close> to \<open>st'\<close> the source gave \<open>n\<close> salts, or ran out.\<close>

definition draws :: "nat \<Rightarrow> (string list \<times> 'g option) option \<Rightarrow> (string list \<times> 'g option) option \<Rightarrow> bool" where
  "draws n st st' \<longleftrightarrow>
     (case st of
        None \<Rightarrow> st' = None
      | Some (queue, rng) \<Rightarrow>
          if n \<le> length queue then \<exists>rng'. st' = Some (drop n queue, rng') else st' = None)"

lemma draws_refl: "draws 0 st st"
  by (auto simp: draws_def split: option.split)

lemma draws_trans: "draws m st st' \<Longrightarrow> draws n st' st'' \<Longrightarrow> draws (m + n) st st''"
  by (auto simp: draws_def add.commute split: option.splits if_splits)

lemma salt_draws:
  "disclosure_salt (mock_random_source X fill_bytes gen_range rng) st = (salt, st') \<Longrightarrow> draws 1 st st'"
  by (cases st; cases "fst (the st)")
    (auto simp: mock_random_source_def mock_disclosure_salt_def draws_def)

lemma decoy_salts_draw:
  "draw_decoys (mock_random_source X fill_bytes gen_range rng) n st = (salts, st') \<Longrightarrow> draws 0 st st'"
proof (induction n arbitrary: st salts)
  case (Suc n)
  let ?R = "mock_random_source X fill_bytes gen_range rng"
  obtain salt st1 where salt: "decoy_salt ?R st = (salt, st1)" by (rule prod.exhaust)
  then have "draws 0 st st1"
    by (auto simp: mock_random_source_def draws_def split: option.splits prod.splits)
  moreover from Suc.prems salt obtain salts' where "draw_decoys ?R n st1 = (salts', st')"
    by (auto split: prod.splits)
  from Suc.IH [OF this] have "draws 0 st1 st'" .
  ultimately show ?case using draws_trans [of 0 st st1 0 st'] by simp
qed (simp add: draws_refl)

lemma decoys_draw:
  "direct_decoys X' (mock_random_source X fill_bytes gen_range rng) decoys st = (digests, st') \<Longrightarrow> draws 0 st st'"
proof -
  let ?R = "mock_random_source X fill_bytes gen_range rng"
  assume d: "direct_decoys X' ?R decoys st = (digests, st')"
  obtain n st1 where n: "decoy_count ?R DECOY_MIN_ELEMENTS DECOY_MAX_ELEMENTS st = (n, st1)" by (rule prod.exhaust)
  then have "draws 0 st st1"
    by (auto simp: mock_random_source_def draws_def split: option.splits prod.splits)
  with d n show "draws 0 st st'"
    using draws_trans [of 0 st st1 0 st'] decoy_salts_draw [of X fill_bytes gen_range rng n st1]
    by (auto simp: direct_decoys_def draws_refl split: prod.splits if_splits)
qed

text \<open>The number of marked nodes of a tree.\<close>

function (sequential) mark_count :: "yaml \<Rightarrow> nat"
  and mark_count_elements :: "yaml list \<Rightarrow> nat"
  and mark_count_members :: "(yaml \<times> yaml) list \<Rightarrow> nat"
where
  "mark_count (YSequence vs) = mark_count_elements vs"
| "mark_count (YMapping ms) = mark_count_members ms"
| "mark_count (YTagged tag v) = mark_count v"
| "mark_count v = 0"
| "mark_count_elements [] = 0"
| "mark_count_elements (v # vs) = mark_count v + (if is_tagged v then 1 else 0) + mark_count_elements vs"
| "mark_count_members [] = 0"
| "mark_count_members ((k, v) # ms) = mark_count v + (if marked (k, v) then 1 else 0) + mark_count_members ms"
  by pat_completeness auto
termination
  by (relation "measure (case_sum size (case_sum (size_list size) (size_list (size_prod size size))))") auto

lemma tagged_draws:
  "R = mock_random_source X' fill_bytes gen_range rng \<Longrightarrow> tagged_value X R decoys y st = (out, ds, st') \<Longrightarrow>
     draws (length ds) st st' \<and> length ds = mark_count y"
  "R = mock_random_source X' fill_bytes gen_range rng \<Longrightarrow> tagged_elements X R decoys vs st = (outs, ds, st') \<Longrightarrow>
     draws (length ds) st st' \<and> length ds = mark_count_elements vs"
  "R = mock_random_source X' fill_bytes gen_range rng \<Longrightarrow> tagged_members X R decoys claims ms st = (claims', digests, ds, st') \<Longrightarrow>
     draws (length ds) st st' \<and> length ds = mark_count_members ms"
proof (induction X R decoys y st and X R decoys vs st and X R decoys claims ms st
    arbitrary: out ds st' and outs ds st' and claims' digests ds st'
    rule: tagged_value_tagged_elements_tagged_members.induct)
  case (2 X R decoys ms st)
  then show ?case
    using decoys_draw draws_trans by (fastforce split: prod.splits)
next
  case (6 X R decoys v vs st)
  obtain out1 ds1 st1 where v: "tagged_value X R decoys v st = (out1, ds1, st1)" by (metis prod_cases3)
  then have d1: "draws (length ds1) st st1" "length ds1 = mark_count v"
    using "6.IH"(1) [OF "6.prems"(1)] by auto
  show ?case
  proof (cases "is_tagged v")
    case True
    obtain salt st2 where s: "disclosure_salt R st1 = (salt, st2)" by (rule prod.exhaust)
    with "6.prems"(1) have d2: "draws 1 st1 st2" by (auto dest: salt_draws)
    obtain outs' ds' where vs: "tagged_elements X R decoys vs st2 = (outs', ds', st')"
      "ds = ds1 @ new_with_salt X None out1 salt # ds'"
      using "6.prems"(2) True v s by (auto simp: Let_def split: prod.splits)
    have d3: "draws (length ds') st2 st'" "length ds' = mark_count_elements vs"
      using "6.IH"(2) [OF v [symmetric] refl True s [symmetric] refl "6.prems"(1) vs(1)] by blast+
    from draws_trans [OF draws_trans [OF d1(1) d2] d3(1)] show ?thesis
      using True vs(2) d1 d3 by simp
  next
    case False
    obtain outs' ds' where vs: "tagged_elements X R decoys vs st1 = (outs', ds', st')" "ds = ds1 @ ds'"
      using "6.prems"(2) False v by (auto split: prod.splits)
    have d3: "draws (length ds') st1 st'" "length ds' = mark_count_elements vs"
      using "6.IH"(3) [OF v [symmetric] refl False "6.prems"(1) vs(1)] by blast+
    from draws_trans [OF d1(1) d3(1)] show ?thesis
      using False vs(2) d1 d3 by simp
  qed
next
  case (8 X R decoys claims k v ms st)
  obtain out1 ds1 st1 where v: "tagged_value X R decoys v st = (out1, ds1, st1)" by (metis prod_cases3)
  then have d1: "draws (length ds1) st st1" "length ds1 = mark_count v"
    using "8.IH"(1) [OF "8.prems"(1)] by auto
  show ?case
  proof (cases "marked (k, v)")
    case True
    obtain salt st2 where s: "disclosure_salt R st1 = (salt, st2)" by (rule prod.exhaust)
    with "8.prems"(1) have d2: "draws 1 st1 st2" by (auto dest: salt_draws)
    obtain digests' ds' where ms: "tagged_members X R decoys claims ms st2 = (claims', digests', ds', st')"
      "ds = ds1 @ new_with_salt X (Some (key_name k)) out1 salt # ds'"
      using "8.prems"(2) True v s by (auto simp: Let_def split: prod.splits)
    have d3: "draws (length ds') st2 st'" "length ds' = mark_count_members ms"
      using "8.IH"(2) [OF v [symmetric] refl True s [symmetric] refl "8.prems"(1) ms(1)] by blast+
    from draws_trans [OF draws_trans [OF d1(1) d2] d3(1)] show ?thesis
      using True ms(2) d1 d3 by simp
  next
    case False
    obtain digests' ds' where ms: "tagged_members X R decoys (map_insert (key_name k) out1 claims) ms st1 = (claims', digests', ds', st')"
      "ds = ds1 @ ds'"
      using "8.prems"(2) False v by (auto split: prod.splits)
    have d3: "draws (length ds') st1 st'" "length ds' = mark_count_members ms"
      using "8.IH"(3) [OF v [symmetric] refl False "8.prems"(1) ms(1)] by blast+
    from draws_trans [OF d1(1) d3(1)] show ?thesis
      using False ms(2) d1 d3 by simp
  qed
qed (auto simp: draws_refl split: prod.splits)

subsection \<open>Issuing a specification\<close>

text \<open>The members the issuer may conceal: not the always revealed ones, nor a \<open>cnf\<close> that the holder
  key replaces.\<close>

definition issuable_members :: "jwk option \<Rightarrow> (yaml \<times> yaml) list \<Rightarrow> (yaml \<times> yaml) list" where
  "issuable_members holder_key ms =
     filter (\<lambda>(k, v). key_name k \<notin> set always_revealed_keys \<and> (holder_key \<noteq> None \<longrightarrow> key_name k \<noteq> CNF_KEY)) ms"

lemma add_claim_others:
  "add_claim k value m = Done m' \<Longrightarrow> \<not> P k \<Longrightarrow> filter (\<lambda>p. P (fst p)) m' = filter (\<lambda>p. P (fst p)) m"
  by (auto simp: add_claim_def obind_eq_Done contains_key_conv map_insert_new split: if_splits)

lemma completed_concealable:
  assumes "completed_claims st (plain_members ms) = Done m"
  shows "concealable_claims holder_key m = plain_members (issuable_members holder_key ms)"
proof -
  let ?P = "\<lambda>k. k \<notin> set always_revealed_keys \<and> (holder_key \<noteq> None \<longrightarrow> k \<noteq> CNF_KEY)"
  from assms obtain m1 m2 where
    "add_claim ''iss'' (Done (String (id_issuer (st_identifiers st)))) (plain_members ms) = Done m1"
    "add_claim ''iat'' (obind (expect_some (st_iat st)) (\<lambda>iat. Done (Number (NU64 iat)))) m1 = Done m2"
    "add_claim ''exp'' (obind (expect_some (st_exp st)) (\<lambda>exp. Done (Number (NU64 exp)))) m2 = Done m"
    by (auto simp: completed_claims_def obind_eq_Done)
  from this [THEN add_claim_others, of ?P] have "filter (\<lambda>p. ?P (fst p)) m = filter (\<lambda>p. ?P (fst p)) (plain_members ms)"
    by (simp add: always_revealed_keys_def)
  moreover have "concealable_claims holder_key m = filter (\<lambda>p. ?P (fst p)) m"
    by (auto simp: concealable_claims_def own_claims_def shift_remove_def intro: filter_cong)
  ultimately show ?thesis
    by (simp add: plain_members_def issuable_members_def filter_map comp_def split_def)
qed

lemma tool_direct:
  assumes "well_marked (YMapping ms)"
    and "completed_claims st (plain_members ms) = Done m"
    and "sd_claims_to_jsonpath (YMapping ms) = Done paths"
  shows "finalize_input (Custom paths) = Ok (Custom (map path_text (marks_of_members ms)))"
    and "direct_value X R decoys (Object (concealable_claims holder_key m)) (Custom (map path_text (marks_of_members ms))) r
       = tagged_value X R decoys (YMapping (issuable_members holder_key ms)) r"
proof -
  let ?L = "set (marks_of_members ms)" and ?strat = "Custom (map path_text (marks_of_members ms))"
  let ?ms = "issuable_members holder_key ms"
  show "finalize_input (Custom paths) = Ok ?strat"
    using tool_strategy [OF assms(1)] assms(3) by (metis outcome.inject(1))
  have keys: "list_all (\<lambda>(k, v). clean_name (key_name k) \<and> well_marked v) ms"
    using assms(1) by (auto simp: list_all_iff)
  then have keys': "list_all (\<lambda>(k, v). clean_name (key_name k) \<and> well_marked v) ?ms"
    by (auto simp: issuable_members_def list_all_iff)
  have L: "token_lists ?L" by (rule marks_tokens(2) [OF keys])
  then have S: "strategy_for ?L ?strat" by (simp add: strategy_for_def)
  have each: "([key_name k] \<in> ?L \<longleftrightarrow> marked (k, v)) \<and> below (key_name k) ?L = set (marks v)"
    if "(k, v) \<in> set ?ms" for k v
    using below_members [of ms k v] assms(1) that by (simp add: issuable_members_def)
  show "direct_value X R decoys (Object (concealable_claims holder_key m)) ?strat r
      = tagged_value X R decoys (YMapping ?ms) r"
    using tagged_concealment(3) [OF keys' L S each, of X R decoys "map_insert SD_DIGESTS_KEY Null []" r]
    by (simp add: completed_concealable [OF assms(2)])
qed

text \<open>C17. The tool's credential conceals exactly what its specification marks. When issuing a
  specification returns, the credential is the completion of a preparation of the claims without
  their tags, with the issuer and the times of the settings where the specification has none; its
  concealed claims and disclosures are those of concealing by the tags themselves, of keys or of
  values at any depth, with the salts of the queue in order; \<open>iss\<close>, \<open>iat\<close>, \<open>exp\<close> and a \<open>cnf\<close> that
  the holder key replaces stay visible even when marked. Names have none of the characters
  that a JSONPath gives a meaning to.\<close>

theorem tool_conceals_marked_claims:
  assumes "issue_sd_jwt X J G directory spec st fmt decoy s = Done (sd_jwt, s')"
    and "sp_user_claims spec = YMapping ms" and "well_marked (YMapping ms)"
    and "yaml_conversion (yaml_to_json J)"
  shows "\<exists>holder_key m p sig key concealed ds rng.
     tool_holder_key J spec st = Done holder_key \<and> completed_claims st (plain_members ms) = Done m \<and>
     tagged_value X (mock_random_source X (g_fill_bytes G) (g_gen_range G) (ts_rng s)) decoy
       (YMapping (issuable_members holder_key ms)) (Some (ts_salts s, None))
       = (Object concealed, ds, Some (ts_salts s', rng)) \<and>
     prepared_from X ''ES256''
       \<lparr>opt_holder_key = holder_key, opt_add_decoy_claims = decoy, opt_serialization_format = fmt\<rparr> m concealed ds p \<and>
     complete X p sig key = Ok sd_jwt"
proof -
  have "untagged (remove_tags (YMapping ms))" "plain_json (remove_tags (YMapping ms)) = plain_json (YMapping ms)"
    using remove_tags_plain [OF assms(3)] by simp_all
  then have json: "claims_to_json_value (yaml_to_json J) (YMapping ms) = Done (Object (plain_members ms))"
    using assms(4) by (simp add: claims_to_json_value_def yaml_conversion_def plain_members_def)
  from assms(1) obtain m paths holder_key p sig key where
    m: "completed_claims st (plain_members ms) = Done m" and paths: "sd_claims_to_jsonpath (YMapping ms) = Done paths"
    and hk: "tool_holder_key J spec st = Done holder_key"
    and p: "prepare_with_mock_salts X G (planner_sign_alg (Some ''ES256'')) (Object m) (Custom paths)
       \<lparr>opt_holder_key = holder_key, opt_add_decoy_claims = decoy, opt_serialization_format = fmt\<rparr> s = Ok (p, s')"
    and c: "complete X p sig key = Ok sd_jwt"
    unfolding issue_sd_jwt_def assms(2) json by (auto simp: obind_eq_Done)
  let ?opts = "\<lparr>opt_holder_key = holder_key, opt_add_decoy_claims = decoy, opt_serialization_format = fmt\<rparr>"
  let ?R = "mock_random_source X (g_fill_bytes G) (g_gen_range G) (ts_rng s)"
  from p obtain b rng where
    prep: "prepare_with_random_source False X sequential_host (issuance_budget_new 0) ''ES256'' (Object m) (Custom paths)
       ?opts ?R (Some (ts_salts s, None)) = Ok (p, b, Some (ts_salts s', rng))"
    by (auto simp: prepare_with_mock_salts_def planner_sign_alg_def rbind_eq_Ok split: option.splits)
  note direct = tool_direct [OF assms(3) m paths]
  from prepared_direct [OF prep] obtain m' strat concealed ds where
    e: "m' = m" "finalize_input (Custom paths) = Ok strat"
      "direct_value X ?R decoy (Object (concealable_claims holder_key m')) strat (Some (ts_salts s, None))
         = (Object concealed, ds, Some (ts_salts s', rng))" "prepared_from X ''ES256'' ?opts m' concealed ds p"
    unfolding issuance_options.simps by blast
  have "strat = Custom (map path_text (marks_of_members ms))"
    using e(2) direct(1) by (metis result.inject(1))
  then have "tagged_value X ?R decoy (YMapping (issuable_members holder_key ms)) (Some (ts_salts s, None))
      = (Object concealed, ds, Some (ts_salts s', rng))"
    using e(1,3) by (simp only: direct(2))
  moreover have "prepared_from X ''ES256'' ?opts m concealed ds p" using e(1,4) by simp
  ultimately show ?thesis using hk m c by blast
qed

text \<open>What the statement asks of the libraries: serialization does not fail, and a number drawn from a
  range lies in it.\<close>

definition serializes :: "'k externals \<Rightarrow> bool" where
  "serializes X \<longleftrightarrow> (\<forall>h. \<exists>t. header_to_vec X h = Inr t) \<and> (\<forall>m. \<exists>t. map_to_vec X m = Inr t)"

definition generator_ok :: "'g generator \<Rightarrow> bool" where
  "generator_ok G \<longleftrightarrow> (\<forall>low high g. low < high \<longrightarrow> low \<le> fst (g_gen_range G low high g) \<and> fst (g_gen_range G low high g) < high)"

lemma mock_in_range: "generator_ok G \<Longrightarrow> decoys_in_range (mock_random_source X (g_fill_bytes G) (g_gen_range G) rng)"
proof -
  assume G: "generator_ok G"
  have "DECOY_MIN_ELEMENTS \<le> fst (g_gen_range G DECOY_MIN_ELEMENTS DECOY_MAX_ELEMENTS g) \<and>
      fst (g_gen_range G DECOY_MIN_ELEMENTS DECOY_MAX_ELEMENTS g) < DECOY_MAX_ELEMENTS" for g
    using G by (simp add: generator_ok_def DECOY_MIN_ELEMENTS_def DECOY_MAX_ELEMENTS_def)
  then show ?thesis
    by (auto simp: decoys_in_range_def mock_random_source_def DECOY_MIN_ELEMENTS_def DECOY_MAX_ELEMENTS_def
        split: option.split prod.split) (metis fst_conv)+
qed

lemma mock_draws:
  assumes "tagged_value X (mock_random_source X (g_fill_bytes G) (g_gen_range G) rng) decoys y (Some (queue, g)) = (out, ds, state)"
  shows "length ds = mark_count y"
    and "state = None \<longleftrightarrow> length queue < mark_count y"
    and "state = Some (queue', g') \<Longrightarrow> queue' = drop (mark_count y) queue"
  using tagged_draws(1) [OF refl assms] by (auto simp: draws_def split: if_splits)

text \<open>Preparation with the queue, for claims the planner admits: it comes to its end, perhaps out of salts.\<close>

lemma mock_prepares:
  assumes "well_marked (YMapping ms)" and "sd_claims_to_jsonpath (YMapping ms) = Done paths"
    and "completed_claims st (plain_members ms) = Done m" and "admissible_claims (opt_holder_key options) m"
    and "6 * node_count (Object (concealable_claims (opt_holder_key options) m)) \<le> usize_max"
    and "algorithm_from_str X ''ES256'' = Inr a" and "serializes X" and "generator_ok G"
  shows "\<exists>p out ds state.
     tagged_value X (mock_random_source X (g_fill_bytes G) (g_gen_range G) (ts_rng s)) (opt_add_decoy_claims options)
       (YMapping (issuable_members (opt_holder_key options) ms)) (Some (ts_salts s, None)) = (out, ds, state) \<and>
     prepare_with_random_source False X sequential_host (issuance_budget_new 0) ''ES256'' (Object m) (Custom paths)
       options (mock_random_source X (g_fill_bytes G) (g_gen_range G) (ts_rng s)) (Some (ts_salts s, None))
       = Ok (p, issuance_budget_new 0, state) \<and>
     prep_disclosures p = map raw_b64 ds \<and> prep_algorithm p = a \<and>
     prep_serialization_format p = opt_serialization_format options"
proof -
  let ?hk = "opt_holder_key options" and ?R = "mock_random_source X (g_fill_bytes G) (g_gen_range G) (ts_rng s)"
  let ?strat = "Custom (map path_text (marks_of_members ms))" and ?r = "Some (ts_salts s, None)"
  let ?y = "YMapping (issuable_members ?hk ms)"
  note direct = tool_direct [OF assms(1,3,2)]
  obtain plan state where plan: "plan_create ?R (Object (concealable_claims ?hk m)) ?strat (opt_add_decoy_claims options) ?r
      = Ok (plan, state)"
    using plan_create_progress [OF mock_in_range [OF assms(8)] assms(5)] by blast
  from plan_create_complete [OF plan, of X] obtain out ds where
    dv: "direct_value X ?R (opt_add_decoy_claims options) (Object (concealable_claims ?hk m)) ?strat ?r = (out, map snd ds, state)"
    and cp: "complete_plan X plan out ds" by blast
  obtain concealed where out: "out = Object concealed"
    using dv by (auto simp: finish_object_def split: prod.splits if_splits)
  have tv: "tagged_value X ?R (opt_add_decoy_claims options) ?y ?r = (out, map snd ds, state)"
    using dv by (simp only: direct(2))
  have run: "plan_execute False X sequential_host plan (issuance_budget_new 0)
      = Ok (\<lparr>ia_claims = out, ia_disclosures = map snd ds\<rparr>, issuance_budget_new 0)"
    using execute_serial_complete [OF cp] by (simp add: plan_execute_def)
  obtain header_text payload_text where texts: "header_to_vec X (protected_header X a) = Inr header_text"
    "map_to_vec X (issued_payload concealed (revealed_claims ?hk m) ?hk) = Inr payload_text"
    using assms(7) unfolding serializes_def by blast
  obtain p where p: "prepared_from X ''ES256'' options m concealed (map snd ds) p"
    using assms(6) texts unfolding prepared_from_def by blast
  have "prepare_with_random_source False X sequential_host (issuance_budget_new 0) ''ES256'' (Object m) (Custom paths)
      options ?R ?r = Ok (p, issuance_budget_new 0, state)"
    unfolding prepare_with_random_source_def prepare_with_plan_executor_Ok
    using assms(4) direct(1) plan run p by (intro exI [of _ m] exI [of _ ?strat] exI [of _ plan] exI
        [of _ "\<lparr>ia_claims = out, ia_disclosures = map snd ds\<rparr>"] exI [of _ concealed]) (simp add: out)
  moreover have "prep_disclosures p = map raw_b64 (map snd ds)" "prep_algorithm p = a"
    "prep_serialization_format p = opt_serialization_format options"
    using p assms(6) by (auto simp: prepared_from_def)
  ultimately show ?thesis
    using tv by blast
qed

text \<open>C30. Issuance with the queue of salts needs one salt for each marked claim. For claims that the
  planner admits, whose number fits its 64-bit identities, it returns exactly when the queue holds as
  many salts as there are marked claims that can be concealed; then it made that many disclosures
  and took that many salts from the front of the queue. Otherwise it panics; it never fails in
  another way.\<close>

theorem issuance_needs_one_salt_per_mark:
  assumes "well_marked (YMapping ms)" and "sd_claims_to_jsonpath (YMapping ms) = Done paths"
    and "completed_claims st (plain_members ms) = Done m" and "admissible_claims (opt_holder_key options) m"
    and "6 * node_count (Object (concealable_claims (opt_holder_key options) m)) \<le> usize_max"
    and "algorithm_from_str X ''ES256'' = Inr a" and "serializes X" and "generator_ok G"
  shows "case prepare_with_mock_salts X G ''ES256'' (Object m) (Custom paths) options s of
     Ok (p, s') \<Rightarrow>
       let n = mark_count (YMapping (issuable_members (opt_holder_key options) ms))
       in length (prep_disclosures p) = n \<and> n \<le> length (ts_salts s) \<and> ts_salts s' = drop n (ts_salts s)
   | Err err \<Rightarrow> False
   | Panic \<Rightarrow> length (ts_salts s) < mark_count (YMapping (issuable_members (opt_holder_key options) ms))"
proof -
  obtain p out ds state where
    t: "tagged_value X (mock_random_source X (g_fill_bytes G) (g_gen_range G) (ts_rng s)) (opt_add_decoy_claims options)
       (YMapping (issuable_members (opt_holder_key options) ms)) (Some (ts_salts s, None)) = (out, ds, state)"
    and p: "prepare_with_random_source False X sequential_host (issuance_budget_new 0) ''ES256'' (Object m) (Custom paths)
       options (mock_random_source X (g_fill_bytes G) (g_gen_range G) (ts_rng s)) (Some (ts_salts s, None))
       = Ok (p, issuance_budget_new 0, state)" "prep_disclosures p = map raw_b64 ds"
    using mock_prepares [OF assms] by blast
  then show ?thesis
    using mock_draws [OF t] by (auto simp: prepare_with_mock_salts_def Let_def split: option.split)
qed

definition sample_marked :: "(yaml \<times> yaml) list" where
  "sample_marked = [(YString ''iss'', YString ''i''), (YTagged ''!sd'' (YString ''n''), YNull)]"

definition sample_specification :: test_specification where
  "sample_specification = specification_default\<lparr>sp_user_claims := YMapping sample_marked\<rparr>"

definition sample_generator :: "unit generator" where
  "sample_generator = \<lparr>g_fill_bytes = (\<lambda>n g. ([], g)), g_gen_range = (\<lambda>low high g. (low, g))\<rparr>"

definition tool_options :: issuance_options where
  "tool_options = \<lparr>opt_holder_key = None, opt_add_decoy_claims = False, opt_serialization_format = Compact\<rparr>"

abbreviation "tool_X \<equiv> (sample_externals sample_world_1)\<lparr>build_mock_salts := True\<rparr>"

definition sample_completed :: json_map where
  "sample_completed = [(''iss'', String ''i''), (''n'', Null), (''iat'', Number (NU64 1)), (''exp'', Number (NU64 2))]"

lemma sample_specified:
  "well_marked (YMapping sample_marked)" "sd_claims_to_jsonpath (YMapping sample_marked) = Done [''$.n'']"
  "completed_claims sample_settings (plain_members sample_marked) = Done sample_completed"
  "admissible_claims None sample_completed"
  "6 * node_count (Object (concealable_claims None sample_completed)) \<le> usize_max"
  "algorithm_from_str tool_X ''ES256'' = Inr ES256" "serializes tool_X" "generator_ok sample_generator"
  "issuable_members None sample_marked = [(YTagged ''!sd'' (YString ''n''), YNull)]"
  by (simp_all add: sample_marked_def string_key_def clean_name_def sd_claims_to_jsonpath_def start_path_def
      completed_claims_def add_claim_def sample_settings_def plain_members_def contains_key_def map_insert_def
      sample_completed_def admissible_claims_def public_confirmation_def confirmation_jwk_def reserved_keys_def key_defs
      concealable_claims_def own_claims_def always_revealed_keys_def usize_max_def sample_externals_def sample_algorithm_def
      serializes_def generator_ok_def sample_generator_def issuable_members_def)

lemmas sample_prepares = mock_prepares [OF sample_specified(1-3), of tool_options, unfolded tool_options_def issuance_options.simps,
    OF sample_specified(4-8), folded tool_options_def]

theorem issuance_needs_one_salt_per_mark_witness:
  "prepare_with_mock_salts tool_X sample_generator ''ES256'' (Object sample_completed) (Custom [''$.n'']) tool_options
     \<lparr>ts_salts = [], ts_rng = ()\<rparr> = Panic"
  using issuance_needs_one_salt_per_mark [OF sample_specified(1-3), of tool_options, unfolded tool_options_def
      issuance_options.simps, OF sample_specified(4-8), of "\<lparr>ts_salts = [], ts_rng = ()\<rparr>"]
  by (auto simp: tool_options_def sample_specified(9) marked_def Let_def split: result.splits)

theorem tool_conceals_marked_claims_witness:
  "\<exists>sd_jwt s'. issue_sd_jwt tool_X sample_interop sample_generator ''d'' sample_specification sample_settings Compact False
       \<lparr>ts_salts = [''s'', ''t''], ts_rng = ()\<rparr> = Done (sd_jwt, s') \<and> ts_salts s' = [''t'']"
proof -
  let ?s = "\<lparr>ts_salts = [''s'', ''t''], ts_rng = ()\<rparr> :: unit tool_state"
  let ?R = "mock_random_source tool_X (g_fill_bytes sample_generator) (g_gen_range sample_generator) ()"
  let ?y = "YMapping (issuable_members None sample_marked)"
  have one: "mark_count ?y = 1" by (simp add: sample_specified(9) marked_def)
  from sample_prepares [of ?s] obtain p out ds state where
    t: "tagged_value tool_X ?R False ?y (Some ([''s'', ''t''], None)) = (out, ds, state)"
    and p: "prepare_with_random_source False tool_X sequential_host (issuance_budget_new 0) ''ES256''
       (Object sample_completed) (Custom [''$.n'']) tool_options ?R (Some ([''s'', ''t''], None))
       = Ok (p, issuance_budget_new 0, state)" "prep_algorithm p = ES256" "prep_serialization_format p = Compact"
    by (auto simp: tool_options_def)
  have "state \<noteq> None" using mock_draws(2) [OF t, unfolded one] by simp
  then obtain queue g where state: "state = Some (queue, g)" by auto
  obtain sd_jwt where fin: "complete tool_X p ''x'' () = Ok sd_jwt"
    using p(2,3) by (simp add: complete_Ok complete_encoded_signature_def sample_externals_def install_crypto_provider_def
        native_ensure_installed_def)
  have json: "claims_to_json_value (yaml_to_json sample_interop) (YMapping sample_marked) = Done (Object (plain_members sample_marked))"
    using remove_tags_plain [OF sample_specified(1)]
    by (simp add: claims_to_json_value_def sample_interop_def plain_members_def)
  have issued: "issue_sd_jwt tool_X sample_interop sample_generator ''d'' sample_specification sample_settings Compact False ?s
      = Done (sd_jwt, \<lparr>ts_salts = queue, ts_rng = legacy_rng () g\<rparr>)"
    using p state fin sample_specified(2,3)
    by (simp add: issue_sd_jwt_def sample_specification_def specification_default_def json tool_holder_key_def
        prepare_with_mock_salts_def planner_sign_alg_def tool_options_def get_key_def)
      (simp add: sample_interop_def letters_decode_encode)
  have "yaml_conversion (yaml_to_json sample_interop)" by (simp add: yaml_conversion_def sample_interop_def)
  from tool_conceals_marked_claims [OF issued _ sample_specified(1) this] obtain out' ds' rng where
    "tagged_value tool_X ?R False ?y (Some ([''s'', ''t''], None)) = (out', ds', Some (queue, rng))"
    by (auto simp: sample_specification_def specification_default_def tool_holder_key_def)
  from mock_draws(3) [OF this refl, unfolded one] issued show ?thesis by auto
qed

end
