(* ===== verification/Spec2Isabelle.thy ===== *)
theory Spec2Isabelle
  imports Foundation_Properties Issuer_Properties Binding_Properties Batch_Properties
    Launch_Barrier_Properties Fixture_Properties Local_Issuer_Properties Interop_Properties
begin

text \<open>
  A verification library for an implementation of SD-JWT (selective disclosure for JSON Web Tokens)
  in Rust: the crate under src/src/, with its issuance benchmark, and the interoperability tool under
  src/generate/src/.

  The program. An issuer turns a set of JSON claims into a signed token in which claims are replaced
  by digests, and a list of disclosures that contain the claims. It works in two steps, so that
  the signature can be made elsewhere: \<open>SDJWTIssuerPlanner::prepare\<close> plans the concealment (all salts are
  drawn in one depth-first pass), executes the plan serially or on worker threads, and returns the
  signing input; \<open>PreparedSDJWT::complete\<close> checks a signature and assembles the credential. A holder
  (\<open>SDJWTHolder\<close>) parses a credential, selects the disclosures of the claims a verifier asks for and
  renders a presentation, with a key binding token prepared and completed in the same two steps. A
  verifier (\<open>SDJWTVerifier\<close>) parses a presentation, decodes and hashes its disclosures, serially or on
  worker threads, checks the issuer's signature, puts the disclosed claims back in place of the
  digests, and checks the key binding token. The three share the parsing engine (\<open>SDJWTCommon\<close>), the
  cryptographic policy, and two process-wide worker budgets. A batch interface preprocesses the
  disclosures of several credentials with an executor of the caller.

  How the code is represented. A struct is a record, an enum a datatype, a method on \<open>&mut self\<close> a
  function that returns its result and the state it leaves, also on errors; only the runs of a whole
  issuance return the worker budget, the trace and the random source with a result alone, and that
  a failing one leaves the budget whole is proved of each batch it executes. \<open>Ok\<close>, \<open>Err\<close> and
  \<open>Panic\<close> are three results (Prelude): an index expression without an entry or an unwrapped error is a
  branch of the model. Strings and byte vectors are lists of bytes. Machine integers are naturals with
  the checked arithmetic of the code written out (\<open>checked_add\<close> to 2^64 - 1), and words where bits
  matter. Object members keep their insertion order, as with \<open>preserve_order\<close>. Hash maps are
  functions. Other crates and the operating system are records of functions: \<open>externals\<close> (base64, hashing,
  JSON texts, token codec, curve arithmetic, build flags), \<open>interop\<close> (the tool's files, key codecs and
  YAML), the launch barrier's record of system answers, each a function of all the calls before it,
  and \<open>local_signer\<close>. What a theorem relies on of them is a named hypothesis that states their documented
  behaviour, and a witness theorem applies it at concrete functions (Sample_Externals). Randomness
  is a record of functions on a state of the generator.

  Shared vocabulary: Prelude (errors, results, generic lemmas), Rust_Strings (the standard library's
  string operations), Json (values, equality up to the order of members), Types (public types of
  lib.rs), Externals.

  Foundations. Utils is utils.rs, with the visitor that rejects repeated members; Disclosure is
  disclosure.rs; Policy is the allowlist and key checks of lib.rs, signature_validation.rs and
  the providers native_crypto.rs, wasm_crypto.rs, public_curve_verifiers.rs. Foundation_Properties
  shows when a payload decodes, that escaping keeps a disclosed JSON value, which signatures and keys are
  accepted, and that the browser provider, modelled from its own file, is the native one but for RSA. Worker_Budget has the budget
  operations and, as a step relation, threads that race on the atomic counter: permits are
  conserved in every reachable state. Its locale \<open>permit_budget\<close> is interpreted for both budgets.

  Verification. Chunks is the bounded thread pool both executors use; Preprocessing is
  disclosure_preprocessing.rs; Engine is \<open>SDJWTCommon\<close> of lib.rs; Unpack and Verifier are verifier.rs.
  \<open>reveals\<close> (Unpack) is the reference relation of disclosure and \<open>accepted\<close> (Verifier) describes the
  whole of \<open>new_with_policy\<close>; Presentation_Properties shows that the code computes them, that
  verification is total but for one panic, that its result has no digests, repeated members or
  excess depth, that unpacking indexes no missing element, that threads only add two executor errors,
  and that a key binding token is bound to its presentation unless the hashed texts of two
  presentations at hand collide.

  Issuance. Strategy, Issuance_Plan, Issuance_Executor, Issuance_Adaptive and Issuance_Trace are
  issuer.rs and issuer/issuance_plan.rs: strategies and random source, the planner and the serial
  assembler, the executors and the outcome check, the adaptive policy, and the trace the
  benchmark records. Issuance_Spec has the specification, a one-pass concealment \<open>direct_value\<close>;
  Issuance_Serial shows that plan and serial execution compute it. Issuance_Contract has the locale
  \<open>issuance_executor\<close> (an executor returns a permutation of the outcomes or an error), with the client's
  lemmas; it and its extension \<open>stable_executor\<close> are interpreted for the serial, the native, the adaptive
  and the traced executor. Issuance_Restore is the outcome check. Recovery shows that
  unpacking an issuance gives the claims back; \<open>direct_contents\<close> lists what one issuance puts into its
  disclosures, and that JSON texts parse back is asked of these contents and of the signed payload only. Issuer is \<open>SDJWTIssuerPlanner\<close> and \<open>PreparedSDJWT\<close>;
  Credential carries a completed credential through the verifier. Local_Issuer is the issuer and the
  holder that sign with a key of their own (compiled for tests, as the oracle), and
  Local_Issuer_Properties shows that they are the two-step protocols with the signature put in.

  Holder. Holder and Selection are holder.rs; Holder_Properties and Binding_Properties show when a
  credential is accepted, that what is selected is referenced, that a presentation reads back, and
  that a completed key binding passes the verifier. There the token library reads a token back only
  under a validation its claims satisfy (\<open>validation_holds\<close>), and that the holder's claims satisfy the
  one the verifier makes is proved. Batch is batch.rs with the locale
  \<open>batch_executor\<close>; Batch_Properties shows that a batch is its credentials one by one.

  Benchmark. Benchmark_Matrix, Benchmark_Fixture, Route_Invocation and Route_Records are
  issuer/issuance_benchmark.rs: the matrix of cases, stages and routes, the fixtures with their random
  tape and preflight, the selection of one benchmark, and the route evidence with its validator.
  Launch_Records, Launch_Barrier and Host_Io are issuer/issuance_benchmark/launch_barrier.rs. The
  property theories show that every preflight of the matrix passes, that traced runs give valid
  evidence, that the schedule is balanced, that a receipt follows only a matching release, and that
  the timestamps accepted are the instants of the Gregorian calendar (\<open>day_number\<close>, independent of the
  month lengths of the code).

  Interoperability tool. Interop_Types is generate/src/error.rs, types/ and utils/generate.rs: errors,
  settings, specifications, the removal of \<open>!sd\<close> tags and the JSONPaths of what they mark;
  Interop_Payload is utils/funcs.rs; Interop_Tool is main.rs from the parsed arguments on, with the crate
  built as the tool builds it (the feature \<open>mock_salts\<close>: a queue of salts and respaced values).
  Interop_Paths gives the tags a meaning of their own; Interop_Properties shows that the issued
  credential conceals exactly what is marked and takes one salt per mark, and
  Interop_Payload_Properties what the tool reads back and compares.

  Bounds and termination. No definition uses fuel: recursion is on the JSON value, the YAML tree or
  the list of disclosures, and the loops over steps end by a measure proved with the definition.
  Unpacking follows digests through the table of disclosures; it ends because each disclosed container
  is entered one level deeper and the depth is limited to 128, the limit of the code. Planning numbers
  locations and jobs with 64-bit counters; theorems that say it succeeds assume that six times the
  number of JSON nodes fits 64 bits, which covers the identities of values, jobs and up to four
  decoys per object, and no claim set in memory comes near it. The work estimate and the sizes checked by
  the executors are computed with the code's checked arithmetic.

  Not modelled. Cryptography, hashing, base64, the texts of JSON and YAML, clocks, threads and files are
  parameters, as above. Debug printing, the tool's progress output and its command line parser
  (types/cli.rs) have no effect on results. The error macros of generate/src/error.rs are not
  used by the tool. Failure injection, counters and isolated traces that exist only for tests are
  left out, as are the cfg branches of the launch barrier for Windows and other systems: the Unix build
  is modelled. The Criterion targets (benches/), the examples and the tests of the repository call
  the crate and add no behaviour to it. The release of permits when a thread is killed from outside and
  the memory model below sequentially consistent steps of the counter are not part of the model.
\<close>

end
